(* ===== verification/Prelude.thy ===== *)
theory Prelude
  imports Main "HOL-Library.Word"
begin

text \<open>
  Shared vocabulary of the development: the machine types, the exceptions the library throws, the
  outcome of a C++ call, the state-and-exception programs every stateful component is written in,
  and the list lemmas the components share.

  \<^item> \<open>outcome\<close> separates the four ways a call can end: it returns (\<open>Ok\<close>), it throws a C++ exception
    that unwinds to a handler (\<open>Throw\<close>), it reaches \<open>EVENTLOOP_ABORT()\<close> (\<open>Abort\<close>), or it executes
    something the C++ standard leaves undefined, such as dereferencing \<open>end()\<close> (\<open>Undef\<close>). The fifth
    constructor \<open>NoFuel\<close> is not an outcome of the code: it marks that a loop of the model was given
    too little fuel, and the theorems about such loops say how much is enough.
  \<^item> \<open>prog\<close> is a program over an explicit state. A throw keeps the state reached so far, as the C++
    code does: nothing is rolled back unless a destructor does it.
\<close>

section \<open>Machine types\<close>

type_synonym byte = "8 word"
type_synonym rawfd = int
type_synonym event_mask = "32 word"

text \<open>
  \<open>size_t\<close> is 64 bits wide. Sizes are naturals; every addition whose operands the caller chooses is
  written with its wrap-around.
\<close>

definition size_t_max :: nat where
  "size_t_max = 2 ^ 64"

definition plus64 :: "nat \<Rightarrow> nat \<Rightarrow> nat" where
  "plus64 a b = (a + b) mod size_t_max"

definition minus64 :: "nat \<Rightarrow> nat \<Rightarrow> nat" where
  "minus64 a b = (if b \<le> a then a - b else size_t_max + a - b)"

section \<open>Exceptions and outcomes\<close>

datatype exn =
    BufferUnderflow            \<comment> \<open>\<open>StreamBuffer::Underflow\<close>\<close>
  | BufferOverflow             \<comment> \<open>\<open>StreamBuffer::Overflow\<close>\<close>
  | NullCallback
  | FDAlreadyAdded int
  | NonExistingFDListener int
  | InvalidFD
  | NoSignalHandling
  | NoTimers
  | TooLongUnixSocketPath
  | TranslationError string
  | TruncatedCMSG
  | BadCMSG
  | ControlMessageOverflow
  | SystemException string int \<comment> \<open>the failing call and its \<open>errno\<close>\<close>
  | BadAlloc                   \<comment> \<open>\<open>std::bad_alloc\<close>\<close>
  | BadFunctionCall            \<comment> \<open>\<open>std::bad_function_call\<close>: an empty \<open>std::function\<close> is called\<close>

datatype 'a outcome = Ok 'a | Throw exn | Abort | Undef | NoFuel

type_synonym ('s, 'a) prog = "'s \<Rightarrow> 'a outcome \<times> 's"

named_theorems prog_simps \<open>unfolding rules of the program combinators\<close>

definition ret :: "'a \<Rightarrow> ('s, 'a) prog" where
  "ret x = (\<lambda>s. (Ok x, s))"

definition throw :: "exn \<Rightarrow> ('s, 'a) prog" where
  "throw e = (\<lambda>s. (Throw e, s))"

definition abort :: "('s, 'a) prog" where
  "abort = (\<lambda>s. (Abort, s))"

definition undef :: "('s, 'a) prog" where
  "undef = (\<lambda>s. (Undef, s))"

definition fail_as :: "'a outcome \<Rightarrow> 'b outcome" where
  "fail_as r = (case r of Ok _ \<Rightarrow> Undef | Throw e \<Rightarrow> Throw e | Abort \<Rightarrow> Abort | Undef \<Rightarrow> Undef
     | NoFuel \<Rightarrow> NoFuel)"

definition bnd :: "('s, 'a) prog \<Rightarrow> ('a \<Rightarrow> ('s, 'b) prog) \<Rightarrow> ('s, 'b) prog" where
  "bnd m f = (\<lambda>s. case m s of (Ok x, s') \<Rightarrow> f x s' | (r, s') \<Rightarrow> (fail_as r, s'))"

definition seq :: "('s, 'a) prog \<Rightarrow> ('s, 'b) prog \<Rightarrow> ('s, 'b) prog" where
  "seq m k = bnd m (\<lambda>_. k)"

definition get_st :: "('s \<Rightarrow> 'a) \<Rightarrow> ('s, 'a) prog" where
  "get_st f = (\<lambda>s. (Ok (f s), s))"

definition modify_st :: "('s \<Rightarrow> 's) \<Rightarrow> ('s, unit) prog" where
  "modify_st f = (\<lambda>s. (Ok (), f s))"

text \<open>\<open>when_st\<close> is an \<open>if\<close> without an \<open>else\<close>; the condition is read from the state.\<close>

definition when_st :: "('s \<Rightarrow> bool) \<Rightarrow> ('s, unit) prog \<Rightarrow> ('s, unit) prog" where
  "when_st b m = (\<lambda>s. if b s then m s else (Ok (), s))"

definition branch :: "('s \<Rightarrow> bool) \<Rightarrow> ('s, 'a) prog \<Rightarrow> ('s, 'a) prog \<Rightarrow> ('s, 'a) prog" where
  "branch b m k = (\<lambda>s. if b s then m s else k s)"

text \<open>\<open>try_catch\<close> is \<open>try { m } catch\<close>: the handler says which exceptions it takes.\<close>

definition try_catch :: "('s, 'a) prog \<Rightarrow> (exn \<Rightarrow> ('s, 'a) prog option) \<Rightarrow> ('s, 'a) prog" where
  "try_catch m h = (\<lambda>s. case m s of
      (Throw e, s') \<Rightarrow> (case h e of Some k \<Rightarrow> k s' | None \<Rightarrow> (Throw e, s'))
    | (r, s') \<Rightarrow> (r, s'))"

text \<open>\<open>noexcept\<close> is a function that may not throw, as every destructor: an exception that would leave it
  ends the process.\<close>

definition noexcept :: "('s, 'a) prog \<Rightarrow> ('s, 'a) prog" where
  "noexcept m = (\<lambda>s. case m s of (Throw _, s') \<Rightarrow> (Abort, s') | r \<Rightarrow> r)"

text \<open>\<open>on_unwind\<close> runs a destructor while an exception passes through a scope; one thrown by the
  destructor then ends the process.\<close>

definition on_unwind :: "('s, 'a) prog \<Rightarrow> ('s, unit) prog \<Rightarrow> ('s, 'a) prog" where
  "on_unwind m d = (\<lambda>s. case m s of
      (Throw e, s') \<Rightarrow> (case d s' of (Ok _, s'') \<Rightarrow> (Throw e, s'') | (Throw _, s'') \<Rightarrow> (Abort, s'') | (r, s'') \<Rightarrow> (fail_as r, s''))
    | (r, s') \<Rightarrow> (r, s'))"

text \<open>\<open>scope_exit\<close> runs a destructor at the end of a scope, however the scope is left.\<close>

definition scope_exit :: "('s, 'a) prog \<Rightarrow> ('s \<Rightarrow> 's) \<Rightarrow> ('s, 'a) prog" where
  "scope_exit m d = (\<lambda>s. case m s of (r, s') \<Rightarrow> (r, d s'))"

text \<open>\<open>zoom\<close> runs a program on a component of a larger state.\<close>

definition zoom :: "('t \<Rightarrow> 's) \<Rightarrow> ('s \<Rightarrow> 't \<Rightarrow> 't) \<Rightarrow> ('s, 'a) prog \<Rightarrow> ('t, 'a) prog" where
  "zoom g p m = (\<lambda>t. case m (g t) of (r, s) \<Rightarrow> (r, p s t))"

lemma ret_run [simp, prog_simps]: "ret x s = (Ok x, s)"
  by (simp add: ret_def)

lemma throw_run [simp, prog_simps]: "throw e s = (Throw e, s)"
  by (simp add: throw_def)

lemma abort_run [simp, prog_simps]: "abort s = (Abort, s)"
  by (simp add: abort_def)

lemma undef_run [simp, prog_simps]: "undef s = (Undef, s)"
  by (simp add: undef_def)

lemma get_st_run [simp, prog_simps]: "get_st f s = (Ok (f s), s)"
  by (simp add: get_st_def)

lemma modify_st_run [simp, prog_simps]: "modify_st f s = (Ok (), f s)"
  by (simp add: modify_st_def)

lemma fail_as_simps [simp]:
  "fail_as (Throw e) = Throw e" "fail_as Abort = Abort" "fail_as Undef = Undef"
  "fail_as NoFuel = NoFuel"
  by (simp_all add: fail_as_def)

lemma when_run [prog_simps]: "when_st b m s = (if b s then m s else (Ok (), s))"
  by (simp add: when_st_def)

lemma branch_run [prog_simps]: "branch b m k s = (if b s then m s else k s)"
  by (simp add: branch_def)

lemma bnd_run [prog_simps]:
  "bnd m f s = (case m s of (Ok x, s') \<Rightarrow> f x s' | (r, s') \<Rightarrow> (fail_as r, s'))"
  by (simp add: bnd_def)

lemma seq_run [prog_simps]:
  "seq m k s = (case m s of (Ok _, s') \<Rightarrow> k s' | (r, s') \<Rightarrow> (fail_as r, s'))"
  by (simp add: seq_def bnd_def)

lemma try_catch_run [prog_simps]:
  "try_catch m h s = (case m s of
      (Throw e, s') \<Rightarrow> (case h e of Some k \<Rightarrow> k s' | None \<Rightarrow> (Throw e, s'))
    | (r, s') \<Rightarrow> (r, s'))"
  by (simp add: try_catch_def)

lemma on_unwind_run [prog_simps]:
  "on_unwind m d s = (case m s of
      (Throw e, s') \<Rightarrow> (case d s' of (Ok _, s'') \<Rightarrow> (Throw e, s'') | (Throw _, s'') \<Rightarrow> (Abort, s'') | (r, s'') \<Rightarrow> (fail_as r, s''))
    | (r, s') \<Rightarrow> (r, s'))"
  by (simp add: on_unwind_def)

lemma noexcept_run [prog_simps]: "noexcept m s = (case m s of (Throw _, s') \<Rightarrow> (Abort, s') | r \<Rightarrow> r)"
  by (simp add: noexcept_def)

lemma noexcept_Ok: "m s = (Ok x, s') \<Longrightarrow> noexcept m s = (Ok x, s')"
  by (simp add: noexcept_def)

lemma scope_exit_run [prog_simps]: "scope_exit m d s = (case m s of (r, s') \<Rightarrow> (r, d s'))"
  by (simp add: scope_exit_def)

lemma zoom_run [prog_simps]: "zoom g p m t = (case m (g t) of (r, s) \<Rightarrow> (r, p s t))"
  by (simp add: zoom_def)

lemma bnd_Ok: "m s = (Ok x, s') \<Longrightarrow> bnd m f s = f x s'"
  by (simp add: bnd_def)

lemma seq_Ok: "m s = (Ok x, s') \<Longrightarrow> seq m k s = k s'"
  by (simp add: seq_run)

lemma bnd_Throw: "m s = (Throw e, s') \<Longrightarrow> bnd m f s = (Throw e, s')"
  by (simp add: bnd_def)

lemma seq_Throw: "m s = (Throw e, s') \<Longrightarrow> seq m k s = (Throw e, s')"
  by (simp add: seq_run)

lemma bnd_OkE:
  assumes "bnd m f s = (Ok y, t)"
  obtains x s' where "m s = (Ok x, s')" "f x s' = (Ok y, t)"
  using assms by (cases "m s"; cases "fst (m s)") (auto simp: bnd_def)

lemma seq_OkE:
  assumes "seq m k s = (Ok y, t)"
  obtains x s' where "m s = (Ok x, s')" "k s' = (Ok y, t)"
  using assms unfolding seq_def by (elim bnd_OkE)

section \<open>Invariants of programs\<close>

text \<open>\<open>preserves I m\<close>: however \<open>m\<close> ends, the state it leaves satisfies \<open>I\<close> when the one it started in did.
  \<open>unchanged f m\<close>: \<open>m\<close> does not change the part \<open>f\<close> of the state.\<close>

definition preserves :: "('s \<Rightarrow> bool) \<Rightarrow> ('s, 'a) prog \<Rightarrow> bool" where
  "preserves I m \<longleftrightarrow> (\<forall>s. I s \<longrightarrow> I (snd (m s)))"

definition unchanged :: "('s \<Rightarrow> 'b) \<Rightarrow> ('s, 'a) prog \<Rightarrow> bool" where
  "unchanged f m \<longleftrightarrow> (\<forall>s. f (snd (m s)) = f s)"

named_theorems preserves_intros \<open>rules for \<open>preserves\<close>\<close>
named_theorems unchanged_intros \<open>rules for \<open>unchanged\<close>\<close>

lemma preservesD: "preserves I m \<Longrightarrow> I s \<Longrightarrow> I (snd (m s))"
  by (simp add: preserves_def)

lemma unchangedD: "unchanged f m \<Longrightarrow> f (snd (m s)) = f s"
  by (simp add: unchanged_def)

lemma unchanged_preserves: "unchanged f m \<longleftrightarrow> (\<forall>x. preserves (\<lambda>s. f s = x) m)"
  by (auto simp: unchanged_def preserves_def)

lemma preserves_ret [preserves_intros]:
  "preserves I (ret x)" "preserves I (throw e)" "preserves I abort" "preserves I undef" "preserves I (get_st g)"
  by (simp_all add: preserves_def)

lemma preserves_bnd [preserves_intros]:
  assumes "preserves I m" and "\<And>x. preserves I (f x)" shows "preserves I (bnd m f)"
  unfolding preserves_def
proof (intro allI impI)
  fix s assume s: "I s"
  obtain r t where m: "m s = (r, t)" by (cases "m s")
  then have "I t" using assms(1) s by (metis preserves_def snd_conv)
  then show "I (snd (bnd m f s))" using m assms(2) by (cases r) (auto simp: bnd_run preserves_def)
qed

lemma preserves_seq [preserves_intros]: "preserves I m \<Longrightarrow> preserves I k \<Longrightarrow> preserves I (seq m k)"
  by (simp add: seq_def preserves_bnd)

lemma preserves_if [preserves_intros]:
  "preserves I m \<Longrightarrow> preserves I k \<Longrightarrow> preserves I (if b then m else k)"
  "preserves I m \<Longrightarrow> preserves I k \<Longrightarrow> preserves I (branch c m k)"
  by (simp_all add: preserves_def branch_run)

lemma preserves_when [preserves_intros]: "preserves I m \<Longrightarrow> preserves I (when_st c m)"
  by (simp add: preserves_def when_run)

lemma preserves_opt [preserves_intros]:
  "preserves I m \<Longrightarrow> (\<And>x. preserves I (k x)) \<Longrightarrow> preserves I (case c of None \<Rightarrow> m | Some x \<Rightarrow> k x)"
  by (cases c) simp_all

lemma preserves_prod [preserves_intros]:
  "(\<And>a b. x = (a, b) \<Longrightarrow> preserves I (k a b)) \<Longrightarrow> preserves I (case x of (a, b) \<Rightarrow> k a b)"
  by (cases x) simp

lemma preserves_modify [preserves_intros]: "(\<And>s. I s \<Longrightarrow> I (g s)) \<Longrightarrow> preserves I (modify_st g)"
  by (simp add: preserves_def)

lemma preserves_zoom: "(\<And>t. I t \<Longrightarrow> I (p (snd (m (g t))) t)) \<Longrightarrow> preserves I (zoom g p m)"
  by (simp add: preserves_def zoom_run split_beta)

lemma preserves_at: "(\<And>s. preserves I (m s)) \<Longrightarrow> preserves I (\<lambda>s. m s s)"
  by (simp add: preserves_def)

lemma preserves_noexcept [preserves_intros]: "preserves I m \<Longrightarrow> preserves I (noexcept m)"
  by (simp add: preserves_def noexcept_run split_beta split: outcome.split)

lemma preserves_on_unwind [preserves_intros]:
  assumes "preserves I m" and "preserves I d" shows "preserves I (on_unwind m d)"
  unfolding preserves_def
proof (intro allI impI)
  fix s assume s: "I s"
  obtain r t where m: "m s = (r, t)" by (cases "m s")
  obtain r' u where d: "d t = (r', u)" by (cases "d t")
  have "I t" "I u" using assms s m d by (metis preserves_def snd_conv)+
  then show "I (snd (on_unwind m d s))" using m d by (simp add: on_unwind_run split: outcome.split)
qed

lemma preserves_try [preserves_intros]:
  assumes "preserves I m" and "\<And>e k. h e = Some k \<Longrightarrow> preserves I k" shows "preserves I (try_catch m h)"
  unfolding preserves_def
proof (intro allI impI)
  fix s assume s: "I s"
  obtain r t where m: "m s = (r, t)" by (cases "m s")
  then have "I t" using assms(1) s by (metis preserves_def snd_conv)
  then show "I (snd (try_catch m h s))" using m assms(2)
    by (auto simp: try_catch_run preserves_def split: outcome.split option.split)
qed

lemma unchanged_ret [unchanged_intros]:
  "unchanged f (ret x)" "unchanged f (throw e)" "unchanged f abort" "unchanged f undef" "unchanged f (get_st g)"
  by (simp_all add: unchanged_def)

lemma unchanged_bnd [unchanged_intros]: "unchanged f m \<Longrightarrow> (\<And>x. unchanged f (k x)) \<Longrightarrow> unchanged f (bnd m k)"
  by (simp add: unchanged_preserves preserves_bnd)

lemma unchanged_seq [unchanged_intros]: "unchanged f m \<Longrightarrow> unchanged f k \<Longrightarrow> unchanged f (seq m k)"
  by (simp add: unchanged_preserves preserves_seq)

lemma unchanged_if [unchanged_intros]:
  "unchanged f m \<Longrightarrow> unchanged f k \<Longrightarrow> unchanged f (if b then m else k)"
  "unchanged f m \<Longrightarrow> unchanged f k \<Longrightarrow> unchanged f (branch c m k)"
  by (simp_all add: unchanged_preserves preserves_if)

lemma unchanged_when [unchanged_intros]: "unchanged f m \<Longrightarrow> unchanged f (when_st c m)"
  by (simp add: unchanged_preserves preserves_when)

lemma unchanged_modify [unchanged_intros]: "(\<And>s. f (g s) = f s) \<Longrightarrow> unchanged f (modify_st g)"
  by (simp add: unchanged_def)

lemma unchanged_opt [unchanged_intros]:
  "unchanged f m \<Longrightarrow> (\<And>x. unchanged f (k x)) \<Longrightarrow> unchanged f (case c of None \<Rightarrow> m | Some x \<Rightarrow> k x)"
  by (cases c) simp_all

lemma unchanged_prod [unchanged_intros]:
  "(\<And>a b. x = (a, b) \<Longrightarrow> unchanged f (k a b)) \<Longrightarrow> unchanged f (case x of (a, b) \<Rightarrow> k a b)"
  by (cases x) simp

lemma unchanged_at: "(\<And>s. unchanged f (m s)) \<Longrightarrow> unchanged f (\<lambda>s. m s s)"
  by (simp add: unchanged_def)

lemma unchanged_noexcept [unchanged_intros]: "unchanged f m \<Longrightarrow> unchanged f (noexcept m)"
  by (simp add: unchanged_preserves preserves_noexcept)

section \<open>Outcomes of programs\<close>

text \<open>\<open>triple P m Q R\<close>: from a state with \<open>P\<close>, \<open>m\<close> returns a value and a state with \<open>Q\<close>, or ends in another way in
  a state with \<open>R\<close>.\<close>

definition triple :: "('s \<Rightarrow> bool) \<Rightarrow> ('s, 'a) prog \<Rightarrow> ('a \<Rightarrow> 's \<Rightarrow> bool) \<Rightarrow> ('s \<Rightarrow> bool) \<Rightarrow> bool" where
  "triple P m Q R \<longleftrightarrow> (\<forall>s. P s \<longrightarrow> (case m s of (Ok x, t) \<Rightarrow> Q x t | (_, t) \<Rightarrow> R t))"

named_theorems triple_intros \<open>rules for \<open>triple\<close>\<close>

lemma tripleI:
  assumes "\<And>s r t. P s \<Longrightarrow> m s = (r, t) \<Longrightarrow> (\<forall>x. r = Ok x \<longrightarrow> Q x t) \<and> ((\<forall>x. r \<noteq> Ok x) \<longrightarrow> R t)"
  shows "triple P m Q R"
  unfolding triple_def
proof (intro allI impI)
  fix s assume "P s"
  with assms [OF this, of "fst (m s)" "snd (m s)"] show "case m s of (Ok x, t) \<Rightarrow> Q x t | (_, t) \<Rightarrow> R t"
    by (cases "m s"; cases "fst (m s)") auto
qed

lemma tripleD:
  assumes "triple P m Q R" and "P s" and "m s = (r, t)"
  shows "r = Ok x \<Longrightarrow> Q x t" "(\<And>x. r \<noteq> Ok x) \<Longrightarrow> R t"
  using assms unfolding triple_def by (fastforce split: outcome.splits)+

lemma triple_bnd:
  assumes "triple P m M R" and "\<And>x. triple (M x) (f x) Q R" shows "triple P (bnd m f) Q R"
  unfolding triple_def
proof (intro allI impI)
  fix s assume s: "P s"
  obtain r t where m: "m s = (r, t)" by (cases "m s")
  show "case bnd m f s of (Ok x, t) \<Rightarrow> Q x t | (_, t) \<Rightarrow> R t"
    using tripleD [OF assms(1) s m] m assms(2) by (cases r) (auto simp: bnd_run triple_def)
qed

lemma triple_seq: "triple P m (\<lambda>_. M) R \<Longrightarrow> triple M k Q R \<Longrightarrow> triple P (seq m k) Q R"
  by (simp add: seq_def triple_bnd)

lemma triple_when:
  "triple (\<lambda>s. P s \<and> b s) m (\<lambda>_. Q) R \<Longrightarrow> (\<And>s. P s \<Longrightarrow> \<not> b s \<Longrightarrow> Q s) \<Longrightarrow> triple P (when_st b m) (\<lambda>_. Q) R"
  by (auto simp: triple_def when_run)

lemma triple_weaken:
  assumes "triple P m Q R" and "\<And>s. P' s \<Longrightarrow> P s" and "\<And>x s. Q x s \<Longrightarrow> Q' x s" and "\<And>s. R s \<Longrightarrow> R' s"
  shows "triple P' m Q' R'"
  by (rule tripleI) (metis assms tripleD)

lemma triple_try:
  assumes "triple P m Q R" and "\<And>e k. h e = Some k \<Longrightarrow> triple R k Q R" shows "triple P (try_catch m h) Q R"
  unfolding triple_def
proof (intro allI impI)
  fix s assume s: "P s"
  obtain r t where m: "m s = (r, t)" by (cases "m s")
  show "case try_catch m h s of (Ok x, t) \<Rightarrow> Q x t | (_, t) \<Rightarrow> R t"
  proof (cases "\<exists>e k. r = Throw e \<and> h e = Some k")
    case True
    then obtain e k where r: "r = Throw e" "h e = Some k" by blast
    then have "R t" using tripleD(2) [OF assms(1) s m] by simp
    with assms(2) [OF r(2)] show ?thesis using m r by (simp add: try_catch_run triple_def)
  next
    case False
    then show ?thesis using tripleD [OF assms(1) s m] m by (cases r) (auto simp: try_catch_run split: option.split)
  qed
qed

section \<open>Bounds of the 64-bit operations\<close>

lemma plus64_exact [simp]: "a + b < size_t_max \<Longrightarrow> plus64 a b = a + b"
  by (simp add: plus64_def)

lemma plus64_lt: "plus64 a b < size_t_max"
  by (simp add: plus64_def size_t_max_def)

lemma minus64_exact [simp]: "b \<le> a \<Longrightarrow> minus64 a b = a - b"
  by (simp add: minus64_def)

section \<open>Lists\<close>

text \<open>\<open>std::vector::resize\<close>.\<close>

definition resize_list :: "nat \<Rightarrow> 'a \<Rightarrow> 'a list \<Rightarrow> 'a list" where
  "resize_list n d xs = take n xs @ replicate (n - length xs) d"

lemma length_resize_list [simp]: "length (resize_list n d xs) = n"
  by (simp add: resize_list_def)

lemma resize_list_extend: "length xs \<le> n \<Longrightarrow> resize_list n d xs = xs @ replicate (n - length xs) d"
  by (simp add: resize_list_def)

lemma take_take_min: "take n (take m xs) = take (min n m) xs"
  by (simp add: min.commute)

lemma take_append_le: "n \<le> length xs \<Longrightarrow> take n (xs @ ys) = take n xs"
  by simp

lemma drop_append_le: "n \<le> length xs \<Longrightarrow> drop n (xs @ ys) = drop n xs @ ys"
  by simp

lemma take_drop_append: "take n xs @ drop n xs @ ys = xs @ ys"
  by (simp flip: append_assoc)

section \<open>Little endian numbers\<close>

fun le_bytes :: "nat \<Rightarrow> nat \<Rightarrow> byte list" where
  "le_bytes 0 n = []"
| "le_bytes (Suc k) n = of_nat n # le_bytes k (n div 256)"

fun le_nat :: "byte list \<Rightarrow> nat" where
  "le_nat [] = 0"
| "le_nat (b # bs) = unat b + 256 * le_nat bs"

lemma length_le_bytes [simp]: "length (le_bytes k n) = k"
  by (induction k n rule: le_bytes.induct) simp_all

lemma le_bytes_numeral: "le_bytes (numeral k) n = of_nat n # le_bytes (pred_numeral k) (n div 256)"
  using le_bytes.simps(2) [of "pred_numeral k" n] unfolding numeral_eq_Suc [symmetric] .

lemma le_nat_le_bytes: "le_nat (le_bytes k n) = n mod 256 ^ k"
  by (induction k n rule: le_bytes.induct) (simp_all add: unat_of_nat mod_mult2_eq mult.commute add.commute)

end
