(* ===== verification/StreamBuffer.thy ===== *)
theory StreamBuffer
  imports Prelude
begin

text \<open>
  Model of \<open>src/lib/StreamBuffer.cpp\<close> and \<open>include/EventLoop/StreamBuffer.hpp\<close>.

  A \<open>Buffer\<close> of the code is a reference to a shared array (\<open>base\<close>), a pointer into it (\<open>data\<close>) and
  a size. Several buffers, of one stream buffer or of several, may refer to the same array: the
  copy constructor, \<open>spliceHead\<close> and \<open>appendStreamBuffer\<close> share arrays and copy no bytes. The
  arrays therefore live in an explicit heap: an address is an array and an offset in it, and a
  stream buffer is the list of the address ranges it refers to.

  The main abstraction is the list of addresses of a stream buffer, \<open>addrs\<close>, of which the first
  \<open>usedSize\<close> hold data (\<open>used_addrs\<close>) and the rest is free (\<open>free_addrs\<close>). Every operation is
  a simple operation on that list, and its effect on the bytes (\<open>content\<close>) follows.
\<close>

section \<open>Arrays and buffers\<close>

type_synonym addr = "nat \<times> nat"

text \<open>
  \<open>mem\<close> holds the bytes, \<open>blocks\<close> the sizes of the arrays allocated so far, \<open>base_addr\<close> the machine
  address the allocator gave each array, and \<open>can_alloc\<close> says which allocations succeed; the last
  two are arbitrary. A fresh array holds whatever \<open>mem\<close> has at its addresses, since
  \<open>new uint64_t[n]\<close> leaves the elements uninitialised. Arrays are never reused, which the code
  cannot observe, because \<open>boost::shared_array\<close> frees an array only when no buffer refers to it.
\<close>

record heap =
  mem :: "addr \<Rightarrow> byte"
  blocks :: "nat list"
  base_addr :: "nat \<Rightarrow> nat"
  can_alloc :: "nat \<Rightarrow> nat \<Rightarrow> bool"

record buffer =
  buf_base :: nat
  buf_off :: nat
  buf_size :: nat

record iovec =
  iov_base :: "addr option"
  iov_len :: nat

record stream_buffer =
  buffers :: "buffer list"
  usedSize :: nat
  totalSize :: nat
  iovecArray :: "iovec list"

type_synonym sb_state = "stream_buffer \<times> heap"

definition buffer_align_to :: nat where
  "buffer_align_to = 8"

definition iov_max :: nat where
  "iov_max = 1024"

definition align_up :: "nat \<Rightarrow> nat" where
  "align_up needSize = (let tmp = buffer_align_to - 1; s = plus64 needSize tmp
     in s - s mod buffer_align_to)"

definition new_buffer :: "nat \<Rightarrow> (heap, buffer) prog" where
  "new_buffer needSize h = (let sz = align_up needSize; b = length (blocks h) in
     if can_alloc h b sz
     then (Ok \<lparr>buf_base = b, buf_off = 0, buf_size = sz\<rparr>, h\<lparr>blocks := blocks h @ [sz]\<rparr>)
     else (Throw BadAlloc, h))"

definition buf_data :: "buffer \<Rightarrow> addr" where
  "buf_data b = (buf_base b, buf_off b)"

definition incrementPointer :: "addr \<Rightarrow> nat \<Rightarrow> addr" where
  "incrementPointer p n = (fst p, snd p + n)"

text \<open>\<open>peek\<close> and \<open>poke\<close> are the two sides of \<open>memcpy\<close>.\<close>

definition range_addrs :: "addr \<Rightarrow> nat \<Rightarrow> addr list" where
  "range_addrs p n = map (Pair (fst p)) [snd p..<snd p + n]"

definition peek :: "heap \<Rightarrow> addr \<Rightarrow> nat \<Rightarrow> byte list" where
  "peek h p n = map (mem h) (range_addrs p n)"

fun poke :: "heap \<Rightarrow> addr \<Rightarrow> byte list \<Rightarrow> heap" where
  "poke h p [] = h"
| "poke h p (x # xs) = poke (h\<lparr>mem := (mem h)(p := x)\<rparr>) (incrementPointer p 1) xs"

definition machine_address :: "heap \<Rightarrow> addr \<Rightarrow> nat" where
  "machine_address h p = base_addr h (fst p) + snd p"

text \<open>
  The two halves of a buffer cut after \<open>n\<close> bytes. The code writes them as \<open>buffer.size = n\<close> and as
  \<open>buffer.data = incrementPointer(buffer.data, n); buffer.size -= n\<close>.
\<close>

definition buffer_head :: "nat \<Rightarrow> buffer \<Rightarrow> buffer" where
  "buffer_head n b = b\<lparr>buf_size := n\<rparr>"

definition buffer_rest :: "nat \<Rightarrow> buffer \<Rightarrow> buffer" where
  "buffer_rest n b = b\<lparr>buf_off := buf_off b + n, buf_size := buf_size b - n\<rparr>"

section \<open>Construction, sizes, allocation\<close>

definition sb_empty :: stream_buffer where
  "sb_empty = \<lparr>buffers = [], usedSize = 0, totalSize = 0, iovecArray = []\<rparr>"

definition sb_copy :: "stream_buffer \<Rightarrow> stream_buffer" where
  "sb_copy sb = \<lparr>buffers = buffers sb, usedSize = usedSize sb, totalSize = totalSize sb,
     iovecArray = []\<rparr>"

definition sb_assign :: "stream_buffer \<Rightarrow> stream_buffer \<Rightarrow> stream_buffer" where
  "sb_assign this sb = this\<lparr>buffers := buffers sb, usedSize := usedSize sb,
     totalSize := totalSize sb\<rparr>"

definition getFreeSize :: "stream_buffer \<Rightarrow> nat" where
  "getFreeSize sb = minus64 (totalSize sb) (usedSize sb)"

definition getUsedSize :: "stream_buffer \<Rightarrow> nat" where
  "getUsedSize sb = usedSize sb"

definition getTotalSize :: "stream_buffer \<Rightarrow> nat" where
  "getTotalSize sb = totalSize sb"

definition increaseUsed :: "nat \<Rightarrow> (sb_state, unit) prog" where
  "increaseUsed n = (\<lambda>(sb, h).
     if plus64 (usedSize sb) n > totalSize sb then (Throw BufferUnderflow, (sb, h))
     else (Ok (), (sb\<lparr>usedSize := plus64 (usedSize sb) n\<rparr>, h)))"

definition sb_allocate :: "nat \<Rightarrow> (sb_state, unit) prog" where
  "sb_allocate n = (\<lambda>(sb, h).
     if getFreeSize sb < n
     then (case new_buffer (n - getFreeSize sb) h of
         (Ok b, h') \<Rightarrow> (Ok (), (sb\<lparr>buffers := buffers sb @ [b],
                                   totalSize := plus64 (totalSize sb) (buf_size b)\<rparr>, h'))
       | (r, h') \<Rightarrow> (fail_as r, (sb, h')))
     else (Ok (), (sb, h)))"

section \<open>Removing from the head\<close>

text \<open>The loops return \<open>None\<close> where the code would call \<open>front()\<close> on an empty list.\<close>

fun splice_loop :: "buffer list \<Rightarrow> nat \<Rightarrow> buffer list \<Rightarrow> (buffer list \<times> buffer list) option" where
  "splice_loop bs 0 acc = Some (acc, bs)"
| "splice_loop [] (Suc n) acc = None"
| "splice_loop (b # bs) (Suc n) acc =
     (if buf_size b \<le> Suc n then splice_loop bs (Suc n - buf_size b) (acc @ [b])
      else Some (acc @ [buffer_head (Suc n) b], buffer_rest (Suc n) b # bs))"

definition spliceHead :: "nat \<Rightarrow> (sb_state, stream_buffer) prog" where
  "spliceHead n = (\<lambda>(this, h).
     if n > totalSize this then (Throw BufferUnderflow, (this, h))
     else
       let sb = sb_empty\<lparr>usedSize := min n (usedSize this), totalSize := n\<rparr>;
           this' = this\<lparr>usedSize := (if n \<le> usedSize this then usedSize this - n else 0),
                       totalSize := totalSize this - n\<rparr>
       in case splice_loop (buffers this) n [] of
            None \<Rightarrow> (Undef, (this', h))
          | Some (front, rest) \<Rightarrow>
              (Ok (sb\<lparr>buffers := front\<rparr>), (this'\<lparr>buffers := rest\<rparr>, h)))"

fun cut_loop :: "buffer list \<Rightarrow> nat \<Rightarrow> buffer list option" where
  "cut_loop bs 0 = Some bs"
| "cut_loop [] (Suc n) = None"
| "cut_loop (b # bs) (Suc n) =
     (if buf_size b \<le> Suc n then cut_loop bs (Suc n - buf_size b)
      else Some (buffer_rest (Suc n) b # bs))"

definition cutHead :: "nat \<Rightarrow> (sb_state, unit) prog" where
  "cutHead n = (\<lambda>(this, h).
     if n > totalSize this then (Throw BufferUnderflow, (this, h))
     else
       let this' = this\<lparr>usedSize := (if n \<le> usedSize this then usedSize this - n else 0),
                       totalSize := totalSize this - n\<rparr>
       in case cut_loop (buffers this) n of
            None \<Rightarrow> (Undef, (this', h))
          | Some rest \<Rightarrow> (Ok (), (this'\<lparr>buffers := rest\<rparr>, h)))"

section \<open>Locations\<close>

text \<open>
  A location is the position of a buffer in the list (its length stands for \<open>end()\<close>) and an offset
  in that buffer. \<open>None\<close> is a dereference of \<open>end()\<close>.
\<close>

fun findLocation :: "buffer list \<Rightarrow> nat \<Rightarrow> (nat \<times> nat) option" where
  "findLocation bs 0 = Some (0, 0)"
| "findLocation [] (Suc n) = None"
| "findLocation (b # bs) (Suc n) =
     (if buf_size b > Suc n then Some (0, Suc n)
      else map_option (\<lambda>(i, off). (Suc i, off)) (findLocation bs (Suc n - buf_size b)))"

definition findFirstUnused :: "stream_buffer \<Rightarrow> (nat \<times> nat) option" where
  "findFirstUnused sb = findLocation (buffers sb) (usedSize sb)"

definition sizeLeftInBuffer :: "buffer list \<Rightarrow> nat \<times> nat \<Rightarrow> nat" where
  "sizeLeftInBuffer bs l = buf_size (bs ! fst l) - snd l"

definition pointerInBuffer :: "buffer list \<Rightarrow> nat \<times> nat \<Rightarrow> addr" where
  "pointerInBuffer bs l = incrementPointer (buf_data (bs ! fst l)) (snd l)"

section \<open>IO vectors\<close>

definition allocateIOVecArray :: "stream_buffer \<Rightarrow> stream_buffer" where
  "allocateIOVecArray sb = (if length (iovecArray sb) < length (buffers sb)
     then sb\<lparr>iovecArray := replicate (length (buffers sb)) \<lparr>iov_base = None, iov_len = 0\<rparr>\<rparr>
     else sb)"

text \<open>\<open>used_iovs\<close> is the loop of \<open>getUsedIOVec\<close>; \<open>room\<close> is \<open>IOV_MAX - size\<close>.\<close>

fun used_iovs :: "buffer list \<Rightarrow> nat \<Rightarrow> nat \<Rightarrow> iovec list option" where
  "used_iovs bs 0 room = Some []"
| "used_iovs bs (Suc n) 0 = Some []"
| "used_iovs [] (Suc n) (Suc room) = None"
| "used_iovs (b # bs) (Suc n) (Suc room) =
     map_option (Cons \<lparr>iov_base = Some (buf_data b), iov_len = min (buf_size b) (Suc n)\<rparr>)
       (used_iovs bs (Suc n - min (buf_size b) (Suc n)) room)"

definition getUsedIOVec :: "(sb_state, iovec list) prog" where
  "getUsedIOVec = (\<lambda>(sb, h). let sb' = allocateIOVecArray sb in
     case used_iovs (buffers sb') (usedSize sb') iov_max of
       None \<Rightarrow> (Undef, (sb', h))
     | Some v \<Rightarrow> (Ok v, (sb'\<lparr>iovecArray := v @ drop (length v) (iovecArray sb')\<rparr>, h)))"

definition buf_iov :: "buffer \<Rightarrow> iovec" where
  "buf_iov b = \<lparr>iov_base = Some (buf_data b), iov_len = buf_size b\<rparr>"

definition getFreeIOVec :: "(sb_state, iovec list) prog" where
  "getFreeIOVec = (\<lambda>(sb, h). let sb' = allocateIOVecArray sb; bs = buffers sb' in
     case findFirstUnused sb' of
       None \<Rightarrow> (Undef, (sb', h))
     | Some l \<Rightarrow>
         let v = (if fst l = length bs then []
                  else \<lparr>iov_base = Some (pointerInBuffer bs l), iov_len = sizeLeftInBuffer bs l\<rparr>
                       # map buf_iov (take (iov_max - 1) (drop (Suc (fst l)) bs)))
         in (Ok v, (sb'\<lparr>iovecArray := v @ drop (length v) (iovecArray sb')\<rparr>, h)))"

section \<open>Appending\<close>

text \<open>The copy loop; \<open>None\<close> is a dereference of \<open>end()\<close>.\<close>

fun copy_loop :: "buffer list \<Rightarrow> byte list \<Rightarrow> heap \<Rightarrow> heap option" where
  "copy_loop bs [] h = Some h"
| "copy_loop [] (x # xs) h = None"
| "copy_loop (b # bs) (x # xs) h =
     (let toCopy = min (buf_size b) (length (x # xs))
      in copy_loop bs (drop toCopy (x # xs)) (poke h (buf_data b) (take toCopy (x # xs))))"

definition appendData :: "byte list \<Rightarrow> (sb_state, unit) prog" where
  "appendData data = seq (sb_allocate (length data)) (\<lambda>(sb, h).
     case findFirstUnused sb of
       None \<Rightarrow> (Undef, (sb, h))
     | Some l \<Rightarrow>
         if fst l = length (buffers sb) then (Undef, (sb, h))
         else
           let toCopy = min (sizeLeftInBuffer (buffers sb) l) (length data);
               h' = poke h (pointerInBuffer (buffers sb) l) (take toCopy data)
           in case copy_loop (drop (Suc (fst l)) (buffers sb)) (drop toCopy data) h' of
                None \<Rightarrow> (Undef, (sb, h'))
              | Some h'' \<Rightarrow> increaseUsed (length data) (sb, h''))"

text \<open>
  \<open>appendStreamBuffer\<close> first splits the buffer the used data ends in, so that the inserted buffers
  go between the two halves, then inserts references to the used part of the other stream buffer.
\<close>

fun share_loop :: "buffer list \<Rightarrow> nat \<Rightarrow> buffer list option" where
  "share_loop bs 0 = Some []"
| "share_loop [] (Suc n) = None"
| "share_loop (b # bs) (Suc n) =
     (let dataToCopy = min (Suc n) (buf_size b)
      in map_option (Cons (buffer_head dataToCopy b)) (share_loop bs (Suc n - dataToCopy)))"

definition split_at_location :: "buffer list \<Rightarrow> nat \<times> nat \<Rightarrow> buffer list \<times> buffer list" where
  "split_at_location bs l =
     (if fst l \<noteq> length bs \<and> sizeLeftInBuffer bs l > 0
      then let b = bs ! fst l in
        (take (fst l) bs @ [buffer_head (snd l) b],
         buffer_rest (snd l) b # drop (Suc (fst l)) bs)
      else (take (fst l) bs, drop (fst l) bs))"

definition appendStreamBuffer :: "stream_buffer \<Rightarrow> (sb_state, unit) prog" where
  "appendStreamBuffer sb = (\<lambda>(this, h).
     case findFirstUnused this of
       None \<Rightarrow> (Undef, (this, h))
     | Some l \<Rightarrow>
         let (front, back) = split_at_location (buffers this) l in
         case share_loop (buffers sb) (usedSize sb) of
           None \<Rightarrow> (Undef, (this, h))
         | Some shared \<Rightarrow>
             (Ok (), (this\<lparr>buffers := front @ shared @ back,
                          usedSize := plus64 (usedSize this) (usedSize sb),
                          totalSize := plus64 (totalSize this) (usedSize sb)\<rparr>, h)))"

section \<open>Arrays handed to the caller\<close>

definition getMutableArrayNoFreeBuffers :: "nat \<Rightarrow> (sb_state, addr) prog" where
  "getMutableArrayNoFreeBuffers n = seq (sb_allocate n) (\<lambda>(sb, h).
     let sb' = sb\<lparr>usedSize := plus64 (usedSize sb) n\<rparr> in
     if buffers sb' = [] then (Undef, (sb', h))
     else (Ok (buf_data (last (buffers sb'))), (sb', h)))"

text \<open>The first half of \<open>getMutableArrayFirstUnusedBufferTooSmall\<close>: a partly used buffer gives up
  its free bytes; the result is also the position the new buffer goes to.\<close>

definition truncateUnused :: "nat \<times> nat \<Rightarrow> stream_buffer \<Rightarrow> stream_buffer \<times> nat" where
  "truncateUnused l sb = (let i = fst l; b = buffers sb ! i in
     if buf_data b \<noteq> pointerInBuffer (buffers sb) l
     then let toTruncate = sizeLeftInBuffer (buffers sb) l in
       (sb\<lparr>buffers := (buffers sb)[i := buffer_head (buf_size b - toTruncate) b],
           totalSize := totalSize sb - toTruncate\<rparr>, Suc i)
     else (sb, i))"

definition getMutableArrayFirstUnusedBufferTooSmall ::
  "nat \<times> nat \<Rightarrow> nat \<Rightarrow> (sb_state, addr) prog" where
  "getMutableArrayFirstUnusedBufferTooSmall l n = (\<lambda>(sb, h).
     let (sb', i) = truncateUnused l sb
     in case new_buffer n h of
          (Ok nb, h') \<Rightarrow>
            (Ok (buf_data nb),
             (sb'\<lparr>buffers := take i (buffers sb') @ [nb] @ drop i (buffers sb'),
                  totalSize := plus64 (totalSize sb') (buf_size nb),
                  usedSize := plus64 (usedSize sb') n\<rparr>, h'))
        | (r, h') \<Rightarrow> (fail_as r, (sb', h')))"

definition getMutableArray :: "nat \<Rightarrow> (sb_state, addr) prog" where
  "getMutableArray n = (\<lambda>(sb, h).
     case findFirstUnused sb of
       None \<Rightarrow> (Undef, (sb, h))
     | Some l \<Rightarrow>
         if fst l = length (buffers sb) then getMutableArrayNoFreeBuffers n (sb, h)
         else if sizeLeftInBuffer (buffers sb) l \<ge> n
         then (Ok (pointerInBuffer (buffers sb) l),
               (sb\<lparr>usedSize := plus64 (usedSize sb) n\<rparr>, h))
         else getMutableArrayFirstUnusedBufferTooSmall l n (sb, h))"

section \<open>Linearization\<close>

fun linearize_loop :: "buffer list \<Rightarrow> nat \<Rightarrow> addr \<Rightarrow> heap \<Rightarrow> (buffer list \<times> heap) option" where
  "linearize_loop bs 0 p h = Some (bs, h)"
| "linearize_loop [] (Suc n) p h = None"
| "linearize_loop (b # bs) (Suc n) p h =
     (let toCopy = min (Suc n) (buf_size b)
      in linearize_loop bs (Suc n - toCopy) (incrementPointer p toCopy)
           (poke h p (peek h (buf_data b) toCopy)))"

definition forceLinearize :: "(sb_state, unit) prog" where
  "forceLinearize = (\<lambda>(sb, h).
     case new_buffer (usedSize sb) h of
       (Ok nb, h') \<Rightarrow>
         (case linearize_loop (buffers sb @ [nb]) (usedSize sb) (buf_data nb) h' of
            None \<Rightarrow> (Undef, (sb, h'))
          | Some (bs, h'') \<Rightarrow>
              if bs = [] then (Undef, (sb\<lparr>buffers := bs\<rparr>, h''))
              else (Ok (), (sb\<lparr>buffers := bs, totalSize := buf_size (last bs)\<rparr>, h'')))
     | (r, h') \<Rightarrow> (fail_as r, (sb, h')))"

definition front_needs_linearize :: "nat \<Rightarrow> nat \<Rightarrow> sb_state \<Rightarrow> bool" where
  "front_needs_linearize n align = (\<lambda>(sb, h). let f = hd (buffers sb) in
     buf_size f < n \<or> machine_address h (buf_data f) mod align \<noteq> 0)"

definition linearize :: "(sb_state, unit) prog" where
  "linearize = (\<lambda>(sb, h).
     if usedSize sb > 0 then
       if buffers sb = [] then (Undef, (sb, h))
       else if front_needs_linearize (usedSize sb) 8 (sb, h) then forceLinearize (sb, h)
       else (Ok (), (sb, h))
     else (Ok (), (sb, h)))"

text \<open>\<open>getData<T>\<close>, with \<open>sizeof(T)\<close> and \<open>alignment_of<T>\<close> as arguments; it returns the address of
  the \<open>T\<close>.\<close>

definition getData :: "nat \<Rightarrow> nat \<Rightarrow> (sb_state, addr) prog" where
  "getData sizeof_T align_T = (\<lambda>(sb, h).
     if usedSize sb < sizeof_T then (Throw BufferOverflow, (sb, h))
     else if buffers sb = [] then (Undef, (sb, h))
     else
       seq (branch (front_needs_linearize sizeof_T align_T) forceLinearize (ret ()))
         (\<lambda>(sb', h'). if buffers sb' = [] then (Undef, (sb', h'))
                     else (Ok (buf_data (hd (buffers sb'))), (sb', h'))) (sb, h))"

definition getConstArray :: "nat \<Rightarrow> nat \<Rightarrow> (sb_state, addr) prog" where
  "getConstArray offset n = (\<lambda>(sb, h).
     if plus64 offset n > usedSize sb then (Throw BufferOverflow, (sb, h))
     else case findLocation (buffers sb) offset of
       None \<Rightarrow> (Undef, (sb, h))
     | Some l \<Rightarrow>
         if fst l = length (buffers sb) then (Undef, (sb, h))
         else if sizeLeftInBuffer (buffers sb) l \<ge> n
         then (Ok (pointerInBuffer (buffers sb) l), (sb, h))
         else seq forceLinearize
           (\<lambda>(sb', h'). if buffers sb' = [] then (Undef, (sb', h'))
                       else (Ok (incrementPointer (buf_data (hd (buffers sb'))) offset), (sb', h')))
           (sb, h))"

section \<open>Address ranges\<close>

definition buf_addrs :: "buffer \<Rightarrow> addr list" where
  "buf_addrs b = range_addrs (buf_data b) (buf_size b)"

definition list_addrs :: "buffer list \<Rightarrow> addr list" where
  "list_addrs bs = concat (map buf_addrs bs)"

abbreviation addrs :: "stream_buffer \<Rightarrow> addr list" where
  "addrs sb \<equiv> list_addrs (buffers sb)"

definition used_addrs :: "stream_buffer \<Rightarrow> addr list" where
  "used_addrs sb = take (usedSize sb) (addrs sb)"

definition free_addrs :: "stream_buffer \<Rightarrow> addr list" where
  "free_addrs sb = drop (usedSize sb) (addrs sb)"

text \<open>The bytes a stream buffer holds.\<close>

definition content :: "heap \<Rightarrow> stream_buffer \<Rightarrow> byte list" where
  "content h sb = map (mem h) (used_addrs sb)"

definition buf_valid :: "heap \<Rightarrow> buffer \<Rightarrow> bool" where
  "buf_valid h b \<longleftrightarrow> buf_base b < length (blocks h)
     \<and> buf_off b + buf_size b \<le> blocks h ! buf_base b"

text \<open>
  The representation invariant: the size fields agree with the buffer list, every buffer lies in
  an allocated array, no free byte is listed twice and none is also a used byte.
\<close>

definition sb_sizes :: "stream_buffer \<Rightarrow> bool" where
  "sb_sizes sb \<longleftrightarrow> totalSize sb = length (addrs sb) \<and> usedSize sb \<le> totalSize sb
     \<and> totalSize sb < size_t_max"

definition sb_inv :: "heap \<Rightarrow> stream_buffer \<Rightarrow> bool" where
  "sb_inv h sb \<longleftrightarrow> sb_sizes sb \<and> (\<forall>b \<in> set (buffers sb). buf_valid h b)
     \<and> distinct (free_addrs sb) \<and> set (used_addrs sb) \<inter> set (free_addrs sb) = {}"

named_theorems addr_simps \<open>how the operations act on address lists\<close>

lemma length_range_addrs [simp]: "length (range_addrs p n) = n"
  by (simp add: range_addrs_def)

lemma distinct_range_addrs [simp]: "distinct (range_addrs p n)"
  by (simp add: range_addrs_def distinct_map inj_on_def)

lemma take_range_addrs [addr_simps]: "take k (range_addrs p n) = range_addrs p (min k n)"
  by (cases "k \<le> n") (simp_all add: range_addrs_def take_map take_upt min_def)

lemma drop_range_addrs [addr_simps]:
  "drop k (range_addrs p n) = range_addrs (incrementPointer p k) (n - k)"
  by (cases "k \<le> n") (simp_all add: range_addrs_def drop_map incrementPointer_def)

lemma length_buf_addrs [simp]: "length (buf_addrs b) = buf_size b"
  by (simp add: buf_addrs_def)

lemma list_addrs_simps [simp, addr_simps]:
  "list_addrs [] = []"
  "list_addrs (b # bs) = buf_addrs b @ list_addrs bs"
  "list_addrs (bs @ cs) = list_addrs bs @ list_addrs cs"
  by (simp_all add: list_addrs_def)

lemma buf_addrs_head [addr_simps]:
  "k \<le> buf_size b \<Longrightarrow> buf_addrs (buffer_head k b) = take k (buf_addrs b)"
  by (simp add: buffer_head_def buf_addrs_def buf_data_def take_range_addrs min_def)

lemma buf_addrs_tail [addr_simps]:
  "buf_addrs (buffer_rest k b) = drop k (buf_addrs b)"
  by (simp add: buffer_rest_def buf_addrs_def buf_data_def drop_range_addrs incrementPointer_def)

lemma set_buf_addrs: "set (buf_addrs b) = Pair (buf_base b) ` {buf_off b..<buf_off b + buf_size b}"
  by (simp add: buf_addrs_def range_addrs_def buf_data_def)

lemma used_free_append: "used_addrs sb @ free_addrs sb = addrs sb"
  by (simp add: used_addrs_def free_addrs_def)

lemma length_used_addrs: "sb_sizes sb \<Longrightarrow> length (used_addrs sb) = usedSize sb"
  by (simp add: used_addrs_def sb_sizes_def)

lemma length_content: "sb_sizes sb \<Longrightarrow> length (content h sb) = usedSize sb"
  by (simp add: content_def length_used_addrs)

lemma sb_sizes_free: "sb_sizes sb \<Longrightarrow> getFreeSize sb = length (free_addrs sb)"
  by (simp add: sb_sizes_def getFreeSize_def free_addrs_def)

lemma buf_valid_addr: "buf_valid h b \<Longrightarrow> a \<in> set (buf_addrs b) \<Longrightarrow>
    fst a < length (blocks h) \<and> snd a < blocks h ! fst a"
  by (auto simp: set_buf_addrs buf_valid_def)

lemma list_addrs_valid:
  "\<forall>b \<in> set bs. buf_valid h b \<Longrightarrow> a \<in> set (list_addrs bs) \<Longrightarrow>
    fst a < length (blocks h) \<and> snd a < blocks h ! fst a"
  by (induction bs) (auto dest: buf_valid_addr)

lemma buf_valid_more_blocks:
  "buf_valid h b \<Longrightarrow> blocks h' = blocks h @ ns \<Longrightarrow> buf_valid h' b"
  by (auto simp: buf_valid_def nth_append)

lemma buf_valid_part:
  "buf_valid h b \<Longrightarrow> k \<le> buf_size b \<Longrightarrow> buf_valid h (buffer_head k b)"
  "buf_valid h b \<Longrightarrow> k \<le> buf_size b \<Longrightarrow>
     buf_valid h (buffer_rest k b)"
  by (auto simp: buf_valid_def buffer_head_def buffer_rest_def)

section \<open>Writing through a list of addresses\<close>

fun write_at :: "(addr \<Rightarrow> byte) \<Rightarrow> addr list \<Rightarrow> byte list \<Rightarrow> (addr \<Rightarrow> byte)" where
  "write_at m (a # as) (x # xs) = write_at (m(a := x)) as xs"
| "write_at m _ _ = m"

lemma write_at_Nil [simp]: "write_at m as [] = m"
  by (cases as) simp_all

lemma write_at_append:
  "length as = length xs \<Longrightarrow> write_at m (as @ bs) (xs @ ys) = write_at (write_at m as xs) bs ys"
  by (induction m as xs rule: write_at.induct) auto

lemma write_at_other [simp]: "a \<notin> set as \<Longrightarrow> write_at m as xs a = m a"
  by (induction m as xs rule: write_at.induct) auto

lemma write_at_disjoint:
  "set bs \<inter> set as = {} \<Longrightarrow> map (write_at m as xs) bs = map m bs"
  by (rule map_cong) (auto intro: write_at_other)

lemma write_at_same:
  "distinct as \<Longrightarrow> length as = length xs \<Longrightarrow> map (write_at m as xs) as = xs"
  by (induction m as xs rule: write_at.induct) auto

lemma range_addrs_Suc: "range_addrs p (Suc n) = p # range_addrs (incrementPointer p 1) n"
  by (cases p) (simp add: range_addrs_def upt_rec incrementPointer_def)

lemma poke_write_at: "poke h p xs = h\<lparr>mem := write_at (mem h) (range_addrs p (length xs)) xs\<rparr>"
proof (induction xs arbitrary: h p)
  case Nil
  show ?case by simp
next
  case (Cons x xs)
  show ?case by (simp add: range_addrs_Suc Cons.IH fun_upd_def)
qed

section \<open>What the loops do to address lists\<close>

lemma splice_loop_spec:
  "n \<le> length (list_addrs bs) \<Longrightarrow> \<exists>front rest. splice_loop bs n acc = Some (acc @ front, rest)
     \<and> list_addrs front = take n (list_addrs bs) \<and> list_addrs rest = drop n (list_addrs bs)
     \<and> ((\<forall>b \<in> set bs. buf_valid h b) \<longrightarrow> (\<forall>b \<in> set front \<union> set rest. buf_valid h b))"
proof (induction bs n acc rule: splice_loop.induct)
  case (3 b bs n acc)
  show ?case
  proof (cases "buf_size b \<le> Suc n")
    case True
    have "Suc n - buf_size b \<le> length (list_addrs bs)" using "3.prems" by simp
    from "3.IH" [OF True this] obtain front rest where
      "splice_loop bs (Suc n - buf_size b) (acc @ [b]) = Some ((acc @ [b]) @ front, rest)"
      "list_addrs front = take (Suc n - buf_size b) (list_addrs bs)"
      "list_addrs rest = drop (Suc n - buf_size b) (list_addrs bs)"
      "(\<forall>b \<in> set bs. buf_valid h b) \<longrightarrow> (\<forall>b \<in> set front \<union> set rest. buf_valid h b)"
      by blast
    with True show ?thesis
      by (intro exI [of _ "b # front"] exI [of _ rest]) auto
  next
    case False
    then show ?thesis
      by (auto simp: addr_simps buf_valid_part)
  qed
qed auto

lemma cut_loop_splice: "cut_loop bs n = map_option snd (splice_loop bs n acc)"
  by (induction bs n acc rule: splice_loop.induct) auto

lemma findLocation_spec:
  "n \<le> length (list_addrs bs) \<Longrightarrow> \<exists>i off. findLocation bs n = Some (i, off) \<and> i \<le> length bs
     \<and> length (list_addrs (take i bs)) + off = n
     \<and> (i = length bs \<longrightarrow> off = 0) \<and> (i < length bs \<longrightarrow> off = 0 \<or> off < buf_size (bs ! i))"
proof (induction bs n rule: findLocation.induct)
  case (3 b bs n)
  show ?case
  proof (cases "buf_size b > Suc n")
    case True
    then show ?thesis by simp
  next
    case False
    have "Suc n - buf_size b \<le> length (list_addrs bs)" using "3.prems" by simp
    from "3.IH" [OF False this] obtain i off where "findLocation bs (Suc n - buf_size b) = Some (i, off)"
      "i \<le> length bs" "length (list_addrs (take i bs)) + off = Suc n - buf_size b"
      "i = length bs \<longrightarrow> off = 0" "i < length bs \<longrightarrow> off = 0 \<or> off < buf_size (bs ! i)"
      by blast
    with False show ?thesis by auto
  qed
qed auto

lemma list_addrs_nth_split:
  "i < length bs \<Longrightarrow> list_addrs bs =
     list_addrs (take i bs) @ buf_addrs (bs ! i) @ list_addrs (drop (Suc i) bs)"
  by (metis append_take_drop_id Cons_nth_drop_Suc list_addrs_simps(2,3))

lemma copy_loop_spec:
  "length xs \<le> length (list_addrs bs) \<Longrightarrow> copy_loop bs xs h =
     Some (h\<lparr>mem := write_at (mem h) (take (length xs) (list_addrs bs)) xs\<rparr>)"
proof (induction bs xs h rule: copy_loop.induct)
  case (3 b bs x xs h)
  let ?xs = "x # xs" let ?k = "min (buf_size b) (length ?xs)"
  have split: "take (length ?xs) (list_addrs (b # bs)) =
      range_addrs (buf_data b) ?k @ take (length ?xs - ?k) (list_addrs bs)"
    by (cases "buf_size b \<le> length ?xs") (auto simp: buf_addrs_def take_range_addrs min_def)
  have "write_at (mem h) (take (length ?xs) (list_addrs (b # bs))) (take ?k ?xs @ drop ?k ?xs)
      = write_at (write_at (mem h) (range_addrs (buf_data b) ?k) (take ?k ?xs))
          (take (length ?xs - ?k) (list_addrs bs)) (drop ?k ?xs)"
    unfolding split by (rule write_at_append) simp
  moreover have "copy_loop bs (drop ?k ?xs) (poke h (buf_data b) (take ?k ?xs)) =
      Some (poke h (buf_data b) (take ?k ?xs)\<lparr>mem :=
        write_at (mem (poke h (buf_data b) (take ?k ?xs)))
          (take (length (drop ?k ?xs)) (list_addrs bs)) (drop ?k ?xs)\<rparr>)"
    using 3 by (simp add: Let_def)
  ultimately show ?case
    by (simp add: Let_def poke_write_at min.absorb1 min.commute del: take_append)
qed auto

lemma share_loop_spec:
  "n \<le> length (list_addrs bs) \<Longrightarrow> \<exists>cs. share_loop bs n = Some cs
     \<and> list_addrs cs = take n (list_addrs bs)
     \<and> ((\<forall>b \<in> set bs. buf_valid h b) \<longrightarrow> (\<forall>b \<in> set cs. buf_valid h b))"
proof (induction bs n rule: share_loop.induct)
  case (3 b bs n)
  let ?k = "min (Suc n) (buf_size b)"
  have "Suc n - ?k \<le> length (list_addrs bs)" using "3.prems" by simp
  from "3.IH" [OF refl this] obtain cs where "share_loop bs (Suc n - ?k) = Some cs"
    "list_addrs cs = take (Suc n - ?k) (list_addrs bs)"
    "(\<forall>b \<in> set bs. buf_valid h b) \<longrightarrow> (\<forall>b \<in> set cs. buf_valid h b)"
    by blast
  then show ?case
    by (auto simp: Let_def addr_simps buf_valid_part min_def)
qed auto

lemma split_at_location_spec:
  assumes "findLocation bs n = Some l" and "n \<le> length (list_addrs bs)"
    and "split_at_location bs l = (front, back)"
  shows "list_addrs front = take n (list_addrs bs)" "list_addrs back = drop n (list_addrs bs)"
    "(\<forall>b \<in> set bs. buf_valid h b) \<Longrightarrow> (\<forall>b \<in> set front \<union> set back. buf_valid h b)"
proof -
  obtain i off where l: "l = (i, off)" by (cases l)
  from findLocation_spec [OF assms(2)] assms(1) l have i: "i \<le> length bs"
    "length (list_addrs (take i bs)) + off = n" "i = length bs \<longrightarrow> off = 0"
    "i < length bs \<longrightarrow> off = 0 \<or> off < buf_size (bs ! i)" by auto
  have nth: "i < length bs \<Longrightarrow> bs ! i \<in> set bs" by simp
  show "list_addrs front = take n (list_addrs bs)" "list_addrs back = drop n (list_addrs bs)"
    "(\<forall>b \<in> set bs. buf_valid h b) \<Longrightarrow> (\<forall>b \<in> set front \<union> set back. buf_valid h b)"
  proof (atomize (full), cases "i < length bs \<and> sizeLeftInBuffer bs l > 0")
    case True
    with assms(3) l have fb: "front = take i bs @ [buffer_head off (bs ! i)]"
      "back = buffer_rest off (bs ! i) # drop (Suc i) bs"
      by (auto simp: split_at_location_def Let_def)
    from True l have off: "off \<le> buf_size (bs ! i)" by (simp add: sizeLeftInBuffer_def)
    from True have "list_addrs bs =
        list_addrs (take i bs) @ buf_addrs (bs ! i) @ list_addrs (drop (Suc i) bs)"
      by (simp add: list_addrs_nth_split)
    with off i(2) have "take n (list_addrs bs) = list_addrs front"
      "drop n (list_addrs bs) = list_addrs back"
      by (auto simp: fb addr_simps)
    moreover have "(\<forall>b \<in> set bs. buf_valid h b) \<longrightarrow> (\<forall>b \<in> set front \<union> set back. buf_valid h b)"
      using True off nth by (auto simp: fb buf_valid_part dest: in_set_takeD in_set_dropD)
    ultimately show "list_addrs front = take n (list_addrs bs)
       \<and> list_addrs back = drop n (list_addrs bs)
       \<and> ((\<forall>b \<in> set bs. buf_valid h b) \<longrightarrow> (\<forall>b \<in> set front \<union> set back. buf_valid h b))" by simp
  next
    case False
    with assms(3) l i(1) have fb: "front = take i bs" "back = drop i bs"
      by (auto simp: split_at_location_def Let_def split: if_splits)
    from False i l have "off = 0" by (auto simp: sizeLeftInBuffer_def)
    with i have n: "n = length (list_addrs (take i bs))" by simp
    have "list_addrs bs = list_addrs (take i bs) @ list_addrs (drop i bs)"
      by (metis append_take_drop_id list_addrs_simps(3))
    then show "list_addrs front = take n (list_addrs bs)
       \<and> list_addrs back = drop n (list_addrs bs)
       \<and> ((\<forall>b \<in> set bs. buf_valid h b) \<longrightarrow> (\<forall>b \<in> set front \<union> set back. buf_valid h b))"
      by (auto simp: fb n dest: in_set_takeD in_set_dropD)
  qed
qed

lemma linearize_loop_spec:
  assumes "n \<le> length (list_addrs bs)" and "bs \<noteq> [] \<Longrightarrow> length (list_addrs (butlast bs)) < n"
    and "set (range_addrs p n) \<inter> set (list_addrs bs) = {}"
  shows "linearize_loop (bs @ rest) n p h = Some (rest,
     h\<lparr>mem := write_at (mem h) (range_addrs p n) (map (mem h) (take n (list_addrs bs)))\<rparr>)"
  using assms
proof (induction bs arbitrary: n p h)
  case Nil
  then show ?case by simp
next
  case (Cons b bs)
  let ?k = "min n (buf_size b)" let ?data = "map (mem h) (take n (list_addrs (b # bs)))"
  from Cons.prems(2) obtain m where m: "n = Suc m" by (cases n) auto
  let ?h = "poke h p (peek h (buf_data b) ?k)"
  have peek: "peek h (buf_data b) ?k = take ?k ?data"
    by (simp add: peek_def take_map buf_addrs_def take_range_addrs min_def)
  have rng: "range_addrs p n = range_addrs p ?k @ range_addrs (incrementPointer p ?k) (n - ?k)"
    by (metis append_take_drop_id drop_range_addrs min.cobounded1 min_absorb1 take_range_addrs)
  have disj: "set (range_addrs p ?k) \<inter> set (list_addrs bs) = {}"
    "set (range_addrs (incrementPointer p ?k) (n - ?k)) \<inter> set (list_addrs bs) = {}"
    using Cons.prems(3) rng by auto
  have memh: "map (mem ?h) (take (n - ?k) (list_addrs bs)) = drop ?k ?data"
  proof -
    have "map (mem ?h) (take (n - ?k) (list_addrs bs)) = map (mem h) (take (n - ?k) (list_addrs bs))"
      unfolding poke_write_at
      using disj(1) set_take_subset [of "n - ?k" "list_addrs bs"]
      by (simp add: peek_def) (blast intro: write_at_other)
    also have "\<dots> = drop ?k ?data" by (auto simp: drop_map min_def)
    finally show ?thesis .
  qed
  have "linearize_loop (bs @ rest) (n - ?k) (incrementPointer p ?k) ?h = Some (rest,
     ?h\<lparr>mem := write_at (mem ?h) (range_addrs (incrementPointer p ?k) (n - ?k))
       (map (mem ?h) (take (n - ?k) (list_addrs bs)))\<rparr>)"
  proof (rule Cons.IH)
    show "n - ?k \<le> length (list_addrs bs)" using Cons.prems(1) by auto
    show "length (list_addrs (butlast bs)) < n - ?k" if "bs \<noteq> []"
      using Cons.prems(2) that by (auto simp: min_def)
  qed (rule disj(2))
  moreover have "write_at (mem h) (range_addrs p n) ?data =
     write_at (mem ?h) (range_addrs (incrementPointer p ?k) (n - ?k)) (drop ?k ?data)"
  proof -
    have "write_at (mem h) (range_addrs p n) (take ?k ?data @ drop ?k ?data) =
      write_at (write_at (mem h) (range_addrs p ?k) (take ?k ?data))
        (range_addrs (incrementPointer p ?k) (n - ?k)) (drop ?k ?data)"
      unfolding rng using Cons.prems(1) by (intro write_at_append) (auto simp: min_def)
    then show ?thesis by (simp only: append_take_drop_id poke_write_at peek) (simp add: min_def)
  qed
  ultimately show ?case
    unfolding memh using m by (simp add: Let_def poke_write_at)
qed

end
