(* ===== verification/StreamBufferSpec.thy ===== *)
theory StreamBufferSpec
  imports StreamBuffer
begin

text \<open>
  What the operations of \<open>StreamBuffer\<close> promise: every operation keeps the representation
  invariant \<open>sb_inv\<close>, and acts on the bytes as the corresponding operation on a byte list does.
  The interface \<open>byte_stream\<close> states that contract for a client such as a socket.
\<close>

section \<open>Allocation\<close>

lemma align_up_exact: "n + 7 < size_t_max \<Longrightarrow> align_up n = (n + 7) div 8 * 8"
  by (simp add: align_up_def buffer_align_to_def Let_def minus_mod_eq_div_mult)

lemma align_up_bounds:
  assumes "n + 7 < size_t_max"
  shows "n \<le> align_up n" "align_up n < n + 8" "align_up n mod 8 = 0"
proof -
  show "n \<le> align_up n" "align_up n < n + 8" unfolding align_up_exact [OF assms] by presburger+
  show "align_up n mod 8 = 0" unfolding align_up_exact [OF assms] by simp
qed

lemma new_buffer_cases:
  obtains (ok) b where "new_buffer n h = (Ok b, h\<lparr>blocks := blocks h @ [align_up n]\<rparr>)"
      "b = \<lparr>buf_base = length (blocks h), buf_off = 0, buf_size = align_up n\<rparr>"
  | (fail) "new_buffer n h = (Throw BadAlloc, h)"
  by (cases "can_alloc h (length (blocks h)) (align_up n)") (auto simp: new_buffer_def Let_def)

lemma new_buffer_valid:
  "b = \<lparr>buf_base = length (blocks h), buf_off = 0, buf_size = m\<rparr> \<Longrightarrow>
    buf_valid (h\<lparr>blocks := blocks h @ [m]\<rparr>) b"
  by (simp add: buf_valid_def)

lemma new_buffer_fresh:
  "b = \<lparr>buf_base = length (blocks h), buf_off = 0, buf_size = m\<rparr> \<Longrightarrow>
    a \<in> set (buf_addrs b) \<Longrightarrow> fst a = length (blocks h)"
  by (auto simp: set_buf_addrs)

lemma inv_addrs_old:
  "sb_inv h sb \<Longrightarrow> a \<in> set (addrs sb) \<Longrightarrow> fst a < length (blocks h)"
  by (auto simp: sb_inv_def dest: list_addrs_valid)

lemma new_buffer_disjoint:
  assumes "sb_inv h sb" and "b = \<lparr>buf_base = length (blocks h), buf_off = 0, buf_size = m\<rparr>"
  shows "set (addrs sb) \<inter> set (buf_addrs b) = {}"
  using inv_addrs_old [OF assms(1)] new_buffer_fresh [OF assms(2)] by (metis disjoint_iff less_irrefl)

lemma set_used_free: "set (used_addrs sb) \<union> set (free_addrs sb) = set (addrs sb)"
  by (metis set_append used_free_append)

text \<open>Any rearrangement that keeps used and free bytes apart and valid keeps the invariant.\<close>

lemma sb_invI:
  assumes "used_addrs sb = us" "free_addrs sb = fs" "totalSize sb = length (addrs sb)"
    and "usedSize sb \<le> totalSize sb" "totalSize sb < size_t_max"
    and "\<forall>b \<in> set (buffers sb). buf_valid h b" "distinct fs" "set us \<inter> set fs = {}"
  shows "sb_inv h sb"
  using assms by (simp add: sb_inv_def sb_sizes_def)

lemma sb_allocate_cases:
  assumes inv: "sb_inv h sb" and room: "totalSize sb + n + 8 \<le> size_t_max"
  obtains (ok) sb' ns where "sb_allocate n (sb, h) = (Ok (), (sb', h\<lparr>blocks := blocks h @ ns\<rparr>))"
      "sb_inv (h\<lparr>blocks := blocks h @ ns\<rparr>) sb'" "used_addrs sb' = used_addrs sb"
      "usedSize sb' = usedSize sb" "n \<le> length (free_addrs sb')"
      "\<exists>new. free_addrs sb' = free_addrs sb @ new \<and> (\<forall>a \<in> set new. fst a = length (blocks h))"
      "totalSize sb' \<le> totalSize sb + n + 7"
      "getFreeSize sb < n \<Longrightarrow> buffers sb' \<noteq> [] \<and>
         free_addrs sb' = free_addrs sb @ buf_addrs (last (buffers sb'))"
  | (fail) "sb_allocate n (sb, h) = (Throw BadAlloc, (sb, h))"
proof (cases "getFreeSize sb < n")
  case False
  show ?thesis
  proof (rule ok [of sb "[]"])
    show "sb_allocate n (sb, h) = (Ok (), (sb, h\<lparr>blocks := blocks h @ []\<rparr>))"
      using False by (simp add: sb_allocate_def)
    show "n \<le> length (free_addrs sb)"
      using False inv by (simp add: sb_inv_def sb_sizes_free)
  qed (use inv False in auto)
next
  case True
  let ?k = "n - getFreeSize sb"
  from inv have sizes: "sb_sizes sb" by (simp add: sb_inv_def)
  have free: "getFreeSize sb = length (free_addrs sb)" using sizes by (rule sb_sizes_free)
  have k: "?k + 7 < size_t_max" using room sizes by (simp add: size_t_max_def)
  show ?thesis
  proof (cases rule: new_buffer_cases [of ?k h])
    case fail
    show ?thesis using fail True by (intro that(2)) (simp add: sb_allocate_def)
  next
    case (ok b)
    let ?h = "h\<lparr>blocks := blocks h @ [align_up ?k]\<rparr>"
    let ?sb = "sb\<lparr>buffers := buffers sb @ [b], totalSize := plus64 (totalSize sb) (buf_size b)\<rparr>"
    have bsz: "buf_size b = align_up ?k" using ok(2) by simp
    have tot: "totalSize sb + align_up ?k < size_t_max"
      using align_up_bounds(2) [OF k] room by simp
    have ua: "used_addrs ?sb = used_addrs sb"
      using sizes by (simp add: used_addrs_def sb_sizes_def)
    have fa: "free_addrs ?sb = free_addrs sb @ buf_addrs b"
      using sizes by (simp add: free_addrs_def sb_sizes_def)
    show ?thesis
    proof (rule that(1) [of ?sb "[align_up ?k]"])
      show "sb_allocate n (sb, h) = (Ok (), (?sb, ?h))"
        using True ok(1) by (simp add: sb_allocate_def)
      show "sb_inv ?h ?sb"
      proof (rule sb_invI [OF ua fa])
        show "distinct (free_addrs sb @ buf_addrs b)"
          using inv new_buffer_disjoint [OF inv ok(2)] set_used_free [of sb]
          by (auto simp: sb_inv_def buf_addrs_def)
        show "set (used_addrs sb) \<inter> set (free_addrs sb @ buf_addrs b) = {}"
          using inv new_buffer_disjoint [OF inv ok(2)] set_used_free [of sb]
          by (auto simp: sb_inv_def)
        show "\<forall>b \<in> set (buffers ?sb). buf_valid ?h b"
          using inv new_buffer_valid [OF ok(2)] by (auto simp: sb_inv_def intro: buf_valid_more_blocks)
      qed (use sizes tot bsz in \<open>auto simp: sb_sizes_def\<close>)
      show "n \<le> length (free_addrs ?sb)"
        using fa free bsz align_up_bounds(1) [OF k] by simp
      show "\<exists>new. free_addrs ?sb = free_addrs sb @ new \<and> (\<forall>a \<in> set new. fst a = length (blocks h))"
        using fa new_buffer_fresh [OF ok(2)] by blast
      show "totalSize ?sb \<le> totalSize sb + n + 7"
        using tot bsz align_up_bounds(2) [OF k] by simp
      show "buffers ?sb \<noteq> [] \<and> free_addrs ?sb = free_addrs sb @ buf_addrs (last (buffers ?sb))"
        using fa by simp
    qed (use ua in simp_all)
  qed
qed

section \<open>Locations and the free bytes\<close>

lemma findFirstUnused_cases:
  assumes "sb_inv h sb"
  obtains (all_used) "findFirstUnused sb = Some (length (buffers sb), 0)" "free_addrs sb = []"
  | (inside) i off where "findFirstUnused sb = Some (i, off)" "i < length (buffers sb)"
      "off \<le> buf_size (buffers sb ! i)" "buf_valid h (buffers sb ! i)"
      "usedSize sb = length (list_addrs (take i (buffers sb))) + off"
      "free_addrs sb = range_addrs (pointerInBuffer (buffers sb) (i, off))
          (sizeLeftInBuffer (buffers sb) (i, off)) @ list_addrs (drop (Suc i) (buffers sb))"
proof -
  let ?bs = "buffers sb"
  have le: "usedSize sb \<le> length (list_addrs ?bs)"
    using assms by (simp add: sb_inv_def sb_sizes_def)
  from findLocation_spec [OF le] obtain i off where l: "findFirstUnused sb = Some (i, off)"
    "i \<le> length ?bs" "length (list_addrs (take i ?bs)) + off = usedSize sb"
    "i = length ?bs \<longrightarrow> off = 0" "i < length ?bs \<longrightarrow> off = 0 \<or> off < buf_size (?bs ! i)"
    unfolding findFirstUnused_def by blast
  show ?thesis
  proof (cases "i = length ?bs")
    case True
    with l show ?thesis by (intro that(1)) (simp_all add: free_addrs_def)
  next
    case False
    with l have i: "i < length ?bs" by simp
    have "free_addrs sb = drop off (buf_addrs (?bs ! i)) @ list_addrs (drop (Suc i) ?bs)"
      unfolding free_addrs_def list_addrs_nth_split [OF i] l(3) [symmetric] using l(5) i by auto
    then show ?thesis
      using l i assms by (intro that(2) [of i off])
        (auto simp: sizeLeftInBuffer_def pointerInBuffer_def buf_addrs_def drop_range_addrs
           incrementPointer_def sb_inv_def)
  qed
qed

section \<open>Appending bytes\<close>

lemma copy_into_free:
  assumes inv: "sb_inv h sb" and l: "findFirstUnused sb = Some l" "fst l \<noteq> length (buffers sb)"
    and n: "length data \<le> length (free_addrs sb)"
  defines "k \<equiv> min (sizeLeftInBuffer (buffers sb) l) (length data)"
  shows "copy_loop (drop (Suc (fst l)) (buffers sb)) (drop k data)
      (poke h (pointerInBuffer (buffers sb) l) (take k data))
    = Some (h\<lparr>mem := write_at (mem h) (take (length data) (free_addrs sb)) data\<rparr>)"
proof (cases rule: findFirstUnused_cases [OF inv])
  case 1
  with l show ?thesis by auto
next
  case inside: (2 i off)
  let ?rest = "list_addrs (drop (Suc i) (buffers sb))"
  let ?p = "pointerInBuffer (buffers sb) l"
  let ?h = "poke h ?p (take k data)"
  from inside l have il: "l = (i, off)" by simp
  have free: "free_addrs sb = range_addrs ?p (sizeLeftInBuffer (buffers sb) l) @ ?rest"
    using inside(6) il by simp
  have first: "take (length data) (free_addrs sb) = range_addrs ?p k @ take (length data - k) ?rest"
    by (cases "sizeLeftInBuffer (buffers sb) l \<le> length data")
       (auto simp: free k_def take_range_addrs min_def)
  have "length (drop k data) \<le> length ?rest" using n free by (auto simp: k_def)
  then have "copy_loop (drop (Suc (fst l)) (buffers sb)) (drop k data) ?h = Some (?h\<lparr>mem :=
      write_at (mem ?h) (take (length (drop k data)) ?rest) (drop k data)\<rparr>)"
    using il copy_loop_spec by simp
  moreover have "write_at (mem h) (range_addrs ?p k @ take (length data - k) ?rest)
      (take k data @ drop k data)
     = write_at (write_at (mem h) (range_addrs ?p k) (take k data)) (take (length data - k) ?rest)
         (drop k data)"
    by (rule write_at_append) (simp add: k_def)
  ultimately show ?thesis
    unfolding first by (simp add: poke_write_at k_def)
qed

lemma increaseUsed_ok:
  assumes "sb_inv h sb" and "n \<le> length (free_addrs sb)"
  shows "increaseUsed n (sb, h) = (Ok (), (sb\<lparr>usedSize := usedSize sb + n\<rparr>, h))"
    "used_addrs (sb\<lparr>usedSize := usedSize sb + n\<rparr>) = used_addrs sb @ take n (free_addrs sb)"
    "free_addrs (sb\<lparr>usedSize := usedSize sb + n\<rparr>) = drop n (free_addrs sb)"
    "sb_inv h (sb\<lparr>usedSize := usedSize sb + n\<rparr>)"
proof -
  let ?sb = "sb\<lparr>usedSize := usedSize sb + n\<rparr>"
  from assms have sizes: "sb_sizes sb" by (simp add: sb_inv_def)
  with assms(2) have le: "usedSize sb + n \<le> totalSize sb" by (auto simp: free_addrs_def sb_sizes_def)
  then show "increaseUsed n (sb, h) = (Ok (), (?sb, h))"
    using sizes by (simp add: increaseUsed_def sb_sizes_def)
  show us: "used_addrs ?sb = used_addrs sb @ take n (free_addrs sb)"
    by (simp add: used_addrs_def free_addrs_def take_add)
  show fs: "free_addrs ?sb = drop n (free_addrs sb)"
    by (simp add: free_addrs_def add.commute)
  have d: "distinct (free_addrs sb)" "set (used_addrs sb) \<inter> set (free_addrs sb) = {}"
    using assms(1) by (simp_all add: sb_inv_def)
  have "set (take n (free_addrs sb)) \<inter> set (drop n (free_addrs sb)) = {}"
    using d(1) by (metis append_take_drop_id distinct_append)
  then show "sb_inv h ?sb"
    using d set_drop_subset [of n "free_addrs sb"] le sizes assms(1)
    by (intro sb_invI [OF us fs]) (auto simp: sb_inv_def sb_sizes_def)
qed

text \<open>The content and the memory after a successful append.\<close>

lemma appendData_cases:
  assumes inv: "sb_inv h sb" and room: "totalSize sb + length data + 8 \<le> size_t_max"
    and ne: "data \<noteq> [] \<or> free_addrs sb \<noteq> []"
  obtains (ok) sb' h' ns as where "appendData data (sb, h) = (Ok (), (sb', h'))" "sb_inv h' sb'"
      "content h' sb' = content h sb @ data" "usedSize sb' = usedSize sb + length data"
      "h' = h\<lparr>blocks := blocks h @ ns, mem := write_at (mem h) as data\<rparr>"
      "\<forall>a \<in> set as. a \<in> set (free_addrs sb) \<or> fst a = length (blocks h)"
      "totalSize sb' \<le> totalSize sb + length data + 7"
  | (fail) "appendData data (sb, h) = (Throw BadAlloc, (sb, h))"
proof (cases rule: sb_allocate_cases [OF inv room])
  case 2
  then show ?thesis by (intro that(2)) (simp add: appendData_def seq_Throw)
next
  case (1 sb1 ns)
  let ?h1 = "h\<lparr>blocks := blocks h @ ns\<rparr>"
  let ?as = "take (length data) (free_addrs sb1)"
  let ?h' = "?h1\<lparr>mem := write_at (mem h) ?as data\<rparr>"
  let ?sb' = "sb1\<lparr>usedSize := usedSize sb1 + length data\<rparr>"
  from 1(6) obtain new where new: "free_addrs sb1 = free_addrs sb @ new"
    "\<forall>a \<in> set new. fst a = length (blocks h)" by blast
  have free1: "free_addrs sb1 \<noteq> []" using ne 1(5) new by (cases data) auto
  obtain l where l: "findFirstUnused sb1 = Some l" "fst l \<noteq> length (buffers sb1)"
    using free1 by (cases rule: findFirstUnused_cases [OF 1(2)]) auto
  have inv1: "sb_inv ?h' sb1" using 1(2) by (simp add: sb_inv_def buf_valid_def)
  have run: "appendData data (sb, h) = (Ok (), (?sb', ?h'))"
    unfolding appendData_def seq_Ok [where m = "sb_allocate (length data)", OF 1(1)]
    using l copy_into_free [OF 1(2) l 1(5)] increaseUsed_ok(1) [OF inv1 1(5)]
    by (simp add: Let_def)
  have dis: "set (used_addrs sb) \<inter> set ?as = {}" and dist: "distinct ?as"
    using 1(2,3) set_take_subset [of "length data" "free_addrs sb1"] by (auto simp: sb_inv_def)
  have len: "length ?as = length data" using 1(5) by simp
  have c: "content ?h' ?sb' = content h sb @ data"
  proof -
    have "content ?h' ?sb' = map (write_at (mem h) ?as data) (used_addrs sb)
        @ map (write_at (mem h) ?as data) ?as"
      unfolding content_def increaseUsed_ok(2) [OF inv1 1(5)] by (simp add: 1(3))
    then show ?thesis
      unfolding content_def by (simp only: write_at_disjoint [OF dis] write_at_same [OF dist len])
  qed
  show ?thesis
  proof (rule that(1) [OF run _ c])
    show "sb_inv ?h' ?sb'" using increaseUsed_ok(4) [OF inv1 1(5)] .
    show "usedSize ?sb' = usedSize sb + length data" using 1(4) by simp
    show "\<forall>a \<in> set ?as. a \<in> set (free_addrs sb) \<or> fst a = length (blocks h)"
      using new by (auto dest: in_set_takeD)
    show "totalSize ?sb' \<le> totalSize sb + length data + 7" using 1(7) by simp
  qed simp
qed

section \<open>Removing from the head\<close>

lemma sb_inv_drop:
  assumes "sb_inv h sb" and "list_addrs rest = drop n (addrs sb)" and "n \<le> totalSize sb"
    and "\<forall>b \<in> set rest. buf_valid h b"
  defines "sb' \<equiv> sb\<lparr>usedSize := (if n \<le> usedSize sb then usedSize sb - n else 0),
      totalSize := totalSize sb - n, buffers := rest\<rparr>"
  shows "sb_inv h sb'" "used_addrs sb' = drop n (used_addrs sb)"
    "free_addrs sb' = drop (n - usedSize sb) (free_addrs sb)"
proof -
  from assms(1) have sizes: "sb_sizes sb" by (simp add: sb_inv_def)
  have len: "totalSize sb = length (addrs sb)" using sizes by (simp add: sb_sizes_def)
  show us: "used_addrs sb' = drop n (used_addrs sb)"
    using assms(2,3) by (simp add: used_addrs_def sb'_def drop_take)
  show fs: "free_addrs sb' = drop (n - usedSize sb) (free_addrs sb)"
    using assms(2,3) by (simp add: free_addrs_def sb'_def)
  show "sb_inv h sb'"
    using assms(1) sizes assms(2-4) set_drop_subset [of n "used_addrs sb"]
      set_drop_subset [of "n - usedSize sb" "free_addrs sb"]
    by (intro sb_invI [OF us fs]) (auto simp: sb'_def sb_inv_def sb_sizes_def)
qed

lemma cutHead_spec:
  assumes inv: "sb_inv h sb" and n: "n \<le> totalSize sb"
  obtains sb' where "cutHead n (sb, h) = (Ok (), (sb', h))" "sb_inv h sb'"
    "used_addrs sb' = drop n (used_addrs sb)"
    "free_addrs sb' = drop (n - usedSize sb) (free_addrs sb)"
    "content h sb' = drop n (content h sb)" "usedSize sb' = usedSize sb - n"
    "totalSize sb' = totalSize sb - n"
proof -
  have le: "n \<le> length (addrs sb)" using inv n by (simp add: sb_inv_def sb_sizes_def)
  from splice_loop_spec [OF le, of "[]" h] obtain front rest where
    "splice_loop (buffers sb) n [] = Some (front, rest)" and r: "list_addrs rest = drop n (addrs sb)"
    "\<forall>b \<in> set rest. buf_valid h b"
    using inv by (auto simp: sb_inv_def)
  then have cut: "cut_loop (buffers sb) n = Some rest" by (simp add: cut_loop_splice [of _ _ "[]"])
  note d = sb_inv_drop [OF inv r(1) n r(2)]
  show ?thesis
    by (rule that [OF _ d]) (use cut n d(2) in \<open>simp_all add: cutHead_def content_def drop_map\<close>)
qed

lemma spliceHead_spec:
  assumes inv: "sb_inv h this" and n: "n \<le> totalSize this"
  obtains sb this' where "spliceHead n (this, h) = (Ok sb, (this', h))" "sb_inv h sb" "sb_inv h this'"
    "used_addrs sb = take n (used_addrs this)" "used_addrs this' = drop n (used_addrs this)"
    "free_addrs sb = take (n - usedSize this) (free_addrs this)"
    "free_addrs this' = drop (n - usedSize this) (free_addrs this)"
    "totalSize sb = n" "totalSize this' = totalSize this - n"
proof -
  have sizes: "sb_sizes this" using inv by (simp add: sb_inv_def)
  have le: "n \<le> length (addrs this)" using n sizes by (simp add: sb_sizes_def)
  from splice_loop_spec [OF le, of "[]" h] obtain front rest where
    run: "splice_loop (buffers this) n [] = Some (front, rest)"
    and f: "list_addrs front = take n (addrs this)" "\<forall>b \<in> set front. buf_valid h b"
    and r: "list_addrs rest = drop n (addrs this)" "\<forall>b \<in> set rest. buf_valid h b"
    using inv by (auto simp: sb_inv_def)
  let ?sb = "sb_empty\<lparr>usedSize := min n (usedSize this), totalSize := n, buffers := front\<rparr>"
  note d = sb_inv_drop [OF inv r(1) n r(2)]
  have us: "used_addrs ?sb = take n (used_addrs this)"
    using f(1) by (simp add: used_addrs_def min.commute)
  have fs: "free_addrs ?sb = take (n - usedSize this) (free_addrs this)"
    using f(1) by (cases "n \<le> usedSize this") (simp_all add: free_addrs_def drop_take min_def)
  have "sb_inv h ?sb"
    using inv sizes le f n set_take_subset [of n "used_addrs this"]
      set_take_subset [of "n - usedSize this" "free_addrs this"]
    by (intro sb_invI [OF us fs]) (auto simp: sb_inv_def sb_sizes_def)
  then show ?thesis
    by (intro that [OF _ _ d(1) us d(2) fs d(3)]) (use run n in \<open>simp_all add: spliceHead_def\<close>)
qed


section \<open>Sharing another stream buffer's data\<close>

lemma appendStreamBuffer_spec:
  assumes inv: "sb_inv h this" and other: "sb_inv h sb"
    and room: "totalSize this + usedSize sb < size_t_max"
    and apart: "set (used_addrs sb) \<inter> set (free_addrs this) = {}"
  obtains this' where "appendStreamBuffer sb (this, h) = (Ok (), (this', h))" "sb_inv h this'"
    "used_addrs this' = used_addrs this @ used_addrs sb" "free_addrs this' = free_addrs this"
    "usedSize this' = usedSize this + usedSize sb" "totalSize this' = totalSize this + usedSize sb"
proof -
  have sizes: "sb_sizes this" "sb_sizes sb" using inv other by (simp_all add: sb_inv_def)
  then have le: "usedSize this \<le> length (addrs this)" "usedSize sb \<le> length (addrs sb)"
    by (simp_all add: sb_sizes_def)
  obtain l where l: "findFirstUnused this = Some l"
    by (cases rule: findFirstUnused_cases [OF inv]) auto
  obtain front rear where fb: "split_at_location (buffers this) l = (front, rear)"
    by (cases "split_at_location (buffers this) l") auto
  note sp = split_at_location_spec [OF l [unfolded findFirstUnused_def] le(1) fb]
  from share_loop_spec [OF le(2), of h] other obtain cs where
    cs: "share_loop (buffers sb) (usedSize sb) = Some cs"
      "list_addrs cs = take (usedSize sb) (addrs sb)" "\<forall>b \<in> set cs. buf_valid h b"
    by (auto simp: sb_inv_def)
  let ?res = "this\<lparr>buffers := front @ cs @ rear, usedSize := usedSize this + usedSize sb,
      totalSize := totalSize this + usedSize sb\<rparr>"
  have us: "used_addrs ?res = used_addrs this @ used_addrs sb"
    using sp(1,2) cs(2) le by (simp add: used_addrs_def)
  have fs: "free_addrs ?res = free_addrs this"
    using sp(1,2) cs(2) le by (simp add: free_addrs_def)
  have "totalSize ?res = length (addrs ?res)"
    using sp(1,2) cs(2) le sizes(1) by (simp add: sb_sizes_def)
  then have "sb_inv h ?res"
    using inv sp(3) [of h] cs(3) room apart sizes
    by (intro sb_invI [OF us fs]) (auto simp: sb_inv_def sb_sizes_def)
  then show ?thesis
    by (intro that [OF _ _ us fs])
       (use l fb cs(1) room sizes in \<open>simp_all add: appendStreamBuffer_def sb_sizes_def\<close>)
qed

section \<open>Arrays handed to the caller\<close>

lemma sb_insert_buffer:
  assumes inv: "sb_inv h sb" and nb: "nb = \<lparr>buf_base = length (blocks h), buf_off = 0, buf_size = m\<rparr>"
    and front: "list_addrs front = used_addrs sb" and rear: "set (list_addrs rear) \<subseteq> set (free_addrs sb)"
      "distinct (list_addrs rear)"
    and valid: "\<forall>b \<in> set front \<union> set rear. buf_valid h b"
    and n: "n \<le> m" and tot: "t = length (list_addrs front) + length (list_addrs rear) + m" "t < size_t_max"
  defines "sb' \<equiv> sb\<lparr>buffers := front @ [nb] @ rear, totalSize := t, usedSize := usedSize sb + n\<rparr>"
    and "h' \<equiv> h\<lparr>blocks := blocks h @ [m]\<rparr>"
  shows "sb_inv h' sb'" "used_addrs sb' = used_addrs sb @ range_addrs (buf_data nb) n"
proof -
  have sizes: "sb_sizes sb" using inv by (simp add: sb_inv_def)
  have len: "length (list_addrs front) = usedSize sb" using front sizes length_used_addrs by simp
  have bn: "take n (buf_addrs nb) = range_addrs (buf_data nb) n"
    using n nb by (simp add: buf_addrs_def take_range_addrs min_def)
  show us: "used_addrs sb' = used_addrs sb @ range_addrs (buf_data nb) n"
    using len front n nb bn by (simp add: used_addrs_def sb'_def)
  have fs: "free_addrs sb' = drop n (buf_addrs nb) @ list_addrs rear"
    using len n nb by (simp add: free_addrs_def sb'_def)
  have dis: "set (addrs sb) \<inter> set (buf_addrs nb) = {}" using new_buffer_disjoint [OF inv nb] .
  have part: "set (take n (buf_addrs nb)) \<inter> set (drop n (buf_addrs nb)) = {}"
    using set_take_disj_set_drop_if_distinct [of "buf_addrs nb" n n] by (simp add: buf_addrs_def)
  have sub: "set (drop n (buf_addrs nb)) \<subseteq> set (buf_addrs nb)"
    "set (range_addrs (buf_data nb) n) \<subseteq> set (buf_addrs nb)"
    using set_drop_subset [of n "buf_addrs nb"] set_take_subset [of n "buf_addrs nb"] bn by simp_all
  show "sb_inv h' sb'"
  proof (rule sb_invI [OF us fs])
    show "distinct (drop n (buf_addrs nb) @ list_addrs rear)"
    proof -
      have "distinct (buf_addrs nb)" by (simp add: buf_addrs_def)
      then show ?thesis using dis rear sub set_used_free [of sb] by (simp only: distinct_append
            distinct_drop) blast
    qed
    show "set (used_addrs sb @ range_addrs (buf_data nb) n)
        \<inter> set (drop n (buf_addrs nb) @ list_addrs rear) = {}"
      using dis rear sub part bn set_used_free [of sb] inv
      by (simp only: sb_inv_def set_append) blast
    show "\<forall>b \<in> set (buffers sb'). buf_valid h' b"
      using valid new_buffer_valid [OF nb] by (auto simp: sb'_def h'_def intro: buf_valid_more_blocks)
  qed (use len n tot nb in \<open>auto simp: sb'_def\<close>)
qed

lemma getMutableArray_too_small:
  assumes inv: "sb_inv h sb" and room: "totalSize sb + n + 8 \<le> size_t_max"
    and l: "findFirstUnused sb = Some l" "fst l \<noteq> length (buffers sb)"
  obtains (ok) p sb' ns where "getMutableArrayFirstUnusedBufferTooSmall l n (sb, h)
        = (Ok p, (sb', h\<lparr>blocks := blocks h @ ns\<rparr>))" "sb_inv (h\<lparr>blocks := blocks h @ ns\<rparr>) sb'"
      "used_addrs sb' = used_addrs sb @ range_addrs p n" "usedSize sb' = usedSize sb + n"
      "totalSize sb' \<le> totalSize sb + n + 7"
      "\<forall>a \<in> set (range_addrs p n). a \<in> set (free_addrs sb) \<or> fst a = length (blocks h)"
  | (fail) sb' where "getMutableArrayFirstUnusedBufferTooSmall l n (sb, h)
        = (Throw BadAlloc, (sb', h))" "sb_inv h sb'" "used_addrs sb' = used_addrs sb"
      "totalSize sb' \<le> totalSize sb"
proof (cases rule: findFirstUnused_cases [OF inv])
  case 1
  with l show ?thesis by auto
next
  case (2 i off)
  let ?bs = "buffers sb" let ?b = "?bs ! i"
  have il: "l = (i, off)" using l 2(1) by simp
  have sizes: "sb_sizes sb" using inv by (simp add: sb_inv_def)
  have bnds: "n + 7 < size_t_max" using room by simp
  have bs: "list_addrs ?bs = list_addrs (take i ?bs) @ buf_addrs ?b @ list_addrs (drop (Suc i) ?bs)"
    by (rule list_addrs_nth_split [OF 2(2)])
  have tot: "totalSize sb = length (list_addrs (take i ?bs)) + buf_size ?b
      + length (list_addrs (drop (Suc i) ?bs))"
    using sizes bs by (simp add: sb_sizes_def)
  define front rear where "front = (if off = 0 then take i ?bs else take i ?bs @ [buffer_head off ?b])"
    and "rear = (if off = 0 then drop i ?bs else drop (Suc i) ?bs)"
  have bdrop: "drop i ?bs = ?b # drop (Suc i) ?bs" using 2(2) by (simp add: Cons_nth_drop_Suc)
  have front: "list_addrs front = used_addrs sb"
    using 2(3,5) bs by (auto simp: front_def used_addrs_def addr_simps)
  have frear: "\<exists>k. list_addrs rear = drop k (free_addrs sb)"
    using 2(3,5) bs bdrop
    by (intro exI [of _ "if off = 0 then 0 else buf_size ?b - off"])
       (auto simp: rear_def free_addrs_def)
  then have rear: "set (list_addrs rear) \<subseteq> set (free_addrs sb)" "distinct (list_addrs rear)"
    using inv by (auto simp: sb_inv_def dest: in_set_dropD)
  have valid: "\<forall>b \<in> set front \<union> set rear. buf_valid h b"
    using inv 2(3,4) by (auto simp: front_def rear_def sb_inv_def buf_valid_part
        dest: in_set_takeD in_set_dropD)
  define t where "t = length (list_addrs front) + length (list_addrs rear)"
  let ?sb1 = "sb\<lparr>buffers := front @ rear, totalSize := t\<rparr>"
  have t_le: "t \<le> totalSize sb"
    using tot 2(3) bdrop by (auto simp: t_def front_def rear_def addr_simps)
  have sb1: "truncateUnused l sb = (?sb1, length front)"
  proof (cases "off = 0")
    case True
    then have "front @ rear = ?bs" "t = totalSize sb" "length front = i"
      using tot 2(2) bdrop append_take_drop_id [of i ?bs] by (simp_all add: front_def rear_def t_def)
    then have "?sb1 = sb" "length front = i" by simp_all
    then show ?thesis
      using il True by (simp add: truncateUnused_def pointerInBuffer_def incrementPointer_def buf_data_def)
  next
    case False
    then show ?thesis
      using il tot 2(2,3) upd_conv_take_nth_drop [OF 2(2)]
      by (simp add: truncateUnused_def pointerInBuffer_def incrementPointer_def buf_data_def
          front_def rear_def t_def sizeLeftInBuffer_def Let_def addr_simps buffer_head_def)
  qed
  then have run: "getMutableArrayFirstUnusedBufferTooSmall l n (sb, h) = (case new_buffer n h of
       (Ok nb, h') \<Rightarrow> (Ok (buf_data nb), (?sb1\<lparr>buffers := front @ [nb] @ rear,
          totalSize := plus64 t (buf_size nb), usedSize := plus64 (usedSize sb) n\<rparr>, h'))
     | (r, h') \<Rightarrow> (fail_as r, (?sb1, h')))"
    unfolding getMutableArrayFirstUnusedBufferTooSmall_def
    by (auto simp: sb1 split: prod.split outcome.split)
  show ?thesis
  proof (cases rule: new_buffer_cases [of n h])
    case (ok nb)
    let ?sb' = "sb\<lparr>buffers := front @ [nb] @ rear, totalSize := t + align_up n,
        usedSize := usedSize sb + n\<rparr>"
    have tlt: "t + align_up n < size_t_max"
      using t_le room align_up_bounds(2) [OF bnds] by simp
    have "getMutableArrayFirstUnusedBufferTooSmall l n (sb, h)
        = (Ok (buf_data nb), (?sb', h\<lparr>blocks := blocks h @ [align_up n]\<rparr>))"
      using run ok tlt room sizes by (simp add: sb_sizes_def)
    moreover have "t + align_up n = length (list_addrs front) + length (list_addrs rear) + align_up n"
      by (simp add: t_def)
    note ins = sb_insert_buffer [OF inv ok(2) front rear valid align_up_bounds(1) [OF bnds] this tlt]
    ultimately show ?thesis
      by (rule that(1)) (use t_le align_up_bounds(2) [OF bnds] ok(2) in
          \<open>auto simp: range_addrs_def buf_data_def\<close>)
  next
    case fail
    have us: "used_addrs ?sb1 = used_addrs sb"
      using front sizes length_used_addrs [OF sizes] by (simp add: used_addrs_def)
    have fs: "free_addrs ?sb1 = list_addrs rear"
      using front sizes length_used_addrs [OF sizes] by (simp add: free_addrs_def)
    have "sb_inv h ?sb1"
      using inv rear valid front t_le sizes length_used_addrs [OF sizes]
      by (intro sb_invI [OF us fs]) (auto simp: t_def sb_inv_def sb_sizes_def)
    then show ?thesis using run fail us t_le by (intro that(2) [of ?sb1]) simp_all
  qed
qed

lemma getMutableArray_cases:
  assumes inv: "sb_inv h sb" and room: "totalSize sb + n + 8 \<le> size_t_max"
    and ne: "n \<noteq> 0 \<or> free_addrs sb \<noteq> []"
  obtains (ok) p sb' ns where "getMutableArray n (sb, h) = (Ok p, (sb', h\<lparr>blocks := blocks h @ ns\<rparr>))"
      "sb_inv (h\<lparr>blocks := blocks h @ ns\<rparr>) sb'" "used_addrs sb' = used_addrs sb @ range_addrs p n"
      "usedSize sb' = usedSize sb + n" "totalSize sb' \<le> totalSize sb + n + 7"
      "\<forall>a \<in> set (range_addrs p n). a \<in> set (free_addrs sb) \<or> fst a = length (blocks h)"
  | (fail) sb' where "getMutableArray n (sb, h) = (Throw BadAlloc, (sb', h))"
      "sb_inv h sb'" "used_addrs sb' = used_addrs sb" "totalSize sb' \<le> totalSize sb"
proof (cases rule: findFirstUnused_cases [OF inv])
  case 1
  have sizes: "sb_sizes sb" using inv by (simp add: sb_inv_def)
  have n: "getFreeSize sb < n" using ne 1(2) sizes by (auto simp: sb_sizes_free)
  have gm: "getMutableArray n (sb, h) = getMutableArrayNoFreeBuffers n (sb, h)"
    using 1 by (simp add: getMutableArray_def)
  show ?thesis
  proof (cases rule: sb_allocate_cases [OF inv room])
    case 2
    then show ?thesis using gm inv
      by (intro that(2) [of sb]) (simp_all add: getMutableArrayNoFreeBuffers_def seq_Throw)
  next
    case A: (1 sb1 ns)
    let ?h = "h\<lparr>blocks := blocks h @ ns\<rparr>" let ?b = "last (buffers sb1)"
    have b: "buffers sb1 \<noteq> []" "free_addrs sb1 = buf_addrs ?b" using A(8) [OF n] 1(2) by auto
    have "getMutableArray n (sb, h) = (Ok (buf_data ?b), (sb1\<lparr>usedSize := usedSize sb1 + n\<rparr>, ?h))"
      using gm A(1,4) b room sizes
      by (simp add: getMutableArrayNoFreeBuffers_def seq_Ok [where m = "sb_allocate n", OF A(1)] Let_def sb_sizes_def)
    moreover have "take n (free_addrs sb1) = range_addrs (buf_data ?b) n"
      using A(5) b(2) by (simp add: buf_addrs_def take_range_addrs min_def)
    moreover from this have apart: "\<forall>a \<in> set (range_addrs (buf_data ?b) n).
        a \<in> set (free_addrs sb) \<or> fst a = length (blocks h)"
      using A(6) by (metis Un_iff in_set_takeD set_append)
    ultimately show ?thesis
      using increaseUsed_ok(2,4) [OF A(2,5)] A(3,4,7) apart
      by (intro that(1) [of "buf_data ?b" "sb1\<lparr>usedSize := usedSize sb1 + n\<rparr>"]) auto
  qed
next
  case (2 i off)
  let ?l = "(i, off)" let ?left = "sizeLeftInBuffer (buffers sb) ?l"
  show ?thesis
  proof (cases "?left \<ge> n")
    case True
    let ?p = "pointerInBuffer (buffers sb) ?l"
    have len: "n \<le> length (free_addrs sb)" using True 2(6) by simp
    have "take n (free_addrs sb) = range_addrs ?p n"
      using True 2(6) by (simp add: take_range_addrs min_def)
    moreover have "getMutableArray n (sb, h) = (Ok ?p, (sb\<lparr>usedSize := usedSize sb + n\<rparr>,
        h\<lparr>blocks := blocks h @ []\<rparr>))"
      using True 2(1,2) room inv by (simp add: getMutableArray_def sb_inv_def sb_sizes_def)
    ultimately show ?thesis
      using increaseUsed_ok(2,4) [OF inv len]
      by (intro that(1) [of ?p "sb\<lparr>usedSize := usedSize sb + n\<rparr>" "[]"])
         (simp_all, metis in_set_takeD)
  next
    case False
    then have gm: "getMutableArray n (sb, h) = getMutableArrayFirstUnusedBufferTooSmall ?l n (sb, h)"
      using 2(1,2) by (simp add: getMutableArray_def)
    have "fst ?l \<noteq> length (buffers sb)" using 2(2) by simp
    show ?thesis
      by (cases rule: getMutableArray_too_small [OF inv room 2(1) \<open>fst ?l \<noteq> length (buffers sb)\<close>])
         (unfold gm [symmetric], erule (5) that(1), erule (3) that(2))
  qed
qed

end
