(* ===== verification/StreamBufferProps.thy ===== *)
theory StreamBufferProps
  imports StreamBufferSpec
begin

text \<open>
  The IO vectors, linearization, the properties of \<open>StreamBuffer\<close>, and its interface to the sockets.
\<close>

section \<open>IO vectors\<close>

definition iov_addrs :: "iovec list \<Rightarrow> addr list" where
  "iov_addrs v = concat (map (\<lambda>io. case iov_base io of Some p \<Rightarrow> range_addrs p (iov_len io) | None \<Rightarrow> []) v)"

lemma iov_addrs_simps [simp]:
  "iov_addrs [] = []"
  "iov_addrs (\<lparr>iov_base = Some p, iov_len = n\<rparr> # v) = range_addrs p n @ iov_addrs v"
  by (simp_all add: iov_addrs_def)

lemma iov_addrs_buf_iov: "iov_addrs (map buf_iov bs) = list_addrs bs"
  by (induction bs) (simp_all add: buf_iov_def buf_addrs_def)

lemma used_iovs_spec:
  "n \<le> length (list_addrs bs) \<Longrightarrow> \<exists>v m. used_iovs bs n k = Some v \<and> length v \<le> k
     \<and> length v \<le> length bs \<and> m \<le> n \<and> iov_addrs v = take m (list_addrs bs)
     \<and> (length bs \<le> k \<longrightarrow> m = n)"
proof (induction bs n k rule: used_iovs.induct)
  case (4 b bs n k)
  let ?m = "min (buf_size b) (Suc n)"
  have "Suc n - ?m \<le> length (list_addrs bs)" using "4.prems" by simp
  from "4.IH" [OF this] obtain v m where v: "used_iovs bs (Suc n - ?m) k = Some v"
    "length v \<le> k" "length v \<le> length bs" "m \<le> Suc n - ?m" "iov_addrs v = take m (list_addrs bs)"
    "length bs \<le> k \<longrightarrow> m = Suc n - ?m" by blast
  show ?case
  proof (intro exI conjI)
    show "used_iovs (b # bs) (Suc n) (Suc k)
        = Some (\<lparr>iov_base = Some (buf_data b), iov_len = ?m\<rparr> # v)" using v(1) by simp
    show "iov_addrs (\<lparr>iov_base = Some (buf_data b), iov_len = ?m\<rparr> # v)
        = take (?m + m) (list_addrs (b # bs))"
      using v(4,5) by (cases "buf_size b \<le> Suc n") (auto simp: buf_addrs_def take_range_addrs min_def)
  qed (use v in auto)
qed auto

lemma getUsedIOVec_cases:
  assumes "sb_inv h sb"
  obtains v m sb' where "getUsedIOVec (sb, h) = (Ok v, (sb', h))" "length v \<le> iov_max"
    "iov_addrs v = take m (used_addrs sb)" "length (buffers sb) \<le> iov_max \<Longrightarrow> m = usedSize sb"
    "buffers sb' = buffers sb" "usedSize sb' = usedSize sb" "totalSize sb' = totalSize sb"
proof -
  let ?sb = "allocateIOVecArray sb"
  have same: "buffers ?sb = buffers sb" "usedSize ?sb = usedSize sb" "totalSize ?sb = totalSize sb"
    by (simp_all add: allocateIOVecArray_def)
  have le: "usedSize sb \<le> length (addrs sb)" using assms by (simp add: sb_inv_def sb_sizes_def)
  from used_iovs_spec [OF le, of iov_max] obtain v m where
    v: "used_iovs (buffers sb) (usedSize sb) iov_max = Some v" "length v \<le> iov_max" "m \<le> usedSize sb"
      "iov_addrs v = take m (addrs sb)" "length (buffers sb) \<le> iov_max \<longrightarrow> m = usedSize sb" by blast
  then show ?thesis
    by (intro that [of v "?sb\<lparr>iovecArray := v @ drop (length v) (iovecArray ?sb)\<rparr>" m])
       (simp_all add: getUsedIOVec_def Let_def same used_addrs_def min_def)
qed

lemma getFreeIOVec_cases:
  assumes "sb_inv h sb"
  obtains v m sb' where "getFreeIOVec (sb, h) = (Ok v, (sb', h))" "length v \<le> iov_max"
    "iov_addrs v = take m (free_addrs sb)" "length (buffers sb) \<le> iov_max \<Longrightarrow> iov_addrs v = free_addrs sb"
    "buffers sb' = buffers sb" "usedSize sb' = usedSize sb" "totalSize sb' = totalSize sb"
proof -
  let ?sb = "allocateIOVecArray sb"
  have same: "buffers ?sb = buffers sb" "usedSize ?sb = usedSize sb" "totalSize ?sb = totalSize sb"
    by (simp_all add: allocateIOVecArray_def)
  have ffu: "findFirstUnused ?sb = findFirstUnused sb" by (simp add: findFirstUnused_def same)
  show ?thesis
  proof (cases rule: findFirstUnused_cases [OF assms])
    case 1
    then show ?thesis
      by (intro that [of "[]" "?sb\<lparr>iovecArray := iovecArray ?sb\<rparr>" 0])
         (simp_all add: getFreeIOVec_def ffu same)
  next
    case (2 i off)
    let ?rest = "drop (Suc i) (buffers sb)" let ?k = "iov_max - 1"
    let ?p = "pointerInBuffer (buffers sb) (i, off)" let ?n = "sizeLeftInBuffer (buffers sb) (i, off)"
    let ?v = "\<lparr>iov_base = Some ?p, iov_len = ?n\<rparr> # map buf_iov (take ?k ?rest)"
    have "list_addrs ?rest = list_addrs (take ?k ?rest) @ list_addrs (drop ?k ?rest)"
      by (metis append_take_drop_id list_addrs_simps(3))
    then have "iov_addrs ?v = take (length (iov_addrs ?v)) (free_addrs sb)"
      using 2(6) by (simp add: iov_addrs_buf_iov)
    then obtain m where "iov_addrs ?v = take m (free_addrs sb)" ..
    moreover have "length (buffers sb) \<le> iov_max \<Longrightarrow> iov_addrs ?v = free_addrs sb"
      using 2(2,6) by (simp add: iov_addrs_buf_iov)
    ultimately show ?thesis
      using 2(1,2)
      by (intro that [of ?v "?sb\<lparr>iovecArray := ?v @ drop (length ?v) (iovecArray ?sb)\<rparr>"
            m])
         (simp_all add: getFreeIOVec_def Let_def ffu same iov_max_def)
  qed
qed

section \<open>Linearization\<close>

text \<open>\<open>forceLinearize\<close> is right when the used data ends in the last buffer: then it removes every
  buffer but the new one.\<close>

definition ends_in_last :: "stream_buffer \<Rightarrow> bool" where
  "ends_in_last sb \<longleftrightarrow> length (list_addrs (butlast (buffers sb))) < usedSize sb"

lemma forceLinearize_cases:
  assumes inv: "sb_inv h sb" and last: "ends_in_last sb" and room: "usedSize sb + 7 < size_t_max"
  obtains (ok) sb' h' nb where "forceLinearize (sb, h) = (Ok (), (sb', h'))" "sb_inv h' sb'"
      "content h' sb' = content h sb" "usedSize sb' = usedSize sb" "buffers sb' = [nb]" "buf_off nb = 0"
      "buf_base nb = length (blocks h)" "base_addr h' = base_addr h" "usedSize sb \<le> buf_size nb"
      "blocks h' = blocks h @ [buf_size nb]"
      "\<forall>a. fst a \<noteq> length (blocks h) \<longrightarrow> mem h' a = mem h a" "totalSize sb' < usedSize sb + 8"
  | (fail) "forceLinearize (sb, h) = (Throw BadAlloc, (sb, h))"
proof (cases rule: new_buffer_cases [of "usedSize sb" h])
  case fail
  then show ?thesis by (intro that(2)) (simp add: forceLinearize_def)
next
  case (ok nb)
  let ?n = "usedSize sb" let ?h = "h\<lparr>blocks := blocks h @ [align_up ?n]\<rparr>"
  let ?p = "buf_data nb" let ?as = "range_addrs ?p ?n"
  let ?h' = "?h\<lparr>mem := write_at (mem h) ?as (content h sb)\<rparr>"
  let ?sb' = "sb\<lparr>buffers := [nb], totalSize := buf_size nb\<rparr>"
  have sizes: "sb_sizes sb" using inv by (simp add: sb_inv_def)
  have al: "?n \<le> align_up ?n" "align_up ?n < ?n + 8" using align_up_bounds [OF room] by simp_all
  have as: "?as = take ?n (buf_addrs nb)"
    using ok(2) al by (simp add: buf_addrs_def take_range_addrs min_def)
  then have fresh: "a \<in> set ?as \<Longrightarrow> fst a = length (blocks h)" for a
    by (metis in_set_takeD new_buffer_fresh [OF ok(2)])
  then have "set ?as \<inter> set (addrs sb) = {}"
    using inv_addrs_old [OF inv] by (metis disjoint_iff less_irrefl)
  moreover have "?n \<le> length (addrs sb)" using sizes by (simp add: sb_sizes_def)
  ultimately have "linearize_loop (buffers sb @ [nb]) ?n ?p ?h = Some ([nb],
     ?h\<lparr>mem := write_at (mem ?h) ?as (map (mem ?h) (take ?n (addrs sb)))\<rparr>)"
    using last by (intro linearize_loop_spec) (simp_all add: ends_in_last_def)
  then have run: "forceLinearize (sb, h) = (Ok (), (?sb', ?h'))"
    using ok(1) by (simp add: forceLinearize_def content_def used_addrs_def)
  have us: "used_addrs ?sb' = ?as" using as by (simp add: used_addrs_def)
  have fs: "free_addrs ?sb' = drop ?n (buf_addrs nb)" by (simp add: free_addrs_def)
  have "distinct (buf_addrs nb)" by (simp add: buf_addrs_def)
  then have "distinct (drop ?n (buf_addrs nb))" "set ?as \<inter> set (drop ?n (buf_addrs nb)) = {}"
    unfolding as by (simp, metis append_take_drop_id distinct_append)
  moreover have "buf_valid ?h' nb" using ok(2) by (simp add: buf_valid_def)
  ultimately have "sb_inv ?h' ?sb'"
    using al ok(2) room
    by (intro sb_invI [OF us fs]) (auto simp: align_up_exact size_t_max_def)
  moreover have "content ?h' ?sb' = content h sb"
    unfolding content_def [of ?h'] us
    using sizes by (simp add: length_content write_at_same)
  moreover have "\<forall>a. fst a \<noteq> length (blocks h) \<longrightarrow> mem ?h' a = mem h a"
  proof (intro allI impI)
    fix a :: addr assume "fst a \<noteq> length (blocks h)"
    with fresh have "a \<notin> set ?as" by blast
    then show "mem ?h' a = mem h a" by simp
  qed
  ultimately show ?thesis
    using that(1) [OF run, of nb] ok(2) al by simp
qed


lemma getConstArray_cases:
  assumes inv: "sb_inv h sb" and len: "offset + n \<le> usedSize sb" and n: "0 < n"
    and last: "ends_in_last sb" and room: "usedSize sb + 7 < size_t_max"
  obtains (ok) p sb' h' where "getConstArray offset n (sb, h) = (Ok p, (sb', h'))" "sb_inv h' sb'"
      "content h' sb' = content h sb" "peek h' p n = take n (drop offset (content h sb))"
  | (fail) "getConstArray offset n (sb, h) = (Throw BadAlloc, (sb, h))"
proof -
  have sizes: "sb_sizes sb" using inv by (simp add: sb_inv_def)
  have off: "offset \<le> length (addrs sb)" "offset < length (addrs sb)"
    using len n sizes by (auto simp: sb_sizes_def)
  have guard: "\<not> plus64 offset n > usedSize sb" using len sizes by (simp add: sb_sizes_def)
  from findLocation_spec [OF off(1)] obtain i o' where
    l: "findLocation (buffers sb) offset = Some (i, o')" "i \<le> length (buffers sb)"
      "length (list_addrs (take i (buffers sb))) + o' = offset"
      "i = length (buffers sb) \<longrightarrow> o' = 0"
      "i < length (buffers sb) \<longrightarrow> o' = 0 \<or> o' < buf_size (buffers sb ! i)" by blast
  have i: "i < length (buffers sb)"
    using l(2-4) off(2) by (cases "i = length (buffers sb)") auto
  let ?left = "sizeLeftInBuffer (buffers sb) (i, o')"
  let ?p = "pointerInBuffer (buffers sb) (i, o')"
  have bytes: "take n (drop offset (content h sb)) = map (mem h) (take n (drop offset (addrs sb)))"
    using len by (simp add: content_def used_addrs_def take_map drop_map drop_take min_def)
  show ?thesis
  proof (cases "n \<le> ?left")
    case True
    have "drop offset (addrs sb) = range_addrs ?p ?left @ list_addrs (drop (Suc i) (buffers sb))"
      unfolding list_addrs_nth_split [OF i] l(3) [symmetric] using l(5) i
      by (auto simp: sizeLeftInBuffer_def pointerInBuffer_def buf_addrs_def drop_range_addrs
          incrementPointer_def)
    then have "peek h ?p n = take n (drop offset (content h sb))"
      unfolding bytes using True by (simp add: peek_def take_range_addrs min_def)
    then show ?thesis
      using True guard l(1) i inv by (intro that(1)) (simp_all add: getConstArray_def)
  next
    case False
    then have gc: "getConstArray offset n (sb, h) = seq forceLinearize
        (\<lambda>(sb', h'). if buffers sb' = [] then (Undef, (sb', h'))
          else (Ok (incrementPointer (buf_data (hd (buffers sb'))) offset), (sb', h'))) (sb, h)"
      using guard l(1) i by (simp add: getConstArray_def)
    show ?thesis
    proof (cases rule: forceLinearize_cases [OF inv last room])
      case 2
      then show ?thesis by (intro that(2)) (simp add: gc seq_Throw)
    next
      case L: (1 sb' h' nb)
      have "n \<le> usedSize sb - offset" using len by simp
      have us: "used_addrs sb' = take (usedSize sb) (buf_addrs nb)"
        using L(4,5) by (simp add: used_addrs_def)
      have "take n (drop offset (content h' sb')) = peek h' (incrementPointer (buf_data nb) offset) n"
        unfolding content_def us peek_def using len L(9) \<open>n \<le> usedSize sb - offset\<close>
        by (simp add: take_map drop_map buf_addrs_def take_range_addrs drop_range_addrs min_def)
      then show ?thesis
        using L(2,3,5) by (intro that(1)) (simp_all add: gc seq_Ok [where m = forceLinearize, OF L(1)])
    qed
  qed
qed

section \<open>Sequences of operations\<close>

datatype sb_op =
    OpAllocate nat | OpIncreaseUsed nat | OpAppend "byte list" | OpCut nat | OpSplice nat
  | OpMutableArray nat | OpUsedIOVec | OpFreeIOVec
  | OpAppendBuffer stream_buffer | OpAssign stream_buffer | OpCopy
  | OpLinearize | OpGetData nat nat | OpConstArray nat nat

definition discard :: "('s, 'a) prog \<Rightarrow> ('s, unit) prog" where
  "discard m = bnd m (\<lambda>_. ret ())"

fun sb_step :: "sb_op \<Rightarrow> (sb_state, unit) prog" where
  "sb_step (OpAllocate n) = sb_allocate n"
| "sb_step (OpIncreaseUsed n) = increaseUsed n"
| "sb_step (OpAppend xs) = appendData xs"
| "sb_step (OpCut n) = cutHead n"
| "sb_step (OpSplice n) = discard (spliceHead n)"
| "sb_step (OpMutableArray n) = discard (getMutableArray n)"
| "sb_step OpUsedIOVec = discard getUsedIOVec"
| "sb_step OpFreeIOVec = discard getFreeIOVec"
| "sb_step (OpAppendBuffer other) = appendStreamBuffer other"
| "sb_step (OpAssign other) = (\<lambda>(sb, h). (Ok (), (sb_assign sb other, h)))"
| "sb_step OpCopy = (\<lambda>(sb, h). (Ok (), (sb_copy sb, h)))"
| "sb_step OpLinearize = linearize"
| "sb_step (OpGetData sizeof_T align_T) = discard (getData sizeof_T align_T)"
| "sb_step (OpConstArray offset n) = discard (getConstArray offset n)"

text \<open>
  What the client must see to. The data of a stream buffer that is appended must not lie in the free
  space of this one; the operations that may linearize must not be called when there is data and
  the last buffer is wholly free; no type is of size 0, and the ends of arrays do not overflow.
\<close>

fun sb_pre :: "sb_op \<Rightarrow> sb_state \<Rightarrow> bool" where
  "sb_pre (OpAppendBuffer other) (sb, h) \<longleftrightarrow> sb_inv h other \<and> set (used_addrs other) \<inter> set (free_addrs sb) = {}"
| "sb_pre (OpAssign other) (sb, h) \<longleftrightarrow> sb_inv h other"
| "sb_pre OpLinearize (sb, h) \<longleftrightarrow> usedSize sb = 0 \<or> ends_in_last sb"
| "sb_pre (OpGetData sizeof_T align_T) (sb, h) \<longleftrightarrow> 0 < sizeof_T \<and> (usedSize sb = 0 \<or> ends_in_last sb)"
| "sb_pre (OpConstArray offset n) (sb, h) \<longleftrightarrow> offset + n < size_t_max \<and> (usedSize sb = 0 \<or> ends_in_last sb)"
| "sb_pre _ _ \<longleftrightarrow> True"

text \<open>A client that catches the exceptions of the library and goes on.\<close>

fun sb_run :: "sb_op list \<Rightarrow> sb_state \<Rightarrow> sb_state" where
  "sb_run [] s = s"
| "sb_run (x # xs) s = sb_run xs (snd (sb_step x s))"

fun sb_client :: "sb_op list \<Rightarrow> sb_state \<Rightarrow> bool" where
  "sb_client [] s = True"
| "sb_client (x # xs) s \<longleftrightarrow> sb_pre x s \<and> sb_client xs (snd (sb_step x s))"

text \<open>The most an operation can add to \<open>totalSize\<close>.\<close>

fun sb_cost :: "sb_op \<Rightarrow> nat" where
  "sb_cost (OpAllocate n) = n + 8"
| "sb_cost (OpIncreaseUsed n) = n"
| "sb_cost (OpAppend xs) = length xs + 8"
| "sb_cost (OpMutableArray n) = n + 8"
| "sb_cost (OpAppendBuffer other) = usedSize other"
| "sb_cost (OpAssign other) = totalSize other"
| "sb_cost OpLinearize = 8"
| "sb_cost (OpGetData sizeof_T align_T) = 8"
| "sb_cost (OpConstArray offset n) = 8"
| "sb_cost _ = 0"

lemma snd_discard [simp]: "snd (discard m s) = snd (m s)"
  by (cases "m s"; cases "fst (m s)") (auto simp: discard_def bnd_run)

lemma sb_inv_other_fields:
  "sb_inv h sb \<Longrightarrow> buffers sb' = buffers sb \<Longrightarrow> usedSize sb' = usedSize sb \<Longrightarrow>
    totalSize sb' = totalSize sb \<Longrightarrow> sb_inv h sb'"
  by (simp add: sb_inv_def sb_sizes_def used_addrs_def free_addrs_def)

lemma sb_empty_inv: "sb_inv h sb_empty"
  by (simp add: sb_empty_def sb_inv_def sb_sizes_def used_addrs_def free_addrs_def size_t_max_def)


lemma snd_res: "m s = (r, t) \<Longrightarrow> snd (m s) = t"
  by simp

text \<open>An empty append to a full stream buffer dereferences \<open>end()\<close>, unless a buffer of size 0 is
  left at the end of the list; either way nothing is written.\<close>

lemma appendData_nothing:
  assumes "sb_inv h sb" and "free_addrs sb = []"
  shows "snd (appendData [] (sb, h)) = (sb, h)"
proof (cases rule: findFirstUnused_cases [OF assms(1)])
  case 1
  then show ?thesis by (simp add: appendData_def seq_run sb_allocate_def)
next
  case (2 i off)
  then show ?thesis
    using assms(1) by (simp add: appendData_def seq_run sb_allocate_def increaseUsed_def sb_inv_def
        sb_sizes_def)
qed

lemma getMutableArray_nothing:
  assumes "sb_inv h sb"
  shows "snd (getMutableArray 0 (sb, h)) = (sb, h)"
proof -
  have "plus64 (usedSize sb) 0 = usedSize sb"
    using assms by (simp add: sb_inv_def sb_sizes_def)
  moreover obtain l where "findFirstUnused sb = Some l"
    by (cases rule: findFirstUnused_cases [OF assms]) auto
  ultimately show ?thesis
    by (simp add: getMutableArray_def getMutableArrayNoFreeBuffers_def seq_run sb_allocate_def Let_def)
qed

text \<open>An operation that linearizes, or does nothing, keeps the invariant.\<close>

lemma linearizing_inv:
  assumes inv: "sb_inv h sb" and cost: "totalSize sb + 8 < size_t_max" and last: "usedSize sb = 0 \<or> ends_in_last sb"
    and how: "(sb', h') = (sb, h) \<or> 0 < usedSize sb \<and> (sb', h') = snd (forceLinearize (sb, h))"
  shows "sb_inv h' sb' \<and> totalSize sb' \<le> totalSize sb + 8"
proof (cases "(sb', h') = (sb, h)")
  case True
  then show ?thesis using inv by simp
next
  case False
  with how last have last: "ends_in_last sb" and force: "(sb', h') = snd (forceLinearize (sb, h))" by auto
  have sizes: "usedSize sb \<le> totalSize sb" using inv by (simp add: sb_inv_def sb_sizes_def)
  have "usedSize sb + 7 < size_t_max" using sizes cost by simp
  then show ?thesis
    using force sizes inv by (cases rule: forceLinearize_cases [OF inv last]) auto
qed

lemma snd_forced:
  "snd (seq forceLinearize (\<lambda>(sb', h'). if buffers sb' = [] then (Undef, (sb', h')) else (Ok (f sb'), (sb', h'))) s)
    = snd (forceLinearize s)"
  by (cases "forceLinearize s"; cases "fst (forceLinearize s)") (auto simp: seq_run split: prod.splits)

lemma linearize_how:
  "snd (linearize (sb, h)) = (sb, h) \<or> 0 < usedSize sb \<and> snd (linearize (sb, h)) = snd (forceLinearize (sb, h))"
  by (simp add: linearize_def)

lemma getData_how:
  assumes "0 < sizeof_T"
  shows "snd (getData sizeof_T align_T (sb, h)) = (sb, h)
    \<or> 0 < usedSize sb \<and> snd (getData sizeof_T align_T (sb, h)) = snd (forceLinearize (sb, h))"
  using assms
  by (cases "front_needs_linearize sizeof_T align_T (sb, h)")
     (auto simp: getData_def seq_run branch_run split: outcome.splits prod.splits)

lemma getConstArray_how:
  assumes "offset + n < size_t_max"
  shows "snd (getConstArray offset n (sb, h)) = (sb, h)
    \<or> 0 < usedSize sb \<and> snd (getConstArray offset n (sb, h)) = snd (forceLinearize (sb, h))"
  using assms
  by (cases "usedSize sb = 0") (auto simp: getConstArray_def snd_forced split: option.splits)

lemma sb_step_inv:
  assumes inv: "sb_inv h sb" and cost: "totalSize sb + sb_cost x < size_t_max"
    and run: "snd (sb_step x (sb, h)) = (sb', h')" and pre: "sb_pre x (sb, h)"
  shows "sb_inv h' sb' \<and> totalSize sb' \<le> totalSize sb + sb_cost x"
proof (cases x)
  case (OpAllocate n)
  then have room: "totalSize sb + n + 8 \<le> size_t_max" using cost by simp
  show ?thesis
    using run OpAllocate inv by (cases rule: sb_allocate_cases [OF inv room]) auto
next
  case (OpIncreaseUsed n)
  have lt: "usedSize sb + n < size_t_max"
    using inv cost OpIncreaseUsed by (auto simp: sb_inv_def sb_sizes_def)
  show ?thesis
  proof (cases "n \<le> length (free_addrs sb)")
    case True
    then show ?thesis using run OpIncreaseUsed increaseUsed_ok [OF inv True] by auto
  next
    case False
    then have "totalSize sb < usedSize sb + n"
      using inv by (auto simp: sb_inv_def sb_sizes_def free_addrs_def)
    then show ?thesis using run OpIncreaseUsed inv lt by (simp add: increaseUsed_def)
  qed
next
  case (OpAppend xs)
  then have room: "totalSize sb + length xs + 8 \<le> size_t_max" using cost by simp
  show ?thesis
  proof (cases "xs \<noteq> [] \<or> free_addrs sb \<noteq> []")
    case True
    show ?thesis
      using run OpAppend inv by (cases rule: appendData_cases [OF inv room True]) auto
  next
    case False
    then show ?thesis using run OpAppend inv appendData_nothing [OF inv] by auto
  qed
next
  case (OpCut n)
  show ?thesis
  proof (cases "n \<le> totalSize sb")
    case True
    show ?thesis using run OpCut by (cases rule: cutHead_spec [OF inv True]) auto
  next
    case False
    then show ?thesis using run OpCut inv by (simp add: cutHead_def)
  qed
next
  case (OpSplice n)
  show ?thesis
  proof (cases "n \<le> totalSize sb")
    case True
    show ?thesis using run OpSplice by (cases rule: spliceHead_spec [OF inv True]) auto
  next
    case False
    then show ?thesis using run OpSplice inv by (simp add: spliceHead_def)
  qed
next
  case (OpMutableArray n)
  then have room: "totalSize sb + n + 8 \<le> size_t_max" using cost by simp
  show ?thesis
  proof (cases "n \<noteq> 0 \<or> free_addrs sb \<noteq> []")
    case True
    show ?thesis
    proof (cases rule: getMutableArray_cases [OF inv room True])
      case (1 p t ns)
      with run OpMutableArray have "sb' = t" "h' = h\<lparr>blocks := blocks h @ ns\<rparr>" by simp_all
      with 1(2,5) OpMutableArray show ?thesis by simp
    next
      case (2 t)
      with run OpMutableArray have "sb' = t" "h' = h" by simp_all
      with 2(2,4) show ?thesis by simp
    qed
  next
    case False
    then have z: "n = 0" "free_addrs sb = []" by auto
    then show ?thesis using run OpMutableArray inv getMutableArray_nothing [OF inv] by simp
  qed
next
  case OpUsedIOVec
  show ?thesis
    using run OpUsedIOVec inv by (cases rule: getUsedIOVec_cases [OF inv])
      (auto intro: sb_inv_other_fields)
next
  case OpFreeIOVec
  show ?thesis
    using run OpFreeIOVec inv by (cases rule: getFreeIOVec_cases [OF inv])
      (auto intro: sb_inv_other_fields)
next
  case (OpAppendBuffer other)
  then have other: "sb_inv h other" "set (used_addrs other) \<inter> set (free_addrs sb) = {}"
    "totalSize sb + usedSize other < size_t_max" using pre cost by simp_all
  show ?thesis
    using run OpAppendBuffer
    by (cases rule: appendStreamBuffer_spec [OF inv other(1) other(3) other(2)]) (auto)
next
  case (OpAssign other)
  then show ?thesis using run pre by (auto simp: sb_assign_def intro: sb_inv_other_fields)
next
  case OpCopy
  then show ?thesis using run inv by (auto simp: sb_copy_def intro: sb_inv_other_fields)
next
  case OpLinearize
  show ?thesis
    unfolding OpLinearize sb_cost.simps
    by (rule linearizing_inv [OF inv]) (use linearize_how [of sb h] OpLinearize run cost pre in auto)
next
  case (OpGetData sizeof_T align_T)
  show ?thesis
    unfolding OpGetData sb_cost.simps
    by (rule linearizing_inv [OF inv]) (use getData_how [of sizeof_T align_T sb h] OpGetData run cost pre in auto)
next
  case (OpConstArray offset n)
  show ?thesis
    unfolding OpConstArray sb_cost.simps
    by (rule linearizing_inv [OF inv]) (use getConstArray_how [of offset n sb h] OpConstArray run cost pre in auto)
qed

lemma sb_run_inv:
  assumes "sb_inv h sb" and "totalSize sb + sum_list (map sb_cost ops) < size_t_max"
    and "sb_run ops (sb, h) = (sb', h')" and "sb_client ops (sb, h)"
  shows "sb_inv h' sb'"
  using assms
proof (induction ops arbitrary: sb h)
  case Nil
  then show ?case by simp
next
  case (Cons x ops)
  obtain sb1 h1 where s: "snd (sb_step x (sb, h)) = (sb1, h1)" by (cases "snd (sb_step x (sb, h))")
  have "totalSize sb + sb_cost x < size_t_max" using Cons.prems(2) by simp
  from sb_step_inv [OF Cons.prems(1) this s] Cons.prems(4) have one: "sb_inv h1 sb1"
    "totalSize sb1 \<le> totalSize sb + sb_cost x" by simp_all
  show ?case
    by (rule Cons.IH [OF one(1)]) (use Cons.prems one(2) s in auto)
qed

section \<open>The interface to the sockets\<close>

text \<open>
  What a client that appends at the tail and removes what the kernel accepted at the head relies
  on. \<open>fits\<close> says that the sizes stay below \<open>2 ^ 64\<close>.
\<close>

locale byte_stream =
  fixes invar :: "'s \<Rightarrow> bool" and bytes :: "'s \<Rightarrow> byte list" and fits :: "'s \<Rightarrow> nat \<Rightarrow> bool"
    and append_op :: "byte list \<Rightarrow> ('s, unit) prog" and cut_op :: "nat \<Rightarrow> ('s, unit) prog"
  assumes append_spec: "invar s \<Longrightarrow> fits s (length xs) \<Longrightarrow> xs \<noteq> [] \<Longrightarrow> append_op xs s = (r, s') \<Longrightarrow>
      r = Ok () \<and> invar s' \<and> bytes s' = bytes s @ xs \<or> r = Throw BadAlloc \<and> s' = s"
    and cut_spec: "invar s \<Longrightarrow> n \<le> length (bytes s) \<Longrightarrow>
      \<exists>s'. cut_op n s = (Ok (), s') \<and> invar s' \<and> bytes s' = drop n (bytes s)"

text \<open>A sender: the kernel accepts at most \<open>k\<close> bytes in each round, which are then cut.\<close>

fun drain :: "('s \<Rightarrow> byte list) \<Rightarrow> (nat \<Rightarrow> ('s, unit) prog) \<Rightarrow> nat list \<Rightarrow> 's \<Rightarrow> byte list \<times> 's" where
  "drain bytes cut_op [] s = ([], s)"
| "drain bytes cut_op (k # ks) s =
     (let n = min k (length (bytes s)); rest = drain bytes cut_op ks (snd (cut_op n s))
      in (take n (bytes s) @ fst rest, snd rest))"

context byte_stream begin

lemma drain_conserves:
  assumes "invar s" and "drain bytes cut_op ks s = (sent, s')"
  shows "invar s' \<and> sent @ bytes s' = bytes s"
  using assms
proof (induction ks arbitrary: s sent s')
  case Nil
  then show ?case by simp
next
  case (Cons k ks)
  let ?n = "min k (length (bytes s))"
  from cut_spec [OF Cons.prems(1), of ?n] obtain s1 where s1: "cut_op ?n s = (Ok (), s1)"
    "invar s1" "bytes s1 = drop ?n (bytes s)" by auto
  obtain sent1 s2 where d: "drain bytes cut_op ks s1 = (sent1, s2)"
    by (cases "drain bytes cut_op ks s1")
  from Cons.IH [OF s1(2) d] have "invar s2" "sent1 @ bytes s2 = drop ?n (bytes s)"
    by (simp_all add: s1(3))
  then show ?case using Cons.prems(2) s1(1) d by (auto simp: Let_def)
qed

lemma append_then_drain:
  assumes "invar s" and "fits s (length xs)" and "xs \<noteq> []" and "append_op xs s = (Ok (), s1)"
    and "drain bytes cut_op ks s1 = (sent, s2)"
  shows "sent @ bytes s2 = bytes s @ xs"
  using append_spec [OF assms(1-4)] drain_conserves [OF _ assms(5)] by auto

end

definition sb_fits :: "sb_state \<Rightarrow> nat \<Rightarrow> bool" where
  "sb_fits s n \<longleftrightarrow> totalSize (fst s) + n + 8 \<le> size_t_max"

interpretation sbi: byte_stream "\<lambda>(sb, h). sb_inv h sb" "\<lambda>(sb, h). content h sb" sb_fits appendData
  cutHead
proof (unfold_locales, goal_cases)
  case (1 s xs r s')
  obtain sb h where s: "s = (sb, h)" by (cases s)
  from 1 s have inv: "sb_inv h sb" and room: "totalSize sb + length xs + 8 \<le> size_t_max"
    and ne: "xs \<noteq> [] \<or> free_addrs sb \<noteq> []" by (simp_all add: sb_fits_def)
  show ?case using 1(4) s by (cases rule: appendData_cases [OF inv room ne]) auto
next
  case (2 s n)
  obtain sb h where s: "s = (sb, h)" by (cases s)
  from 2 s have inv: "sb_inv h sb" by simp
  have "n \<le> totalSize sb"
    using 2(2) s inv by (auto simp: sb_inv_def length_content sb_sizes_def)
  then show ?case using s by (cases rule: cutHead_spec [OF inv]) auto
qed

end
