(* ===== verification/StreamBufferThms.thy ===== *)
theory StreamBufferThms
  imports StreamBufferProps
begin

text \<open>
  The properties of \<open>StreamBuffer\<close>: what each operation does to the bytes of the stream buffer and
  of the others that share its arrays, and the inputs on which the operations misbehave.
\<close>

section \<open>Properties\<close>

text \<open>A concrete heap for the examples: nothing allocated, every allocation succeeds.\<close>

definition heap0 :: heap where
  "heap0 = \<lparr>mem = (\<lambda>_. 0), blocks = [], base_addr = (\<lambda>b. 4096 * b), can_alloc = (\<lambda>_ _. True)\<rparr>"

lemmas sb_eval = heap0_def sb_empty_def appendData_def sb_allocate_def new_buffer_def align_up_def
  buffer_align_to_def getFreeSize_def seq_run findFirstUnused_def increaseUsed_def plus64_def
  minus64_def size_t_max_def sizeLeftInBuffer_def pointerInBuffer_def incrementPointer_def
  buf_data_def cutHead_def buffer_rest_def buffer_head_def getMutableArray_def
  getMutableArrayFirstUnusedBufferTooSmall_def truncateUnused_def getMutableArrayNoFreeBuffers_def
  discard_def bnd_run

text \<open>The loops on positive numerals.\<close>

lemma loops_pos:
  "0 < n \<Longrightarrow> cut_loop (b # bs) n = (if buf_size b \<le> n then cut_loop bs (n - buf_size b)
     else Some (buffer_rest n b # bs))"
  "0 < n \<Longrightarrow> splice_loop (b # bs) n acc =
     (if buf_size b \<le> n then splice_loop bs (n - buf_size b) (acc @ [b])
      else Some (acc @ [buffer_head n b], buffer_rest n b # bs))"
  "0 < n \<Longrightarrow> findLocation (b # bs) n = (if buf_size b > n then Some (0, n)
     else map_option (\<lambda>(i, off). (Suc i, off)) (findLocation bs (n - buf_size b)))"
  "0 < n \<Longrightarrow> share_loop (b # bs) n =
     map_option (Cons (buffer_head (min n (buf_size b)) b)) (share_loop bs (n - min n (buf_size b)))"
  "0 < n \<Longrightarrow> linearize_loop (b # bs) n p h =
     linearize_loop bs (n - min n (buf_size b)) (incrementPointer p (min n (buf_size b)))
       (poke h p (peek h (buf_data b) (min n (buf_size b))))"
  by (cases n; simp add: Let_def)+

lemmas content_eval = content_def used_addrs_def list_addrs_def buf_addrs_def range_addrs_def

text \<open>A stream buffer of two buffers, 16 and 104 bytes, of which 12 bytes are used.\<close>

definition sb_ex :: sb_state where
  "sb_ex = (\<lparr>buffers = [\<lparr>buf_base = 0, buf_off = 0, buf_size = 16\<rparr>,
       \<lparr>buf_base = 1, buf_off = 0, buf_size = 104\<rparr>], usedSize = 12, totalSize = 120, iovecArray = []\<rparr>,
     heap0\<lparr>blocks := [16, 104], mem := (\<lambda>(b, i). if b = 0 then of_nat (i + 1) else 0)\<rparr>)"

lemma sb_ex_eval:
  "buffers (fst sb_ex) = [\<lparr>buf_base = 0, buf_off = 0, buf_size = 16\<rparr>, \<lparr>buf_base = 1, buf_off = 0, buf_size = 104\<rparr>]"
  "usedSize (fst sb_ex) = 12" "totalSize (fst sb_ex) = 120" "blocks (snd sb_ex) = [16, 104]"
  "can_alloc (snd sb_ex) = (\<lambda>_ _. True)" "base_addr (snd sb_ex) = (\<lambda>b. 4096 * b)"
  by (simp_all add: sb_ex_def heap0_def)

lemma sb_ex_addrs:
  "used_addrs (fst sb_ex) = map (Pair 0) [0..<12]"
  "free_addrs (fst sb_ex) = map (Pair 0) [12..<16] @ map (Pair 1) [0..<104]"
  by (simp_all add: used_addrs_def free_addrs_def sb_ex_eval buf_addrs_def range_addrs_def buf_data_def
      take_map drop_map drop_upt take_upt)

lemma sb_ex_inv: "sb_inv (snd sb_ex) (fst sb_ex)"
  by (auto simp: sb_inv_def sb_sizes_def sb_ex_addrs sb_ex_eval size_t_max_def buf_valid_def distinct_map
      inj_on_def)

lemma sb_ex_content: "content (snd sb_ex) (fst sb_ex) = [1, 2, 3, 4, 5, 6, 7, 8, 9, 10, 11, 12]"
  by (simp add: content_def sb_ex_addrs) (simp add: sb_ex_def upt_rec)

text \<open>The same stream buffer with its second buffer removed, so that the data reaches into the last.\<close>

definition sb_cut_last :: "sb_state \<Rightarrow> sb_state" where
  "sb_cut_last s = ((fst s)\<lparr>buffers := butlast (buffers (fst s)),
     totalSize := totalSize (fst s) - buf_size (last (buffers (fst s)))\<rparr>, snd s)"

lemma sb_ex_cut_eval:
  "buffers (fst (sb_cut_last sb_ex)) = [\<lparr>buf_base = 0, buf_off = 0, buf_size = 16\<rparr>]"
  "usedSize (fst (sb_cut_last sb_ex)) = 12" "getUsedSize (fst (sb_cut_last sb_ex)) = 12"
  "content (snd (sb_cut_last sb_ex)) (fst (sb_cut_last sb_ex)) = [1, 2, 3, 4, 5, 6, 7, 8, 9, 10, 11, 12]"
  "ends_in_last (fst (sb_cut_last sb_ex))"
  using sb_ex_content
  by (simp_all add: sb_cut_last_def sb_ex_eval getUsedSize_def content_def used_addrs_def buf_addrs_def
      ends_in_last_def)

lemma sb_ex_cut_inv: "sb_inv (snd (sb_cut_last sb_ex)) (fst (sb_cut_last sb_ex))"
proof -
  have "used_addrs (fst (sb_cut_last sb_ex)) = map (Pair 0) [0..<12]"
    "free_addrs (fst (sb_cut_last sb_ex)) = map (Pair 0) [12..<16]"
    by (simp_all add: used_addrs_def free_addrs_def sb_ex_cut_eval buf_addrs_def range_addrs_def
        buf_data_def take_map drop_map drop_upt take_upt)
  then show ?thesis
    by (auto simp: sb_inv_def sb_sizes_def size_t_max_def buf_valid_def sb_cut_last_def sb_ex_eval
        distinct_map inj_on_def)
qed

text \<open>The state after appending 8 bytes to a new stream buffer, allocating 100 and cutting 4: the
  first buffer is used to its end, and unaligned, and the second one is wholly free.\<close>

definition sb_ex2 :: sb_state where
  "sb_ex2 = sb_run [OpAppend [1, 2, 3, 4, 5, 6, 7, 8], OpAllocate 100, OpCut 4] (sb_empty, heap0)"

lemma sb_ex2_eval:
  "buffers (fst sb_ex2) = [\<lparr>buf_base = 0, buf_off = 4, buf_size = 4\<rparr>, \<lparr>buf_base = 1, buf_off = 0, buf_size = 104\<rparr>]"
  "usedSize (fst sb_ex2) = 4" "blocks (snd sb_ex2) = [8, 104]"
  "can_alloc (snd sb_ex2) = (\<lambda>_ _. True)" "base_addr (snd sb_ex2) = (\<lambda>b. 4096 * b)"
  "mem (snd sb_ex2) = write_at (\<lambda>_. 0) (map (Pair 0) [0..<8]) [1, 2, 3, 4, 5, 6, 7, 8]"
  by (simp_all add: sb_ex2_def sb_eval loops_pos poke_write_at range_addrs_def) (simp add: upt_rec)

lemma sb_ex2_content: "content (snd sb_ex2) (fst sb_ex2) = [5, 6, 7, 8]"
  by (simp add: sb_ex2_eval content_def used_addrs_def buf_addrs_def range_addrs_def buf_data_def upt_rec)

lemma sb_ex2_inv: "sb_inv (snd sb_ex2) (fst sb_ex2)"
proof -
  have "sb_run [OpAppend [1, 2, 3, 4, 5, 6, 7, 8], OpAllocate 100, OpCut 4] (sb_empty, heap0)
      = (fst sb_ex2, snd sb_ex2)" by (simp add: sb_ex2_def)
  from sb_run_inv [OF sb_empty_inv _ this] show ?thesis by (simp add: sb_empty_def size_t_max_def)
qed

text \<open>
  C1: whatever sequence of operations is run on a new stream buffer (every operation that changes one:
  allocations, appends of data and of other stream buffers, cuts, splices, array requests, typed
  reads, linearizations, copies, assignments, IO vector builds), and whichever allocations fail, the
  representation invariant holds afterwards: the size fields agree with the buffer list, every
  buffer lies inside its array, and no free byte is also a used byte or listed twice. The client
  must see to two things (\<open>sb_client\<close>): the data of an appended stream buffer does not lie in the free
  space of this one, and no operation that may linearize is called when there is data and the last
  buffer is wholly free; \<open>linearize_loses_data\<close> shows what happens otherwise.
\<close>

theorem sb_representation_invariant:
  assumes "sum_list (map sb_cost ops) < size_t_max" and "sb_client ops (sb_empty, h)"
    and "sb_run ops (sb_empty, h) = (sb', h')"
  shows "sb_inv h' sb'"
  using sb_run_inv [OF sb_empty_inv _ assms(3,2)] assms(1) by (simp add: sb_empty_def)

theorem sb_representation_invariant_witness:
  "\<exists>sb' h'. sb_run [OpAppend [1, 2, 3], OpAllocate 9, OpMutableArray 5, OpCut 4, OpCopy, OpAppendBuffer sb_empty] (sb_empty, heap0)
      = (sb', h') \<and> usedSize sb' = 4 \<and> sb_inv h' sb'"
proof -
  let ?ops = "[OpAppend [1, 2, 3], OpAllocate 9, OpMutableArray 5, OpCut 4, OpCopy, OpAppendBuffer sb_empty]"
  obtain sb' h' where r: "sb_run ?ops (sb_empty, heap0) = (sb', h')"
    by (cases "sb_run ?ops (sb_empty, heap0)")
  moreover have "sum_list (map sb_cost ?ops) < size_t_max" by (simp add: sb_empty_def size_t_max_def)
  moreover have "sb_pre (OpAppendBuffer sb_empty) s" for s
    by (cases s) (simp add: sb_empty_inv, simp add: sb_empty_def used_addrs_def)
  then have "sb_client ?ops (sb_empty, heap0)" by simp
  ultimately have "sb_inv h' sb'" using sb_representation_invariant by blast
  moreover have "usedSize (fst (sb_run ?ops (sb_empty, heap0))) = 4"
    by (simp add: sb_eval loops_pos sb_copy_def appendStreamBuffer_def split_at_location_def sizeLeftInBuffer_def)
  ultimately show ?thesis using r by auto
qed

text \<open>
  C2: \<open>appendData\<close> appends exactly the given bytes; when an allocation fails it throws
  \<open>std::bad_alloc\<close> and changes nothing. Another stream buffer keeps its content provided its bytes
  avoid the free space of this one, also when the two share arrays; for two copies that share free
  space \<open>copies_overwrite_each_other\<close> shows that it does not. Appending nothing is included unless
  there is no free space, when the code dereferences \<open>end()\<close> of its list.
\<close>

theorem appendData_correct:
  assumes "sb_inv h sb" and "totalSize sb + length data + 8 \<le> size_t_max" and "data \<noteq> [] \<or> 0 < getFreeSize sb"
    and "appendData data (sb, h) = (r, (sb', h'))"
  shows "(r = Ok () \<and> sb_inv h' sb' \<and> content h' sb' = content h sb @ data
        \<and> getUsedSize sb' = getUsedSize sb + length data
        \<and> (\<forall>other. sb_inv h other \<and> set (used_addrs other) \<inter> set (free_addrs sb) = {} \<longrightarrow>
             content h' other = content h other))
     \<or> (r = Throw BadAlloc \<and> sb' = sb \<and> h' = h)"
proof -
  have "getFreeSize sb = length (free_addrs sb)" using assms(1) by (simp add: sb_sizes_free sb_inv_def)
  with assms(3) have ne: "data \<noteq> [] \<or> free_addrs sb \<noteq> []" by auto
  show ?thesis
  proof (cases rule: appendData_cases [OF assms(1,2) ne])
    case (1 t g ns as)
    have "content h' other = content h other"
      if "sb_inv h other" "set (used_addrs other) \<inter> set (free_addrs sb) = {}" for other
    proof -
      have "set (used_addrs other) \<inter> set as = {}"
        using inv_addrs_old [OF that(1)] set_used_free [of other] that(2) 1(6)
        by (metis (no_types, lifting) UnCI disjoint_iff less_irrefl)
      then show ?thesis
        using 1(1,5) assms(4) by (simp add: content_def write_at_disjoint)
    qed
    with 1 assms(4) show ?thesis by (simp add: getUsedSize_def)
  next
    case 2
    with assms(4) show ?thesis by simp
  qed
qed

theorem appendData_correct_witness:
  "\<exists>sb' h'. appendData [1, 2, 3] (sb_empty, heap0) = (Ok (), (sb', h'))
     \<and> content h' sb' = content heap0 sb_empty @ [1, 2, 3]"
proof -
  obtain r sb' h' where run: "appendData [1, 2, 3] (sb_empty, heap0) = (r, (sb', h'))"
    by (metis surj_pair)
  have "fst (appendData [1, 2, 3] (sb_empty, heap0)) = Ok ()"
    by (simp add: sb_eval loops_pos)
  with run appendData_correct [OF sb_empty_inv _ _ run] show ?thesis
    by (simp add: sb_empty_def size_t_max_def)
qed

text \<open>
  A sender that appends data and then, as often as the kernel accepts some of it, removes what
  was accepted, sends the bytes in order: what it sent followed by what is still buffered is the
  old content followed by the new data, however the kernel splits it.
\<close>

theorem append_then_partial_sends:
  assumes "sb_inv h sb" and "totalSize sb + length data + 8 \<le> size_t_max" and "data \<noteq> []"
    and "appendData data (sb, h) = (Ok (), s1)"
    and "drain (\<lambda>(sb, h). content h sb) cutHead accepted s1 = (sent, (sb2, h2))"
  shows "sent @ content h2 sb2 = content h sb @ data"
  using sbi.append_then_drain [of "(sb, h)" data s1 accepted sent "(sb2, h2)"] assms
  by (simp add: sb_fits_def)

theorem append_then_partial_sends_witness:
  "\<exists>sb2 h2 sent. drain (\<lambda>(sb, h). content h sb) cutHead [2, 4]
      (snd (appendData [1, 2, 3, 4, 5, 6, 7] (sb_empty, heap0))) = (sent, (sb2, h2))
     \<and> sent @ content h2 sb2 = [1, 2, 3, 4, 5, 6, 7]"
proof -
  let ?d = "[1, 2, 3, 4, 5, 6, 7] :: byte list"
  obtain s1 where s1: "appendData ?d (sb_empty, heap0) = (Ok (), s1)"
    by (simp add: sb_eval loops_pos)
  obtain sent sb2 h2 where d: "drain (\<lambda>(sb, h). content h sb) cutHead [2, 4] s1 = (sent, (sb2, h2))"
    by (metis surj_pair)
  have "sent @ content h2 sb2 = content heap0 sb_empty @ ?d"
    by (rule append_then_partial_sends [OF sb_empty_inv _ _ s1 d])
       (simp_all add: sb_empty_def size_t_max_def)
  with s1 d show ?thesis by (simp add: sb_empty_def content_def used_addrs_def)
qed

text \<open>
  C3: \<open>spliceHead n\<close> moves the first \<open>n\<close> bytes (data first, then free space) into a new stream
  buffer: no byte is lost, copied or reordered, both parts satisfy the invariant, and a request for
  more than \<open>getTotalSize()\<close> throws \<open>Underflow\<close> and changes nothing.
\<close>

theorem spliceHead_splits:
  assumes "sb_inv h sb"
  shows "case spliceHead n (sb, h) of
      (Ok front, (rest, h')) \<Rightarrow> n \<le> getTotalSize sb \<and> h' = h \<and> sb_inv h front \<and> sb_inv h rest
        \<and> content h front = take n (content h sb) \<and> content h rest = drop n (content h sb)
        \<and> used_addrs front @ used_addrs rest = used_addrs sb
        \<and> free_addrs front @ free_addrs rest = free_addrs sb \<and> getTotalSize front = n
    | (r, s') \<Rightarrow> getTotalSize sb < n \<and> r = Throw BufferUnderflow \<and> s' = (sb, h)"
proof (cases "n \<le> totalSize sb")
  case True
  show ?thesis
  proof (cases rule: spliceHead_spec [OF assms True])
    case (1 front rest)
    then show ?thesis using True by (simp add: getTotalSize_def content_def take_map drop_map)
  qed
next
  case False
  then show ?thesis by (simp add: spliceHead_def getTotalSize_def)
qed

theorem spliceHead_splits_witness:
  "\<exists>front rest. spliceHead 5 sb_ex = (Ok front, (rest, snd sb_ex))
     \<and> content (snd sb_ex) front = [1, 2, 3, 4, 5]"
  using spliceHead_splits [OF sb_ex_inv, of 5] sb_ex_content
  by (auto simp: getTotalSize_def sb_ex_eval split: prod.splits outcome.splits)

text \<open>
  C4: \<open>appendStreamBuffer\<close> makes the bytes of the other stream buffer appear at the end, by sharing its
  arrays: no byte of memory is written (so the other stream buffer and all its copies keep their
  content), the free space is the same addresses as before, and the invariant holds, provided the
  data of the other stream buffer does not lie in the free space of this one.
\<close>

theorem appendStreamBuffer_correct:
  assumes "sb_inv h this" and "sb_inv h sb" and "getTotalSize this + getUsedSize sb < size_t_max"
    and "set (used_addrs sb) \<inter> set (free_addrs this) = {}"
  shows "\<exists>this'. appendStreamBuffer sb (this, h) = (Ok (), (this', h)) \<and> sb_inv h this'
     \<and> content h this' = content h this @ content h sb \<and> free_addrs this' = free_addrs this
     \<and> getUsedSize this' = getUsedSize this + getUsedSize sb"
proof (cases rule: appendStreamBuffer_spec [OF assms(1,2) _ assms(4)])
  case 1
  then show ?case using assms(3) by (simp add: getTotalSize_def getUsedSize_def)
next
  case (2 this')
  then show ?thesis by (simp add: content_def getUsedSize_def)
qed

theorem appendStreamBuffer_correct_witness:
  "\<exists>this'. appendStreamBuffer (fst sb_ex) sb_ex = (Ok (), (this', snd sb_ex))
     \<and> content (snd sb_ex) this' = content (snd sb_ex) (fst sb_ex) @ content (snd sb_ex) (fst sb_ex)"
  using appendStreamBuffer_correct [OF sb_ex_inv sb_ex_inv]
  by (force simp: sb_ex_addrs sb_ex_eval getTotalSize_def getUsedSize_def size_t_max_def)

text \<open>
  C5: the array \<open>getMutableArray n\<close> returns is \<open>n\<close> contiguous bytes that are the new tail of the
  data: after the caller fills it with any \<open>n\<close> bytes, the content is the old content followed by
  them, on each of the three branches of the code. When the allocation fails, \<open>std::bad_alloc\<close> is
  thrown and the content is as before (free space may have been given up).
\<close>

theorem getMutableArray_correct:
  assumes "sb_inv h sb" and "getTotalSize sb + n + 8 \<le> size_t_max" and "0 < n"
    and "getMutableArray n (sb, h) = (r, (sb', h'))"
  shows "case r of
      Ok p \<Rightarrow> sb_inv h' sb' \<and> content h' sb' = content h sb @ peek h' p n
        \<and> (\<forall>xs. length xs = n \<longrightarrow> content (poke h' p xs) sb' = content h sb @ xs)
    | _ \<Rightarrow> r = Throw BadAlloc \<and> sb_inv h' sb' \<and> content h' sb' = content h sb"
proof -
  from assms(3) have ne: "n \<noteq> 0 \<or> free_addrs sb \<noteq> []" by simp
  from assms(2) have room: "totalSize sb + n + 8 \<le> size_t_max" by (simp add: getTotalSize_def)
  show ?thesis
  proof (cases rule: getMutableArray_cases [OF assms(1) room ne])
    case (1 p t ns)
    have "set (used_addrs sb) \<inter> set (free_addrs sb) = {}" using assms(1) by (simp add: sb_inv_def)
    then have apart: "set (used_addrs sb) \<inter> set (range_addrs p n) = {}"
      using 1(6) inv_addrs_old [OF assms(1)] set_used_free [of sb]
      by (metis (no_types, lifting) UnCI disjoint_iff less_irrefl)
    have "content (poke h' p xs) sb' = content h sb @ xs" if "length xs = n" for xs
      using 1(1,3) assms(4) that apart
      by (simp add: content_def poke_write_at write_at_disjoint write_at_same)
    with 1 assms(4) show ?thesis by (simp add: content_def peek_def)
  next
    case (2 t)
    with assms(4) show ?thesis by (auto simp: content_def)
  qed
qed

theorem getMutableArray_correct_witness:
  "\<exists>p sb' h'. getMutableArray 20 sb_ex = (Ok p, (sb', h'))
     \<and> content (poke h' p (replicate 20 9)) sb' = content (snd sb_ex) (fst sb_ex) @ replicate 20 9"
proof -
  obtain r sb' h' where run: "getMutableArray 20 (fst sb_ex, snd sb_ex) = (r, (sb', h'))"
    by (metis surj_pair)
  have "\<exists>p. fst (getMutableArray 20 (fst sb_ex, snd sb_ex)) = Ok p"
    by (simp del: prod.collapse add: sb_eval sb_ex_eval loops_pos)
  then obtain p where "r = Ok p" using run by auto
  with run getMutableArray_correct [OF sb_ex_inv _ _ run] show ?thesis
    by (simp add: getTotalSize_def sb_ex_eval size_t_max_def)
qed

text \<open>
  C6: the IO vectors handed to \<open>sendmsg\<close> and \<open>recvmsg\<close> are exact. The used vector covers a prefix of
  the data bytes and the free vector a prefix of the free space, in order; with at most \<open>IOV_MAX\<close>
  buffers they cover all of it, and they never have more than \<open>IOV_MAX\<close> elements. So a kernel that
  fills the free vector and a caller that then calls \<open>increaseUsed\<close> never touch data bytes.
\<close>

theorem iovecs_exact:
  assumes "sb_inv h sb"
  shows "\<exists>u f s1 s2 k m. getUsedIOVec (sb, h) = (Ok u, (s1, h)) \<and> getFreeIOVec (sb, h) = (Ok f, (s2, h))
     \<and> iov_addrs u = take k (used_addrs sb) \<and> iov_addrs f = take m (free_addrs sb)
     \<and> length u \<le> iov_max \<and> length f \<le> iov_max
     \<and> (length (buffers sb) \<le> iov_max \<longrightarrow>
          map (mem h) (iov_addrs u) = content h sb \<and> iov_addrs f = free_addrs sb)
     \<and> set (iov_addrs f) \<inter> set (used_addrs sb) = {}"
proof -
  obtain u k s1 where u: "getUsedIOVec (sb, h) = (Ok u, (s1, h))" "length u \<le> iov_max"
    "iov_addrs u = take k (used_addrs sb)" "length (buffers sb) \<le> iov_max \<Longrightarrow> k = usedSize sb"
    by (cases rule: getUsedIOVec_cases [OF assms]) blast
  obtain f m s2 where f: "getFreeIOVec (sb, h) = (Ok f, (s2, h))" "length f \<le> iov_max"
    "iov_addrs f = take m (free_addrs sb)" "length (buffers sb) \<le> iov_max \<Longrightarrow> iov_addrs f = free_addrs sb"
    by (cases rule: getFreeIOVec_cases [OF assms]) blast
  have "set (iov_addrs f) \<inter> set (used_addrs sb) = {}"
    using assms set_take_subset [of m "free_addrs sb"] by (auto simp: f(3) sb_inv_def)
  moreover have "length (buffers sb) \<le> iov_max \<longrightarrow> map (mem h) (iov_addrs u) = content h sb"
    using u(3,4) length_used_addrs assms by (simp add: content_def sb_inv_def)
  ultimately show ?thesis using u f by blast
qed

theorem iovecs_exact_witness:
  "\<exists>u f s1 s2. getUsedIOVec sb_ex = (Ok u, s1) \<and> getFreeIOVec sb_ex = (Ok f, s2)
     \<and> map (mem (snd sb_ex)) (iov_addrs u) = [1, 2, 3, 4, 5, 6, 7, 8, 9, 10, 11, 12]
     \<and> iov_addrs f = map (Pair 0) [12..<16] @ map (Pair 1) [0..<104]"
proof -
  have "length (buffers (fst sb_ex)) \<le> iov_max" by (simp add: sb_ex_eval iov_max_def)
  with iovecs_exact [OF sb_ex_inv] show ?thesis
    by (metis prod.collapse sb_ex_addrs(2) sb_ex_content)
qed

text \<open>
  \<open>getConstArray\<close> gives the caller contiguous access to any non-empty range of the data and
  changes no byte of it, whether it finds the range inside one buffer or linearizes first, provided
  the used data reaches into the last buffer. A range that ends past the data throws
  \<open>Overflow\<close> and changes nothing.
\<close>

theorem getConstArray_correct:
  assumes "sb_inv h sb" and "ends_in_last sb" and "0 < n" and "offset + n < size_t_max"
    and "getUsedSize sb + 7 < size_t_max" and "getConstArray offset n (sb, h) = (r, (sb', h'))"
  shows "case r of
      Ok p \<Rightarrow> offset + n \<le> getUsedSize sb \<and> sb_inv h' sb' \<and> content h' sb' = content h sb
        \<and> peek h' p n = take n (drop offset (content h sb))
    | _ \<Rightarrow> sb' = sb \<and> h' = h \<and> (r = Throw BufferOverflow \<and> getUsedSize sb < offset + n \<or> r = Throw BadAlloc)"
proof (cases "offset + n \<le> usedSize sb")
  case True
  have room: "usedSize sb + 7 < size_t_max" using assms(5) by (simp add: getUsedSize_def)
  show ?thesis
    by (cases rule: getConstArray_cases [OF assms(1) True assms(3,2) room])
       (use assms(6) True in \<open>auto simp: getUsedSize_def\<close>)
next
  case False
  then show ?thesis using assms(4,6) by (auto simp: getConstArray_def getUsedSize_def)
qed

theorem getConstArray_correct_witness:
  "\<exists>p s'. getConstArray 3 4 (sb_cut_last sb_ex) = (Ok p, s') \<and> peek (snd s') p 4 = [4, 5, 6, 7]"
proof -
  let ?s = "sb_cut_last sb_ex"
  have inv: "sb_inv (snd ?s) (fst ?s)" and us: "getUsedSize (fst ?s) = 12"
    and c: "content (snd ?s) (fst ?s) = [1, 2, 3, 4, 5, 6, 7, 8, 9, 10, 11, 12]"
    and last: "ends_in_last (fst ?s)"
    using sb_ex_cut_inv by (simp_all add: sb_ex_cut_eval)
  obtain r sb' h' where run: "getConstArray 3 4 (fst ?s, snd ?s) = (r, (sb', h'))"
    by (metis surj_pair)
  have "\<exists>p. fst (getConstArray 3 4 (fst ?s, snd ?s)) = Ok p"
    by (simp del: prod.collapse add: getConstArray_def sb_ex_cut_eval loops_pos sizeLeftInBuffer_def plus64_def size_t_max_def)
  then obtain p where r: "r = Ok p" using run by auto
  have "peek h' p 4 = take 4 (drop 3 (content (snd ?s) (fst ?s)))"
    using getConstArray_correct [OF inv last _ _ _ run] r us by (simp add: size_t_max_def)
  then show ?thesis using run r by (simp add: c)
qed

lemma appendData_in_free:
  assumes inv: "sb_inv h sb" and len: "length data \<le> length (free_addrs sb)" and ne: "data \<noteq> []"
  shows "appendData data (sb, h) = (Ok (), (sb\<lparr>usedSize := usedSize sb + length data\<rparr>,
     h\<lparr>mem := write_at (mem h) (take (length data) (free_addrs sb)) data\<rparr>))"
proof (cases rule: findFirstUnused_cases [OF inv])
  case 1
  with len ne show ?thesis by simp
next
  case (2 i off)
  let ?h = "h\<lparr>mem := write_at (mem h) (take (length data) (free_addrs sb)) data\<rparr>"
  have "sb_allocate (length data) (sb, h) = (Ok (), (sb, h))"
    using inv len by (simp add: sb_allocate_def sb_sizes_free sb_inv_def)
  moreover have "sb_inv ?h sb" using inv by (simp add: sb_inv_def buf_valid_def)
  from increaseUsed_ok(1) [OF this len] have "increaseUsed (length data) (sb, ?h)
      = (Ok (), (sb\<lparr>usedSize := usedSize sb + length data\<rparr>, ?h))" .
  ultimately show ?thesis
    using 2(1,2) copy_into_free [OF inv 2(1) _ len] by (simp add: appendData_def seq_run)
qed

text \<open>
  When the last buffer is wholly free, \<open>linearize\<close> loses the data. \<open>forceLinearize\<close> removes only
  the buffers it copied from, so the free buffer stays in front of the new one, and what the stream
  buffer then presents as its data starts with the bytes of that free buffer.
\<close>

theorem linearize_loses_data:
  assumes "sb_inv h sb" and "buffers sb = bs @ [fb]" and "length (list_addrs bs) = usedSize sb"
    and "ends_in_last (sb\<lparr>buffers := bs\<rparr>)" and "front_needs_linearize (usedSize sb) 8 (sb, h)"
    and "usedSize sb + 7 < size_t_max" and "can_alloc h = (\<lambda>_ _. True)"
  shows "\<exists>sb' h'. linearize (sb, h) = (Ok (), (sb', h')) \<and> usedSize sb' = usedSize sb
     \<and> content h' sb' = take (usedSize sb) (map (mem h) (buf_addrs fb) @ content h sb)"
proof (cases rule: new_buffer_cases [of "usedSize sb" h])
  case fail
  then show ?thesis using assms(7) by (simp add: new_buffer_def Let_def)
next
  case (ok nb)
  let ?n = "usedSize sb" let ?h = "h\<lparr>blocks := blocks h @ [align_up ?n]\<rparr>"
  let ?p = "buf_data nb" let ?as = "range_addrs ?p ?n"
  let ?h' = "?h\<lparr>mem := write_at (mem h) ?as (content h sb)\<rparr>"
  let ?sb' = "sb\<lparr>buffers := [fb, nb], totalSize := buf_size nb\<rparr>"
  have as: "?as = take ?n (buf_addrs nb)"
    using ok(2) align_up_bounds [OF assms(6)] by (simp add: buf_addrs_def take_range_addrs min_def)
  then have fresh: "a \<in> set ?as \<Longrightarrow> fst a = length (blocks h)" for a
    by (metis in_set_takeD new_buffer_fresh [OF ok(2)])
  then have apart: "set ?as \<inter> set (addrs sb) = {}"
    using inv_addrs_old [OF assms(1)] by (metis disjoint_iff less_irrefl)
  have used: "used_addrs sb = list_addrs bs" using assms(2,3) by (simp add: used_addrs_def)
  have pos: "0 < ?n" using assms(4) by (simp add: ends_in_last_def)
  have "linearize_loop (bs @ [fb, nb]) ?n ?p ?h = Some ([fb, nb],
     ?h\<lparr>mem := write_at (mem ?h) ?as (map (mem ?h) (take ?n (list_addrs bs)))\<rparr>)"
    using assms(2-4) apart by (intro linearize_loop_spec) (auto simp: ends_in_last_def)
  then have run: "linearize (sb, h) = (Ok (), (?sb', ?h'))"
    using ok(1) pos assms(2,3,5) used by (simp add: linearize_def forceLinearize_def content_def)
  have "set (buf_addrs fb) \<inter> set ?as = {}" using apart assms(2) by auto
  then have "map (mem ?h') (buf_addrs fb) = map (mem h) (buf_addrs fb)"
    by (simp add: write_at_disjoint)
  moreover have "map (mem ?h') ?as = content h sb"
    using assms(1) by (simp add: write_at_same length_content sb_inv_def)
  moreover have tk: "take ?n (buf_addrs fb @ buf_addrs nb) = take ?n (buf_addrs fb @ ?as)"
    unfolding as by (simp add: min_def)
  have "used_addrs ?sb' = take ?n (buf_addrs fb @ ?as)"
    unfolding tk [symmetric]
    by (simp add: used_addrs_def)
  then have "content ?h' ?sb' = take ?n (map (mem ?h') (buf_addrs fb) @ map (mem ?h') ?as)"
    by (simp only: content_def) (simp only: take_map [symmetric] map_append [symmetric])
  ultimately have "content ?h' ?sb' = take ?n (map (mem h) (buf_addrs fb) @ content h sb)"
    by (simp only:)
  with run show ?thesis by auto
qed

theorem linearize_loses_data_witness:
  "\<exists>s'. linearize sb_ex2 = (Ok (), s') \<and> content (snd sb_ex2) (fst sb_ex2) = [5, 6, 7, 8]
     \<and> content (snd s') (fst s') = [0, 0, 0, 0]"
proof -
  let ?fb = "\<lparr>buf_base = 1, buf_off = 0, buf_size = 104\<rparr>"
  have zero: "map (mem (snd sb_ex2)) (buf_addrs ?fb) = replicate 104 0"
    by (rule replicate_eqI) (auto simp: sb_ex2_eval set_buf_addrs image_iff)
  have "front_needs_linearize (usedSize (fst sb_ex2)) 8 (fst sb_ex2, snd sb_ex2)"
    "ends_in_last ((fst sb_ex2)\<lparr>buffers := [\<lparr>buf_base = 0, buf_off = 4, buf_size = 4\<rparr>]\<rparr>)"
    by (simp_all del: prod.collapse add: zero_less_numeral front_needs_linearize_def sb_ex2_eval machine_address_def
        buf_data_def ends_in_last_def)
  with linearize_loses_data [OF sb_ex2_inv, of "[\<lparr>buf_base = 0, buf_off = 4, buf_size = 4\<rparr>]" ?fb]
  have "\<exists>sb' h'. linearize sb_ex2 = (Ok (), (sb', h'))
      \<and> content h' sb' = take 4 (replicate 104 0 @ [5, 6, 7, 8])"
    unfolding zero sb_ex2_content prod.collapse sb_ex2_eval(2)
    by (fastforce simp: sb_ex2_eval size_t_max_def)
  then show ?thesis by (auto simp: sb_ex2_content numeral_eq_Suc)
qed

text \<open>
  \<open>increaseUsed\<close> on every argument. Without overflow it takes the bytes if there is room and
  throws \<open>Underflow\<close> otherwise; but the check adds in 64 bits, so an argument of at least
  \<open>2^64 - getUsedSize()\<close> wraps, passes it, and makes the used size smaller.
\<close>

theorem increaseUsed_total:
  assumes "sb_sizes sb" and "n < size_t_max"
  shows "increaseUsed n (sb, h) =
     (if size_t_max \<le> usedSize sb + n then (Ok (), (sb\<lparr>usedSize := usedSize sb + n - size_t_max\<rparr>, h))
      else if n \<le> getFreeSize sb then (Ok (), (sb\<lparr>usedSize := usedSize sb + n\<rparr>, h))
      else (Throw BufferUnderflow, (sb, h)))"
proof -
  have s: "usedSize sb \<le> totalSize sb" "totalSize sb < size_t_max"
    using assms(1) by (auto simp: sb_sizes_def)
  show ?thesis
  proof (cases "size_t_max \<le> usedSize sb + n")
    case True
    then have "plus64 (usedSize sb) n = usedSize sb + n - size_t_max"
      using s assms(2) by (simp add: plus64_def mod_if)
    then show ?thesis using True s assms(2) by (simp add: increaseUsed_def)
  next
    case False
    then show ?thesis using s by (auto simp: increaseUsed_def getFreeSize_def)
  qed
qed

theorem increaseUsed_total_witness:
  "fst (increaseUsed (size_t_max - 5) sb_ex) = Ok ()
     \<and> usedSize (fst (snd (increaseUsed (size_t_max - 5) sb_ex))) = 7"
  using increaseUsed_total [of "fst sb_ex" "size_t_max - 5" "snd sb_ex"] sb_ex_inv sb_ex_eval
  by (simp add: sb_inv_def size_t_max_def)

text \<open>
  The copy constructor shares the free space as well as the data. When the original and the
  copy both append (the same number of bytes, into free space they have), the second append
  overwrites the data the first one appended.
\<close>

theorem copies_overwrite_each_other:
  assumes "sb_inv h sb" and "xs \<noteq> []" and "length ys = length xs"
    and "length xs \<le> length (free_addrs sb)"
    and "appendData xs (sb, h) = (r1, (sb1, h1))" and "appendData ys (sb_copy sb, h1) = (r2, (sb2, h2))"
  shows "r1 = Ok () \<and> content h1 sb1 = content h sb @ xs
     \<and> r2 = Ok () \<and> content h2 sb2 = content h sb @ ys \<and> content h2 sb1 = content h sb @ ys"
proof -
  let ?n = "length xs" let ?as = "take ?n (free_addrs sb)"
  have cp: "free_addrs (sb_copy sb) = free_addrs sb" "used_addrs (sb_copy sb) = used_addrs sb"
    "buffers (sb_copy sb) = buffers sb" "usedSize (sb_copy sb) = usedSize sb"
    by (simp_all add: sb_copy_def free_addrs_def used_addrs_def)
  have one: "r1 = Ok ()" "sb1 = sb\<lparr>usedSize := usedSize sb + ?n\<rparr>"
    "h1 = h\<lparr>mem := write_at (mem h) ?as xs\<rparr>"
    using appendData_in_free [OF assms(1,4,2)] assms(5) by simp_all
  have inv: "sb_inv h1 (sb_copy sb)"
    using assms(1) cp one(3) by (simp add: sb_inv_def sb_sizes_def buf_valid_def sb_copy_def)
  have "ys \<noteq> []" using assms(2,3) by auto
  then have two: "r2 = Ok ()" "sb2 = (sb_copy sb)\<lparr>usedSize := usedSize sb + ?n\<rparr>"
    "h2 = h1\<lparr>mem := write_at (mem h1) ?as ys\<rparr>"
    using appendData_in_free [OF inv, of ys] assms(3,4,6) cp by simp_all
  have ua: "used_addrs sb1 = used_addrs sb @ ?as" "used_addrs sb2 = used_addrs sb @ ?as"
    using increaseUsed_ok(2) [OF assms(1,4)] cp by (simp_all add: one two used_addrs_def)
  have sep: "set (used_addrs sb) \<inter> set ?as = {}" "distinct ?as"
    using assms(1) set_take_subset [of ?n "free_addrs sb"] by (auto simp: sb_inv_def)
  have len: "length ?as = length xs" "length ?as = length ys" using assms(3,4) by simp_all
  have m: "mem h1 = write_at (mem h) ?as xs" "mem h2 = write_at (mem h1) ?as ys"
    by (simp_all add: one(3) two(3))
  have "map (mem h1) (used_addrs sb) = map (mem h) (used_addrs sb)" "map (mem h1) ?as = xs"
    unfolding m(1) by (rule write_at_disjoint [OF sep(1)], rule write_at_same [OF sep(2) len(1)])
  moreover have "map (mem h2) (used_addrs sb) = map (mem h1) (used_addrs sb)" "map (mem h2) ?as = ys"
    unfolding m(2) by (rule write_at_disjoint [OF sep(1)], rule write_at_same [OF sep(2) len(2)])
  ultimately show ?thesis by (simp only: one(1) two(1) content_def ua map_append simp_thms)
qed

theorem copies_overwrite_each_other_witness:
  "\<exists>sb1 h1 sb2 h2. appendData [77] sb_ex = (Ok (), (sb1, h1))
     \<and> appendData [88] (sb_copy (fst sb_ex), h1) = (Ok (), (sb2, h2))
     \<and> content h2 sb1 = content (snd sb_ex) (fst sb_ex) @ [88]"
proof -
  obtain r1 sb1 h1 where 1: "appendData [77] (fst sb_ex, snd sb_ex) = (r1, (sb1, h1))" by (metis surj_pair)
  obtain r2 sb2 h2 where 2: "appendData [88] (sb_copy (fst sb_ex), h1) = (r2, (sb2, h2))" by (metis surj_pair)
  show ?thesis
    using copies_overwrite_each_other [OF sb_ex_inv _ _ _ 1 2] 1 2 by (simp add: sb_ex_addrs)
qed

end
