(* ===== verification/TimerQueue.thy ===== *)
theory TimerQueue
  imports Prelude "HOL-Library.Multiset"
begin

text \<open>
  Model of \<open>src/lib/TimerQueue.cpp\<close> and \<open>src/lib/Timer.cpp\<close>.

  The queue is a \<open>std::multimap\<close> from the time of execution to the timer. Its iterators stay valid
  while other elements come and go, so an element is modelled with the identity of its node
  (\<open>node\<close>), and the \<open>position\<close> a timer keeps is \<open>Some\<close> such a node or \<open>None\<close> for \<open>end()\<close>. Timers are
  objects named by numbers. Times are counts of microseconds, the resolution of
  \<open>boost::posix_time::time_duration\<close>; its special values (infinities, not-a-date-time) are not
  modelled. The count is an unbounded integer here and an \<open>int64_t\<close> there: the two agree as long as
  the times stay below \<open>2 ^ 63\<close> microseconds, some 292 000 years.
\<close>

section \<open>Durations\<close>

datatype duration = Micros (ticks: int)

instantiation duration :: linorder
begin

definition less_eq_duration :: "duration \<Rightarrow> duration \<Rightarrow> bool" where
  "less_eq_duration a b \<longleftrightarrow> ticks a \<le> ticks b"

definition less_duration :: "duration \<Rightarrow> duration \<Rightarrow> bool" where
  "less_duration a b \<longleftrightarrow> ticks a < ticks b"

instance
  by standard (auto simp: less_eq_duration_def less_duration_def intro: duration.expand)

end

definition dur_add :: "duration \<Rightarrow> duration \<Rightarrow> duration" where
  "dur_add a b = Micros (ticks a + ticks b)"

definition dur_minus :: "duration \<Rightarrow> duration \<Rightarrow> duration" where
  "dur_minus a b = Micros (ticks a - ticks b)"

definition milliseconds :: "int \<Rightarrow> duration" where
  "milliseconds n = Micros (1000 * n)"

definition is_negative :: "duration \<Rightarrow> bool" where
  "is_negative d \<longleftrightarrow> ticks d < 0"

text \<open>\<open>total_milliseconds()\<close> is a C++ division, which rounds towards zero.\<close>

definition total_milliseconds :: "duration \<Rightarrow> int" where
  "total_milliseconds d = (if 0 \<le> ticks d then ticks d div 1000 else - (- ticks d div 1000))"

definition NO_TIMEOUT :: duration where
  "NO_TIMEOUT = milliseconds (-1)"

section \<open>The queue and the timers\<close>

record tentry =
  tte :: duration
  node :: nat
  owner :: nat

record 'c timer =
  position :: "nat option"
  timer_cb :: "'c option"

record 'c timer_queue =
  entries :: "tentry list"
  next_node :: nat
  timers :: "nat \<Rightarrow> 'c timer option"

definition tq_empty :: "'c timer_queue" where
  "tq_empty = \<lparr>entries = [], next_node = 0, timers = Map.empty\<rparr>"

text \<open>\<open>multimap::insert\<close> puts a new element after all elements with an equal key.\<close>

fun multimap_insert :: "tentry \<Rightarrow> tentry list \<Rightarrow> tentry list" where
  "multimap_insert e [] = [e]"
| "multimap_insert e (x # xs) = (if tte e < tte x then e # x # xs else x # multimap_insert e xs)"

fun multimap_find :: "nat \<Rightarrow> tentry list \<Rightarrow> tentry option" where
  "multimap_find n [] = None"
| "multimap_find n (x # xs) = (if node x = n then Some x else multimap_find n xs)"

fun multimap_erase :: "nat \<Rightarrow> tentry list \<Rightarrow> tentry list" where
  "multimap_erase n [] = []"
| "multimap_erase n (x # xs) = (if node x = n then xs else x # multimap_erase n xs)"

definition set_position :: "nat \<Rightarrow> nat option \<Rightarrow> 'c timer_queue \<Rightarrow> 'c timer_queue" where
  "set_position t p q = q\<lparr>timers := (timers q)(t := map_option (position_update (\<lambda>_. p)) (timers q t))\<rparr>"

text \<open>\<open>erase\<close> dereferences the iterator: a node that is not in the queue is undefined behaviour.\<close>

definition tq_erase :: "nat \<Rightarrow> ('c timer_queue, unit) prog" where
  "tq_erase n = (\<lambda>q. case multimap_find n (entries q) of
       None \<Rightarrow> (Undef, q)
     | Some e \<Rightarrow> (Ok (), (set_position (owner e) None q)\<lparr>entries := multimap_erase n (entries q)\<rparr>))"

definition popFirstTimerToExecute :: "('c timer_queue, nat option) prog" where
  "popFirstTimerToExecute = (\<lambda>q. case entries q of
       [] \<Rightarrow> (Ok None, q)
     | e # _ \<Rightarrow> seq (tq_erase (node e)) (ret (Some (owner e))) q)"

definition getTimeout :: "duration \<Rightarrow> 'c timer_queue \<Rightarrow> duration" where
  "getTimeout now q = (case entries q of
       [] \<Rightarrow> NO_TIMEOUT
     | e # _ \<Rightarrow> let timeout = dur_minus (tte e) now in
                if is_negative timeout then Micros 0 else timeout)"

definition tq_cancel :: "nat \<Rightarrow> ('c timer_queue, unit) prog" where
  "tq_cancel t = (\<lambda>q. case timers q t of
       None \<Rightarrow> (Undef, q)
     | Some tm \<Rightarrow> (case position tm of None \<Rightarrow> (Ok (), q) | Some n \<Rightarrow> tq_erase n q))"

definition tq_insert :: "nat \<Rightarrow> duration \<Rightarrow> 'c timer_queue \<Rightarrow> 'c timer_queue" where
  "tq_insert t d q = (set_position t (Some (next_node q)) q)
     \<lparr>entries := multimap_insert \<lparr>tte = d, node = next_node q, owner = t\<rparr> (entries q),
      next_node := Suc (next_node q)\<rparr>"

definition tq_schedule :: "duration \<Rightarrow> nat \<Rightarrow> duration \<Rightarrow> ('c timer_queue, unit) prog" where
  "tq_schedule now t timeout = seq (tq_cancel t) (modify_st (tq_insert t (dur_add now timeout)))"

definition isEmpty :: "'c timer_queue \<Rightarrow> bool" where
  "isEmpty q \<longleftrightarrow> entries q = []"

definition getScheduledTimerCount :: "'c timer_queue \<Rightarrow> nat" where
  "getScheduledTimerCount q = length (entries q)"

section \<open>Timer objects\<close>

definition timer_create :: "nat \<Rightarrow> 'c timer_queue \<Rightarrow> 'c timer_queue" where
  "timer_create t q = q\<lparr>timers := (timers q)(t \<mapsto> \<lparr>position = None, timer_cb = None\<rparr>)\<rparr>"

definition set_timer_cb :: "nat \<Rightarrow> 'c option \<Rightarrow> 'c timer_queue \<Rightarrow> 'c timer_queue" where
  "set_timer_cb t cb q = q\<lparr>timers := (timers q)(t := map_option (timer_cb_update (\<lambda>_. cb)) (timers q t))\<rparr>"

definition timer_schedule :: "duration \<Rightarrow> nat \<Rightarrow> duration \<Rightarrow> 'c option \<Rightarrow> ('c timer_queue, unit) prog" where
  "timer_schedule now t timeout cb = (case cb of
       None \<Rightarrow> throw NullCallback
     | Some c \<Rightarrow> seq (modify_st (set_timer_cb t (Some c))) (tq_schedule now t timeout))"

definition timer_cancel :: "nat \<Rightarrow> ('c timer_queue, unit) prog" where
  "timer_cancel t = seq (tq_cancel t) (modify_st (set_timer_cb t None))"

definition timer_destroy :: "nat \<Rightarrow> ('c timer_queue, unit) prog" where
  "timer_destroy t = seq (timer_cancel t) (modify_st (\<lambda>q. q\<lparr>timers := (timers q)(t := None)\<rparr>))"

definition isScheduled :: "nat \<Rightarrow> 'c timer_queue \<Rightarrow> bool" where
  "isScheduled t q \<longleftrightarrow> (case timers q t of None \<Rightarrow> False | Some tm \<Rightarrow> position tm \<noteq> None)"

text \<open>\<open>Timer::execute\<close> copies the callback, clears it and calls the copy: the result is the callback
  to call. Calling an empty \<open>std::function\<close> throws.\<close>

definition timer_execute :: "nat \<Rightarrow> ('c timer_queue, 'c) prog" where
  "timer_execute t = (\<lambda>q. case timers q t of
       None \<Rightarrow> (Undef, q)
     | Some tm \<Rightarrow> (case timer_cb tm of None \<Rightarrow> (Throw BadFunctionCall, q)
                  | Some c \<Rightarrow> (Ok c, set_timer_cb t None q)))"

section \<open>Well-formed queues\<close>

text \<open>
  The elements are in execution order, and the queue and the timers agree: a timer is at a
  position exactly when the element there is its own, and then it has a callback.
\<close>

definition linked :: "'c timer_queue \<Rightarrow> bool" where
  "linked q \<longleftrightarrow> distinct (map node (entries q)) \<and> (\<forall>e \<in> set (entries q). node e < next_node q)
     \<and> (\<forall>e \<in> set (entries q). \<exists>tm. timers q (owner e) = Some tm \<and> position tm = Some (node e)
          \<and> timer_cb tm \<noteq> None)
     \<and> (\<forall>t tm n. timers q t = Some tm \<longrightarrow> position tm = Some n \<longrightarrow>
          (\<exists>e \<in> set (entries q). node e = n \<and> owner e = t))"

definition tq_inv :: "'c timer_queue \<Rightarrow> bool" where
  "tq_inv q \<longleftrightarrow> sorted (map tte (entries q)) \<and> linked q"

lemma multimap_find_Some:
  "multimap_find n es = Some e \<Longrightarrow> e \<in> set es \<and> node e = n"
  by (induction es) (auto split: if_splits)

lemma multimap_find_in:
  "distinct (map node es) \<Longrightarrow> e \<in> set es \<Longrightarrow> multimap_find (node e) es = Some e"
  by (induction es) (auto simp: rev_image_eqI)

lemma multimap_erase_filter:
  "distinct (map node es) \<Longrightarrow> multimap_erase n es = filter (\<lambda>e. node e \<noteq> n) es"
proof (induction es)
  case (Cons x es)
  then show ?case by (auto simp: rev_image_eqI intro!: filter_True [symmetric])
qed simp

lemma multimap_erase_mem:
  "distinct (map node es) \<Longrightarrow> set (multimap_erase n es) = {e \<in> set es. node e \<noteq> n}"
  by (auto simp: multimap_erase_filter)

lemma set_multimap_insert [simp]: "set (multimap_insert e es) = insert e (set es)"
  by (induction es) auto

lemma distinct_multimap_insert:
  "distinct (map node (multimap_insert e es)) \<longleftrightarrow> distinct (node e # map node es)"
  by (induction es) auto

lemma sorted_multimap_insert:
  "sorted (map tte es) \<Longrightarrow> sorted (map tte (multimap_insert e es))"
  by (induction es) (auto simp: not_less intro: order.trans less_imp_le)

lemma timers_set_position [simp]:
  "timers (set_position t p q) = (timers q)(t := map_option (position_update (\<lambda>_. p)) (timers q t))"
  "entries (set_position t p q) = entries q" "next_node (set_position t p q) = next_node q"
  by (simp_all add: set_position_def)

lemma timers_set_cb [simp]:
  "timers (set_timer_cb t cb q) = (timers q)(t := map_option (timer_cb_update (\<lambda>_. cb)) (timers q t))"
  "entries (set_timer_cb t cb q) = entries q" "next_node (set_timer_cb t cb q) = next_node q"
  by (simp_all add: set_timer_cb_def)

lemma linkedI:
  assumes "distinct (map node (entries q))" and "\<And>e. e \<in> set (entries q) \<Longrightarrow> node e < next_node q"
    and "\<And>e. e \<in> set (entries q) \<Longrightarrow>
      \<exists>tm. timers q (owner e) = Some tm \<and> position tm = Some (node e) \<and> timer_cb tm \<noteq> None"
    and "\<And>t tm n. timers q t = Some tm \<Longrightarrow> position tm = Some n \<Longrightarrow>
      \<exists>e \<in> set (entries q). node e = n \<and> owner e = t"
  shows "linked q"
  using assms by (simp add: linked_def)

lemma linkedD:
  assumes "linked q"
  shows "distinct (map node (entries q))" "\<And>e. e \<in> set (entries q) \<Longrightarrow> node e < next_node q"
    "\<And>e. e \<in> set (entries q) \<Longrightarrow>
      \<exists>tm. timers q (owner e) = Some tm \<and> position tm = Some (node e) \<and> timer_cb tm \<noteq> None"
    "\<And>t tm n. timers q t = Some tm \<Longrightarrow> position tm = Some n \<Longrightarrow>
      \<exists>e \<in> set (entries q). node e = n \<and> owner e = t"
  using assms by (simp_all add: linked_def)

lemma linked_node_owner:
  assumes "linked q" and "e \<in> set (entries q)" and "f \<in> set (entries q)"
  shows "node e = node f \<longleftrightarrow> owner e = owner f"
proof
  assume "node e = node f"
  then have "e = f" using linkedD(1) [OF assms(1)] assms(2,3) by (auto simp: distinct_map dest: inj_onD)
  then show "owner e = owner f" by simp
next
  assume "owner e = owner f"
  then show "node e = node f"
    using linkedD(3) [OF assms(1,2)] linkedD(3) [OF assms(1,3)] by auto
qed

lemma linked_distinct_owner:
  assumes "linked q"
  shows "distinct (map owner (entries q))"
proof -
  have "inj_on owner (set (entries q))"
  proof (rule inj_onI)
    fix e f assume ef: "e \<in> set (entries q)" "f \<in> set (entries q)" "owner e = owner f"
    then have "node e = node f" using linked_node_owner [OF assms] by blast
    then show "e = f" using linkedD(1) [OF assms] ef by (auto simp: distinct_map dest: inj_onD)
  qed
  then show ?thesis using linkedD(1) [OF assms] by (simp add: distinct_map)
qed

text \<open>Erasing the element of a timer.\<close>

lemma tq_erase_spec:
  assumes "linked q" and "e \<in> set (entries q)"
  obtains q' where "tq_erase (node e) q = (Ok (), q')" "linked q'"
    "entries q' = filter (\<lambda>f. owner f \<noteq> owner e) (entries q)"
    "timers q' = (timers q)(owner e := map_option (position_update (\<lambda>_. None)) (timers q (owner e)))"
    "next_node q' = next_node q"
proof -
  let ?q' = "(set_position (owner e) None q)\<lparr>entries := multimap_erase (node e) (entries q)\<rparr>"
  have d: "distinct (map node (entries q))" using assms(1) by (simp add: linked_def)
  have es: "entries ?q' = filter (\<lambda>f. owner f \<noteq> owner e) (entries q)"
    using linked_node_owner [OF assms(1) _ assms(2)]
    by (simp add: multimap_erase_filter [OF d] cong: filter_cong)
  have "linked ?q'"
  proof (rule linkedI)
    show "distinct (map node (entries ?q'))" using d by (simp add: es distinct_map_filter)
    show "node f < next_node ?q'" if "f \<in> set (entries ?q')" for f
      using that linkedD(2) [OF assms(1)] by (simp add: es)
    show "\<exists>tm. timers ?q' (owner f) = Some tm \<and> position tm = Some (node f) \<and> timer_cb tm \<noteq> None"
      if "f \<in> set (entries ?q')" for f
      using that linkedD(3) [OF assms(1)] by (simp add: es)
    show "\<exists>f \<in> set (entries ?q'). node f = n \<and> owner f = t"
      if "timers ?q' t = Some tm" "position tm = Some n" for t tm n
      using that linkedD(4) [OF assms(1), of t] by (force simp: es split: if_splits)
  qed
  moreover have "tq_erase (node e) q = (Ok (), ?q')"
    by (simp add: tq_erase_def multimap_find_in [OF d assms(2)])
  ultimately show ?thesis using es by (intro that [of ?q']) simp_all
qed

lemma tq_cancel_spec:
  assumes "linked q" and "timers q t = Some tm"
  obtains q' where "tq_cancel t q = (Ok (), q')" "linked q'"
    "entries q' = filter (\<lambda>f. owner f \<noteq> t) (entries q)"
    "timers q' = (timers q)(t \<mapsto> tm\<lparr>position := None\<rparr>)" "next_node q' = next_node q"
proof (cases "position tm")
  case None
  then have "owner f \<noteq> t" if "f \<in> set (entries q)" for f
    using that assms by (auto simp: linked_def)
  then have "filter (\<lambda>f. owner f \<noteq> t) (entries q) = entries q" by (simp add: filter_id_conv)
  moreover have "tm\<lparr>position := None\<rparr> = tm" using None by simp
  ultimately show ?thesis
    using None assms by (intro that [of q]) (auto simp: tq_cancel_def)
next
  case (Some n)
  with assms obtain e where e: "e \<in> set (entries q)" "node e = n" "owner e = t"
    unfolding linked_def by blast
  show ?thesis
  proof (cases rule: tq_erase_spec [OF assms(1) e(1)])
    case (1 q')
    then show ?thesis using Some assms e by (intro that [of q']) (auto simp: tq_cancel_def)
  qed
qed

lemma linked_insert:
  assumes "linked q" and "timers q t = Some tm" and "position tm = None" and "timer_cb tm \<noteq> None"
  shows "linked (tq_insert t d q)"
proof -
  have no: "owner f \<noteq> t" if "f \<in> set (entries q)" for f
    using linkedD(3) [OF assms(1) that] assms(2,3) by auto
  show ?thesis
  proof (rule linkedI)
    show "distinct (map node (entries (tq_insert t d q)))"
      using linkedD(1,2) [OF assms(1)] by (force simp: tq_insert_def distinct_multimap_insert)
    show "node f < next_node (tq_insert t d q)" if "f \<in> set (entries (tq_insert t d q))" for f
      using that linkedD(2) [OF assms(1), of f] by (auto simp: tq_insert_def)
    show "\<exists>tm. timers (tq_insert t d q) (owner f) = Some tm \<and> position tm = Some (node f)
        \<and> timer_cb tm \<noteq> None" if "f \<in> set (entries (tq_insert t d q))" for f
      using that linkedD(3) [OF assms(1), of f] no assms(2,4) by (auto simp: tq_insert_def)
    show "\<exists>f \<in> set (entries (tq_insert t d q)). node f = n \<and> owner f = u"
      if "timers (tq_insert t d q) u = Some um" "position um = Some n" for u um n
      using that linkedD(4) [OF assms(1), of u] assms(2) by (auto simp: tq_insert_def split: if_splits)
  qed
qed

lemma linked_set_cb:
  assumes "linked q"
  shows "linked (set_timer_cb t (Some c) q)"
proof (rule linkedI)
  show "\<exists>tm. timers (set_timer_cb t (Some c) q) (owner e) = Some tm \<and> position tm = Some (node e)
      \<and> timer_cb tm \<noteq> None" if "e \<in> set (entries (set_timer_cb t (Some c) q))" for e
    using that linkedD(3) [OF assms, of e] by auto
  show "\<exists>e \<in> set (entries (set_timer_cb t (Some c) q)). node e = n \<and> owner e = u"
    if "timers (set_timer_cb t (Some c) q) u = Some tm" "position tm = Some n" for u tm n
    using that linkedD(4) [OF assms, of u] by (auto split: if_splits)
qed (use linkedD(1,2) [OF assms] in simp_all)

lemma linked_clear_cb:
  assumes "linked q" and "timers q t = Some tm" and "position tm = None"
  shows "linked (set_timer_cb t None q)"
proof (rule linkedI)
  show "\<exists>tm. timers (set_timer_cb t None q) (owner e) = Some tm \<and> position tm = Some (node e)
      \<and> timer_cb tm \<noteq> None" if "e \<in> set (entries (set_timer_cb t None q))" for e
    using that linkedD(3) [OF assms(1), of e] assms(2,3) by auto
  show "\<exists>e \<in> set (entries (set_timer_cb t None q)). node e = n \<and> owner e = u"
    if "timers (set_timer_cb t None q) u = Some tm" "position tm = Some n" for u tm n
    using that linkedD(4) [OF assms(1), of u] by (auto split: if_splits)
qed (use linkedD(1,2) [OF assms(1)] in simp_all)

section \<open>The operations keep the invariant\<close>

lemma tq_inv_linked: "tq_inv q \<Longrightarrow> linked q"
  by (simp add: tq_inv_def)

text \<open>\<open>Timer::schedule\<close>: the timer's element moves behind all elements with an equal time.\<close>

lemma timer_schedule_spec:
  assumes inv: "tq_inv q" and t: "timers q t = Some tm"
  obtains q' where "timer_schedule now t d (Some c) q = (Ok (), q')" "tq_inv q'"
    "entries q' = multimap_insert \<lparr>tte = dur_add now d, node = next_node q, owner = t\<rparr>
       (filter (\<lambda>e. owner e \<noteq> t) (entries q))"
    "timers q' = (timers q)(t \<mapsto> tm\<lparr>position := Some (next_node q), timer_cb := Some c\<rparr>)"
proof -
  let ?q1 = "set_timer_cb t (Some c) q" and ?tm = "tm\<lparr>timer_cb := Some c\<rparr>"
  have l1: "linked ?q1" and t1: "timers ?q1 t = Some ?tm"
    using inv t by (simp_all add: linked_set_cb tq_inv_def)
  from tq_cancel_spec [OF l1 t1] obtain q2 where q2: "tq_cancel t ?q1 = (Ok (), q2)" "linked q2"
    "entries q2 = filter (\<lambda>e. owner e \<noteq> t) (entries ?q1)"
    "timers q2 = (timers ?q1)(t \<mapsto> ?tm\<lparr>position := None\<rparr>)" "next_node q2 = next_node ?q1" .
  let ?q3 = "tq_insert t (dur_add now d) q2"
  have es: "entries ?q3 = multimap_insert \<lparr>tte = dur_add now d, node = next_node q, owner = t\<rparr>
       (filter (\<lambda>e. owner e \<noteq> t) (entries q))"
    using q2(3,5) by (simp add: tq_insert_def)
  have "linked ?q3" by (rule linked_insert [OF q2(2), of t "?tm\<lparr>position := None\<rparr>"]) (simp_all add: q2(4))
  moreover have "sorted (map tte (entries ?q3))"
    unfolding es using inv by (intro sorted_multimap_insert sorted_filter) (simp add: tq_inv_def)
  ultimately have "tq_inv ?q3" by (simp add: tq_inv_def)
  moreover have "timer_schedule now t d (Some c) q = (Ok (), ?q3)"
    using q2(1) by (simp add: timer_schedule_def tq_schedule_def seq_run)
  moreover have "timers ?q3 = (timers q)(t \<mapsto> tm\<lparr>position := Some (next_node q), timer_cb := Some c\<rparr>)"
    using q2(4,5) by (auto simp: tq_insert_def)
  ultimately show ?thesis using es by (intro that [of ?q3])
qed

lemma timer_cancel_spec:
  assumes inv: "tq_inv q" and t: "timers q t = Some tm"
  obtains q' where "timer_cancel t q = (Ok (), q')" "tq_inv q'"
    "entries q' = filter (\<lambda>e. owner e \<noteq> t) (entries q)"
    "timers q' = (timers q)(t \<mapsto> \<lparr>position = None, timer_cb = None\<rparr>)"
proof -
  from tq_cancel_spec [OF tq_inv_linked [OF inv] t] obtain q1 where q1: "tq_cancel t q = (Ok (), q1)"
    "linked q1" "entries q1 = filter (\<lambda>e. owner e \<noteq> t) (entries q)"
    "timers q1 = (timers q)(t \<mapsto> tm\<lparr>position := None\<rparr>)" .
  have "linked (set_timer_cb t None q1)"
    by (rule linked_clear_cb [OF q1(2), of t "tm\<lparr>position := None\<rparr>"]) (simp_all add: q1(4))
  moreover have "tm\<lparr>position := None, timer_cb := None\<rparr> = \<lparr>position = None, timer_cb = None\<rparr>" by simp
  ultimately show ?thesis
    using inv q1 by (intro that [of "set_timer_cb t None q1"])
      (auto simp: timer_cancel_def seq_run tq_inv_def intro: sorted_filter)
qed

text \<open>What a runner does with the first timer: pop it and execute its callback, which is returned.\<close>

definition pop_and_execute :: "('c timer_queue, (nat \<times> 'c) option) prog" where
  "pop_and_execute = bnd popFirstTimerToExecute (\<lambda>r. case r of
       None \<Rightarrow> ret None
     | Some t \<Rightarrow> bnd (timer_execute t) (\<lambda>c. ret (Some (t, c))))"

lemma pop_and_execute_empty:
  "entries q = [] \<Longrightarrow> pop_and_execute q = (Ok None, q)"
  by (simp add: pop_and_execute_def popFirstTimerToExecute_def bnd_run)

lemma pop_and_execute_spec:
  assumes inv: "tq_inv q" and es: "entries q = e # es"
  obtains q' c where "pop_and_execute q = (Ok (Some (owner e, c)), q')" "tq_inv q'" "entries q' = es"
    "timers q (owner e) = Some \<lparr>position = Some (node e), timer_cb = Some c\<rparr>"
    "timers q' = (timers q)(owner e \<mapsto> \<lparr>position = None, timer_cb = None\<rparr>)"
proof -
  have e: "e \<in> set (entries q)" using es by simp
  note lnk = tq_inv_linked [OF inv]
  from linkedD(3) [OF lnk e] obtain tm c where tm: "timers q (owner e) = Some tm"
    "position tm = Some (node e)" "timer_cb tm = Some c" by auto
  have tm_eq: "tm = \<lparr>position = Some (node e), timer_cb = Some c\<rparr>" using tm by (cases tm) simp
  have rest: "filter (\<lambda>f. owner f \<noteq> owner e) es = es"
    using linked_distinct_owner [OF lnk] es by (auto simp: filter_id_conv rev_image_eqI)
  from tq_erase_spec [OF lnk e] obtain q1 where q1: "tq_erase (node e) q = (Ok (), q1)" "linked q1"
    "entries q1 = filter (\<lambda>f. owner f \<noteq> owner e) (entries q)"
    "timers q1 = (timers q)(owner e := map_option (position_update (\<lambda>_. None)) (timers q (owner e)))" .
  have es1: "entries q1 = es" using q1(3) es rest by simp
  have t1: "timers q1 (owner e) = Some \<lparr>position = None, timer_cb = Some c\<rparr>"
    using q1(4) tm(1) tm_eq by simp
  have "linked (set_timer_cb (owner e) None q1)"
    by (rule linked_clear_cb [OF q1(2) t1]) simp
  moreover have "pop_and_execute q = (Ok (Some (owner e, c)), set_timer_cb (owner e) None q1)"
    using q1(1) es t1
    by (simp add: pop_and_execute_def popFirstTimerToExecute_def bnd_run seq_run timer_execute_def)
  ultimately show ?thesis
    using inv es es1 tm(1) tm_eq q1(4)
    by (intro that [of c "set_timer_cb (owner e) None q1"]) (auto simp: tq_inv_def)
qed

lemma timer_create_inv:
  assumes "tq_inv q" and "timers q t = None"
  shows "tq_inv (timer_create t q)"
proof -
  have l: "linked q" using assms(1) by (simp add: tq_inv_def)
  have "linked (timer_create t q)"
  proof (rule linkedI)
    show "\<exists>tm. timers (timer_create t q) (owner e) = Some tm \<and> position tm = Some (node e)
        \<and> timer_cb tm \<noteq> None" if "e \<in> set (entries (timer_create t q))" for e
      using that linkedD(3) [OF l, of e] assms(2) by (auto simp: timer_create_def)
    show "\<exists>e \<in> set (entries (timer_create t q)). node e = n \<and> owner e = u"
      if "timers (timer_create t q) u = Some tm" "position tm = Some n" for u tm n
      using that linkedD(4) [OF l, of u] by (auto simp: timer_create_def split: if_splits)
  qed (use linkedD(1,2) [OF l] in \<open>simp_all add: timer_create_def\<close>)
  then show ?thesis using assms(1) by (simp add: tq_inv_def timer_create_def)
qed

lemma tq_empty_inv: "tq_inv tq_empty"
  by (simp add: tq_inv_def linked_def tq_empty_def)

section \<open>Abstract specification\<close>

text \<open>
  The specification keeps the pending requests in the order they were made; the next timer is the
  first of a stable sort by time. Scheduling a timer again replaces its request.
\<close>

type_synonym 'c request = "nat \<times> duration \<times> 'c"

definition req_time :: "'c request \<Rightarrow> duration" where
  "req_time r = fst (snd r)"

datatype 'c tq_op = OpSchedule duration nat duration 'c | OpCancelTimer nat | OpPopAndExecute

fun tq_step :: "'c tq_op \<Rightarrow> ('c timer_queue, (nat \<times> 'c) option) prog" where
  "tq_step (OpSchedule now t d c) = seq (timer_schedule now t d (Some c)) (ret None)"
| "tq_step (OpCancelTimer t) = seq (timer_cancel t) (ret None)"
| "tq_step OpPopAndExecute = pop_and_execute"

fun spec_step :: "'c tq_op \<Rightarrow> 'c request list \<Rightarrow> (nat \<times> 'c) option \<times> 'c request list" where
  "spec_step (OpSchedule now t d c) l = (None, filter (\<lambda>r. fst r \<noteq> t) l @ [(t, dur_add now d, c)])"
| "spec_step (OpCancelTimer t) l = (None, filter (\<lambda>r. fst r \<noteq> t) l)"
| "spec_step OpPopAndExecute l = (case sort_key req_time l of
       [] \<Rightarrow> (None, l)
     | (t, d, c) # _ \<Rightarrow> (Some (t, c), filter (\<lambda>r. fst r \<noteq> t) l))"

fun op_timers :: "'c tq_op \<Rightarrow> nat set" where
  "op_timers (OpSchedule now t d c) = {t}"
| "op_timers (OpCancelTimer t) = {t}"
| "op_timers OpPopAndExecute = {}"

fun tq_run :: "'c tq_op list \<Rightarrow> 'c timer_queue \<Rightarrow> (nat \<times> 'c) option outcome list" where
  "tq_run [] q = []"
| "tq_run (x # xs) q = (let (r, q') = tq_step x q in r # tq_run xs q')"

fun spec_run :: "'c tq_op list \<Rightarrow> 'c request list \<Rightarrow> (nat \<times> 'c) option list" where
  "spec_run [] l = []"
| "spec_run (x # xs) l = (let (r, l') = spec_step x l in r # spec_run xs l')"

definition entry_request :: "'c timer_queue \<Rightarrow> tentry \<Rightarrow> 'c request" where
  "entry_request q e = (owner e, tte e, the (timer_cb (the (timers q (owner e)))))"

definition implements :: "'c timer_queue \<Rightarrow> 'c request list \<Rightarrow> bool" where
  "implements q l \<longleftrightarrow> tq_inv q \<and> map (entry_request q) (entries q) = sort_key req_time l"

text \<open>A stable insertion behind equal keys is the sort of the list with the element at the end.\<close>

fun insert_after :: "('a \<Rightarrow> 'b::linorder) \<Rightarrow> 'a \<Rightarrow> 'a list \<Rightarrow> 'a list" where
  "insert_after f x [] = [x]"
| "insert_after f x (y # ys) = (if f x < f y then x # y # ys else y # insert_after f x ys)"

lemma mset_insert_after [simp]: "mset (insert_after f x ys) = add_mset x (mset ys)"
  by (induction ys) auto

lemma set_insert_after [simp]: "set (insert_after f x ys) = insert x (set ys)"
  by (induction ys) auto

lemma sorted_insert_after: "sorted (map f ys) \<Longrightarrow> sorted (map f (insert_after f x ys))"
  by (induction ys) (auto simp: not_less intro: order.trans less_imp_le)

lemma insert_after_stable:
  "sorted (map f ys) \<Longrightarrow>
    filter (\<lambda>y. f y = k) (insert_after f x ys) = filter (\<lambda>y. f y = k) (ys @ [x])"
proof (induction ys)
  case (Cons a ys)
  show ?case
  proof (cases "f x < f a")
    case True
    then have "f y \<noteq> f x" if "y \<in> set (a # ys)" for y using that Cons.prems by auto
    then have "filter (\<lambda>y. f y = f x) (a # ys) = []" by (simp add: filter_empty_conv)
    then show ?thesis using True by (cases "k = f x") auto
  next
    case False
    then show ?thesis using Cons by simp
  qed
qed simp

lemma sort_key_snoc: "sort_key f (xs @ [x]) = insert_after f x (sort_key f xs)"
proof (rule properties_for_sort_key)
  show "mset (insert_after f x (sort_key f xs)) = mset (xs @ [x])" by simp
  show "sorted (map f (insert_after f x (sort_key f xs)))" by (simp add: sorted_insert_after)
  show "filter (\<lambda>y. f k = f y) (insert_after f x (sort_key f xs)) = filter (\<lambda>y. f k = f y) (xs @ [x])"
    if "k \<in> set (insert_after f x (sort_key f xs))" for k
    using insert_after_stable [of f "sort_key f xs" "f k" x] sort_key_stable [of f "f k" xs]
    by (simp add: eq_commute [of "f k"])
qed

lemma map_multimap_insert:
  assumes "\<And>x. x \<in> set (e # es) \<Longrightarrow> req_time (g x) = tte x"
  shows "map g (multimap_insert e es) = insert_after req_time (g e) (map g es)"
  using assms by (induction es) auto

lemma req_time_entry [simp]: "req_time (entry_request q e) = tte e"
  by (simp add: req_time_def entry_request_def)

lemma map_entry_filter:
  "map (entry_request q) (filter (\<lambda>e. owner e \<noteq> t) es) =
    filter (\<lambda>r. fst r \<noteq> t) (map (entry_request q) es)"
  by (induction es) (simp_all add: entry_request_def)

lemma entry_request_other:
  "timers q' = (timers q)(t := x) \<Longrightarrow> owner e \<noteq> t \<Longrightarrow> entry_request q' e = entry_request q e"
  by (simp add: entry_request_def)

lemma map_entry_request_other:
  "timers q' = (timers q)(t := x) \<Longrightarrow>
    map (entry_request q') (filter (\<lambda>e. owner e \<noteq> t) es) =
    map (entry_request q) (filter (\<lambda>e. owner e \<noteq> t) es)"
  by (rule map_cong) (auto intro: entry_request_other)

lemma map_entries_without:
  assumes "timers q' = (timers q)(t := x)" and "map (entry_request q) (entries q) = sort_key req_time l"
  shows "map (entry_request q') (filter (\<lambda>e. owner e \<noteq> t) (entries q)) =
    filter (\<lambda>r. fst r \<noteq> t) (sort_key req_time l)"
  by (rule trans [OF map_entry_request_other [OF assms(1)]]) (simp only: map_entry_filter assms(2))

lemma implements_step:
  assumes imp: "implements q l" and t: "\<forall>t \<in> op_timers x. timers q t \<noteq> None"
  obtains q' where "tq_step x q = (Ok (fst (spec_step x l)), q')" "implements q' (snd (spec_step x l))"
    "\<And>t. timers q' t = None \<longleftrightarrow> timers q t = None"
proof -
  have inv: "tq_inv q" and abs: "map (entry_request q) (entries q) = sort_key req_time l"
    using imp by (simp_all add: implements_def)
  show ?thesis
  proof (cases x)
    case (OpSchedule now t d c)
    with t obtain tm where "timers q t = Some tm" by auto
    from timer_schedule_spec [OF inv this, of now d c] obtain q' where
      q': "timer_schedule now t d (Some c) q = (Ok (), q')" "tq_inv q'"
      "entries q' = multimap_insert \<lparr>tte = dur_add now d, node = next_node q, owner = t\<rparr>
         (filter (\<lambda>e. owner e \<noteq> t) (entries q))"
      "timers q' = (timers q)(t \<mapsto> tm\<lparr>position := Some (next_node q), timer_cb := Some c\<rparr>)" .
    have "entry_request q' \<lparr>tte = dur_add now d, node = next_node q, owner = t\<rparr> = (t, dur_add now d, c)"
      by (simp add: entry_request_def q'(4))
    then have "map (entry_request q') (entries q') =
        insert_after req_time (t, dur_add now d, c) (filter (\<lambda>r. fst r \<noteq> t) (sort_key req_time l))"
      by (simp add: q'(3) map_multimap_insert map_entries_without [OF q'(4) abs])
    then have "implements q' (snd (spec_step x l))"
      using q'(2) OpSchedule by (simp add: implements_def sort_key_snoc filter_sort)
    then show ?thesis
      using q'(1,4) OpSchedule \<open>timers q t = Some tm\<close> by (intro that [of q']) (auto simp: seq_run)
  next
    case (OpCancelTimer t)
    with t obtain tm where "timers q t = Some tm" by auto
    from timer_cancel_spec [OF inv this] obtain q' where q': "timer_cancel t q = (Ok (), q')"
      "tq_inv q'" "entries q' = filter (\<lambda>e. owner e \<noteq> t) (entries q)"
      "timers q' = (timers q)(t \<mapsto> \<lparr>position = None, timer_cb = None\<rparr>)" .
    have "implements q' (snd (spec_step x l))"
      using q'(2) OpCancelTimer
      by (simp add: implements_def q'(3) map_entries_without [OF q'(4) abs] filter_sort)
    then show ?thesis
      using q'(1,4) OpCancelTimer \<open>timers q t = Some tm\<close> by (intro that [of q']) (auto simp: seq_run)
  next
    case OpPopAndExecute
    show ?thesis
    proof (cases "entries q")
      case Nil
      then show ?thesis
        using abs imp OpPopAndExecute pop_and_execute_empty [OF Nil] by (intro that [of q]) auto
    next
      case (Cons e es)
      from pop_and_execute_spec [OF inv Cons] obtain q' c where
        q': "pop_and_execute q = (Ok (Some (owner e, c)), q')" "tq_inv q'" "entries q' = es"
        "timers q (owner e) = Some \<lparr>position = Some (node e), timer_cb = Some c\<rparr>"
        "timers q' = (timers q)(owner e \<mapsto> \<lparr>position = None, timer_cb = None\<rparr>)" .
      have hd: "sort_key req_time l = (owner e, tte e, c) # map (entry_request q) es"
        using abs Cons q'(4) by (simp add: entry_request_def)
      have "distinct (map owner (entries q))" using inv by (simp add: tq_inv_def linked_distinct_owner)
      then have es: "filter (\<lambda>f. owner f \<noteq> owner e) (entries q) = es"
        using Cons by (auto simp: filter_id_conv rev_image_eqI)
      have "map (entry_request q') es = map (entry_request q) es"
        unfolding es [symmetric] by (rule map_entry_request_other [OF q'(5)])
      moreover have "filter (\<lambda>r. fst r \<noteq> owner e) (sort_key req_time l) = map (entry_request q) es"
        unfolding abs [symmetric] using es by (simp add: map_entry_filter [symmetric])
      ultimately have "implements q' (filter (\<lambda>r. fst r \<noteq> owner e) l)"
        using q'(2,3) by (simp add: implements_def filter_sort)
      then show ?thesis
        using q'(1,4,5) OpPopAndExecute hd by (intro that [of q']) auto
    qed
  qed
qed

lemma implements_run:
  assumes "implements q l" and "\<forall>x \<in> set xs. \<forall>t \<in> op_timers x. timers q t \<noteq> None"
  shows "tq_run xs q = map Ok (spec_run xs l)"
  using assms
proof (induction xs arbitrary: q l)
  case (Cons x xs)
  have "\<forall>t \<in> op_timers x. timers q t \<noteq> None" using Cons.prems(2) by simp
  from implements_step [OF Cons.prems(1) this] obtain q' where
    q': "tq_step x q = (Ok (fst (spec_step x l)), q')" "implements q' (snd (spec_step x l))"
    "\<And>t. timers q' t = None \<longleftrightarrow> timers q t = None" by blast
  have "\<forall>x \<in> set xs. \<forall>t \<in> op_timers x. timers q' t \<noteq> None" using Cons.prems(2) q'(3) by simp
  from Cons.IH [OF q'(2) this] show ?case by (simp add: q'(1) split: prod.splits)
qed simp

text \<open>The state after constructing the timers \<open>0, ..., n - 1\<close>.\<close>

definition tq_with :: "nat \<Rightarrow> 'c timer_queue" where
  "tq_with n = fold timer_create [0..<n] tq_empty"

lemma tq_with_fields:
  "entries (tq_with n) = []" "next_node (tq_with n) = 0"
  "timers (tq_with n) = (\<lambda>t. if t < n then Some \<lparr>position = None, timer_cb = None\<rparr> else None)"
  by (induction n) (auto simp: tq_with_def tq_empty_def timer_create_def)

lemma tq_with_implements: "implements (tq_with n) []"
  by (simp add: implements_def tq_inv_def linked_def tq_with_fields)

section \<open>Properties\<close>

text \<open>
  C7: timers run in the order of their times, and among equal times in the order they were
  scheduled; scheduling a timer again replaces its old request and cancelling removes it. For every
  sequence of \<open>schedule\<close>, \<open>cancel\<close> and pop-and-execute on existing timers the queue gives the
  answers of the specification, a stable sort of the pending requests, and no operation fails or
  uses a dangling position.
\<close>

theorem timers_run_in_order:
  assumes "\<forall>x \<in> set xs. op_timers x \<subseteq> {..<n}"
  shows "tq_run xs (tq_with n) = map Ok (spec_run xs [])"
  using assms by (intro implements_run [OF tq_with_implements]) (auto simp: tq_with_fields)

theorem timers_run_in_order_witness:
  "tq_run [OpSchedule (Micros 0) 0 (Micros 50) ''a'', OpSchedule (Micros 10) 1 (Micros 40) ''b'',
      OpSchedule (Micros 20) 2 (Micros 10) ''c'', OpSchedule (Micros 20) 0 (Micros 30) ''d'',
      OpPopAndExecute, OpPopAndExecute, OpPopAndExecute, OpPopAndExecute] (tq_with 3)
    = map Ok [None, None, None, None, Some (2, ''c''), Some (1, ''b''), Some (0, ''d''), None]"
  by (subst timers_run_in_order)
     (auto simp: dur_add_def req_time_def less_eq_duration_def)

text \<open>
  C8: the invariant that ties the queue to the timers (elements in execution order, each timer's
  \<open>position\<close> naming exactly its own element, a callback for every scheduled timer) survives every
  operation, and afterwards a timer is scheduled exactly when it owns one element of the queue.
\<close>

theorem timer_queue_invariant:
  assumes "tq_inv q" and "\<forall>t \<in> op_timers x. timers q t \<noteq> None" and "tq_step x q = (r, q')"
  shows "tq_inv q' \<and> (\<exists>v. r = Ok v)
     \<and> (\<forall>t. isScheduled t q' \<longleftrightarrow> t \<in> owner ` set (entries q'))
     \<and> distinct (map owner (entries q'))"
proof -
  have "implements q (map (entry_request q) (entries q))"
    using assms(1) by (simp add: implements_def tq_inv_def sort_key_id_if_sorted comp_def)
  from implements_step [OF this assms(2)] assms(3) have 1: "tq_inv q'" "\<exists>v. r = Ok v"
    by (auto simp: implements_def)
  have l: "linked q'" using 1(1) by (simp add: tq_inv_def)
  have "isScheduled t q' \<longleftrightarrow> t \<in> owner ` set (entries q')" for t
    using linkedD(3) [OF l] linkedD(4) [OF l, of t]
    by (fastforce simp: isScheduled_def split: option.splits)
  with 1 linked_distinct_owner [OF l] show ?thesis by blast
qed

theorem timer_queue_invariant_witness:
  "\<exists>q'. tq_step (OpSchedule (Micros 5) 0 (Micros 7) ''x'') (tq_with 1) = (Ok None, q')
     \<and> tq_inv q' \<and> isScheduled 0 q'"
proof -
  let ?x = "OpSchedule (Micros 5) 0 (Micros 7) ''x''"
  obtain r q' where run: "tq_step ?x (tq_with 1) = (r, q')" by (cases "tq_step ?x (tq_with 1)")
  have "tq_inv (tq_with 1 :: string timer_queue)" using tq_with_implements implements_def by blast
  then have "tq_inv q'"
    using timer_queue_invariant [OF _ _ run] by (simp add: tq_with_fields)
  moreover have "r = Ok None \<and> isScheduled 0 q'"
    using run by (auto simp: seq_run timer_schedule_def tq_schedule_def tq_cancel_def tq_with_fields
        tq_insert_def isScheduled_def)
  ultimately show ?thesis using run by auto
qed

text \<open>
  \<open>getTimeout\<close> is \<open>NO_TIMEOUT\<close> exactly for an empty queue; otherwise it is the time until the
  earliest timer, never negative, and \<open>0\<close> once that timer is due.
\<close>

theorem getTimeout_correct:
  assumes "tq_inv q"
  shows "(getTimeout now q = NO_TIMEOUT \<longleftrightarrow> isEmpty q)
     \<and> (\<not> isEmpty q \<longrightarrow> (\<exists>e \<in> set (entries q). (\<forall>f \<in> set (entries q). tte e \<le> tte f)
          \<and> getTimeout now q = Micros (max 0 (ticks (tte e) - ticks now))))"
proof (cases "entries q")
  case Nil
  then show ?thesis by (simp add: getTimeout_def isEmpty_def)
next
  case (Cons e es)
  have g: "getTimeout now q = Micros (max 0 (ticks (tte e) - ticks now))"
    using Cons by (simp add: getTimeout_def is_negative_def dur_minus_def max_def)
  have "\<forall>f \<in> set (entries q). tte e \<le> tte f" using assms Cons by (auto simp: tq_inv_def)
  then show ?thesis using Cons g by (auto simp: isEmpty_def NO_TIMEOUT_def milliseconds_def max_def)
qed

theorem getTimeout_correct_witness:
  "getTimeout (Micros 3) (tq_insert 0 (Micros 10) (set_timer_cb 0 (Some ''x'') (tq_with 1))) = Micros 7"
proof -
  let ?q = "tq_insert 0 (Micros 10) (set_timer_cb 0 (Some ''x'') (tq_with 1))"
  have "tq_inv ?q"
    by (auto simp: tq_inv_def linked_def tq_insert_def tq_with_fields split: if_splits)
  from getTimeout_correct [OF this, of "Micros 3"] show ?thesis
    by (simp add: isEmpty_def tq_insert_def tq_with_fields)
qed

end
