(* ===== verification/System.thy ===== *)
theory System
  imports Prelude
begin

text \<open>
  Model of \<open>src/lib/System.cpp\<close>, \<open>include/private/System.hpp\<close> and \<open>src/lib/SystemException.cpp\<close>.

  \<open>kernel\<close> is the operating system, an arbitrary record of system calls over an arbitrary state:
  each call returns its return value, \<open>errno\<close> and its output arguments. \<open>system\<close> is the class
  \<open>System\<close>, whose functions are all virtual: a record of programs, so that a component of the
  library takes any implementation of it, as its constructors do. \<open>the_system\<close> is the class itself,
  every function written over a kernel. The retry loop has fuel; \<open>tempFailureRetry_enough\<close> says how
  much is needed.
\<close>

section \<open>Constants\<close>

definition EINTR :: int where "EINTR = 4"
definition ENOMEM :: int where "ENOMEM = 12"
definition EAGAIN :: int where "EAGAIN = 11"
definition EBADF :: int where "EBADF = 9"
definition ESRCH :: int where "ESRCH = 3"
definition EINPROGRESS :: int where "EINPROGRESS = 115"

definition EVENT_IN :: event_mask where "EVENT_IN = 1"
definition EVENT_OUT :: event_mask where "EVENT_OUT = 4"
definition EVENT_ERR :: event_mask where "EVENT_ERR = 8"
definition EVENT_HUP :: event_mask where "EVENT_HUP = 16"

lemmas error_codes = EINTR_def ENOMEM_def EAGAIN_def EBADF_def ESRCH_def EINPROGRESS_def
lemmas event_masks = EVENT_IN_def EVENT_OUT_def EVENT_ERR_def EVENT_HUP_def

section \<open>The operating system\<close>

type_synonym ('k, 'r) syscall = "'k \<Rightarrow> (int \<times> int \<times> 'r) \<times> 'k"
type_synonym sigset = "nat set"

datatype ctl_op = CtlAdd | CtlMod | CtlDel
datatype mask_how = SigBlock | SigUnblock | SigSetMask

record 'k kernel =
  k_clock_gettime :: "('k, int \<times> int) syscall"
  k_epoll_create1 :: "('k, unit) syscall"
  k_epoll_ctl :: "rawfd \<Rightarrow> ctl_op \<Rightarrow> rawfd \<Rightarrow> event_mask \<Rightarrow> ('k, unit) syscall"
  k_epoll_wait :: "rawfd \<Rightarrow> nat \<Rightarrow> int \<Rightarrow> ('k, (rawfd \<times> event_mask) list) syscall"
  k_pipe2 :: "('k, rawfd \<times> rawfd) syscall"
  k_timerfd_create :: "('k, unit) syscall"
  k_timerfd_settime :: "rawfd \<Rightarrow> int \<times> int \<Rightarrow> ('k, unit) syscall"
  k_socket :: "int \<Rightarrow> int \<Rightarrow> int \<Rightarrow> ('k, unit) syscall"
  k_fcntl_cloexec :: "rawfd \<Rightarrow> ('k, unit) syscall"
  k_fcntl_nonblock :: "rawfd \<Rightarrow> ('k, unit) syscall"
  k_setsockopt_reuseaddr :: "rawfd \<Rightarrow> ('k, unit) syscall"
  k_getsockname :: "rawfd \<Rightarrow> ('k, byte list) syscall"
  k_getpeername :: "rawfd \<Rightarrow> ('k, byte list) syscall"
  k_bind :: "rawfd \<Rightarrow> byte list \<Rightarrow> ('k, unit) syscall"
  k_connect :: "rawfd \<Rightarrow> byte list \<Rightarrow> ('k, unit) syscall"
  k_listen :: "rawfd \<Rightarrow> int \<Rightarrow> ('k, unit) syscall"
  k_accept :: "rawfd \<Rightarrow> ('k, byte list) syscall"
  k_write :: "rawfd \<Rightarrow> byte list \<Rightarrow> ('k, unit) syscall"
  k_read :: "rawfd \<Rightarrow> nat \<Rightarrow> ('k, byte list) syscall"
  k_sendmsg :: "rawfd \<Rightarrow> byte list \<Rightarrow> byte list \<Rightarrow> ('k, unit) syscall"
  k_recvmsg :: "rawfd \<Rightarrow> nat \<Rightarrow> nat \<Rightarrow> ('k, byte list \<times> byte list) syscall"
  k_getsockopt_error :: "rawfd \<Rightarrow> ('k, int) syscall"
  k_close :: "rawfd \<Rightarrow> ('k, unit) syscall"
  k_pthread_sigmask :: "mask_how \<Rightarrow> sigset option \<Rightarrow> ('k, sigset) syscall"
  k_sigpending :: "('k, sigset) syscall"
  k_sigtimedwait :: "sigset \<Rightarrow> ('k, unit) syscall"
  k_signalfd :: "rawfd \<Rightarrow> sigset \<Rightarrow> ('k, unit) syscall"
  k_fork :: "('k, unit) syscall"
  k_kill :: "int \<Rightarrow> int \<Rightarrow> ('k, unit) syscall"
  k_waitpid :: "int \<Rightarrow> int \<Rightarrow> ('k, int) syscall"

text \<open>
  \<open>sendmsg\<close> takes the bytes its IO vector covers and \<open>recvmsg\<close> the number of bytes it may fill, with
  the control message next to them; \<open>setsockopt\<close>, \<open>getsockopt\<close> and \<open>fcntl\<close> are named by the option
  they are called with. Flags that are the same in every call are not arguments.
\<close>

section \<open>The class \<open>System\<close>\<close>

record 'w system =
  sys_getMonotonicClock :: "('w, int) prog"
  sys_epollCreate :: "('w, rawfd) prog"
  sys_epollCtl :: "rawfd \<Rightarrow> ctl_op \<Rightarrow> rawfd \<Rightarrow> event_mask \<Rightarrow> ('w, unit) prog"
  sys_epollWait :: "rawfd \<Rightarrow> nat \<Rightarrow> int \<Rightarrow> ('w, int \<times> (rawfd \<times> event_mask) list) prog"
  sys_pipe :: "('w, rawfd \<times> rawfd) prog"
  sys_timerFDCreate :: "('w, rawfd) prog"
  sys_timerFDSetTime :: "rawfd \<Rightarrow> int \<times> int \<Rightarrow> ('w, unit) prog"
  sys_socket :: "int \<Rightarrow> int \<Rightarrow> int \<Rightarrow> ('w, rawfd) prog"
  sys_setCloseOnExec :: "rawfd \<Rightarrow> ('w, unit) prog"
  sys_setNonBlock :: "rawfd \<Rightarrow> ('w, unit) prog"
  sys_setReuseAddr :: "rawfd \<Rightarrow> ('w, unit) prog"
  sys_getSockName :: "rawfd \<Rightarrow> ('w, byte list) prog"
  sys_getPeerName :: "rawfd \<Rightarrow> ('w, byte list) prog"
  sys_bind :: "rawfd \<Rightarrow> byte list \<Rightarrow> ('w, unit) prog"
  sys_connect :: "rawfd \<Rightarrow> byte list \<Rightarrow> ('w, unit) prog"
  sys_listen :: "rawfd \<Rightarrow> int \<Rightarrow> ('w, unit) prog"
  sys_accept :: "rawfd \<Rightarrow> ('w, rawfd \<times> byte list) prog"
  sys_write :: "rawfd \<Rightarrow> byte list \<Rightarrow> ('w, int) prog"
  sys_read :: "rawfd \<Rightarrow> nat \<Rightarrow> ('w, int \<times> byte list) prog"
  sys_sendmsg :: "rawfd \<Rightarrow> byte list \<Rightarrow> byte list \<Rightarrow> ('w, int) prog"
  sys_recvmsg :: "rawfd \<Rightarrow> nat \<Rightarrow> nat \<Rightarrow> ('w, int \<times> byte list \<times> byte list) prog"
  sys_getSocketError :: "rawfd \<Rightarrow> ('w, int) prog"
  sys_close :: "rawfd \<Rightarrow> ('w, unit) prog"
  sys_sigMask :: "mask_how \<Rightarrow> sigset option \<Rightarrow> ('w, sigset) prog"
  sys_sigPending :: "('w, sigset) prog"
  sys_sigTimedWait :: "sigset \<Rightarrow> ('w, int) prog"
  sys_signalFD :: "rawfd \<Rightarrow> sigset \<Rightarrow> ('w, rawfd) prog"
  sys_fork :: "('w, int) prog"
  sys_kill :: "int \<Rightarrow> int \<Rightarrow> ('w, bool) prog"
  sys_waitpid :: "int \<Rightarrow> int \<Rightarrow> ('w, int \<times> int) prog"

section \<open>Retrying interrupted calls\<close>

fun tempFailureRetry :: "nat \<Rightarrow> ('k, 'r) syscall \<Rightarrow> ('k, int \<times> int \<times> 'r) prog" where
  "tempFailureRetry 0 func k = (NoFuel, k)"
| "tempFailureRetry (Suc n) func k = (case func k of ((r, e, out), k') \<Rightarrow>
     if r < 0 \<and> e = EINTR then tempFailureRetry n func k' else (Ok (r, e, out), k'))"

text \<open>The ways the functions treat the result: any non-zero result throws, a negative one throws, or
  a negative one throws unless \<open>errno\<close> is the given value.\<close>

definition throw_nonzero :: "string \<Rightarrow> int \<times> int \<times> 'r \<Rightarrow> ('k, 'r) prog" where
  "throw_nonzero name = (\<lambda>(r, e, out). if r \<noteq> 0 then throw (SystemException name e) else ret out)"

definition throw_negative :: "string \<Rightarrow> int \<times> int \<times> 'r \<Rightarrow> ('k, int \<times> 'r) prog" where
  "throw_negative name = (\<lambda>(r, e, out). if r < 0 then throw (SystemException name e) else ret (r, out))"

definition throw_unless :: "int \<Rightarrow> string \<Rightarrow> int \<times> int \<times> 'r \<Rightarrow> ('k, int \<times> 'r) prog" where
  "throw_unless ok name = (\<lambda>(r, e, out).
     if r < 0 \<and> e \<noteq> ok then throw (SystemException name e) else ret (r, out))"

section \<open>The functions\<close>

text \<open>The result of \<open>getMonotonicClock\<close> is in milliseconds.\<close>

definition getMonotonicClock :: "'k kernel \<Rightarrow> ('k, int) prog" where
  "getMonotonicClock K = (\<lambda>k. case k_clock_gettime K k of ((r, e, (tv_sec, tv_nsec)), k') \<Rightarrow>
     (Ok (tv_sec * 1000 + tv_nsec div 1000000), k'))"

definition epollCreate :: "nat \<Rightarrow> 'k kernel \<Rightarrow> ('k, rawfd) prog" where
  "epollCreate fuel K = bnd (tempFailureRetry fuel (k_epoll_create1 K))
     (\<lambda>v. bnd (throw_negative ''epoll_create1'' v) (\<lambda>(fd, _). ret fd))"

definition epollCtl :: "nat \<Rightarrow> 'k kernel \<Rightarrow> rawfd \<Rightarrow> ctl_op \<Rightarrow> rawfd \<Rightarrow> event_mask \<Rightarrow> ('k, unit) prog" where
  "epollCtl fuel K epfd op fd event = bnd (tempFailureRetry fuel (k_epoll_ctl K epfd op fd event))
     (\<lambda>(r, e, _). if r \<noteq> 0 then (if e = EBADF then abort else throw (SystemException ''epoll_ctl'' e))
                  else ret ())"

definition epollWait :: "nat \<Rightarrow> 'k kernel \<Rightarrow> rawfd \<Rightarrow> nat \<Rightarrow> int \<Rightarrow> ('k, int \<times> (rawfd \<times> event_mask) list) prog" where
  "epollWait fuel K epfd maxevents timeout =
     bnd (tempFailureRetry fuel (k_epoll_wait K epfd maxevents timeout))
     (\<lambda>(r, e, events). if r < 0 then (if e = EBADF then abort else throw (SystemException ''epoll_wait'' e))
                       else ret (r, events))"

definition sys_pipe_impl :: "nat \<Rightarrow> 'k kernel \<Rightarrow> ('k, rawfd \<times> rawfd) prog" where
  "sys_pipe_impl fuel K = bnd (tempFailureRetry fuel (k_pipe2 K)) (throw_nonzero ''pipe2'')"

definition timerFDCreate :: "nat \<Rightarrow> 'k kernel \<Rightarrow> ('k, rawfd) prog" where
  "timerFDCreate fuel K = bnd (tempFailureRetry fuel (k_timerfd_create K))
     (\<lambda>v. bnd (throw_negative ''timerfd_create'' v) (\<lambda>(fd, _). ret fd))"

definition timerFDSetTime :: "nat \<Rightarrow> 'k kernel \<Rightarrow> rawfd \<Rightarrow> int \<times> int \<Rightarrow> ('k, unit) prog" where
  "timerFDSetTime fuel K fd new_value = bnd (tempFailureRetry fuel (k_timerfd_settime K fd new_value))
     (throw_nonzero ''timerfd_settime'')"

definition sys_socket_impl :: "nat \<Rightarrow> 'k kernel \<Rightarrow> int \<Rightarrow> int \<Rightarrow> int \<Rightarrow> ('k, rawfd) prog" where
  "sys_socket_impl fuel K domain type protocol = bnd (tempFailureRetry fuel (k_socket K domain type protocol))
     (\<lambda>v. bnd (throw_negative ''socket'' v) (\<lambda>(fd, _). ret fd))"

definition setCloseOnExec :: "nat \<Rightarrow> 'k kernel \<Rightarrow> rawfd \<Rightarrow> ('k, unit) prog" where
  "setCloseOnExec fuel K fd = bnd (tempFailureRetry fuel (k_fcntl_cloexec K fd))
     (throw_nonzero ''fcntl(FD_CLOEXEC)'')"

definition setNonBlock :: "nat \<Rightarrow> 'k kernel \<Rightarrow> rawfd \<Rightarrow> ('k, unit) prog" where
  "setNonBlock fuel K fd = bnd (tempFailureRetry fuel (k_fcntl_nonblock K fd))
     (throw_nonzero ''fcntl(O_NONBLOCK)'')"

definition setReuseAddr :: "nat \<Rightarrow> 'k kernel \<Rightarrow> rawfd \<Rightarrow> ('k, unit) prog" where
  "setReuseAddr fuel K fd = bnd (tempFailureRetry fuel (k_setsockopt_reuseaddr K fd))
     (throw_nonzero ''setsockopt(SO_REUSEADDR)'')"

definition getSockName :: "nat \<Rightarrow> 'k kernel \<Rightarrow> rawfd \<Rightarrow> ('k, byte list) prog" where
  "getSockName fuel K fd = bnd (tempFailureRetry fuel (k_getsockname K fd)) (throw_nonzero ''getsockname'')"

definition getPeerName :: "nat \<Rightarrow> 'k kernel \<Rightarrow> rawfd \<Rightarrow> ('k, byte list) prog" where
  "getPeerName fuel K fd = bnd (tempFailureRetry fuel (k_getpeername K fd)) (throw_nonzero ''getpeername'')"

definition sys_bind_impl :: "nat \<Rightarrow> 'k kernel \<Rightarrow> rawfd \<Rightarrow> byte list \<Rightarrow> ('k, unit) prog" where
  "sys_bind_impl fuel K fd addr = bnd (tempFailureRetry fuel (k_bind K fd addr)) (throw_nonzero ''bind'')"

definition sys_connect_impl :: "nat \<Rightarrow> 'k kernel \<Rightarrow> rawfd \<Rightarrow> byte list \<Rightarrow> ('k, unit) prog" where
  "sys_connect_impl fuel K fd addr = bnd (tempFailureRetry fuel (k_connect K fd addr))
     (\<lambda>v. seq (throw_unless EINPROGRESS ''connect'' v) (ret ()))"

definition sys_listen_impl :: "nat \<Rightarrow> 'k kernel \<Rightarrow> rawfd \<Rightarrow> int \<Rightarrow> ('k, unit) prog" where
  "sys_listen_impl fuel K fd backlog = bnd (tempFailureRetry fuel (k_listen K fd backlog)) (throw_nonzero ''listen'')"

definition sys_accept_impl :: "nat \<Rightarrow> 'k kernel \<Rightarrow> rawfd \<Rightarrow> ('k, rawfd \<times> byte list) prog" where
  "sys_accept_impl fuel K fd = bnd (tempFailureRetry fuel (k_accept K fd)) (throw_unless EAGAIN ''accept'')"

definition sys_write_impl :: "nat \<Rightarrow> 'k kernel \<Rightarrow> rawfd \<Rightarrow> byte list \<Rightarrow> ('k, int) prog" where
  "sys_write_impl fuel K fd buf = bnd (tempFailureRetry fuel (k_write K fd buf))
     (\<lambda>v. bnd (throw_unless EAGAIN ''write'' v) (\<lambda>(r, _). ret r))"

definition sys_read_impl :: "nat \<Rightarrow> 'k kernel \<Rightarrow> rawfd \<Rightarrow> nat \<Rightarrow> ('k, int \<times> byte list) prog" where
  "sys_read_impl fuel K fd count = bnd (tempFailureRetry fuel (k_read K fd count)) (throw_unless EAGAIN ''read'')"

definition sys_sendmsg_impl :: "nat \<Rightarrow> 'k kernel \<Rightarrow> rawfd \<Rightarrow> byte list \<Rightarrow> byte list \<Rightarrow> ('k, int) prog" where
  "sys_sendmsg_impl fuel K fd msg control = bnd (tempFailureRetry fuel (k_sendmsg K fd msg control))
     (\<lambda>v. bnd (throw_unless EAGAIN ''sendmsg'' v) (\<lambda>(r, _). ret r))"

definition sys_recvmsg_impl :: "nat \<Rightarrow> 'k kernel \<Rightarrow> rawfd \<Rightarrow> nat \<Rightarrow> nat \<Rightarrow> ('k, int \<times> byte list \<times> byte list) prog" where
  "sys_recvmsg_impl fuel K fd room control_room = bnd (tempFailureRetry fuel (k_recvmsg K fd room control_room))
     (throw_unless EAGAIN ''recvmsg'')"

definition getSocketError :: "nat \<Rightarrow> 'k kernel \<Rightarrow> rawfd \<Rightarrow> ('k, int) prog" where
  "getSocketError fuel K fd = bnd (tempFailureRetry fuel (k_getsockopt_error K fd))
     (\<lambda>(r, e, val). ret (if r = 0 then val else e))"

definition sys_close_impl :: "nat \<Rightarrow> 'k kernel \<Rightarrow> rawfd \<Rightarrow> ('k, unit) prog" where
  "sys_close_impl fuel K fd = bnd (tempFailureRetry fuel (k_close K fd))
     (\<lambda>(r, _). if r \<noteq> 0 then abort else ret ())"

definition sigMask :: "nat \<Rightarrow> 'k kernel \<Rightarrow> mask_how \<Rightarrow> sigset option \<Rightarrow> ('k, sigset) prog" where
  "sigMask fuel K how sigs = bnd (tempFailureRetry fuel (k_pthread_sigmask K how sigs))
     (throw_nonzero ''pthread_sigmask'')"

definition sigPending :: "nat \<Rightarrow> 'k kernel \<Rightarrow> ('k, sigset) prog" where
  "sigPending fuel K = bnd (tempFailureRetry fuel (k_sigpending K)) (throw_nonzero ''sigpending'')"

definition sigTimedWait :: "nat \<Rightarrow> 'k kernel \<Rightarrow> sigset \<Rightarrow> ('k, int) prog" where
  "sigTimedWait fuel K sigs = bnd (tempFailureRetry fuel (k_sigtimedwait K sigs))
     (\<lambda>v. bnd (throw_negative ''sigtimedwait'' v) (\<lambda>(r, _). ret r))"

definition signalFD :: "nat \<Rightarrow> 'k kernel \<Rightarrow> rawfd \<Rightarrow> sigset \<Rightarrow> ('k, rawfd) prog" where
  "signalFD fuel K fd sigs = bnd (tempFailureRetry fuel (k_signalfd K fd sigs))
     (\<lambda>v. bnd (throw_negative ''signalfd'' v) (\<lambda>(r, _). ret r))"

text \<open>\<open>fork\<close> and \<open>kill\<close> are not retried.\<close>

definition sys_fork_impl :: "'k kernel \<Rightarrow> ('k, int) prog" where
  "sys_fork_impl K = bnd (\<lambda>k. case k_fork K k of (v, k') \<Rightarrow> (Ok v, k'))
     (\<lambda>v. bnd (throw_negative ''fork'' v) (\<lambda>(r, _). ret r))"

definition sys_kill_impl :: "'k kernel \<Rightarrow> int \<Rightarrow> int \<Rightarrow> ('k, bool) prog" where
  "sys_kill_impl K pid sig = bnd (\<lambda>k. case k_kill K pid sig k of (v, k') \<Rightarrow> (Ok v, k'))
     (\<lambda>(r, e, _). if r \<noteq> 0 then (if e = ESRCH then ret False else throw (SystemException ''kill'' e))
                  else ret True)"

definition sys_waitpid_impl :: "nat \<Rightarrow> 'k kernel \<Rightarrow> int \<Rightarrow> int \<Rightarrow> ('k, int \<times> int) prog" where
  "sys_waitpid_impl fuel K pid options = bnd (tempFailureRetry fuel (k_waitpid K pid options))
     (throw_negative ''waitpid'')"

definition the_system :: "nat \<Rightarrow> 'k kernel \<Rightarrow> 'k system" where
  "the_system n K = \<lparr>sys_getMonotonicClock = getMonotonicClock K, sys_epollCreate = epollCreate n K,
     sys_epollCtl = epollCtl n K, sys_epollWait = epollWait n K, sys_pipe = sys_pipe_impl n K,
     sys_timerFDCreate = timerFDCreate n K, sys_timerFDSetTime = timerFDSetTime n K,
     sys_socket = sys_socket_impl n K, sys_setCloseOnExec = setCloseOnExec n K,
     sys_setNonBlock = setNonBlock n K, sys_setReuseAddr = setReuseAddr n K,
     sys_getSockName = getSockName n K, sys_getPeerName = getPeerName n K, sys_bind = sys_bind_impl n K,
     sys_connect = sys_connect_impl n K, sys_listen = sys_listen_impl n K, sys_accept = sys_accept_impl n K,
     sys_write = sys_write_impl n K, sys_read = sys_read_impl n K, sys_sendmsg = sys_sendmsg_impl n K,
     sys_recvmsg = sys_recvmsg_impl n K, sys_getSocketError = getSocketError n K,
     sys_close = sys_close_impl n K, sys_sigMask = sigMask n K, sys_sigPending = sigPending n K,
     sys_sigTimedWait = sigTimedWait n K, sys_signalFD = signalFD n K, sys_fork = sys_fork_impl K,
     sys_kill = sys_kill_impl K, sys_waitpid = sys_waitpid_impl n K\<rparr>"

text \<open>The message of a \<open>SystemException\<close>; \<open>strerror\<close> is a parameter.\<close>

definition buildMessage :: "(int \<Rightarrow> string) \<Rightarrow> string \<Rightarrow> int \<Rightarrow> string" where
  "buildMessage strerror function_name error = function_name @ '': '' @ strerror error"

section \<open>Lemmas\<close>

text \<open>\<open>eintr_run i\<close> is the state after \<open>i\<close> calls that were all interrupted, if they were.\<close>

fun eintr_run :: "nat \<Rightarrow> ('k, 'r) syscall \<Rightarrow> 'k \<Rightarrow> 'k option" where
  "eintr_run 0 func k = Some k"
| "eintr_run (Suc i) func k = (case func k of ((r, e, out), k') \<Rightarrow>
     if r < 0 \<and> e = EINTR then eintr_run i func k' else None)"

lemma tempFailureRetry_enough:
  assumes "eintr_run i func k = Some k1" and "func k1 = ((r, e, out), k2)" and "\<not> (r < 0 \<and> e = EINTR)"
    and "i < n"
  shows "tempFailureRetry n func k = (Ok (r, e, out), k2)"
  using assms
proof (induction i arbitrary: k n)
  case 0
  then show ?case by (cases n) auto
next
  case (Suc i)
  then obtain m where "n = Suc m" "i < m" by (cases n) auto
  then show ?case using Suc by (auto split: prod.splits if_splits)
qed

lemma tempFailureRetry_cases:
  obtains (finished) r e out k' where "tempFailureRetry n func k = (Ok (r, e, out), k')"
      "\<not> (r < 0 \<and> e = EINTR)"
  | (fuel) k' where "tempFailureRetry n func k = (NoFuel, k')"
proof (induction n arbitrary: k thesis)
  case (Suc n)
  obtain r e out k' where f: "func k = ((r, e, out), k')" by (metis prod_cases3 surj_pair)
  show ?case
  proof (cases "r < 0 \<and> e = EINTR")
    case True
    show ?thesis by (rule Suc.IH [of k']) (use True f Suc.prems in auto)
  next
    case False
    then show ?thesis using f by (intro Suc.prems(1)) auto
  qed
qed simp

text \<open>\<open>ends_in n func k v k'\<close>: called from \<open>k\<close>, the call is interrupted fewer than \<open>n\<close> times and then ends
  with the result \<open>v\<close> in \<open>k'\<close>.\<close>

definition ends_in :: "nat \<Rightarrow> ('k, 'r) syscall \<Rightarrow> 'k \<Rightarrow> int \<times> int \<times> 'r \<Rightarrow> 'k \<Rightarrow> bool" where
  "ends_in n func k v k' \<longleftrightarrow> (\<exists>i < n. \<exists>k1. eintr_run i func k = Some k1 \<and> func k1 = (v, k')
     \<and> \<not> (fst v < 0 \<and> fst (snd v) = EINTR))"

lemma ends_in_retry: "ends_in n func k v k' \<Longrightarrow> tempFailureRetry n func k = (Ok v, k')"
  by (cases v) (auto simp: ends_in_def intro: tempFailureRetry_enough)

text \<open>A kernel for the examples, in which every call succeeds with result 0 and changes nothing, and
  one whose state is the list of results the next reads give.\<close>

definition idle_kernel :: "'k kernel" where
  "idle_kernel = \<lparr>k_clock_gettime = (\<lambda>k. ((0, 0, 0, 0), k)), k_epoll_create1 = (\<lambda>k. ((0, 0, ()), k)),
     k_epoll_ctl = (\<lambda>_ _ _ _ k. ((0, 0, ()), k)), k_epoll_wait = (\<lambda>_ _ _ k. ((0, 0, []), k)),
     k_pipe2 = (\<lambda>k. ((0, 0, 0, 0), k)), k_timerfd_create = (\<lambda>k. ((0, 0, ()), k)),
     k_timerfd_settime = (\<lambda>_ _ k. ((0, 0, ()), k)), k_socket = (\<lambda>_ _ _ k. ((0, 0, ()), k)),
     k_fcntl_cloexec = (\<lambda>_ k. ((0, 0, ()), k)), k_fcntl_nonblock = (\<lambda>_ k. ((0, 0, ()), k)),
     k_setsockopt_reuseaddr = (\<lambda>_ k. ((0, 0, ()), k)), k_getsockname = (\<lambda>_ k. ((0, 0, []), k)),
     k_getpeername = (\<lambda>_ k. ((0, 0, []), k)), k_bind = (\<lambda>_ _ k. ((0, 0, ()), k)),
     k_connect = (\<lambda>_ _ k. ((0, 0, ()), k)), k_listen = (\<lambda>_ _ k. ((0, 0, ()), k)),
     k_accept = (\<lambda>_ k. ((0, 0, []), k)), k_write = (\<lambda>_ _ k. ((0, 0, ()), k)),
     k_read = (\<lambda>_ _ k. ((0, 0, []), k)), k_sendmsg = (\<lambda>_ _ _ k. ((0, 0, ()), k)),
     k_recvmsg = (\<lambda>_ _ _ k. ((0, 0, [], []), k)), k_getsockopt_error = (\<lambda>_ k. ((0, 0, 0), k)),
     k_close = (\<lambda>_ k. ((0, 0, ()), k)), k_pthread_sigmask = (\<lambda>_ _ k. ((0, 0, {}), k)),
     k_sigpending = (\<lambda>k. ((0, 0, {}), k)), k_sigtimedwait = (\<lambda>_ k. ((0, 0, ()), k)),
     k_signalfd = (\<lambda>_ _ k. ((0, 0, ()), k)), k_fork = (\<lambda>k. ((0, 0, ()), k)),
     k_kill = (\<lambda>_ _ k. ((0, 0, ()), k)), k_waitpid = (\<lambda>_ _ k. ((0, 0, 0), k))\<rparr>"

definition idle_system :: "'k system" where
  "idle_system = the_system 1 idle_kernel"

definition reading_kernel :: "((int \<times> int \<times> byte list) list) kernel" where
  "reading_kernel = idle_kernel\<lparr>k_read := (\<lambda>fd n k. case k of [] \<Rightarrow> ((0, 0, []), []) | v # k' \<Rightarrow> (v, k'))\<rparr>"

section \<open>Properties\<close>

text \<open>
  an interrupted system call is invisible. However often a call fails with \<open>EINTR\<close> before it
  ends in another way, the retry loop stops (fuel one more than the number of interruptions is
  enough) and gives exactly the final result; here for \<open>System::read\<close>.
\<close>

theorem interrupted_read:
  assumes "eintr_run i (k_read K fd count) k = Some k1" and "k_read K fd count k1 = ((r, e, out), k2)"
    and "e \<noteq> EINTR" and "i < fuel"
  shows "sys_read_impl fuel K fd count k =
     (if 0 \<le> r \<or> e = EAGAIN then (Ok (r, out), k2) else (Throw (SystemException ''read'' e), k2))"
  using tempFailureRetry_enough [OF assms(1,2) _ assms(4)] assms(3)
  by (simp add: sys_read_impl_def bnd_run throw_unless_def)

theorem interrupted_read_witness:
  "sys_read_impl 3 reading_kernel 5 10 [(-1, EINTR, []), (-1, EINTR, []), (2, 0, [7, 8])]
    = (Ok (2, [7, 8]), [])"
  using interrupted_read [of 2 reading_kernel 5 10
      "[(-1, EINTR, []), (-1, EINTR, []), (2, 0, [7, 8])]" "[(2, 0, [7, 8])]" 2 0 "[7, 8]" "[]" 3]
  by (simp add: reading_kernel_def numeral_2_eq_2 error_codes)

text \<open>
  C9: what the calls the event loop depends on make of the result of the kernel. However often a call
  is interrupted before it ends with result \<open>r\<close> and error \<open>e\<close> (fuel for one call more than the
  interruptions is enough): \<open>EAGAIN\<close> is a result, not an error, of the five calls that work on
  non-blocking descriptors, and \<open>EINPROGRESS\<close> of \<open>connect\<close>; every other error is thrown with the name
  of the call; a bad descriptor given to the epoll calls aborts, as does any failing \<open>close\<close>; \<open>kill\<close>
  returns whether the process exists.
\<close>

theorem system_exceptions:
  "(ends_in n (k_read K fd count) k (r, e, bs) k' \<longrightarrow> sys_read_impl n K fd count k =
      (if r < 0 \<and> e \<noteq> EAGAIN then Throw (SystemException ''read'' e) else Ok (r, bs), k'))
 \<and> (ends_in n (k_write K fd buf) k (r, e, u) k' \<longrightarrow> sys_write_impl n K fd buf k =
      (if r < 0 \<and> e \<noteq> EAGAIN then Throw (SystemException ''write'' e) else Ok r, k'))
 \<and> (ends_in n (k_sendmsg K fd buf control) k (r, e, u) k' \<longrightarrow> sys_sendmsg_impl n K fd buf control k =
      (if r < 0 \<and> e \<noteq> EAGAIN then Throw (SystemException ''sendmsg'' e) else Ok r, k'))
 \<and> (ends_in n (k_recvmsg K fd room croom) k (r, e, msg) k' \<longrightarrow> sys_recvmsg_impl n K fd room croom k =
      (if r < 0 \<and> e \<noteq> EAGAIN then Throw (SystemException ''recvmsg'' e) else Ok (r, msg), k'))
 \<and> (ends_in n (k_accept K fd) k (r, e, bs) k' \<longrightarrow> sys_accept_impl n K fd k =
      (if r < 0 \<and> e \<noteq> EAGAIN then Throw (SystemException ''accept'' e) else Ok (r, bs), k'))
 \<and> (ends_in n (k_connect K fd addr) k (r, e, u) k' \<longrightarrow> sys_connect_impl n K fd addr k =
      (if r < 0 \<and> e \<noteq> EINPROGRESS then Throw (SystemException ''connect'' e) else Ok (), k'))
 \<and> (ends_in n (k_epoll_wait K fd count timeout) k (r, e, evs) k' \<longrightarrow> epollWait n K fd count timeout k =
      (if 0 \<le> r then Ok (r, evs) else if e = EBADF then Abort else Throw (SystemException ''epoll_wait'' e), k'))
 \<and> (ends_in n (k_epoll_ctl K epfd op fd ev) k (r, e, u) k' \<longrightarrow> epollCtl n K epfd op fd ev k =
      (if r = 0 then Ok () else if e = EBADF then Abort else Throw (SystemException ''epoll_ctl'' e), k'))
 \<and> (ends_in n (k_close K fd) k (r, e, u) k' \<longrightarrow> sys_close_impl n K fd k = (if r = 0 then Ok () else Abort, k'))
 \<and> (k_kill K pid sig k = ((r, e, u), k') \<longrightarrow> sys_kill_impl K pid sig k =
      (if r = 0 then Ok True else if e = ESRCH then Ok False else Throw (SystemException ''kill'' e), k'))"
proof (intro conjI impI)
  show "sys_kill_impl K pid sig k =
      (if r = 0 then Ok True else if e = ESRCH then Ok False else Throw (SystemException ''kill'' e), k')"
    if "k_kill K pid sig k = ((r, e, u), k')"
    using that by (simp add: sys_kill_impl_def bnd_run)
qed (simp_all add: ends_in_retry sys_read_impl_def sys_write_impl_def sys_sendmsg_impl_def sys_recvmsg_impl_def
      sys_accept_impl_def sys_connect_impl_def epollWait_def epollCtl_def sys_close_impl_def throw_unless_def bnd_run seq_run)

text \<open>A kernel whose state is the list of results the next \<open>epoll_ctl\<close> and \<open>kill\<close> calls give.\<close>

definition failing_kernel :: "((int \<times> int) list) kernel" where
  "failing_kernel = idle_kernel\<lparr>k_epoll_ctl := (\<lambda>_ _ _ _ k. ((fst (hd k), snd (hd k), ()), tl k)),
     k_kill := (\<lambda>_ _ k. ((fst (hd k), snd (hd k), ()), tl k))\<rparr>"

theorem system_exceptions_witness:
  "epollCtl 2 failing_kernel 3 CtlAdd 5 0 [(-1, EINTR), (-1, EBADF), (0, 0)] = (Abort, [(0, 0)])
   \<and> sys_kill_impl failing_kernel 99 15 [(-1, ESRCH)] = (Ok False, [])"
proof -
  have "ends_in 2 (k_epoll_ctl failing_kernel 3 CtlAdd 5 0) [(-1, EINTR), (-1, EBADF), (0, 0)] (-1, EBADF, ()) [(0, 0)]"
    unfolding ends_in_def
    by (rule exI [of _ 1], rule conjI, simp, rule exI [of _ "[(-1, EBADF), (0, 0)]"])
      (simp add: failing_kernel_def error_codes)
  then have "epollCtl 2 failing_kernel 3 CtlAdd 5 0 [(-1, EINTR), (-1, EBADF), (0, 0)] = (Abort, [(0, 0)])"
    using system_exceptions [of 2 failing_kernel _ _ _ "-1" EBADF] by simp
  moreover have "k_kill failing_kernel 99 15 [(-1, ESRCH)] = ((-1, ESRCH, ()), [])"
    by (simp add: failing_kernel_def)
  then have "sys_kill_impl failing_kernel 99 15 [(-1, ESRCH)] = (Ok False, [])"
    using system_exceptions [of 2 failing_kernel _ _ "[(-1, ESRCH)]" "-1" ESRCH] by simp
  ultimately show ?thesis by simp
qed

end
