(* ===== verification/FileDescriptor.thy ===== *)
theory FileDescriptor
  imports System "HOL-Library.Multiset"
begin

text \<open>
  Model of \<open>src/lib/FileDescriptor.cpp\<close> and \<open>include/EventLoop/FileDescriptor.hpp\<close>: the owner of a raw
  file descriptor, a negative one meaning that it owns none. An operation works on the object and
  the world its \<open>System\<close> acts on.
\<close>

section \<open>The object and its comparisons\<close>

datatype file_descriptor = FD (raw_fd: rawfd)

text \<open>The comparison operators of the class, between descriptors and with a raw one.\<close>

definition fd_less_eq :: "file_descriptor \<Rightarrow> file_descriptor \<Rightarrow> bool" where
  "fd_less_eq a b \<longleftrightarrow> raw_fd a \<le> raw_fd b"

definition fd_less :: "file_descriptor \<Rightarrow> file_descriptor \<Rightarrow> bool" where
  "fd_less a b \<longleftrightarrow> raw_fd a < raw_fd b"

instantiation file_descriptor :: linorder
begin

definition less_eq_file_descriptor :: "file_descriptor \<Rightarrow> file_descriptor \<Rightarrow> bool" where
  "less_eq_file_descriptor = fd_less_eq"

definition less_file_descriptor :: "file_descriptor \<Rightarrow> file_descriptor \<Rightarrow> bool" where
  "less_file_descriptor = fd_less"

instance
  by standard (auto simp: less_eq_file_descriptor_def less_file_descriptor_def fd_less_eq_def fd_less_def
      intro: file_descriptor.expand)

end

definition fd_eq :: "file_descriptor \<Rightarrow> file_descriptor \<Rightarrow> bool" where
  "fd_eq this fd \<longleftrightarrow> raw_fd this = raw_fd fd"

definition fd_neq :: "file_descriptor \<Rightarrow> file_descriptor \<Rightarrow> bool" where
  "fd_neq this fd \<longleftrightarrow> raw_fd this \<noteq> raw_fd fd"

definition fd_greater :: "file_descriptor \<Rightarrow> file_descriptor \<Rightarrow> bool" where
  "fd_greater this fd \<longleftrightarrow> raw_fd this > raw_fd fd"

definition fd_greater_eq :: "file_descriptor \<Rightarrow> file_descriptor \<Rightarrow> bool" where
  "fd_greater_eq this fd \<longleftrightarrow> raw_fd this \<ge> raw_fd fd"

definition fd_eq_raw :: "file_descriptor \<Rightarrow> rawfd \<Rightarrow> bool" where
  "fd_eq_raw this fd \<longleftrightarrow> raw_fd this = fd"

definition fd_neq_raw :: "file_descriptor \<Rightarrow> rawfd \<Rightarrow> bool" where
  "fd_neq_raw this fd \<longleftrightarrow> raw_fd this \<noteq> fd"

definition fd_less_raw :: "file_descriptor \<Rightarrow> rawfd \<Rightarrow> bool" where
  "fd_less_raw this fd \<longleftrightarrow> raw_fd this < fd"

definition fd_less_eq_raw :: "file_descriptor \<Rightarrow> rawfd \<Rightarrow> bool" where
  "fd_less_eq_raw this fd \<longleftrightarrow> raw_fd this \<le> fd"

definition fd_greater_raw :: "file_descriptor \<Rightarrow> rawfd \<Rightarrow> bool" where
  "fd_greater_raw this fd \<longleftrightarrow> raw_fd this > fd"

definition fd_greater_eq_raw :: "file_descriptor \<Rightarrow> rawfd \<Rightarrow> bool" where
  "fd_greater_eq_raw this fd \<longleftrightarrow> raw_fd this \<ge> fd"

text \<open>The free operators, with the raw descriptor on the left.\<close>

definition raw_eq_fd :: "rawfd \<Rightarrow> file_descriptor \<Rightarrow> bool" where
  "raw_eq_fd raw fd \<longleftrightarrow> raw = raw_fd fd"

definition raw_neq_fd :: "rawfd \<Rightarrow> file_descriptor \<Rightarrow> bool" where
  "raw_neq_fd raw fd \<longleftrightarrow> raw \<noteq> raw_fd fd"

definition raw_less_fd :: "rawfd \<Rightarrow> file_descriptor \<Rightarrow> bool" where
  "raw_less_fd raw fd \<longleftrightarrow> raw < raw_fd fd"

definition raw_less_eq_fd :: "rawfd \<Rightarrow> file_descriptor \<Rightarrow> bool" where
  "raw_less_eq_fd raw fd \<longleftrightarrow> raw \<le> raw_fd fd"

definition raw_greater_fd :: "rawfd \<Rightarrow> file_descriptor \<Rightarrow> bool" where
  "raw_greater_fd raw fd \<longleftrightarrow> raw > raw_fd fd"

definition raw_greater_eq_fd :: "rawfd \<Rightarrow> file_descriptor \<Rightarrow> bool" where
  "raw_greater_eq_fd raw fd \<longleftrightarrow> raw \<ge> raw_fd fd"

text \<open>The eighteen operators are one order: a raw descriptor counts as the descriptor that holds it.\<close>

lemma comparisons_agree:
  "fd_eq a b \<longleftrightarrow> a = b" "fd_neq a b \<longleftrightarrow> a \<noteq> b" "fd_less_eq a b \<longleftrightarrow> a \<le> b" "fd_less a b \<longleftrightarrow> a < b"
  "fd_greater a b \<longleftrightarrow> b < a" "fd_greater_eq a b \<longleftrightarrow> b \<le> a"
  "fd_eq_raw a r \<longleftrightarrow> a = FD r" "fd_neq_raw a r \<longleftrightarrow> a \<noteq> FD r" "fd_less_eq_raw a r \<longleftrightarrow> a \<le> FD r"
  "fd_less_raw a r \<longleftrightarrow> a < FD r" "fd_greater_raw a r \<longleftrightarrow> FD r < a" "fd_greater_eq_raw a r \<longleftrightarrow> FD r \<le> a"
  "raw_eq_fd r a \<longleftrightarrow> FD r = a" "raw_neq_fd r a \<longleftrightarrow> FD r \<noteq> a" "raw_less_eq_fd r a \<longleftrightarrow> FD r \<le> a"
  "raw_less_fd r a \<longleftrightarrow> FD r < a" "raw_greater_fd r a \<longleftrightarrow> a < FD r" "raw_greater_eq_fd r a \<longleftrightarrow> a \<le> FD r"
  by (cases a; cases b; simp add: fd_eq_def fd_neq_def fd_greater_def fd_greater_eq_def fd_eq_raw_def fd_neq_raw_def
      fd_less_raw_def fd_less_eq_raw_def fd_greater_raw_def fd_greater_eq_raw_def raw_eq_fd_def raw_neq_fd_def
      raw_less_fd_def raw_less_eq_fd_def raw_greater_fd_def raw_greater_eq_fd_def
      less_eq_file_descriptor_def less_file_descriptor_def fd_less_eq_def fd_less_def)+

definition fd_valid :: "file_descriptor \<Rightarrow> bool" where
  "fd_valid this \<longleftrightarrow> raw_fd this \<ge> 0"

section \<open>Operations\<close>

type_synonym 'w fd_state = "file_descriptor \<times> 'w"

definition in_world :: "('w, 'a) prog \<Rightarrow> ('t \<times> 'w, 'a) prog" where
  "in_world m = zoom snd (\<lambda>w s. (fst s, w)) m"

definition fd_int :: "('w fd_state, rawfd) prog" where
  "fd_int = (\<lambda>s. if raw_fd (fst s) < 0 then (Throw InvalidFD, s) else (Ok (raw_fd (fst s)), s))"

definition fd_destroy :: "'w system \<Rightarrow> ('w fd_state, unit) prog" where
  "fd_destroy S = noexcept (\<lambda>s. if raw_fd (fst s) \<ge> 0 then in_world (sys_close S (raw_fd (fst s))) s else (Ok (), s))"

definition fd_close :: "'w system \<Rightarrow> ('w fd_state, unit) prog" where
  "fd_close S = (\<lambda>s. if raw_fd (fst s) < 0 then (Throw InvalidFD, s)
     else seq (in_world (sys_close S (raw_fd (fst s)))) (modify_st (\<lambda>s. (FD (- 1), snd s))) s)"

definition fd_release :: "('w fd_state, rawfd) prog" where
  "fd_release = (\<lambda>s. if raw_fd (fst s) < 0 then (Throw InvalidFD, s)
     else (Ok (raw_fd (fst s)), (FD (- 1), snd s)))"

definition fd_swap :: "file_descriptor \<times> file_descriptor \<Rightarrow> file_descriptor \<times> file_descriptor" where
  "fd_swap p = (FD (raw_fd (snd p)), FD (raw_fd (fst p)))"

definition fd_assign :: "'w system \<Rightarrow> rawfd \<Rightarrow> ('w fd_state, unit) prog" where
  "fd_assign S fd = noexcept (\<lambda>s. seq (if raw_fd (fst s) \<ge> 0 then in_world (sys_close S (raw_fd (fst s))) else ret ())
     (modify_st (\<lambda>s. (FD fd, snd s))) s)"

section \<open>Ownership\<close>

text \<open>
  A world that records which descriptors are closed and released, in which every \<open>close\<close> succeeds
  (the real one aborts the process otherwise).
\<close>

record fd_log =
  closed_fds :: "rawfd list"
  released_fds :: "rawfd list"

definition logs_close :: "fd_log system \<Rightarrow> bool" where
  "logs_close S \<longleftrightarrow> (\<forall>fd w. sys_close S fd w = (Ok (), w\<lparr>closed_fds := closed_fds w @ [fd]\<rparr>))"

datatype fd_op = FdAssign rawfd | FdClose | FdRelease | FdDestroy

text \<open>The caller keeps what \<open>release\<close> returns; an \<open>InvalidFD\<close> is caught and changes nothing. A
  destroyed object is represented by one that owns nothing.\<close>

fun fd_step :: "fd_log system \<Rightarrow> fd_op \<Rightarrow> fd_log fd_state \<Rightarrow> fd_log fd_state" where
  "fd_step S (FdAssign fd) s = snd (fd_assign S fd s)"
| "fd_step S FdClose s = snd (fd_close S s)"
| "fd_step S FdRelease s = (case fd_release s of
      (Ok fd, (this, w)) \<Rightarrow> (this, w\<lparr>released_fds := released_fds w @ [fd]\<rparr>) | (_, s') \<Rightarrow> s')"
| "fd_step S FdDestroy s = (FD (- 1), snd (snd (fd_destroy S s)))"

fun fd_given :: "fd_op \<Rightarrow> rawfd multiset" where
  "fd_given (FdAssign fd) = (if fd \<ge> 0 then {#fd#} else {#})"
| "fd_given _ = {#}"

definition fd_owned :: "fd_log fd_state \<Rightarrow> rawfd multiset" where
  "fd_owned s = (if raw_fd (fst s) \<ge> 0 then {#raw_fd (fst s)#} else {#})
     + mset (closed_fds (snd s)) + mset (released_fds (snd s))"

lemma fd_step_owned:
  "logs_close S \<Longrightarrow> fd_owned (fd_step S x s) = fd_owned s + fd_given x"
  by (cases s; cases x) (auto simp: fd_owned_def fd_assign_def fd_close_def fd_release_def noexcept_run fd_destroy_def
      logs_close_def in_world_def zoom_run seq_run)

section \<open>Properties\<close>

text \<open>
  C10: no descriptor is leaked and none is closed twice. Whatever operations run on a descriptor
  object, every raw descriptor it was given is, exactly once, the one it owns, or was closed, or was
  released to the caller.
\<close>

theorem descriptors_conserved:
  assumes "logs_close S"
  shows "fd_owned (fold (fd_step S) xs s) = fd_owned s + \<Sum>\<^sub># (mset (map fd_given xs))"
  by (induction xs arbitrary: s) (simp_all add: fd_step_owned [OF assms])

definition log_system :: "fd_log system" where
  "log_system = idle_system\<lparr>sys_close := (\<lambda>fd w. (Ok (), w\<lparr>closed_fds := closed_fds w @ [fd]\<rparr>))\<rparr>"

theorem descriptors_conserved_witness:
  "fd_owned (fold (fd_step log_system) [FdAssign 5, FdAssign 7, FdRelease, FdClose, FdAssign 9]
     (FD (-1), \<lparr>closed_fds = [], released_fds = []\<rparr>)) = {#5, 7, 9#}"
  using descriptors_conserved [of log_system
      "[FdAssign 5, FdAssign 7, FdRelease, FdClose, FdAssign 9]"
      "(FD (-1), \<lparr>closed_fds = [], released_fds = []\<rparr>)"]
  by (simp add: logs_close_def log_system_def fd_owned_def)

end
