(* ===== verification/CallbackQueue.thy ===== *)
theory CallbackQueue
  imports Prelude
begin

text \<open>
  Model of \<open>src/lib/CallbackQueue.cpp\<close>, of \<open>WeakCallback\<close> and \<open>Callee\<close>, and of
  \<open>postponeDeletion\<close>. A callback is a value; the empty \<open>std::function\<close> is \<open>None\<close>. The mutex makes
  \<open>add\<close> and \<open>pop\<close> atomic, so the calls of several threads are a sequence of steps; \<open>execute\<close> calls
  the callbacks outside the lock, and it may run for ever when callbacks keep adding callbacks, so
  it has fuel.
\<close>

section \<open>The queue\<close>

record 'c callback_queue =
  queue :: "'c list"
  wakeUp_set :: bool

definition cbq_empty :: "'c callback_queue" where
  "cbq_empty = \<lparr>queue = [], wakeUp_set = False\<rparr>"

text \<open>The result of \<open>add\<close> says whether the code calls \<open>wakeUp()\<close>.\<close>

definition cbq_add :: "'c option \<Rightarrow> ('c callback_queue, bool) prog" where
  "cbq_add cb = (\<lambda>q. case cb of
       None \<Rightarrow> (Throw NullCallback, q)
     | Some c \<Rightarrow> let q' = q\<lparr>queue := queue q @ [c]\<rparr> in
         (Ok (length (queue q') = 1 \<and> wakeUp_set q'), q'))"

definition cbq_pop :: "('c callback_queue, 'c option) prog" where
  "cbq_pop = (\<lambda>q. case queue q of [] \<Rightarrow> (Ok None, q) | c # cs \<Rightarrow> (Ok (Some c), q\<lparr>queue := cs\<rparr>))"

definition cbq_setWakeUp :: "bool \<Rightarrow> ('c callback_queue, unit) prog" where
  "cbq_setWakeUp w = modify_st (wakeUp_set_update (\<lambda>_. w))"

text \<open>
  \<open>execute\<close>, over any state that has the queue as a part (read with \<open>g\<close>, written with \<open>p\<close>);
  \<open>call\<close> runs a callback, which may change the whole state.
\<close>

fun cbq_execute :: "nat \<Rightarrow> ('s \<Rightarrow> 'c callback_queue) \<Rightarrow> ('c callback_queue \<Rightarrow> 's \<Rightarrow> 's) \<Rightarrow>
    ('c \<Rightarrow> ('s, unit) prog) \<Rightarrow> ('s, bool) prog" where
  "cbq_execute 0 g p call s = (NoFuel, s)"
| "cbq_execute (Suc n) g p call s = bnd (zoom g p cbq_pop) (\<lambda>r. case r of
       None \<Rightarrow> ret False
     | Some c \<Rightarrow> seq (call c) (seq (cbq_execute n g p call) (ret True))) s"

section \<open>Weak callbacks\<close>

text \<open>
  A \<open>Callee\<close> owns a life; a \<open>WeakCallback\<close> holds a weak reference to it and does nothing once it has
  expired. The set of living callees is a part of the state, read with \<open>alive\<close>. Copies of a callee
  share the life, so \<open>alive\<close> lists a life while any copy exists. A default-constructed
  \<open>WeakCallback\<close> has no life (\<open>None\<close>), which counts as expired.
\<close>

datatype 'c weak_callback = WeakCallback (wl: "nat option") (weak_cb: 'c)

definition wl_expired :: "nat set \<Rightarrow> nat option \<Rightarrow> bool" where
  "wl_expired lives l = (case l of None \<Rightarrow> True | Some n \<Rightarrow> n \<notin> lives)"

definition weak_execute :: "('s \<Rightarrow> nat set) \<Rightarrow> ('c \<Rightarrow> ('s, unit) prog) \<Rightarrow> 'c weak_callback \<Rightarrow> ('s, unit) prog" where
  "weak_execute alive call w = when_st (\<lambda>s. \<not> wl_expired (alive s) (wl w)) (call (weak_cb w))"

text \<open>
  \<open>postponeDeletion\<close> adds a callback that does nothing but holds the pointer: the object is deleted
  when the callback is destroyed, after the runner has called it. Objects are numbers; the callback
  of an object is \<open>HoldPtr\<close>.
\<close>

datatype 'c held_callback = HoldPtr nat | Plain 'c

definition postponeDeletion :: "nat \<Rightarrow> ('c held_callback callback_queue, bool) prog" where
  "postponeDeletion ptr = cbq_add (Some (HoldPtr ptr))"

section \<open>The interface to the runners\<close>

text \<open>
  What a runner relies on: callbacks leave in the order they came, none is lost, and the step that
  makes the queue non-empty reports it.
\<close>

locale fifo_queue =
  fixes items :: "'q \<Rightarrow> 'c list" and add_op :: "'c option \<Rightarrow> ('q, bool) prog"
    and pop_op :: "('q, 'c option) prog"
  assumes add_spec: "\<exists>q' w. add_op (Some c) q = (Ok w, q') \<and> items q' = items q @ [c]"
    and add_null: "add_op None q = (Throw NullCallback, q)"
    and pop_spec: "\<exists>q'. pop_op q = (Ok (case items q of [] \<Rightarrow> None | c # _ \<Rightarrow> Some c), q')
      \<and> items q' = tl (items q)"

datatype 'c cbq_op = CbAdd "'c option" | CbPop

text \<open>Any interleaving of the adds of all threads and the pops of the runner; the result lists the
  callbacks that were accepted and the ones that were taken out.\<close>

fun cbq_history :: "('c option \<Rightarrow> ('q, bool) prog) \<Rightarrow> ('q, 'c option) prog \<Rightarrow> 'c cbq_op list \<Rightarrow> 'q \<Rightarrow>
    'c list \<times> 'c list \<times> 'q" where
  "cbq_history add_op pop_op [] q = ([], [], q)"
| "cbq_history add_op pop_op (CbAdd cb # xs) q = (case add_op cb q of
       (Ok _, q') \<Rightarrow> (let (ins, outs, q2) = cbq_history add_op pop_op xs q' in
                      (case cb of None \<Rightarrow> ins | Some c \<Rightarrow> c # ins, outs, q2))
     | (_, q') \<Rightarrow> cbq_history add_op pop_op xs q')"
| "cbq_history add_op pop_op (CbPop # xs) q = (case pop_op q of
       (Ok r, q') \<Rightarrow> (let (ins, outs, q2) = cbq_history add_op pop_op xs q' in
                      (ins, case r of None \<Rightarrow> outs | Some c \<Rightarrow> c # outs, q2))
     | (_, q') \<Rightarrow> cbq_history add_op pop_op xs q')"

context fifo_queue begin

lemma history_fifo:
  "cbq_history add_op pop_op xs q = (ins, outs, q') \<Longrightarrow> outs @ items q' = items q @ ins"
proof (induction xs arbitrary: q ins outs)
  case (Cons x xs)
  show ?case
  proof (cases x)
    case (CbAdd cb)
    show ?thesis
    proof (cases cb)
      case None
      then show ?thesis using Cons CbAdd by (simp add: add_null)
    next
      case (Some c)
      from add_spec [of c q] obtain q1 w where "add_op (Some c) q = (Ok w, q1)" "items q1 = items q @ [c]"
        by blast
      then show ?thesis using Cons.prems Cons.IH [of q1] CbAdd Some by (auto split: prod.splits)
    qed
  next
    case CbPop
    from pop_spec [of q] obtain q1 where
      "pop_op q = (Ok (case items q of [] \<Rightarrow> None | c # _ \<Rightarrow> Some c), q1)" "items q1 = tl (items q)"
      by blast
    then show ?thesis using Cons.prems Cons.IH [of q1] CbPop
      by (cases "items q") (auto split: prod.splits)
  qed
qed simp

end

interpretation cbq: fifo_queue queue cbq_add cbq_pop
  by unfold_locales (auto simp: cbq_add_def cbq_pop_def Let_def split: list.split)

section \<open>Properties\<close>

text \<open>
  C11: callbacks are executed in the order they were added. For every interleaving of adds (by
  any threads) and pops, the callbacks taken out followed by those still queued are the old queue
  followed by the callbacks added; an empty callback is refused with \<open>NullCallback\<close> and changes
  nothing.
\<close>

theorem callbacks_fifo:
  assumes "cbq_history cbq_add cbq_pop xs q = (ins, outs, q')"
  shows "outs @ queue q' = queue q @ ins \<and> cbq_add None q = (Throw NullCallback, q)"
  using cbq.history_fifo [OF assms] cbq.add_null by blast

theorem callbacks_fifo_witness:
  "cbq_history cbq_add cbq_pop [CbAdd (Some ''a''), CbPop, CbAdd None, CbAdd (Some ''b''), CbAdd (Some ''c''), CbPop]
      cbq_empty = ([''a'', ''b'', ''c''], [''a'', ''b''], \<lparr>queue = [''c''], wakeUp_set = False\<rparr>)
   \<and> [''a'', ''b''] @ [''c''] = [] @ [''a'', ''b'', ''c'']"
proof -
  let ?xs = "[CbAdd (Some ''a''), CbPop, CbAdd None, CbAdd (Some ''b''), CbAdd (Some ''c''), CbPop]"
  have r: "cbq_history cbq_add cbq_pop ?xs cbq_empty
      = ([''a'', ''b'', ''c''], [''a'', ''b''], \<lparr>queue = [''c''], wakeUp_set = False\<rparr>)"
    by (simp add: cbq_add_def cbq_pop_def cbq_empty_def)
  then show ?thesis using callbacks_fifo [OF r] by (simp add: cbq_empty_def)
qed

text \<open>A state for the examples: the queue, and the log of the callbacks that were run; \<open>adds c\<close> are
  the callbacks that \<open>c\<close> adds.\<close>

definition log_call :: "('c \<Rightarrow> 'c list) \<Rightarrow> 'c \<Rightarrow> ('c callback_queue \<times> 'c list, unit) prog" where
  "log_call adds c = modify_st (\<lambda>(q, l). (q\<lparr>queue := queue q @ adds c\<rparr>, l @ [c]))"

abbreviation run_logged :: "nat \<Rightarrow> ('c \<Rightarrow> 'c list) \<Rightarrow> ('c callback_queue \<times> 'c list, bool) prog" where
  "run_logged n adds \<equiv> cbq_execute n fst (\<lambda>q s. (q, snd s)) (log_call adds)"

text \<open>
  C12: \<open>execute\<close> runs every queued callback once, in order, and returns whether there was any. When
  the callbacks add none, \<open>n + 1\<close> rounds are enough for \<open>n\<close> callbacks; callbacks that a callback
  adds are run by the same call, so a callback that always adds itself again makes \<open>execute\<close> run
  for ever, whatever the fuel.
\<close>

theorem execute_runs_queue:
  shows "run_logged (Suc (length (queue q))) (\<lambda>_. []) (q, l)
      = (Ok (queue q \<noteq> []), (q\<lparr>queue := []\<rparr>, l @ queue q))
    \<and> fst (run_logged n (\<lambda>c. [c]) (\<lparr>queue = [x], wakeUp_set = w\<rparr>, l)) = NoFuel"
proof (intro conjI)
  show "run_logged (Suc (length (queue q))) (\<lambda>_. []) (q, l)
      = (Ok (queue q \<noteq> []), (q\<lparr>queue := []\<rparr>, l @ queue q))"
  proof (induction "queue q" arbitrary: q l)
    case Nil
    then show ?case by (simp add: bnd_run zoom_run cbq_pop_def)
  next
    case (Cons c cs)
    have "run_logged (Suc (length cs)) (\<lambda>_. []) (q\<lparr>queue := cs\<rparr>, l @ [c])
        = (Ok (cs \<noteq> []), (q\<lparr>queue := []\<rparr>, (l @ [c]) @ cs))"
      using Cons.hyps(1) [of "q\<lparr>queue := cs\<rparr>"] by simp
    then show ?case
      unfolding Cons.hyps(2) [symmetric] list.size
      using Cons.hyps(2) [symmetric]
      by (simp del: cbq_execute.simps
          add: cbq_execute.simps(2) [of "Suc (length cs)"] bnd_run seq_run zoom_run cbq_pop_def log_call_def)
  qed
  show "fst (run_logged n (\<lambda>c. [c]) (\<lparr>queue = [x], wakeUp_set = w\<rparr>, l)) = NoFuel"
  proof (induction n arbitrary: l)
    case (Suc n)
    show ?case
      using Suc.IH [of "l @ [x]"]
      by (auto simp: bnd_run seq_run zoom_run cbq_pop_def log_call_def split: prod.splits outcome.splits)
  qed simp
qed

text \<open>A queue of weak callbacks: the living callees and the log of the calls that were made. Calling
  \<open>c\<close> destroys the callees \<open>kills c\<close>.\<close>

type_synonym 'c weak_state = "'c weak_callback callback_queue \<times> nat set \<times> (nat option \<times> 'c) list"

definition weak_log_call :: "('c \<Rightarrow> nat set) \<Rightarrow> 'c weak_callback \<Rightarrow> ('c weak_state, unit) prog" where
  "weak_log_call kills w = weak_execute (\<lambda>(q, al, l). al)
     (\<lambda>c. modify_st (\<lambda>(q, al, l). (q, al - kills c, l @ [(wl w, c)]))) w"

fun no_call_after_death :: "('c \<Rightarrow> nat set) \<Rightarrow> nat set \<Rightarrow> (nat option \<times> 'c) list \<Rightarrow> bool" where
  "no_call_after_death kills dead [] = True"
| "no_call_after_death kills dead ((l, c) # xs) =
     ((\<exists>n. l = Some n \<and> n \<notin> dead) \<and> no_call_after_death kills (dead \<union> kills c) xs)"

text \<open>The callbacks, as calls, whose callee is in \<open>al\<close>.\<close>

definition living :: "nat set \<Rightarrow> (nat option \<times> 'c) list \<Rightarrow> (nat option \<times> 'c) list" where
  "living al cs = filter (\<lambda>(l, c). l \<in> Some ` al) cs"

lemma living_simps [simp]:
  "living al [] = []"
  "living al ((l, c) # cs) = (if l \<in> Some ` al then (l, c) # living al cs else living al cs)"
  by (simp_all add: living_def)

abbreviation weak_calls :: "'c weak_callback list \<Rightarrow> (nat option \<times> 'c) list" where
  "weak_calls ws \<equiv> map (\<lambda>w. (wl w, weak_cb w)) ws"

lemma weak_log_call_cases:
  obtains (dead) "wl_expired al (wl w)" "weak_log_call kills w (q, al, l) = (Ok (), (q, al, l))"
  | (live) m where "wl w = Some m" "m \<in> al"
      "weak_log_call kills w (q, al, l) = (Ok (), (q, al - kills (weak_cb w), l @ [(Some m, weak_cb w)]))"
  by (cases "wl w") (auto simp: weak_log_call_def weak_execute_def when_run wl_expired_def)

lemma weak_execute_calls:
  assumes "cbq_execute n fst (\<lambda>q s. (q, snd s)) (weak_log_call kills) (q, al, l) = (r, (q', al', l'))"
  shows "\<exists>cs. l' = l @ cs \<and> al' \<subseteq> al \<and> no_call_after_death kills (- al) cs
     \<and> (length (queue q) < n \<longrightarrow> r = Ok (queue q \<noteq> []) \<and> queue q' = []
          \<and> living al' cs = living al' (weak_calls (queue q)))"
  using assms
proof (induction n arbitrary: q al l r)
  case (Suc n)
  let ?ex = "cbq_execute n fst (\<lambda>q s. (q, snd s)) (weak_log_call kills)"
  show ?case
  proof (cases "queue q")
    case Nil
    then show ?thesis using Suc.prems by (auto simp: bnd_run zoom_run cbq_pop_def)
  next
    case (Cons w ws)
    let ?q = "q\<lparr>queue := ws\<rparr>"
    have step: "\<exists>r2. ?ex (?q, al1, l1) = (r2, (q', al', l')) \<and> (\<forall>b. r2 = Ok b \<longrightarrow> r = Ok True)"
      if "weak_log_call kills w (?q, al, l) = (Ok (), (?q, al1, l1))" for al1 l1
      using Suc.prems Cons that
      by (cases "?ex (?q, al1, l1)") (auto simp: bnd_run seq_run zoom_run cbq_pop_def split: outcome.splits)
    show ?thesis
    proof (cases rule: weak_log_call_cases [of al w kills ?q l])
      case dead
      from step [OF dead(2)] obtain r2 where r2: "?ex (?q, al, l) = (r2, (q', al', l'))"
        "\<forall>b. r2 = Ok b \<longrightarrow> r = Ok True" by blast
      have "wl w \<notin> Some ` al" using dead(1) by (auto simp: wl_expired_def)
      then show ?thesis using Suc.IH [OF r2(1)] r2(2) Cons by auto
    next
      case (live m)
      from step [OF live(3)] obtain r2 where r2: "?ex (?q, al - kills (weak_cb w), l @ [(Some m, weak_cb w)]) = (r2, (q', al', l'))"
        "\<forall>b. r2 = Ok b \<longrightarrow> r = Ok True" by blast
      from Suc.IH [OF r2(1)] obtain cs where cs: "l' = l @ (Some m, weak_cb w) # cs" "al' \<subseteq> al - kills (weak_cb w)"
        "no_call_after_death kills (- (al - kills (weak_cb w))) cs"
        "length ws < n \<longrightarrow> r2 = Ok (ws \<noteq> []) \<and> queue q' = [] \<and> living al' cs = living al' (weak_calls ws)"
        by auto
      have "- (al - kills (weak_cb w)) = - al \<union> kills (weak_cb w)" by auto
      then show ?thesis using cs live(1,2) r2(2) Cons
        by (intro exI [of _ "(Some m, weak_cb w) # cs"]) auto
    qed
  qed
qed auto

text \<open>
  C13: a weak callback never runs after its callee is gone. However the callbacks that do run
  destroy callees, \<open>execute\<close> makes no call for a callee that was destroyed before or that an earlier
  call destroyed, and none for a callback without a life. It ends, with an empty queue, and the
  callbacks whose callees are still alive were all run, once and in order.
\<close>

theorem weak_callbacks_safe:
  assumes "cbq_execute n fst (\<lambda>q s. (q, snd s)) (weak_log_call kills) (q, al, []) = (r, (q', al', calls))"
    and "length (queue q) < n"
  shows "no_call_after_death kills (- al) calls \<and> r = Ok (queue q \<noteq> []) \<and> queue q' = []
     \<and> living al' calls = living al' (weak_calls (queue q))"
  using weak_execute_calls [OF assms(1)] assms(2) by auto

text \<open>Callee 3 is gone before, callee 2 is destroyed by the first callback.\<close>

theorem weak_callbacks_safe_witness:
  "\<exists>r q' al'. cbq_execute 5 fst (\<lambda>q s. (q, snd s)) (weak_log_call (\<lambda>c. if c = ''kill 2'' then {2} else {}))
      (\<lparr>queue = [WeakCallback (Some 1) ''kill 2'', WeakCallback (Some 2) ''x'', WeakCallback (Some 3) ''z'',
         WeakCallback (Some 1) ''y''], wakeUp_set = False\<rparr>, {1, 2}, [])
        = (r, (q', al', [(Some 1, ''kill 2''), (Some 1, ''y'')]))
   \<and> no_call_after_death (\<lambda>c. if c = ''kill 2'' then {2} else {}) (- {1, 2}) [(Some 1, ''kill 2''), (Some 1, ''y'')]
   \<and> queue q' = []"
proof -
  let ?kills = "\<lambda>c. if c = ''kill 2'' then {2} else {} :: nat set"
  let ?q = "\<lparr>queue = [WeakCallback (Some 1) ''kill 2'', WeakCallback (Some 2) ''x'', WeakCallback (Some 3) ''z'',
         WeakCallback (Some 1) ''y''], wakeUp_set = False\<rparr>"
  obtain r q' al' where run: "cbq_execute 5 fst (\<lambda>q s. (q, snd s)) (weak_log_call ?kills) (?q, {1, 2}, [])
      = (r, (q', al', [(Some 1, ''kill 2''), (Some 1, ''y'')]))"
    by (simp add: bnd_run seq_run zoom_run cbq_pop_def weak_log_call_def weak_execute_def when_run
        wl_expired_def numeral_eq_Suc)
  show ?thesis using weak_callbacks_safe [OF run] run by simp
qed

end
