(* ===== verification/FDRegistry.thy ===== *)
theory FDRegistry
  imports System
begin

text \<open>
  Model of \<open>src/lib/FDListenerMap.cpp\<close>, \<open>src/lib/Epoll.cpp\<close>, \<open>src/lib/FDMonitor.cpp\<close> and of the
  descriptor part of \<open>src/lib/BaseEpollRunner.cpp\<close>. The state is an extensible record, so that the
  runners, whose state extends it, use the same definitions. Listeners are values.
\<close>

section \<open>FDListenerMap\<close>

record 'l fdl_map =
  listeners :: "rawfd \<Rightarrow> ('l \<times> event_mask) option"

definition flm_find :: "rawfd \<Rightarrow> (('l, 'z) fdl_map_scheme, 'l \<times> event_mask) prog" where
  "flm_find fd = (\<lambda>s. case listeners s fd of
       None \<Rightarrow> (Throw (NonExistingFDListener fd), s) | Some e \<Rightarrow> (Ok e, s))"

definition flm_add :: "('l \<Rightarrow> rawfd \<Rightarrow> event_mask \<Rightarrow> (('l, 'z) fdl_map_scheme, unit) prog) \<Rightarrow>
    'l \<Rightarrow> rawfd \<Rightarrow> event_mask \<Rightarrow> (('l, 'z) fdl_map_scheme, unit) prog" where
  "flm_add addCallback fl fd events = (\<lambda>s. case listeners s fd of
       Some _ \<Rightarrow> (Throw (FDAlreadyAdded fd), s)
     | None \<Rightarrow> seq (modify_st (\<lambda>s. s\<lparr>listeners := (listeners s)(fd \<mapsto> (fl, events))\<rparr>))
                 (addCallback fl fd events) s)"

definition flm_modify :: "('l \<Rightarrow> rawfd \<Rightarrow> event_mask \<Rightarrow> (('l, 'z) fdl_map_scheme, unit) prog) \<Rightarrow>
    rawfd \<Rightarrow> event_mask \<Rightarrow> (('l, 'z) fdl_map_scheme, unit) prog" where
  "flm_modify modifyCallback fd events = bnd (flm_find fd) (\<lambda>(fl, old).
     if old \<noteq> events
     then seq (modifyCallback fl fd events)
            (modify_st (\<lambda>s. s\<lparr>listeners := (listeners s)(fd := map_option (\<lambda>(l, _). (l, events)) (listeners s fd))\<rparr>))
     else ret ())"

definition flm_get :: "rawfd \<Rightarrow> (('l, 'z) fdl_map_scheme, 'l) prog" where
  "flm_get fd = bnd (flm_find fd) (\<lambda>(fl, _). ret fl)"

definition flm_getEvents :: "rawfd \<Rightarrow> (('l, 'z) fdl_map_scheme, event_mask) prog" where
  "flm_getEvents fd = bnd (flm_find fd) (\<lambda>(_, ev). ret ev)"

definition flm_del :: "('l \<Rightarrow> rawfd \<Rightarrow> event_mask \<Rightarrow> (('l, 'z) fdl_map_scheme, unit) prog) \<Rightarrow>
    rawfd \<Rightarrow> (('l, 'z) fdl_map_scheme, unit) prog" where
  "flm_del delCallback fd = bnd (flm_find fd) (\<lambda>(fl, events).
     seq (delCallback fl fd events) (modify_st (\<lambda>s. s\<lparr>listeners := (listeners s)(fd := None)\<rparr>)))"

section \<open>Epoll\<close>

record ('l, 'w) reg = "'l fdl_map" +
  epfd :: rawfd
  addCount :: nat
  eventArray :: "(rawfd \<times> event_mask) list"
  world :: 'w

definition on_world :: "('w, 'a) prog \<Rightarrow> (('l, 'w, 'z) reg_scheme, 'a) prog" where
  "on_world m = zoom world (\<lambda>w. world_update (\<lambda>_. w)) m"

text \<open>\<open>epfd\<close> is a \<open>FileDescriptor\<close>; its conversion to \<open>int\<close> throws when it is invalid.\<close>

definition epfd_int :: "(('l, 'w, 'z) reg_scheme, rawfd) prog" where
  "epfd_int = (\<lambda>s. if epfd s < 0 then (Throw InvalidFD, s) else (Ok (epfd s), s))"

definition epoll_add :: "'w system \<Rightarrow> rawfd \<Rightarrow> event_mask \<Rightarrow> (('l, 'w, 'z) reg_scheme, unit) prog" where
  "epoll_add S fd events = bnd epfd_int (\<lambda>ep.
     seq (on_world (sys_epollCtl S ep CtlAdd fd events)) (modify_st (addCount_update (\<lambda>n. plus64 n 1))))"

definition epoll_modify :: "'w system \<Rightarrow> rawfd \<Rightarrow> event_mask \<Rightarrow> (('l, 'w, 'z) reg_scheme, unit) prog" where
  "epoll_modify S fd events = bnd epfd_int (\<lambda>ep. on_world (sys_epollCtl S ep CtlMod fd events))"

definition epoll_del :: "'w system \<Rightarrow> rawfd \<Rightarrow> (('l, 'w, 'z) reg_scheme, unit) prog" where
  "epoll_del S fd = bnd epfd_int (\<lambda>ep.
     seq (on_world (sys_epollCtl S ep CtlDel fd 0)) (modify_st (addCount_update (\<lambda>n. minus64 n 1))))"

text \<open>
  \<open>wait\<close> gives the kernel room for \<open>addCount\<close> events. \<open>&eventArray[0]\<close> of an empty vector is
  undefined behaviour.
\<close>

definition epoll_wait :: "'w system \<Rightarrow> int \<Rightarrow> (('l, 'w, 'z) reg_scheme, bool) prog" where
  "epoll_wait S timeout = (\<lambda>s. let room = resize_list (addCount s) (0, 0) (eventArray s) in
     if room = [] then (Undef, s\<lparr>eventArray := room\<rparr>)
     else bnd epfd_int (\<lambda>ep. bnd (on_world (sys_epollWait S ep (length room) timeout)) (\<lambda>(r, events).
       seq (modify_st (eventArray_update (\<lambda>_.
              resize_list (nat (max 0 r)) (0, 0) (events @ drop (length events) room))))
         (ret (r = 0)))) (s\<lparr>eventArray := room\<rparr>))"

section \<open>The descriptor functions of BaseEpollRunner\<close>

definition base_add :: "'w system \<Rightarrow> 'l \<Rightarrow> rawfd \<Rightarrow> event_mask \<Rightarrow> (('l, 'w, 'z) reg_scheme, unit) prog" where
  "base_add S = flm_add (\<lambda>_ fd events. epoll_add S fd events)"

definition base_modify :: "'w system \<Rightarrow> rawfd \<Rightarrow> event_mask \<Rightarrow> (('l, 'w, 'z) reg_scheme, unit) prog" where
  "base_modify S = flm_modify (\<lambda>_ fd events. epoll_modify S fd events)"

definition base_del :: "'w system \<Rightarrow> rawfd \<Rightarrow> (('l, 'w, 'z) reg_scheme, unit) prog" where
  "base_del S = flm_del (\<lambda>_ fd _. epoll_del S fd)"

section \<open>FDMonitor\<close>

record ('l, 'w) monitored = "('l, 'w) reg" +
  monitoring :: bool
  deletedFds :: "rawfd set"

definition startMonitoring :: "('l, 'w, 'z) monitored_scheme \<Rightarrow> ('l, 'w, 'z) monitored_scheme" where
  "startMonitoring s = s\<lparr>monitoring := True\<rparr>"

definition stopMonitoring :: "('l, 'w, 'z) monitored_scheme \<Rightarrow> ('l, 'w, 'z) monitored_scheme" where
  "stopMonitoring s = s\<lparr>monitoring := False, deletedFds := {}\<rparr>"

definition monitor_add :: "rawfd \<Rightarrow> ('l, 'w, 'z) monitored_scheme \<Rightarrow> ('l, 'w, 'z) monitored_scheme" where
  "monitor_add fd s = (if monitoring s then s\<lparr>deletedFds := insert fd (deletedFds s)\<rparr> else s)"

definition monitor_has :: "rawfd \<Rightarrow> ('l, 'w, 'z) monitored_scheme \<Rightarrow> bool" where
  "monitor_has fd s \<longleftrightarrow> fd \<in> deletedFds s"

text \<open>The life of a \<open>Guard\<close> around \<open>m\<close>.\<close>

definition monitor_guard :: "(('l, 'w, 'z) monitored_scheme, 'a) prog \<Rightarrow> (('l, 'w, 'z) monitored_scheme, 'a) prog" where
  "monitor_guard m = seq (modify_st startMonitoring) (scope_exit m stopMonitoring)"

section \<open>Outcomes of the operations\<close>

lemma on_world_cases:
  obtains r w where "m (world s) = (r, w)" "on_world m s = (r, s\<lparr>world := w\<rparr>)"
  by (cases "m (world s)") (simp add: on_world_def zoom_run)

text \<open>What an epoll call leaves: the map is never touched.\<close>

lemma epoll_add_cases:
  obtains (ok) w where "epoll_add S fd ev s = (Ok (), s\<lparr>world := w, addCount := plus64 (addCount s) 1\<rparr>)"
      "0 \<le> epfd s" "sys_epollCtl S (epfd s) CtlAdd fd ev (world s) = (Ok (), w)"
  | (fail) r w where "epoll_add S fd ev s = (r, s\<lparr>world := w\<rparr>)" "r \<noteq> Ok ()"
      "epfd s < 0 \<and> r = Throw InvalidFD \<and> w = world s
         \<or> 0 \<le> epfd s \<and> sys_epollCtl S (epfd s) CtlAdd fd ev (world s) = (r, w)"
proof (cases "epfd s < 0")
  case True
  then show ?thesis by (intro fail [of "Throw InvalidFD" "world s"]) (simp_all add: epoll_add_def epfd_int_def bnd_run)
next
  case False
  show ?thesis
  proof (cases rule: on_world_cases [of "sys_epollCtl S (epfd s) CtlAdd fd ev" s])
    case (1 r w)
    show ?thesis
    proof (cases r)
      case (Ok u)
      then show ?thesis using 1 False
        by (intro ok [of w]) (simp_all add: epoll_add_def epfd_int_def bnd_run seq_run)
    qed (use 1 False in \<open>auto intro!: fail [of r w] simp: epoll_add_def epfd_int_def bnd_run seq_run\<close>)
  qed
qed

lemma epoll_modify_cases:
  obtains (ok) w where "epoll_modify S fd ev s = (Ok (), s\<lparr>world := w\<rparr>)"
      "0 \<le> epfd s" "sys_epollCtl S (epfd s) CtlMod fd ev (world s) = (Ok (), w)"
  | (fail) r w where "epoll_modify S fd ev s = (r, s\<lparr>world := w\<rparr>)" "r \<noteq> Ok ()"
      "epfd s < 0 \<and> r = Throw InvalidFD \<and> w = world s
         \<or> 0 \<le> epfd s \<and> sys_epollCtl S (epfd s) CtlMod fd ev (world s) = (r, w)"
proof (cases "epfd s < 0")
  case True
  then show ?thesis by (intro fail [of "Throw InvalidFD" "world s"]) (simp_all add: epoll_modify_def epfd_int_def bnd_run)
next
  case False
  show ?thesis
  proof (cases rule: on_world_cases [of "sys_epollCtl S (epfd s) CtlMod fd ev" s])
    case (1 r w)
    then show ?thesis using False ok [of w] fail [of r w]
      by (cases r) (auto simp: epoll_modify_def epfd_int_def bnd_run)
  qed
qed

lemma epoll_del_cases:
  obtains (ok) w where "epoll_del S fd s = (Ok (), s\<lparr>world := w, addCount := minus64 (addCount s) 1\<rparr>)"
      "0 \<le> epfd s" "sys_epollCtl S (epfd s) CtlDel fd 0 (world s) = (Ok (), w)"
  | (fail) r w where "epoll_del S fd s = (r, s\<lparr>world := w\<rparr>)" "r \<noteq> Ok ()"
      "epfd s < 0 \<and> r = Throw InvalidFD \<and> w = world s
         \<or> 0 \<le> epfd s \<and> sys_epollCtl S (epfd s) CtlDel fd 0 (world s) = (r, w)"
proof (cases "epfd s < 0")
  case True
  then show ?thesis by (intro fail [of "Throw InvalidFD" "world s"]) (simp_all add: epoll_del_def epfd_int_def bnd_run)
next
  case False
  show ?thesis
  proof (cases rule: on_world_cases [of "sys_epollCtl S (epfd s) CtlDel fd 0" s])
    case (1 r w)
    show ?thesis
    proof (cases r)
      case (Ok u)
      then show ?thesis using 1 False
        by (intro ok [of w]) (simp_all add: epoll_del_def epfd_int_def bnd_run seq_run)
    qed (use 1 False in \<open>auto intro!: fail [of r w] simp: epoll_del_def epfd_int_def bnd_run seq_run\<close>)
  qed
qed

section \<open>The interface to the runners\<close>

datatype 'l reg_op = RegAdd 'l rawfd event_mask | RegModify rawfd event_mask | RegDel rawfd

text \<open>
  What a runner relies on: the registry is a map in which a descriptor has at most one listener; a
  call that succeeds has the effect of the map operation, a misuse throws and changes nothing, and
  no call touches the entry of another descriptor or removes an entry unless it succeeds in
  deleting it.
\<close>

locale fd_registry =
  fixes lookup :: "'s \<Rightarrow> rawfd \<Rightarrow> ('l \<times> event_mask) option"
    and reg_do :: "'l reg_op \<Rightarrow> ('s, unit) prog"
  assumes add_ok: "reg_do (RegAdd fl fd ev) s = (Ok (), s') \<Longrightarrow>
      lookup s fd = None \<and> lookup s' = (lookup s)(fd \<mapsto> (fl, ev))"
    and add_dup: "lookup s fd \<noteq> None \<Longrightarrow> reg_do (RegAdd fl fd ev) s = (Throw (FDAlreadyAdded fd), s)"
    and modify_ok: "reg_do (RegModify fd ev) s = (Ok (), s') \<Longrightarrow>
      \<exists>fl old. lookup s fd = Some (fl, old) \<and> lookup s' = (lookup s)(fd \<mapsto> (fl, ev))"
    and modify_none: "lookup s fd = None \<Longrightarrow> reg_do (RegModify fd ev) s = (Throw (NonExistingFDListener fd), s)"
    and del_ok: "reg_do (RegDel fd) s = (Ok (), s') \<Longrightarrow> lookup s fd \<noteq> None \<and> lookup s' = (lookup s)(fd := None)"
    and del_none: "lookup s fd = None \<Longrightarrow> reg_do (RegDel fd) s = (Throw (NonExistingFDListener fd), s)"
    and failed: "reg_do x s = (r, s') \<Longrightarrow> r \<noteq> Ok () \<Longrightarrow>
      lookup s' = lookup s \<or> (\<exists>fl fd ev. x = RegAdd fl fd ev \<and> lookup s fd = None \<and> lookup s' = (lookup s)(fd \<mapsto> (fl, ev)))"
begin

lemma dom_step:
  assumes "reg_do x s = (r, s')"
  shows "dom (lookup s) \<subseteq> dom (lookup s') \<union> (case x of RegDel fd \<Rightarrow> {fd} | _ \<Rightarrow> {})"
proof (cases "r = Ok ()")
  case True
  show ?thesis
  proof (cases x)
    case (RegAdd fl fd ev)
    with True assms add_ok show ?thesis by auto
  next
    case (RegModify fd ev)
    with True assms modify_ok [of fd ev s s'] show ?thesis by auto
  next
    case (RegDel fd)
    with True assms del_ok [of fd s s'] show ?thesis by auto
  qed
next
  case False
  with failed [OF assms] show ?thesis by auto
qed

text \<open>Running any operations, whether they succeed or not.\<close>

fun reg_history :: "'l reg_op list \<Rightarrow> 's \<Rightarrow> 's" where
  "reg_history [] s = s"
| "reg_history (x # xs) s = reg_history xs (snd (reg_do x s))"

lemma dom_history:
  "fd \<in> dom (lookup s) \<Longrightarrow> RegDel fd \<notin> set xs \<Longrightarrow> fd \<in> dom (lookup (reg_history xs s))"
proof (induction xs arbitrary: s)
  case (Cons x xs)
  have "fd \<in> dom (lookup (snd (reg_do x s)))"
    using dom_step [of x s "fst (reg_do x s)" "snd (reg_do x s)"] Cons.prems
    by (cases x) (simp_all, blast+)
  then show ?case using Cons by simp
qed simp

end

fun reg_step :: "'w system \<Rightarrow> 'l reg_op \<Rightarrow> (('l, 'w, 'z) reg_scheme, unit) prog" where
  "reg_step S (RegAdd fl fd ev) = base_add S fl fd ev"
| "reg_step S (RegModify fd ev) = base_modify S fd ev"
| "reg_step S (RegDel fd) = base_del S fd"

text \<open>The three operations of \<open>BaseEpollRunner\<close>, on each of their branches.\<close>

lemma base_add_cases:
  obtains (dup) "listeners s fd \<noteq> None" "base_add S fl fd ev s = (Throw (FDAlreadyAdded fd), s)"
  | (ok) w where "listeners s fd = None" "0 \<le> epfd s"
      "sys_epollCtl S (epfd s) CtlAdd fd ev (world s) = (Ok (), w)"
      "base_add S fl fd ev s = (Ok (), s\<lparr>listeners := (listeners s)(fd \<mapsto> (fl, ev)), world := w,
         addCount := plus64 (addCount s) 1\<rparr>)"
  | (fail) r w where "listeners s fd = None" "r \<noteq> Ok ()"
      "epfd s < 0 \<and> r = Throw InvalidFD \<and> w = world s
         \<or> 0 \<le> epfd s \<and> sys_epollCtl S (epfd s) CtlAdd fd ev (world s) = (r, w)"
      "base_add S fl fd ev s = (r, s\<lparr>listeners := (listeners s)(fd \<mapsto> (fl, ev)), world := w\<rparr>)"
proof (cases "listeners s fd")
  case (Some e)
  then show ?thesis by (intro dup) (simp_all add: base_add_def flm_add_def)
next
  case None
  let ?s = "s\<lparr>listeners := (listeners s)(fd \<mapsto> (fl, ev))\<rparr>"
  have run: "base_add S fl fd ev s = epoll_add S fd ev ?s"
    using None by (simp add: base_add_def flm_add_def seq_run)
  show ?thesis
  proof (cases rule: epoll_add_cases [of S fd ev ?s])
    case A: (ok w)
    then show ?thesis using None run by (intro ok [of w]) simp_all
  next
    case A: (fail r w)
    then show ?thesis using None run by (intro fail [of r w]) simp_all
  qed
qed

lemma base_modify_cases:
  obtains (none) "listeners s fd = None" "base_modify S fd ev s = (Throw (NonExistingFDListener fd), s)"
  | (same) fl where "listeners s fd = Some (fl, ev)" "base_modify S fd ev s = (Ok (), s)"
  | (ok) fl old w where "listeners s fd = Some (fl, old)" "old \<noteq> ev" "0 \<le> epfd s"
      "sys_epollCtl S (epfd s) CtlMod fd ev (world s) = (Ok (), w)"
      "base_modify S fd ev s = (Ok (), s\<lparr>listeners := (listeners s)(fd \<mapsto> (fl, ev)), world := w\<rparr>)"
  | (fail) r w where "listeners s fd \<noteq> None" "r \<noteq> Ok ()"
      "epfd s < 0 \<and> r = Throw InvalidFD \<and> w = world s
         \<or> 0 \<le> epfd s \<and> sys_epollCtl S (epfd s) CtlMod fd ev (world s) = (r, w)"
      "base_modify S fd ev s = (r, s\<lparr>world := w\<rparr>)"
proof (cases "listeners s fd")
  case None
  then show ?thesis by (intro none) (simp_all add: base_modify_def flm_modify_def flm_find_def bnd_run)
next
  case (Some e)
  obtain fl old where e: "e = (fl, old)" by (cases e)
  show ?thesis
  proof (cases "old = ev")
    case True
    then show ?thesis using Some e
      by (intro same [of fl]) (simp_all add: base_modify_def flm_modify_def flm_find_def bnd_run)
  next
    case False
    show ?thesis
    proof (cases rule: epoll_modify_cases [of S fd ev s])
      case A: (ok w)
      then show ?thesis using Some e False
        by (intro ok [of fl old w]) (simp_all add: base_modify_def flm_modify_def flm_find_def bnd_run seq_run)
    next
      case A: (fail r w)
      then show ?thesis using Some e False
        by (intro fail [of r w]; cases r)
           (simp_all add: base_modify_def flm_modify_def flm_find_def bnd_run seq_run)
    qed
  qed
qed

lemma base_del_cases:
  obtains (none) "listeners s fd = None" "base_del S fd s = (Throw (NonExistingFDListener fd), s)"
  | (ok) w where "listeners s fd \<noteq> None" "0 \<le> epfd s"
      "sys_epollCtl S (epfd s) CtlDel fd 0 (world s) = (Ok (), w)"
      "base_del S fd s = (Ok (), s\<lparr>listeners := (listeners s)(fd := None), world := w,
         addCount := minus64 (addCount s) 1\<rparr>)"
  | (fail) r w where "listeners s fd \<noteq> None" "r \<noteq> Ok ()"
      "epfd s < 0 \<and> r = Throw InvalidFD \<and> w = world s
         \<or> 0 \<le> epfd s \<and> sys_epollCtl S (epfd s) CtlDel fd 0 (world s) = (r, w)"
      "base_del S fd s = (r, s\<lparr>world := w\<rparr>)"
proof (cases "listeners s fd")
  case None
  then show ?thesis by (intro none) (simp_all add: base_del_def flm_del_def flm_find_def bnd_run)
next
  case (Some e)
  obtain fl old where e: "e = (fl, old)" by (cases e)
  show ?thesis
  proof (cases rule: epoll_del_cases [of S fd s])
    case A: (ok w)
    then show ?thesis using Some e
      by (intro ok [of w]) (simp_all add: base_del_def flm_del_def flm_find_def bnd_run seq_run)
  next
    case A: (fail r w)
    then show ?thesis using Some e
      by (intro fail [of r w]; cases r)
         (simp_all add: base_del_def flm_del_def flm_find_def bnd_run seq_run)
  qed
qed

lemma reg_step_add_fail:
  "reg_step S x s = (r, s') \<Longrightarrow> r \<noteq> Ok () \<Longrightarrow>
      listeners s' = listeners s \<or> (\<exists>fl fd ev. x = RegAdd fl fd ev \<and> listeners s fd = None
        \<and> listeners s' = (listeners s)(fd \<mapsto> (fl, ev)))"
proof (cases x)
  case (RegAdd fl fd ev)
  assume "reg_step S x s = (r, s')" "r \<noteq> Ok ()"
  then show ?thesis using RegAdd by (cases rule: base_add_cases [of s fd S fl ev]) auto
next
  case (RegModify fd ev)
  assume "reg_step S x s = (r, s')" "r \<noteq> Ok ()"
  then show ?thesis using RegModify by (cases rule: base_modify_cases [of s fd S ev]) auto
next
  case (RegDel fd)
  assume "reg_step S x s = (r, s')" "r \<noteq> Ok ()"
  then show ?thesis using RegDel by (cases rule: base_del_cases [of s fd S]) auto
qed

interpretation base_reg: fd_registry listeners "reg_step S" for S
proof (unfold_locales, goal_cases)
  case (1 fl fd ev s s')
  then show ?case by (cases rule: base_add_cases [of s fd S fl ev]) auto
next
  case (2 s fd fl ev)
  then show ?case by (cases rule: base_add_cases [of s fd S fl ev]) auto
next
  case (3 fd ev s s')
  then show ?case by (cases rule: base_modify_cases [of s fd S ev]) auto
next
  case (4 s fd ev)
  then show ?case by (cases rule: base_modify_cases [of s fd S ev]) auto
next
  case (5 fd s s')
  then show ?case by (cases rule: base_del_cases [of s fd S]) auto
next
  case (6 s fd)
  then show ?case by (cases rule: base_del_cases [of s fd S]) auto
next
  case (7 x s r s')
  then show ?case by (rule reg_step_add_fail)
qed

section \<open>Properties\<close>

text \<open>
  The documented behaviour of \<open>epoll_ctl\<close> on the interest list of an epoll instance: a successful
  call adds, changes or removes the entry, a failing one changes nothing, and changing or removing
  an entry that is not there fails (\<open>ENOENT\<close>).
\<close>

definition epoll_ctl_contract :: "'w system \<Rightarrow> rawfd \<Rightarrow> ('w \<Rightarrow> rawfd \<Rightarrow> event_mask option) \<Rightarrow> bool" where
  "epoll_ctl_contract S ep interest \<longleftrightarrow> (\<forall>x fd ev w r w'. sys_epollCtl S ep x fd ev w = (r, w') \<longrightarrow>
     interest w' = (if r = Ok () then (case x of CtlDel \<Rightarrow> (interest w)(fd := None)
                                       | _ \<Rightarrow> (interest w)(fd \<mapsto> ev)) else interest w)
     \<and> (x \<noteq> CtlAdd \<and> interest w fd = None \<longrightarrow> r \<noteq> Ok ()))"

text \<open>Map and kernel agree, but for the descriptors in \<open>R\<close>, which are in the map only.\<close>

definition agrees_but :: "rawfd set \<Rightarrow> ('w \<Rightarrow> rawfd \<Rightarrow> event_mask option) \<Rightarrow> ('l, 'w, 'z) reg_scheme \<Rightarrow> bool" where
  "agrees_but R interest s \<longleftrightarrow> interest (world s) = (\<lambda>fd. if fd \<in> R then None else map_option snd (listeners s fd))
     \<and> R \<subseteq> dom (listeners s) \<and> finite (dom (listeners s)) \<and> addCount s = card (dom (interest (world s)))"

text \<open>Any calls; the result is the set of descriptors whose addition to the kernel failed, and the state.\<close>

definition refused_by :: "'l reg_op \<Rightarrow> unit outcome \<Rightarrow> ('l, 'w, 'z) reg_scheme \<Rightarrow> rawfd set" where
  "refused_by x r s = (case x of RegAdd fl fd ev \<Rightarrow> if r \<noteq> Ok () \<and> listeners s fd = None then {fd} else {} | _ \<Rightarrow> {})"

fun reg_run :: "'w system \<Rightarrow> 'l reg_op list \<Rightarrow> ('l, 'w, 'z) reg_scheme \<Rightarrow> rawfd set \<times> ('l, 'w, 'z) reg_scheme" where
  "reg_run S [] s = ({}, s)"
| "reg_run S (x # xs) s = (case reg_step S x s of (r, s1) \<Rightarrow> (case reg_run S xs s1 of (R, s2) \<Rightarrow>
     (refused_by x r s \<union> R, s2)))"

lemma ctl_interest:
  assumes "epoll_ctl_contract S (epfd s) interest" and "sys_epollCtl S (epfd s) x fd ev (world s) = (r, w')"
  shows "interest w' = (if r = Ok () then (case x of CtlDel \<Rightarrow> (interest (world s))(fd := None)
      | _ \<Rightarrow> (interest (world s))(fd \<mapsto> ev)) else interest (world s))"
    "x \<noteq> CtlAdd \<Longrightarrow> r = Ok () \<Longrightarrow> interest (world s) fd \<noteq> None"
  using assms unfolding epoll_ctl_contract_def by (blast, metis)

lemma agrees_butD:
  assumes "agrees_but R interest s"
  shows "interest (world s) fd = (if fd \<in> R then None else map_option snd (listeners s fd))"
    "R \<subseteq> dom (listeners s)" "finite (dom (listeners s))" "addCount s = card (dom (interest (world s)))"
    "finite (dom (interest (world s)))"
proof -
  show "interest (world s) fd = (if fd \<in> R then None else map_option snd (listeners s fd))"
    "R \<subseteq> dom (listeners s)" "finite (dom (listeners s))" "addCount s = card (dom (interest (world s)))"
    using assms by (simp_all add: agrees_but_def)
  have "dom (interest (world s)) \<subseteq> dom (listeners s)"
    using assms by (auto simp: agrees_but_def split: if_splits)
  then show "finite (dom (interest (world s)))" using \<open>finite (dom (listeners s))\<close> finite_subset by blast
qed

lemma agrees_butI:
  assumes "\<And>fd. interest (world s) fd = (if fd \<in> R then None else map_option snd (listeners s fd))"
    and "R \<subseteq> dom (listeners s)" "finite (dom (listeners s))" "addCount s = card (dom (interest (world s)))"
  shows "agrees_but R interest s"
  using assms by (auto simp: agrees_but_def)

lemma agrees_but_world:
  assumes "agrees_but R interest s" and "interest w = interest (world s)"
  shows "agrees_but R interest (s\<lparr>world := w\<rparr>)"
proof (rule agrees_butI)
  fix fd
  show "interest (world (s\<lparr>world := w\<rparr>)) fd
      = (if fd \<in> R then None else map_option snd (listeners (s\<lparr>world := w\<rparr>) fd))"
    using agrees_butD(1) [OF assms(1), of fd] assms(2) by simp
qed (use agrees_butD(2-4) [OF assms(1)] assms(2) in simp_all)

text \<open>A call that fails in the kernel, or does not reach it, changes neither the interest list nor the
  count; \<open>listeners\<close> may only have grown by a refused descriptor.\<close>

lemma add_agrees:
  assumes con: "epoll_ctl_contract S (epfd s) interest" and agr: "agrees_but R interest s"
    and bound: "addCount s + 1 < size_t_max" and step: "reg_step S (RegAdd fl fd ev) s = (r, s')"
  shows "agrees_but (R \<union> refused_by (RegAdd fl fd ev) r s) interest s' \<and> epfd s' = epfd s \<and> addCount s' \<le> addCount s + 1"
proof (cases rule: base_add_cases [of s fd S fl ev])
  case dup
  then show ?thesis using agr step by (auto simp: refused_by_def)
next
  case 2: (ok w)
  note D = agrees_butD [OF agr]
  have w: "interest w = (interest (world s))(fd \<mapsto> ev)" using ctl_interest(1) [OF con 2(3)] by simp
  have R: "fd \<notin> R" using D(2) 2(1) by auto
  then have "fd \<notin> dom (interest (world s))" using D(1) [of fd] 2(1) by auto
  have "agrees_but R interest s'"
  proof (rule agrees_butI)
    show "interest (world s') f = (if f \<in> R then None else map_option snd (listeners s' f))" for f
      using 2 step w R D(1) [of f] by auto
  qed (use 2 step w R D bound in \<open>auto simp: card_insert_if\<close>)
  then show ?thesis using 2 step bound by (auto simp: refused_by_def)
next
  case 3: (fail r0 w)
  note D = agrees_butD [OF agr]
  have w: "interest w = interest (world s)" using 3 ctl_interest(1) [OF con, of CtlAdd fd ev r0 w] by auto
  have "agrees_but (insert fd R) interest s'"
  proof (rule agrees_butI)
    show "interest (world s') f = (if f \<in> insert fd R then None else map_option snd (listeners s' f))" for f
      using 3 step w D(1) [of f] D(1) [of fd] by (auto split: if_splits)
  qed (use 3 step w D in auto)
  then show ?thesis using 3 step by (auto simp: refused_by_def)
qed

lemma modify_agrees:
  assumes con: "epoll_ctl_contract S (epfd s) interest" and agr: "agrees_but R interest s"
    and step: "reg_step S (RegModify fd ev) s = (r, s')"
  shows "agrees_but R interest s' \<and> epfd s' = epfd s \<and> addCount s' = addCount s"
proof (cases rule: base_modify_cases [of s fd S ev])
  case none
  then show ?thesis using agr step by simp
next
  case (same fl)
  then show ?thesis using agr step by simp
next
  case 3: (ok fl old w)
  note D = agrees_butD [OF agr]
  have w: "interest w = (interest (world s))(fd \<mapsto> ev)" "interest (world s) fd \<noteq> None"
    using ctl_interest [OF con 3(4)] by simp_all
  then have R: "fd \<notin> R" "dom (interest w) = dom (interest (world s))" using D(1) [of fd] by (auto split: if_splits)
  have "agrees_but R interest s'"
  proof (rule agrees_butI)
    show "interest (world s') f = (if f \<in> R then None else map_option snd (listeners s' f))" for f
      using 3 step w R D(1) [of f] by auto
    show "R \<subseteq> dom (listeners s')" "finite (dom (listeners s'))"
      using 3 step D(2,3) by auto
    show "addCount s' = card (dom (interest (world s')))" using 3 step R(2) D(4) by auto
  qed
  then show ?thesis using 3 step by auto
next
  case 4: (fail r0 w)
  then have "interest w = interest (world s)" using ctl_interest(1) [OF con, of CtlMod fd ev r0 w] by auto
  then have "agrees_but R interest (s\<lparr>world := w\<rparr>)" using agr by (rule agrees_but_world [rotated])
  then show ?thesis using 4 step by auto
qed

lemma del_agrees:
  assumes con: "epoll_ctl_contract S (epfd s) interest" and agr: "agrees_but R interest s"
    and step: "reg_step S (RegDel fd) s = (r, s')"
  shows "agrees_but R interest s' \<and> epfd s' = epfd s \<and> addCount s' \<le> addCount s"
proof (cases rule: base_del_cases [of s fd S])
  case none
  then show ?thesis using agr step by simp
next
  case 2: (ok w)
  note D = agrees_butD [OF agr]
  have w: "interest w = (interest (world s))(fd := None)" "interest (world s) fd \<noteq> None"
    using ctl_interest [OF con 2(3)] by simp_all
  then have R: "fd \<notin> R" "fd \<in> dom (interest (world s))" using D(1) [of fd] by (auto split: if_splits)
  then have "0 < addCount s" using D(4,5) by (metis card_gt_0_iff empty_iff)
  then have count: "minus64 (addCount s) 1 = addCount s - 1" by simp
  have "agrees_but R interest s'"
  proof (rule agrees_butI)
    show "interest (world s') f = (if f \<in> R then None else map_option snd (listeners s' f))" for f
      using 2 step w R D(1) [of f] by auto
    have "card (dom (interest (world s)) - {fd}) = addCount s - 1"
      using R(2) D(4,5) by simp
    then show "addCount s' = card (dom (interest (world s')))"
      using 2 step w(1) count by auto
  qed (use 2 step R D in auto)
  then show ?thesis using 2 step count by auto
next
  case 3: (fail r0 w)
  then have "interest w = interest (world s)" using ctl_interest(1) [OF con, of CtlDel fd 0 r0 w] by auto
  then have "agrees_but R interest (s\<lparr>world := w\<rparr>)" using agr by (rule agrees_but_world [rotated])
  then show ?thesis using 3 step by auto
qed

lemma step_agrees:
  assumes "epoll_ctl_contract S (epfd s) interest" and "agrees_but R interest s"
    and "addCount s + 1 < size_t_max" and "reg_step S x s = (r, s')"
  shows "agrees_but (R \<union> refused_by x r s) interest s' \<and> epfd s' = epfd s \<and> addCount s' \<le> addCount s + 1"
proof (cases x)
  case (RegAdd fl fd ev)
  then show ?thesis using add_agrees [OF assms(1-3)] assms(4) by blast
next
  case (RegModify fd ev)
  then show ?thesis using modify_agrees [OF assms(1,2)] assms(4) by (fastforce simp: refused_by_def)
next
  case (RegDel fd)
  then show ?thesis using del_agrees [OF assms(1,2)] assms(4) by (fastforce simp: refused_by_def)
qed

text \<open>
  C14: from a registry that agrees with the kernel, after any calls of \<open>add\<close>, \<open>modify\<close> and \<open>del\<close>,
  whichever of them fail, the interest list of the kernel is the listener map without the
  descriptors whose addition the kernel refused, and the count of registered descriptors is its
  size. A refused descriptor stays in the map: it can neither be added again nor deleted.
\<close>

theorem registry_matches_kernel:
  assumes "epoll_ctl_contract S (epfd s) interest" and "agrees_but {} interest s"
    and "addCount s + length xs < size_t_max" and "reg_run S xs s = (R, s')"
  shows "interest (world s') = (\<lambda>fd. if fd \<in> R then None else map_option snd (listeners s' fd))
     \<and> addCount s' = card (dom (interest (world s'))) \<and> R \<subseteq> dom (listeners s')"
proof -
  have "agrees_but (R0 \<union> R) interest s'"
    if "epoll_ctl_contract S (epfd s) interest" "agrees_but R0 interest s" "addCount s + length xs < size_t_max"
      "reg_run S xs s = (R, s')" for R0 s R
    using that
  proof (induction xs arbitrary: R0 s R)
    case (Cons x xs)
    obtain r s1 where step: "reg_step S x s = (r, s1)" by (metis surj_pair)
    obtain R1 where run: "reg_run S xs s1 = (R1, s')" "R = refused_by x r s \<union> R1"
      using Cons.prems(4) step by (auto split: prod.splits)
    have one: "agrees_but (R0 \<union> refused_by x r s) interest s1 \<and> epfd s1 = epfd s \<and> addCount s1 \<le> addCount s + 1"
      using step_agrees [OF Cons.prems(1,2) _ step] Cons.prems(3) by simp
    have "agrees_but (R0 \<union> refused_by x r s \<union> R1) interest s'"
      by (rule Cons.IH [OF _ _ _ run(1)]) (use one Cons.prems in auto)
    then show ?case using run(2) by (simp add: Un_assoc)
  qed simp
  from this [OF assms] show ?thesis by (simp add: agrees_but_def)
qed

text \<open>A system for the examples: the world is the interest list, and descriptor 13 cannot be added.\<close>

definition map_system :: "(rawfd \<Rightarrow> event_mask option) system" where
  "map_system = idle_system\<lparr>sys_epollCtl := (\<lambda>ep x fd ev w. case x of
       CtlAdd \<Rightarrow> if fd = 13 then (Throw (SystemException ''epoll_ctl'' 1), w) else (Ok (), w(fd \<mapsto> ev))
     | _ \<Rightarrow> if w fd = None then (Throw (SystemException ''epoll_ctl'' 2), w)
            else (Ok (), w(fd := if x = CtlDel then None else Some ev)))\<rparr>"

definition reg0 :: "(string, rawfd \<Rightarrow> event_mask option) reg" where
  "reg0 = \<lparr>listeners = Map.empty, epfd = 3, addCount = 0, eventArray = [], world = Map.empty\<rparr>"

lemma map_system_contract: "epoll_ctl_contract map_system ep (\<lambda>w. w)"
  by (auto simp: epoll_ctl_contract_def map_system_def split: ctl_op.splits if_splits)

lemmas reg_run_simps = base_add_def base_modify_def base_del_def flm_add_def flm_modify_def flm_del_def flm_find_def seq_run bnd_run
  epoll_add_def epoll_modify_def epoll_del_def epfd_int_def reg0_def map_system_def on_world_def zoom_run refused_by_def

text \<open>The kernel refuses 13; deleting it fails, and 5, added before, is changed after it.\<close>

theorem registry_matches_kernel_witness:
  "\<exists>s'. reg_run map_system [RegAdd ''l'' 5 EVENT_IN, RegAdd ''m'' 13 EVENT_IN, RegDel 13, RegModify 5 EVENT_OUT] reg0 = ({13}, s')
     \<and> world s' 5 = Some EVENT_OUT \<and> world s' 13 = None \<and> listeners s' 13 \<noteq> None \<and> addCount s' = 1"
proof -
  let ?xs = "[RegAdd ''l'' 5 EVENT_IN, RegAdd ''m'' 13 EVENT_IN, RegDel 13, RegModify 5 EVENT_OUT]"
  obtain R s' where run: "reg_run map_system ?xs reg0 = (R, s')" by (metis surj_pair)
  have res: "R = {13}" "listeners s' 5 = Some (''l'', EVENT_OUT)" "addCount s' = 1"
    using run by (auto simp: reg_run_simps plus64_def size_t_max_def EVENT_IN_def EVENT_OUT_def)
  have "agrees_but {} (\<lambda>w. w) reg0" by (rule agrees_butI) (simp_all add: reg0_def)
  from registry_matches_kernel [OF map_system_contract this _ run] have
    "world s' = (\<lambda>fd. if fd \<in> R then None else map_option snd (listeners s' fd))" "R \<subseteq> dom (listeners s')"
    by (simp_all add: reg0_def size_t_max_def)
  then show ?thesis using res run by auto
qed

end
