(* ===== verification/Signals.thy ===== *)
theory Signals
  imports System
begin

text \<open>
  Model of \<open>src/lib/SignalSet.cpp\<close>, \<open>include/EventLoop/SignalSet.hpp\<close> and
  \<open>src/lib/SigPipeSuppressor.cpp\<close>. A \<open>sigset_t\<close> is a set of signal numbers; the numbers are those
  of Linux, where the valid ones are 1 to 64.
\<close>

section \<open>SignalSet\<close>

definition EINVAL :: int where "EINVAL = 22"

definition valid_signal :: "nat \<Rightarrow> bool" where
  "valid_signal sig \<longleftrightarrow> 1 \<le> sig \<and> sig \<le> 64"

text \<open>\<open>sigismember\<close> is \<open>-1\<close> for an invalid number, which converts to \<open>true\<close>.\<close>

definition isSet :: "sigset \<Rightarrow> nat \<Rightarrow> bool" where
  "isSet s sig \<longleftrightarrow> (if valid_signal sig then sig \<in> s else True)"

definition sset_empty :: "sigset \<Rightarrow> bool" where
  "sset_empty s \<longleftrightarrow> s = {}"

definition sset_set :: "nat \<Rightarrow> (sigset, unit) prog" where
  "sset_set sig = (\<lambda>s. if valid_signal sig then (Ok (), insert sig s)
     else (Throw (SystemException ''sigaddset'' EINVAL), s))"

definition sset_unset :: "nat \<Rightarrow> (sigset, unit) prog" where
  "sset_unset sig = (\<lambda>s. if valid_signal sig then (Ok (), s - {sig})
     else (Throw (SystemException ''sigdelset'' EINVAL), s))"

fun sset_of_list :: "nat list \<Rightarrow> (sigset, unit) prog" where
  "sset_of_list [] s = (Ok (), s)"
| "sset_of_list (i # is) s = seq (sset_set i) (sset_of_list is) s"

definition signalNameMap :: "(nat \<times> string) list" where
  "signalNameMap = [(1, ''SIGHUP''), (2, ''SIGINT''), (3, ''SIGQUIT''), (4, ''SIGILL''), (5, ''SIGTRAP''),
     (6, ''SIGABRT''), (6, ''SIGIOT''), (7, ''SIGBUS''), (8, ''SIGFPE''), (9, ''SIGKILL''), (10, ''SIGUSR1''),
     (11, ''SIGSEGV''), (12, ''SIGUSR2''), (13, ''SIGPIPE''), (14, ''SIGALRM''), (15, ''SIGTERM''),
     (16, ''SIGSTKFLT''), (17, ''SIGCHLD''), (18, ''SIGCONT''), (19, ''SIGSTOP''), (20, ''SIGTSTP''),
     (21, ''SIGTTIN''), (22, ''SIGTTOU''), (23, ''SIGURG''), (24, ''SIGXCPU''), (25, ''SIGXFSZ''),
     (26, ''SIGVTALRM''), (27, ''SIGPROF''), (28, ''SIGWINCH''), (29, ''SIGIO''), (29, ''SIGPOLL''),
     (30, ''SIGPWR''), (31, '' SIGSYS''), (31, ''SIGUNUSED'')]"

text \<open>A \<open>std::map\<close> built from a list keeps the first entry of a key, so its size counts the keys.\<close>

definition MAX_SIGNAL :: nat where
  "MAX_SIGNAL = length (remdups (map fst signalNameMap))"

definition sset_size :: "sigset \<Rightarrow> nat" where
  "sset_size s = foldl (\<lambda>n i. if isSet s i then Suc n else n) 0 [1..<MAX_SIGNAL + 1]"

definition getNext :: "sigset \<Rightarrow> nat \<Rightarrow> nat" where
  "getNext s current = (case find (isSet s) [current + 1..<MAX_SIGNAL + 1] of
       Some i \<Rightarrow> i | None \<Rightarrow> MAX_SIGNAL + 1)"

definition sset_eq :: "sigset \<Rightarrow> sigset \<Rightarrow> bool" where
  "sset_eq s t \<longleftrightarrow> list_all (\<lambda>i. isSet s i = isSet t i) [0..<MAX_SIGNAL + 1]"

lemma MAX_SIGNAL_31: "MAX_SIGNAL = 31"
  by (simp add: MAX_SIGNAL_def signalNameMap_def)

lemma getNext_gt: "current \<le> MAX_SIGNAL \<Longrightarrow> current < getNext s current"
  by (auto simp: getNext_def find_Some_iff nth_append simp del: upt_Suc split: option.split)

text \<open>The signals an iterator visits from \<open>i\<close> on; \<open>begin()\<close> is at \<open>getNext 0\<close> and \<open>end()\<close> at
  \<open>MAX_SIGNAL + 1\<close>.\<close>

function iterate_from :: "sigset \<Rightarrow> nat \<Rightarrow> nat list" where
  "iterate_from s i = (if MAX_SIGNAL < i then [] else i # iterate_from s (getNext s i))"
  by pat_completeness auto
termination
proof (relation "measure (\<lambda>(s, i). Suc MAX_SIGNAL - i)", goal_cases)
  case (2 s i)
  then have "i < getNext s i" by (intro getNext_gt) simp
  with 2 show ?case by simp
qed simp

declare iterate_from.simps [simp del]

definition sset_signals :: "sigset \<Rightarrow> nat list" where
  "sset_signals s = iterate_from s (getNext s 0)"

definition signalToString :: "nat \<Rightarrow> string" where
  "signalToString sig = (case map_of signalNameMap sig of Some n \<Rightarrow> n | None \<Rightarrow> ''unknown-signal'')"

fun print_signals :: "bool \<Rightarrow> nat list \<Rightarrow> string" where
  "print_signals first [] = ''''"
| "print_signals first (i # is) = (if first then '''' else '','') @ signalToString i @ print_signals False is"

definition sset_print :: "sigset \<Rightarrow> string" where
  "sset_print s = print_signals True (sset_signals s)"

lemma getNext_filter:
  assumes "current \<le> MAX_SIGNAL"
  shows "filter (isSet s) [current + 1..<MAX_SIGNAL + 1] =
     (if getNext s current = MAX_SIGNAL + 1 then []
      else getNext s current # filter (isSet s) [getNext s current + 1..<MAX_SIGNAL + 1])"
proof (cases "find (isSet s) [current + 1..<MAX_SIGNAL + 1]")
  case None
  then have "getNext s current = MAX_SIGNAL + 1" by (simp only: getNext_def option.case)
  moreover have "filter (isSet s) [current + 1..<MAX_SIGNAL + 1] = []"
    using None by (auto simp: find_None_iff filter_empty_conv simp del: upt_Suc)
  ultimately show ?thesis by simp
next
  case (Some i)
  then have n: "getNext s current = i" by (simp add: getNext_def del: upt_Suc)
  from Some obtain k where k: "k < MAX_SIGNAL - current" "current + 1 + k = i" "isSet s i"
    "\<forall>j < k. \<not> isSet s (current + 1 + j)"
    by (auto simp: find_Some_iff simp del: upt_Suc)
  have "[current + 1..<MAX_SIGNAL + 1] = [current + 1..<i] @ i # [i + 1..<MAX_SIGNAL + 1]"
    using k upt_add_eq_append [of "current + 1" i "MAX_SIGNAL + 1 - i"] upt_conv_Cons [of i "MAX_SIGNAL + 1"]
    by (simp del: upt_Suc)
  moreover have "filter (isSet s) [current + 1..<i] = []"
  proof -
    have "\<not> isSet s x" if "x \<in> set [current + 1..<i]" for x
    proof -
      have "x - (current + 1) < k" "current + 1 + (x - (current + 1)) = x" using that k(2) by auto
      then show ?thesis using k(4) by metis
    qed
    then show ?thesis by (simp only: filter_empty_conv) blast
  qed
  ultimately show ?thesis using k n by (simp del: upt_Suc)
qed

lemma getNext_le: "getNext s i \<le> MAX_SIGNAL + 1"
  by (auto simp: getNext_def find_Some_iff simp del: upt_Suc split: option.split)

lemma iterate_from_filter:
  "iterate_from s i = (if MAX_SIGNAL < i then [] else i # filter (isSet s) [i + 1..<MAX_SIGNAL + 1])"
proof (induction s i rule: iterate_from.induct)
  case (1 s i)
  show ?case
  proof (cases "MAX_SIGNAL < i")
    case True
    then show ?thesis by (simp add: iterate_from.simps)
  next
    case False
    then have "filter (isSet s) [i + 1..<MAX_SIGNAL + 1] = iterate_from s (getNext s i)"
      using 1 getNext_filter [of i s] getNext_gt [of i s] getNext_le [of s i] by (auto simp: iterate_from.simps [of s "MAX_SIGNAL + 1"] simp del: upt_Suc)
    then show ?thesis using False by (simp add: iterate_from.simps [of s i] del: upt_Suc)
  qed
qed

lemma sset_signals_filter: "sset_signals s = filter (isSet s) [1..<MAX_SIGNAL + 1]"
  using getNext_filter [of 0 s] getNext_le [of s 0]
  by (auto simp: sset_signals_def iterate_from_filter simp del: upt_Suc)

lemma set_sset_signals: "set (sset_signals s) = {i \<in> s. 1 \<le> i \<and> i \<le> MAX_SIGNAL}"
  by (auto simp: sset_signals_filter isSet_def valid_signal_def MAX_SIGNAL_31 simp del: upt_Suc)

lemma sset_size_count: "foldl (\<lambda>n i. if P i then Suc n else n) k xs = k + length (filter P xs)"
  by (induction xs arbitrary: k) auto

section \<open>SigPipeSuppressor\<close>

definition SIGPIPE :: nat where "SIGPIPE = 13"

record sig_pipe_suppressor =
  wasPending :: bool
  doUnblock :: bool

definition sigpipe_pending :: "'w system \<Rightarrow> ('w, bool) prog" where
  "sigpipe_pending S = bnd (sys_sigPending S) (\<lambda>pending. ret (isSet pending SIGPIPE))"

definition sps_create :: "'w system \<Rightarrow> ('w, sig_pipe_suppressor) prog" where
  "sps_create S = bnd (sigpipe_pending S) (\<lambda>was.
     if was then ret \<lparr>wasPending = True, doUnblock = False\<rparr>
     else bnd (sys_sigMask S SigBlock (Some {SIGPIPE})) (\<lambda>blocked.
       ret \<lparr>wasPending = False, doUnblock = \<not> isSet blocked SIGPIPE\<rparr>))"

definition sps_destroy :: "'w system \<Rightarrow> sig_pipe_suppressor \<Rightarrow> ('w, unit) prog" where
  "sps_destroy S p = noexcept (if wasPending p then ret ()
     else bnd (sigpipe_pending S) (\<lambda>now.
       seq (if now then seq (sys_sigTimedWait S {SIGPIPE}) (ret ()) else ret ())
         (if doUnblock p then seq (sys_sigMask S SigUnblock (Some {SIGPIPE})) (ret ()) else ret ())))"

section \<open>The kernel's signals\<close>

text \<open>
  The documented behaviour of the signal calls of a thread, over functions that read its mask, its
  pending signals and how often each signal was delivered to it. \<open>sigprocmask\<close> changes the mask as
  asked, but for \<open>SIGKILL\<close> (9) and \<open>SIGSTOP\<close> (19), which are never blocked, returns the old mask,
  and delivers the pending signals it unblocks. \<open>sigpending\<close> reads the signals that were raised
  while blocked, and \<open>sigtimedwait\<close> takes a pending signal off without delivering it.
\<close>

definition new_mask :: "mask_how \<Rightarrow> sigset \<Rightarrow> sigset \<Rightarrow> sigset" where
  "new_mask how m s = (case how of SigBlock \<Rightarrow> m \<union> s | SigUnblock \<Rightarrow> m - s | SigSetMask \<Rightarrow> s) - {9, 19}"

definition deliver :: "sigset \<Rightarrow> (nat \<Rightarrow> nat) \<Rightarrow> nat \<Rightarrow> nat" where
  "deliver A d = (\<lambda>i. d i + (if i \<in> A then 1 else 0))"

definition signal_contract ::
  "'w system \<Rightarrow> ('w \<Rightarrow> sigset) \<Rightarrow> ('w \<Rightarrow> sigset) \<Rightarrow> ('w \<Rightarrow> nat \<Rightarrow> nat) \<Rightarrow> bool" where
  "signal_contract S blocked pending delivered \<longleftrightarrow>
     (\<forall>w. 9 \<notin> blocked w \<and> 19 \<notin> blocked w \<and> pending w \<subseteq> blocked w)
   \<and> (\<forall>w. sys_sigPending S w = (Ok (pending w), w))
   \<and> (\<forall>how s w. \<exists>w'. sys_sigMask S how (Some s) w = (Ok (blocked w), w')
        \<and> blocked w' = new_mask how (blocked w) s \<and> pending w' = pending w \<inter> blocked w'
        \<and> delivered w' = deliver (pending w - blocked w') (delivered w))
   \<and> (\<forall>sig w. sig \<in> pending w \<longrightarrow> (\<exists>w'. sys_sigTimedWait S {sig} w = (Ok (int sig), w')
        \<and> blocked w' = blocked w \<and> pending w' = pending w - {sig} \<and> delivered w' = delivered w))"

lemma signal_contractD:
  assumes "signal_contract S blocked pending delivered"
  shows "9 \<notin> blocked w" "19 \<notin> blocked w" "pending w \<subseteq> blocked w" "sys_sigPending S w = (Ok (pending w), w)"
    "\<exists>w'. sys_sigMask S how (Some s) w = (Ok (blocked w), w')
        \<and> blocked w' = new_mask how (blocked w) s \<and> pending w' = pending w \<inter> blocked w'
        \<and> delivered w' = deliver (pending w - blocked w') (delivered w)"
    "sig \<in> pending w \<Longrightarrow> \<exists>w'. sys_sigTimedWait S {sig} w = (Ok (int sig), w')
        \<and> blocked w' = blocked w \<and> pending w' = pending w - {sig} \<and> delivered w' = delivered w"
proof -
  note C = assms [unfolded signal_contract_def]
  note C2 = C [THEN conjunct2] note C3 = C2 [THEN conjunct2]
  show "9 \<notin> blocked w" "19 \<notin> blocked w" "pending w \<subseteq> blocked w"
    using C [THEN conjunct1, rule_format, of w] by simp_all
  show "sys_sigPending S w = (Ok (pending w), w)" by (rule C2 [THEN conjunct1, rule_format])
  show "\<exists>w'. sys_sigMask S how (Some s) w = (Ok (blocked w), w')
        \<and> blocked w' = new_mask how (blocked w) s \<and> pending w' = pending w \<inter> blocked w'
        \<and> delivered w' = deliver (pending w - blocked w') (delivered w)"
    by (rule C3 [THEN conjunct1, rule_format])
  show "sig \<in> pending w \<Longrightarrow> \<exists>w'. sys_sigTimedWait S {sig} w = (Ok (int sig), w')
        \<and> blocked w' = blocked w \<and> pending w' = pending w - {sig} \<and> delivered w' = delivered w"
    by (rule C3 [THEN conjunct2, rule_format])
qed

lemma deliver_none [simp]: "deliver {} d = d" "A \<subseteq> B \<Longrightarrow> deliver (A - B) d = d"
  by (auto simp: deliver_def fun_eq_iff)

section \<open>Properties\<close>

text \<open>
  Iterating over a signal set visits exactly its signals from 1 to 31, in ascending order, and
  \<open>size()\<close> is their number; two sets compare equal exactly when they agree on those. The real-time
  signals, 32 to 64, can be set, but are neither visited, counted nor compared.
\<close>

theorem signal_set_iteration:
  "sset_signals s = filter (\<lambda>i. i \<in> s) [1..<32] \<and> sset_size s = length (sset_signals s)
   \<and> (sset_eq s t \<longleftrightarrow> s \<inter> {1..31} = t \<inter> {1..31})
   \<and> sset_set 40 s = (Ok (), insert 40 s) \<and> sset_eq (insert 40 s) s
   \<and> sset_signals (insert 40 s) = sset_signals s"
proof -
  have f: "filter (isSet u) [1..<32] = filter (\<lambda>i. i \<in> u) [1..<32]" for u
    by (rule filter_cong) (auto simp: isSet_def valid_signal_def)
  have sig: "sset_signals u = filter (\<lambda>i. i \<in> u) [1..<32]" for u
    unfolding sset_signals_filter MAX_SIGNAL_31 using f by (simp del: upt_Suc upt_rec_numeral)
  have eq: "sset_eq u v \<longleftrightarrow> u \<inter> {1..31} = v \<inter> {1..31}" for u v
  proof -
    have "sset_eq u v \<longleftrightarrow> (\<forall>i < 32. isSet u i = isSet v i)"
      unfolding sset_eq_def MAX_SIGNAL_31 list_all_iff by (auto simp del: upt_Suc upt_rec_numeral)
    also have "\<dots> \<longleftrightarrow> (\<forall>i \<in> {1..31}. i \<in> u \<longleftrightarrow> i \<in> v)"
      by (auto simp: isSet_def valid_signal_def)
    also have "\<dots> \<longleftrightarrow> u \<inter> {1..31} = v \<inter> {1..31}" by blast
    finally show ?thesis .
  qed
  have size: "sset_size s = length (sset_signals s)"
    unfolding sset_size_def sset_size_count sset_signals_filter by simp
  have "sset_set 40 s = (Ok (), insert 40 s)" by (simp add: sset_set_def valid_signal_def)
  moreover have "filter (\<lambda>i. i \<in> insert 40 s) [1..<32] = filter (\<lambda>i. i \<in> s) [1..<32]"
    by (rule filter_cong) auto
  ultimately show ?thesis
    using size sig eq by simp
qed


text \<open>A signal system for the examples: the world is the mask, the raised signals and the deliveries.\<close>

type_synonym sig_world = "sigset \<times> sigset \<times> (nat \<Rightarrow> nat)"

definition sig_blocked :: "sig_world \<Rightarrow> sigset" where
  "sig_blocked w = fst w - {9, 19}"

definition sig_pending :: "sig_world \<Rightarrow> sigset" where
  "sig_pending w = fst (snd w) \<inter> sig_blocked w"

definition sig_delivered :: "sig_world \<Rightarrow> nat \<Rightarrow> nat" where
  "sig_delivered w = snd (snd w)"

lemmas sig_world_defs = sig_blocked_def sig_pending_def sig_delivered_def

definition sig_system :: "sig_world system" where
  "sig_system = idle_system\<lparr>sys_sigPending := (\<lambda>w. (Ok (sig_pending w), w)),
     sys_sigMask := (\<lambda>how s w. (Ok (sig_blocked w), case s of None \<Rightarrow> w
        | Some s \<Rightarrow> (let m = new_mask how (sig_blocked w) s
            in (m, sig_pending w \<inter> m, deliver (sig_pending w - m) (sig_delivered w))))),
     sys_sigTimedWait := (\<lambda>s w. (Ok (int (Min (s \<inter> sig_pending w))), (fst w, fst (snd w) - s, snd (snd w))))\<rparr>"

lemma sig_system_contract: "signal_contract sig_system sig_blocked sig_pending sig_delivered"
  by (auto simp: signal_contract_def sig_system_def sig_world_defs Let_def new_mask_def)


end
