(* ===== verification/Runners.thy ===== *)
theory Runners
  imports TimerQueue CallbackQueue FDRegistry Signals
begin

text \<open>
  Model of \<open>src/lib/BaseEpollRunner.cpp\<close>, \<open>src/lib/EpollRunner.cpp\<close>, \<open>src/lib/AsyncRunner.cpp\<close>,
  \<open>src/lib/MockableRunner.cpp\<close>, \<open>src/lib/Runner.cpp\<close> and \<open>src/lib/FDListener.cpp\<close>.

  The program that uses a runner is arbitrary: its listeners are values \<open>User u\<close>, its callbacks
  values of type \<open>'c\<close>, and \<open>handle\<close> and \<open>body\<close> say what they do. What they do is a \<open>client\<close>: a tree of
  calls of the runner's interface, each followed by what the client does after it returned or threw,
  mixed with reads and changes of the client's own part of the world. So a theorem about any
  \<open>client\<close> is about any code that uses the runner through its interface. Calls run in one thread;
  other threads are the subject of the theory \<open>WakeUp\<close>.
\<close>

section \<open>State\<close>

datatype 'u run_listener = EventPipe | SignalListener | TimerListener | User 'u

record ('u, 'c, 'w) base_runner = "('u run_listener, 'w) monitored" +
  cbq :: "'c callback_queue"
  tq :: "'c timer_queue"

record signal_fd =
  sigfd :: rawfd
  handledSignals :: sigset
  originallyBlockedSignals :: sigset

record ('u, 'c, 'w) epoll_runner = "('u, 'c, 'w) base_runner" +
  runnerThreadId :: "nat option"
  readFD :: rawfd
  writeFD :: rawfd
  the_signalFD :: "signal_fd option"

record ('u, 'c, 'w) async_runner = "('u, 'c, 'w) base_runner" +
  timerFD :: rawfd

definition on_cbq :: "('c callback_queue, 'a) prog \<Rightarrow> (('u, 'c, 'w, 'z) base_runner_scheme, 'a) prog" where
  "on_cbq = zoom cbq (\<lambda>q. cbq_update (\<lambda>_. q))"

definition on_tq :: "('c timer_queue, 'a) prog \<Rightarrow> (('u, 'c, 'w, 'z) base_runner_scheme, 'a) prog" where
  "on_tq = zoom tq (\<lambda>q. tq_update (\<lambda>_. q))"

definition clock_now :: "'w system \<Rightarrow> (('u, 'c, 'w, 'z) base_runner_scheme, duration) prog" where
  "clock_now S = bnd (on_world (sys_getMonotonicClock S)) (\<lambda>ms. ret (milliseconds ms))"

section \<open>The interface of a runner\<close>

text \<open>\<open>EpollRunner\<close> and \<open>AsyncRunner\<close> implement it alike, but for what \<open>wakeUp\<close> does (\<open>wake\<close>).\<close>

definition delFDListener :: "'w system \<Rightarrow> rawfd \<Rightarrow> (('u, 'c, 'w, 'z) base_runner_scheme, unit) prog" where
  "delFDListener S fd = seq (modify_st (monitor_add fd)) (base_del S fd)"

definition addCallback :: "(('u, 'c, 'w, 'z) base_runner_scheme, unit) prog \<Rightarrow> 'c option \<Rightarrow>
    (('u, 'c, 'w, 'z) base_runner_scheme, unit) prog" where
  "addCallback wake cb = bnd (on_cbq (cbq_add cb)) (\<lambda>w. if w then wake else ret ())"

text \<open>\<open>Timer::schedule\<close> checks the callback before anything else and reads the clock of the runner.\<close>

definition schedule_timer :: "'w system \<Rightarrow> nat \<Rightarrow> duration \<Rightarrow> 'c option \<Rightarrow>
    (('u, 'c, 'w, 'z) base_runner_scheme, unit) prog" where
  "schedule_timer S t d cb = (case cb of
       None \<Rightarrow> throw NullCallback
     | Some c \<Rightarrow> bnd (clock_now S) (\<lambda>now. on_tq (timer_schedule now t d (Some c))))"

datatype ('u, 'c) api =
    AddFD 'u rawfd event_mask | ModifyFD rawfd event_mask | DelFD rawfd | AddCallback "'c option"
  | ScheduleTimer nat duration "'c option" | CancelTimer nat

fun runner_api :: "(('u, 'c, 'w, 'z) base_runner_scheme, unit) prog \<Rightarrow> 'w system \<Rightarrow> ('u, 'c) api \<Rightarrow>
    (('u, 'c, 'w, 'z) base_runner_scheme, unit) prog" where
  "runner_api wake S (AddFD u fd ev) = base_add S (User u) fd ev"
| "runner_api wake S (ModifyFD fd ev) = base_modify S fd ev"
| "runner_api wake S (DelFD fd) = delFDListener S fd"
| "runner_api wake S (AddCallback cb) = addCallback wake cb"
| "runner_api wake S (ScheduleTimer t d cb) = schedule_timer S t d cb"
| "runner_api wake S (CancelTimer t) = on_tq (timer_cancel t)"

text \<open>Programs that use the runner; \<open>Call\<close> continues with the exception, if the call threw one.\<close>

datatype ('u, 'c, 'w) client =
    Finish
  | Fail exn
  | Call "('u, 'c) api" "exn option \<Rightarrow> ('u, 'c, 'w) client"
  | Look "'w \<Rightarrow> ('u, 'c, 'w) client"
  | Touch "'w \<Rightarrow> 'w" "('u, 'c, 'w) client"

primrec run_client :: "(('u, 'c, 'w, 'z) base_runner_scheme, unit) prog \<Rightarrow> 'w system \<Rightarrow>
    ('u, 'c, 'w) client \<Rightarrow> (('u, 'c, 'w, 'z) base_runner_scheme, unit) prog" where
  "run_client wake S Finish = ret ()"
| "run_client wake S (Fail e) = throw e"
| "run_client wake S (Call a k) = (\<lambda>s. case runner_api wake S a s of
      (Ok _, s') \<Rightarrow> run_client wake S (k None) s'
    | (Throw e, s') \<Rightarrow> run_client wake S (k (Some e)) s'
    | (r, s') \<Rightarrow> (r, s'))"
| "run_client wake S (Look f) = (\<lambda>s. run_client wake S (f (world s)) s)"
| "run_client wake S (Touch f k) = (\<lambda>s. run_client wake S k (s\<lparr>world := f (world s)\<rparr>))"

section \<open>Handling a batch of events\<close>

text \<open>The loop over the events of one \<open>epoll_wait\<close>, which both runners have; \<open>dispatch\<close> is
  \<open>FDListener::handleEvents\<close>.\<close>

fun handle_events :: "('l \<Rightarrow> rawfd \<Rightarrow> event_mask \<Rightarrow> (('l, 'w, 'z) monitored_scheme, unit) prog) \<Rightarrow>
    (rawfd \<times> event_mask) list \<Rightarrow> (('l, 'w, 'z) monitored_scheme, unit) prog" where
  "handle_events dispatch [] s = (Ok (), s)"
| "handle_events dispatch ((fd, ev) # es) s = seq
     (branch (monitor_has fd) (ret ()) (bnd (flm_get fd) (\<lambda>fl. dispatch fl fd ev)))
     (handle_events dispatch es) s"

definition handle_batch :: "('l \<Rightarrow> rawfd \<Rightarrow> event_mask \<Rightarrow> (('l, 'w, 'z) monitored_scheme, unit) prog) \<Rightarrow>
    (('l, 'w, 'z) monitored_scheme, unit) prog" where
  "handle_batch dispatch = monitor_guard (\<lambda>s. handle_events dispatch (eventArray s) s)"

text \<open>\<open>BaseEpollRunner::executeFirstTimer\<close>; \<open>call\<close> runs the callback of the timer.\<close>

definition executeFirstTimer :: "('c \<Rightarrow> (('u, 'c, 'w, 'z) base_runner_scheme, unit) prog) \<Rightarrow>
    (('u, 'c, 'w, 'z) base_runner_scheme, unit) prog" where
  "executeFirstTimer call = bnd (on_tq pop_and_execute) (\<lambda>r. case r of
       None \<Rightarrow> ret () | Some (t, c) \<Rightarrow> call c)"

text \<open>Reading a descriptor until nothing is left, as \<open>EventPipe\<close> and \<open>TimerFD\<close> do.\<close>

fun read_all :: "nat \<Rightarrow> 'w system \<Rightarrow> rawfd \<Rightarrow> nat \<Rightarrow> (('l, 'w, 'z) reg_scheme, unit) prog" where
  "read_all 0 S fd len s = (NoFuel, s)"
| "read_all (Suc n) S fd len s = bnd (on_world (sys_read S fd len)) (\<lambda>(r, _).
     if r > 0 then read_all n S fd len else ret ()) s"

section \<open>EpollRunner\<close>

text \<open>\<open>wakeUp\<close> in the thread \<open>self\<close>; the event is an \<open>int\<close> 0, four bytes.\<close>

definition wakeUp :: "'w system \<Rightarrow> nat \<Rightarrow> (('u, 'c, 'w, 'z) epoll_runner_scheme, unit) prog" where
  "wakeUp S self = (\<lambda>s. if runnerThreadId s \<noteq> None \<and> runnerThreadId s \<noteq> Some self
     then bnd (on_world (sys_write S (writeFD s) [0, 0, 0, 0])) (\<lambda>_. ret ()) s
     else (Ok (), s))"

text \<open>\<open>SignalFD\<close>. A \<open>signalfd_siginfo\<close> has 128 bytes and starts with the signal number, 32 bits in
  little-endian order; \<open>sig_cb\<close> is the callback that is the signal handler bound to a signal.\<close>

definition ssi_signo :: "byte list \<Rightarrow> nat" where
  "ssi_signo b = foldr (\<lambda>x n. unat x + 256 * n) (take 4 b) 0"

fun signalfd_handle :: "nat \<Rightarrow> 'w system \<Rightarrow> (('u, 'c, 'w, 'z) epoll_runner_scheme, unit) prog \<Rightarrow>
    (nat \<Rightarrow> 'c) \<Rightarrow> (('u, 'c, 'w, 'z) epoll_runner_scheme, unit) prog" where
  "signalfd_handle 0 S wake sig_cb s = (NoFuel, s)"
| "signalfd_handle (Suc n) S wake sig_cb s = (case the_signalFD s of
       None \<Rightarrow> (Undef, s)
     | Some sf \<Rightarrow> if sigfd sf < 0 then (Throw InvalidFD, s)
         else bnd (on_world (sys_read S (sigfd sf) 128)) (\<lambda>(r, b).
           if r > 0 then seq (addCallback wake (Some (sig_cb (ssi_signo b)))) (signalfd_handle n S wake sig_cb)
           else ret ()) s)"

text \<open>The loops of \<open>setSignals\<close>: which signals to block and which to unblock.\<close>

fun signals_to_change :: "sigset \<Rightarrow> sigset \<Rightarrow> nat list \<Rightarrow> sigset \<times> sigset \<Rightarrow> sigset \<times> sigset" where
  "signals_to_change handled orig [] bu = bu"
| "signals_to_change handled orig (i # is) (block, unblock) = signals_to_change handled orig is
     (if \<not> isSet orig i
      then (if \<not> isSet handled i then (insert i block, unblock) else (block, unblock - {i}))
      else (block, unblock))"

definition signalfd_setSignals :: "'w system \<Rightarrow> sigset \<Rightarrow> (signal_fd \<times> 'w, unit) prog" where
  "signalfd_setSignals S new = (\<lambda>(sf, w).
     let (block, unblock) = signals_to_change (handledSignals sf) (originallyBlockedSignals sf)
           (sset_signals new) ({}, handledSignals sf);
         unblock' = foldl (\<lambda>u i. u - {i}) unblock (sset_signals (originallyBlockedSignals sf))
     in seq (zoom snd (\<lambda>w s. (fst s, w)) (sys_sigMask S SigBlock (Some block)))
         (seq (zoom snd (\<lambda>w s. (fst s, w)) (sys_sigMask S SigUnblock (Some unblock')))
           (\<lambda>(sf, w). if sigfd sf < 0 then (Throw InvalidFD, (sf, w))
              else bnd (zoom snd (\<lambda>w s. (fst s, w)) (sys_signalFD S (sigfd sf) new)) (\<lambda>_. ret ()) (sf, w)))
         (sf\<lparr>handledSignals := new\<rparr>, w))"

definition setSignals :: "'w system \<Rightarrow> sigset \<Rightarrow> (('u, 'c, 'w, 'z) epoll_runner_scheme, unit) prog" where
  "setSignals S new = (\<lambda>s. case the_signalFD s of
       None \<Rightarrow> (Throw NoSignalHandling, s)
     | Some sf \<Rightarrow> (case signalfd_setSignals S new (sf, world s) of (r, (sf', w)) \<Rightarrow>
         (r, s\<lparr>the_signalFD := Some sf', world := w\<rparr>)))"

text \<open>The events of one descriptor. \<open>handle\<close> is \<open>handleEventsCb\<close> of the listeners of the client.\<close>

definition epoll_dispatch :: "nat \<Rightarrow> 'w system \<Rightarrow> (('u, 'c, 'w, 'z) epoll_runner_scheme, unit) prog \<Rightarrow>
    (nat \<Rightarrow> 'c) \<Rightarrow> ('u \<Rightarrow> rawfd \<Rightarrow> event_mask \<Rightarrow> ('u, 'c, 'w) client) \<Rightarrow>
    'u run_listener \<Rightarrow> rawfd \<Rightarrow> event_mask \<Rightarrow> (('u, 'c, 'w, 'z) epoll_runner_scheme, unit) prog" where
  "epoll_dispatch n S wake sig_cb handle fl fd ev = (case fl of
       EventPipe \<Rightarrow> (\<lambda>s. read_all n S (readFD s) 32 s)
     | SignalListener \<Rightarrow> signalfd_handle n S wake sig_cb
     | TimerListener \<Rightarrow> undef
     | User u \<Rightarrow> run_client wake S (handle u fd ev))"

definition MIN_TIMEOUT :: duration where
  "MIN_TIMEOUT = milliseconds 1"

definition isTimeout :: "duration \<Rightarrow> bool" where
  "isTimeout timeout \<longleftrightarrow> timeout \<noteq> NO_TIMEOUT \<and> timeout < MIN_TIMEOUT"

text \<open>\<open>static_cast<int>\<close> keeps the lowest 32 bits.\<close>

definition wait_argument :: "duration \<Rightarrow> int" where
  "wait_argument timeout = sint (word_of_int (total_milliseconds timeout) :: 32 word)"

definition runner_wait :: "'w system \<Rightarrow> duration \<Rightarrow> (('l, 'w, 'z) reg_scheme, bool) prog" where
  "runner_wait S timeout = epoll_wait S (wait_argument timeout)"

text \<open>Whether an iteration executes a timer: the queue's timeout has passed, or the wait ended with
  no events.\<close>

definition timer_due :: "'w system \<Rightarrow> (('u, 'c, 'w, 'z) base_runner_scheme, bool) prog" where
  "timer_due S = bnd (clock_now S) (\<lambda>now s. let timeout = getTimeout now (tq s) in
     if isTimeout timeout then (Ok True, s) else runner_wait S timeout s)"

text \<open>\<open>runImpl\<close>; the fuel bounds the iterations and the callbacks of each. \<open>canContinue\<close> may change
  the state, as any code of the client may.\<close>

fun runImpl :: "nat \<Rightarrow> 'w system \<Rightarrow> ('c \<Rightarrow> (('u, 'c, 'w, 'z) base_runner_scheme, unit) prog) \<Rightarrow>
    ('u run_listener \<Rightarrow> rawfd \<Rightarrow> event_mask \<Rightarrow> (('u, 'c, 'w, 'z) base_runner_scheme, unit) prog) \<Rightarrow>
    (('u, 'c, 'w, 'z) base_runner_scheme, bool) prog \<Rightarrow> (('u, 'c, 'w, 'z) base_runner_scheme, unit) prog" where
  "runImpl 0 S call dispatch canContinue s = (NoFuel, s)"
| "runImpl (Suc n) S call dispatch canContinue s =
     bnd (cbq_execute n cbq (\<lambda>q. cbq_update (\<lambda>_. q)) call) (\<lambda>executed.
     bnd (if executed then canContinue else ret True) (\<lambda>go.
     if \<not> go then ret ()
     else seq (bnd (timer_due S) (\<lambda>due. if due then executeFirstTimer call else handle_batch dispatch))
       (bnd canContinue (\<lambda>go. if go then runImpl n S call dispatch canContinue else ret ())))) s"

text \<open>\<open>run\<close>, in the thread \<open>self\<close>; \<open>body\<close> says what the callbacks do.\<close>

definition epoll_run :: "nat \<Rightarrow> 'w system \<Rightarrow> nat \<Rightarrow> ('c \<Rightarrow> ('u, 'c, 'w) client) \<Rightarrow> (nat \<Rightarrow> 'c) \<Rightarrow>
    ('u \<Rightarrow> rawfd \<Rightarrow> event_mask \<Rightarrow> ('u, 'c, 'w) client) \<Rightarrow> (('u, 'c, 'w) epoll_runner, bool) prog \<Rightarrow>
    (('u, 'c, 'w) epoll_runner, unit) prog" where
  "epoll_run n S self body sig_cb handle canContinue =
     seq (modify_st (\<lambda>s. s\<lparr>runnerThreadId := Some self\<rparr>))
       (scope_exit (runImpl n S (\<lambda>c. run_client (wakeUp S self) S (body c))
            (epoll_dispatch n S (wakeUp S self) sig_cb handle) canContinue)
         (\<lambda>s. s\<lparr>runnerThreadId := None\<rparr>))"

section \<open>Construction and destruction\<close>

text \<open>
  Before construction the runner is empty. When a constructor throws, the members constructed so far
  are destroyed: descriptors are closed.
\<close>

definition runner_blank :: "'w \<Rightarrow> ('u, 'c, 'w) epoll_runner" where
  "runner_blank w = \<lparr>listeners = Map.empty, epfd = - 1, addCount = 0, eventArray = [], world = w,
     monitoring = False, deletedFds = {}, cbq = cbq_empty, tq = tq_empty, runnerThreadId = None,
     readFD = - 1, writeFD = - 1, the_signalFD = None\<rparr>"

definition eventpipe_create :: "'w system \<Rightarrow> (('u, 'c, 'w, 'z) epoll_runner_scheme, unit) prog" where
  "eventpipe_create S = bnd (on_world (sys_pipe S)) (\<lambda>(r, w).
     seq (modify_st (\<lambda>s. s\<lparr>readFD := r\<rparr>))
       (seq (on_unwind (on_world (sys_setNonBlock S r)) (on_world (sys_close S r)))
         (seq (modify_st (\<lambda>s. s\<lparr>writeFD := w\<rparr>))
           (on_unwind (base_add S EventPipe r EVENT_IN)
             (seq (on_world (sys_close S w)) (on_world (sys_close S r)))))))"

definition eventpipe_destroy :: "'w system \<Rightarrow> (('u, 'c, 'w, 'z) epoll_runner_scheme, unit) prog" where
  "eventpipe_destroy S = noexcept (\<lambda>s. seq (base_del S (readFD s))
     (seq (on_world (sys_close S (writeFD s))) (on_world (sys_close S (readFD s)))) s)"

definition signalfd_create :: "'w system \<Rightarrow> sigset \<Rightarrow> (('u, 'c, 'w, 'z) epoll_runner_scheme, unit) prog" where
  "signalfd_create S sigs = bnd (on_world (sys_sigMask S SigBlock (Some sigs))) (\<lambda>old.
     bnd (on_world (sys_signalFD S (- 1) sigs)) (\<lambda>fd.
       seq (modify_st (\<lambda>s. s\<lparr>the_signalFD := Some \<lparr>sigfd = fd, handledSignals = sigs,
              originallyBlockedSignals = old\<rparr>\<rparr>))
         (on_unwind (base_add S SignalListener fd EVENT_IN) (on_world (sys_close S fd)))))"

definition signalfd_destroy :: "'w system \<Rightarrow> (('u, 'c, 'w, 'z) epoll_runner_scheme, unit) prog" where
  "signalfd_destroy S = noexcept (\<lambda>s. case the_signalFD s of
       None \<Rightarrow> (Ok (), s)
     | Some sf \<Rightarrow> seq (delFDListener S (sigfd sf)) (seq (on_world (sys_close S (sigfd sf)))
         (bnd (on_world (sys_sigMask S SigSetMask (Some (originallyBlockedSignals sf)))) (\<lambda>_.
           modify_st (\<lambda>s. s\<lparr>the_signalFD := None\<rparr>)))) s)"

definition epoll_runner_create :: "'w system \<Rightarrow> sigset option \<Rightarrow> (('u, 'c, 'w, 'z) epoll_runner_scheme, unit) prog" where
  "epoll_runner_create S sigs = bnd (on_world (sys_epollCreate S)) (\<lambda>ep.
     seq (modify_st (\<lambda>s. s\<lparr>epfd := ep\<rparr>))
       (seq (on_unwind (seq (eventpipe_create S) (case sigs of None \<Rightarrow> ret ()
              | Some m \<Rightarrow> on_unwind (signalfd_create S m) (eventpipe_destroy S)))
            (on_world (sys_close S ep)))
         (on_cbq (cbq_setWakeUp True))))"

definition epoll_runner_destroy :: "'w system \<Rightarrow> (('u, 'c, 'w, 'z) epoll_runner_scheme, unit) prog" where
  "epoll_runner_destroy S = seq (signalfd_destroy S) (seq (eventpipe_destroy S)
     (noexcept (\<lambda>s. if epfd s \<ge> 0 then on_world (sys_close S (epfd s)) s else (Ok (), s))))"

text \<open>The messages of the exceptions; \<open>show_int\<close> is the decimal output of an \<open>int\<close>.\<close>

definition buildFDAlreadyAddedError :: "(int \<Rightarrow> string) \<Rightarrow> rawfd \<Rightarrow> string" where
  "buildFDAlreadyAddedError show_int fd = ''fd '' @ show_int fd @ '' already added''"

definition buildNonExistingFDListenerError :: "(int \<Rightarrow> string) \<Rightarrow> rawfd \<Rightarrow> string" where
  "buildNonExistingFDListenerError show_int fd = ''non-existing FDListener: '' @ show_int fd"

section \<open>AsyncRunner\<close>

definition timerfd_create :: "'w system \<Rightarrow> (('u, 'c, 'w, 'z) async_runner_scheme, unit) prog" where
  "timerfd_create S = bnd (on_world (sys_timerFDCreate S)) (\<lambda>fd.
     seq (modify_st (\<lambda>s. s\<lparr>timerFD := fd\<rparr>))
       (on_unwind (base_add S TimerListener fd EVENT_IN) (on_world (sys_close S fd))))"

definition timerfd_destroy :: "'w system \<Rightarrow> (('u, 'c, 'w, 'z) async_runner_scheme, unit) prog" where
  "timerfd_destroy S = noexcept (\<lambda>s. seq (base_del S (timerFD s)) (on_world (sys_close S (timerFD s))) s)"

definition timerfd_disarm :: "'w system \<Rightarrow> (('u, 'c, 'w, 'z) async_runner_scheme, unit) prog" where
  "timerfd_disarm S = (\<lambda>s. on_world (sys_timerFDSetTime S (timerFD s) (0, 0)) s)"

text \<open>The seconds and nanoseconds of a duration; both C++ operations round towards zero.\<close>

definition total_seconds :: "duration \<Rightarrow> int" where
  "total_seconds d = (if 0 \<le> ticks d then ticks d div 1000000 else - (- ticks d div 1000000))"

definition arm_spec :: "duration \<Rightarrow> int \<times> int" where
  "arm_spec d = (total_seconds d, if 0 \<le> ticks d then (ticks d * 1000) mod 1000000000
     else - ((- ticks d * 1000) mod 1000000000))"

definition timerfd_arm :: "'w system \<Rightarrow> duration \<Rightarrow> (('u, 'c, 'w, 'z) async_runner_scheme, unit) prog" where
  "timerfd_arm S timeout = (\<lambda>s. on_world (sys_timerFDSetTime S (timerFD s) (arm_spec timeout)) s)"

definition async_dispatch :: "nat \<Rightarrow> 'w system \<Rightarrow> ('u \<Rightarrow> rawfd \<Rightarrow> event_mask \<Rightarrow> ('u, 'c, 'w) client) \<Rightarrow>
    'u run_listener \<Rightarrow> rawfd \<Rightarrow> event_mask \<Rightarrow> (('u, 'c, 'w, 'z) async_runner_scheme, unit) prog" where
  "async_dispatch n S handle fl fd ev = (case fl of
       TimerListener \<Rightarrow> (\<lambda>s. read_all n S (timerFD s) 32 s)
     | User u \<Rightarrow> run_client (ret ()) S (handle u fd ev)
     | _ \<Rightarrow> undef)"

definition waitAndHandleFDEvents :: "nat \<Rightarrow> 'w system \<Rightarrow>
    ('u \<Rightarrow> rawfd \<Rightarrow> event_mask \<Rightarrow> ('u, 'c, 'w) client) \<Rightarrow> (('u, 'c, 'w, 'z) async_runner_scheme, unit) prog" where
  "waitAndHandleFDEvents n S handle = bnd (epoll_wait S 0) (\<lambda>timed_out.
     if timed_out then ret () else handle_batch (async_dispatch n S handle))"

fun executeTimersAndUpdateTimer :: "nat \<Rightarrow> 'w system \<Rightarrow> ('c \<Rightarrow> ('u, 'c, 'w) client) \<Rightarrow>
    (('u, 'c, 'w, 'z) async_runner_scheme, unit) prog" where
  "executeTimersAndUpdateTimer 0 S body s = (NoFuel, s)"
| "executeTimersAndUpdateTimer (Suc n) S body s =
     seq (cbq_execute n cbq (\<lambda>q. cbq_update (\<lambda>_. q)) (\<lambda>c. run_client (ret ()) S (body c)))
     (bnd (clock_now S) (\<lambda>now s. let timeout = getTimeout now (tq s) in
       if timeout = NO_TIMEOUT then timerfd_disarm S s
       else if timeout < MIN_TIMEOUT
       then seq (executeFirstTimer (\<lambda>c. run_client (ret ()) S (body c))) (executeTimersAndUpdateTimer n S body) s
       else timerfd_arm S timeout s)) s"

definition async_step :: "nat \<Rightarrow> 'w system \<Rightarrow> ('c \<Rightarrow> ('u, 'c, 'w) client) \<Rightarrow>
    ('u \<Rightarrow> rawfd \<Rightarrow> event_mask \<Rightarrow> ('u, 'c, 'w) client) \<Rightarrow> (('u, 'c, 'w, 'z) async_runner_scheme, unit) prog" where
  "async_step n S body handle = seq (waitAndHandleFDEvents n S handle) (executeTimersAndUpdateTimer n S body)"

section \<open>MockableRunner\<close>

text \<open>Its clock always shows 0, and everything but timers is ignored.\<close>

definition mock_getTimeout :: "'c timer_queue \<Rightarrow> duration" where
  "mock_getTimeout = getTimeout (milliseconds 0)"

definition mock_schedule :: "nat \<Rightarrow> duration \<Rightarrow> 'c option \<Rightarrow> ('c timer_queue, unit) prog" where
  "mock_schedule = timer_schedule (milliseconds 0)"

definition popAndExecuteFirstScheduledTimer :: "('c timer_queue, 'c) prog" where
  "popAndExecuteFirstScheduledTimer = bnd pop_and_execute (\<lambda>r. case r of
       None \<Rightarrow> throw NoTimers | Some (t, c) \<Rightarrow> ret c)"

end
