(* ===== verification/RunnerProps.thy ===== *)
theory RunnerProps
  imports Runners
begin

text \<open>
  Properties of the runners: what a batch of events may and may not do when listeners are deleted
  while it is handled, when timers run, what the signal descriptor does to the signal mask, and what
  a step of \<open>AsyncRunner\<close> leaves behind.
\<close>

section \<open>Deleting listeners while events are handled\<close>

text \<open>
  While the monitor is on, a program that works through the runner's interface forgets no
  descriptor: each one that was registered or recorded as deleted is still one of the two.
\<close>

definition tracks :: "(('l, 'w, 'z) monitored_scheme, 'a) prog \<Rightarrow> bool" where
  "tracks m \<longleftrightarrow> (\<forall>s r s'. m s = (r, s') \<longrightarrow> monitoring s \<longrightarrow> monitoring s'
     \<and> deletedFds s \<subseteq> deletedFds s' \<and> dom (listeners s) \<subseteq> dom (listeners s') \<union> deletedFds s')"

named_theorems tracking \<open>programs that track descriptors\<close>

lemma tracksD:
  "tracks m \<Longrightarrow> m s = (r, s') \<Longrightarrow> monitoring s \<Longrightarrow> monitoring s'
     \<and> deletedFds s \<subseteq> deletedFds s' \<and> dom (listeners s) \<subseteq> dom (listeners s') \<union> deletedFds s'"
  unfolding tracks_def by blast

lemma tracks_ret [tracking]: "tracks (ret x)" and tracks_throw [tracking]: "tracks (throw e)"
  and tracks_undef [tracking]: "tracks undef" and tracks_Pair [tracking]: "tracks (Pair r)"
  by (auto simp: tracks_def)

lemma tracks_bnd [tracking]:
  assumes "tracks m" and "\<And>x. tracks (f x)"
  shows "tracks (bnd m f)"
  unfolding tracks_def
proof (intro allI impI)
  fix s r s' assume run: "bnd m f s = (r, s')" and mon: "monitoring s"
  obtain r1 s1 where m: "m s = (r1, s1)" by (cases "m s")
  note 1 = tracksD [OF assms(1) m mon]
  show "monitoring s' \<and> deletedFds s \<subseteq> deletedFds s' \<and> dom (listeners s) \<subseteq> dom (listeners s') \<union> deletedFds s'"
  proof (cases r1)
    case (Ok x)
    then have "f x s1 = (r, s')" using run m by (simp add: bnd_run)
    from tracksD [OF assms(2) this] 1 show ?thesis by blast
  qed (use run m 1 in \<open>auto simp: bnd_run\<close>)
qed

lemma tracks_seq [tracking]: "tracks m \<Longrightarrow> tracks k \<Longrightarrow> tracks (seq m k)"
  by (simp add: seq_def tracks_bnd)

lemma tracks_branch [tracking]: "tracks m \<Longrightarrow> tracks k \<Longrightarrow> tracks (branch b m k)"
  unfolding tracks_def branch_def by auto

text \<open>Programs on a part of the state that has nothing to do with the registry.\<close>

lemma tracks_same:
  assumes "\<And>s. monitoring (snd (m s)) = monitoring s" "\<And>s. deletedFds (snd (m s)) = deletedFds s"
    "\<And>s. listeners (snd (m s)) = listeners s"
  shows "tracks m"
  unfolding tracks_def
proof (intro allI impI)
  fix s r s' assume "m s = (r, s')" "monitoring s"
  then show "monitoring s' \<and> deletedFds s \<subseteq> deletedFds s' \<and> dom (listeners s) \<subseteq> dom (listeners s') \<union> deletedFds s'"
    using assms [of s] by auto
qed

lemma tracks_on_world [tracking]: "tracks (on_world m)"
  by (rule tracks_same) (auto simp: on_world_def zoom_run split: prod.split)

lemma tracks_on_cbq [tracking]: "tracks (on_cbq m)"
  by (rule tracks_same) (auto simp: on_cbq_def zoom_run split: prod.split)

lemma tracks_on_tq [tracking]: "tracks (on_tq m)"
  by (rule tracks_same) (auto simp: on_tq_def zoom_run split: prod.split)

lemma tracks_flm_get [tracking]: "tracks (flm_get fd)"
  by (rule tracks_same) (auto simp: flm_get_def flm_find_def bnd_run split: option.split)

lemma tracks_base_add [tracking]: "tracks (base_add S fl fd ev)"
  unfolding tracks_def
proof (intro allI impI)
  fix s r s' assume "base_add S fl fd ev s = (r, s')" "monitoring s"
  then show "monitoring s' \<and> deletedFds s \<subseteq> deletedFds s' \<and> dom (listeners s) \<subseteq> dom (listeners s') \<union> deletedFds s'"
    by (cases rule: base_add_cases [of s fd S fl ev]) auto
qed

lemma tracks_base_modify [tracking]: "tracks (base_modify S fd ev)"
  unfolding tracks_def
proof (intro allI impI)
  fix s r s' assume "base_modify S fd ev s = (r, s')" "monitoring s"
  then show "monitoring s' \<and> deletedFds s \<subseteq> deletedFds s' \<and> dom (listeners s) \<subseteq> dom (listeners s') \<union> deletedFds s'"
    by (cases rule: base_modify_cases [of s fd S ev]) auto
qed

lemma tracks_delFDListener [tracking]: "tracks (delFDListener S fd)"
  unfolding tracks_def
proof (intro allI impI)
  fix s r s' assume run: "delFDListener S fd s = (r, s')" and mon: "monitoring s"
  let ?s = "monitor_add fd s"
  have f: "monitoring ?s" "deletedFds ?s = insert fd (deletedFds s)" "listeners ?s = listeners s"
    using mon by (simp_all add: monitor_add_def)
  have "base_del S fd ?s = (r, s')" using run by (simp add: delFDListener_def seq_run)
  then show "monitoring s' \<and> deletedFds s \<subseteq> deletedFds s' \<and> dom (listeners s) \<subseteq> dom (listeners s') \<union> deletedFds s'"
    using f by (cases rule: base_del_cases [of ?s fd S]) auto
qed

lemma tracks_addCallback [tracking]: "tracks wake \<Longrightarrow> tracks (addCallback wake cb)"
  unfolding addCallback_def by (intro tracking) (simp add: tracking)

lemma tracks_schedule [tracking]: "tracks (schedule_timer S t d cb)"
  by (cases cb) (simp_all add: schedule_timer_def clock_now_def tracking)

lemma tracks_api: "tracks wake \<Longrightarrow> tracks (runner_api wake S a)"
  by (cases a) (simp_all add: tracking)

lemma tracks_client [tracking]:
  assumes "tracks wake"
  shows "tracks (run_client wake S c)"
proof (induction c)
  case (Call a k)
  show ?case unfolding tracks_def
  proof (intro allI impI)
    fix s r s' assume run: "run_client wake S (Call a k) s = (r, s')" and mon: "monitoring s"
    obtain r1 s1 where a: "runner_api wake S a s = (r1, s1)" by (metis surj_pair)
    note 1 = tracksD [OF tracks_api [OF assms] a mon]
    have k: "tracks (run_client wake S (k x))" for x using Call.IH by blast
    show "monitoring s' \<and> deletedFds s \<subseteq> deletedFds s' \<and> dom (listeners s) \<subseteq> dom (listeners s') \<union> deletedFds s'"
    proof (cases r1)
      case (Ok u)
      then have "run_client wake S (k None) s1 = (r, s')" using run a by simp
      from tracksD [OF k this] 1 show ?thesis by blast
    next
      case (Throw e)
      then have "run_client wake S (k (Some e)) s1 = (r, s')" using run a by simp
      from tracksD [OF k this] 1 show ?thesis by blast
    qed (use run a 1 in auto)
  qed
next
  case (Look f)
  then show ?case unfolding tracks_def by (metis range_eqI run_client.simps(4))
next
  case (Touch f k)
  show ?case unfolding tracks_def
  proof (intro allI impI)
    fix s r s' assume run: "run_client wake S (Touch f k) s = (r, s')" and mon: "monitoring s"
    then have "run_client wake S k (s\<lparr>world := f (world s)\<rparr>) = (r, s')" by simp
    from tracksD [OF Touch.IH this] mon
    show "monitoring s' \<and> deletedFds s \<subseteq> deletedFds s' \<and> dom (listeners s) \<subseteq> dom (listeners s') \<union> deletedFds s'"
      by simp
  qed
qed (simp_all add: tracking)

lemma tracks_read_all [tracking]:
  "tracks (read_all n S fd len :: (('l, 'w, 'z) monitored_scheme, unit) prog)"
proof (induction n)
  case 0
  show ?case by (rule tracks_same) simp_all
next
  case (Suc n)
  have "tracks (bnd (on_world (sys_read S fd len)) (\<lambda>(r, _). if r > 0 then read_all n S fd len else ret ())
      :: (('l, 'w, 'z) monitored_scheme, unit) prog)"
    using Suc by (intro tracking) (auto simp: tracking split: prod.split)
  then show ?case by (simp add: tracks_def)
qed

lemma tracks_wakeUp [tracking]: "tracks (wakeUp S self)"
  unfolding wakeUp_def
  by (rule tracks_same) (auto simp: on_world_def zoom_run bnd_run split: prod.split outcome.split)

lemma tracks_signalfd_handle [tracking]:
  "tracks (wake :: (('u, 'c, 'w, 'z) epoll_runner_scheme, unit) prog) \<Longrightarrow>
    tracks (signalfd_handle n S wake sig_cb)"
proof (induction n)
  case 0
  show ?case by (rule tracks_same) simp_all
next
  case (Suc n)
  have b: "tracks (bnd (on_world (sys_read S fd 128)) (\<lambda>(r, b).
      if r > 0 then seq (addCallback wake (Some (sig_cb (ssi_signo b)))) (signalfd_handle n S wake sig_cb)
      else ret ()))" for fd
    using Suc by (intro tracking) (auto simp: tracking split: prod.split)
  show ?case unfolding tracks_def
  proof (intro allI impI)
    fix s r s' assume run: "signalfd_handle (Suc n) S wake sig_cb s = (r, s')" and mon: "monitoring s"
    show "monitoring s' \<and> deletedFds s \<subseteq> deletedFds s' \<and> dom (listeners s) \<subseteq> dom (listeners s') \<union> deletedFds s'"
    proof (cases "\<exists>sf. the_signalFD s = Some sf \<and> \<not> sigfd sf < 0")
      case True
      then obtain sf where "the_signalFD s = Some sf" "\<not> sigfd sf < 0" by blast
      with run have "bnd (on_world (sys_read S (sigfd sf) 128)) (\<lambda>(r, b).
          if r > 0 then seq (addCallback wake (Some (sig_cb (ssi_signo b)))) (signalfd_handle n S wake sig_cb)
          else ret ()) s = (r, s')" by simp
      from tracksD [OF b this mon] show ?thesis .
    next
      case False
      then show ?thesis using run mon by (auto split: option.splits if_splits)
    qed
  qed
qed

lemma tracks_epoll_dispatch: "tracks (epoll_dispatch n S (wakeUp S self) sig_cb handle fl fd ev)"
proof (cases fl)
  case EventPipe
  have "tracks (\<lambda>s. read_all n S (readFD s) 32 s)"
    using tracks_read_all unfolding tracks_def by blast
  then show ?thesis using EventPipe by (simp add: epoll_dispatch_def)
qed (simp_all add: epoll_dispatch_def tracking)

lemma tracks_async_dispatch: "tracks (async_dispatch n S handle fl fd ev)"
proof (cases fl)
  case TimerListener
  have "tracks (\<lambda>s. read_all n S (timerFD s) 32 s)"
    using tracks_read_all unfolding tracks_def by blast
  then show ?thesis using TimerListener by (simp add: async_dispatch_def)
qed (simp_all add: async_dispatch_def tracking)

text \<open>The batch loop with a lookup that must not fail: a missing listener is \<open>Undef\<close>.\<close>

fun handle_events_strict :: "('l \<Rightarrow> rawfd \<Rightarrow> event_mask \<Rightarrow> (('l, 'w, 'z) monitored_scheme, unit) prog) \<Rightarrow>
    (rawfd \<times> event_mask) list \<Rightarrow> (('l, 'w, 'z) monitored_scheme, unit) prog" where
  "handle_events_strict dispatch [] s = (Ok (), s)"
| "handle_events_strict dispatch ((fd, ev) # es) s = seq
     (\<lambda>s. if fd \<in> deletedFds s then (Ok (), s)
          else (case listeners s fd of None \<Rightarrow> (Undef, s) | Some (fl, _) \<Rightarrow> dispatch fl fd ev s))
     (handle_events_strict dispatch es) s"

lemma flm_get_run:
  "flm_get fd s = (case listeners s fd of None \<Rightarrow> (Throw (NonExistingFDListener fd), s)
     | Some (fl, _) \<Rightarrow> (Ok fl, s))"
  by (simp add: flm_get_def flm_find_def bnd_run split: option.split)

definition handle_one :: "('l \<Rightarrow> rawfd \<Rightarrow> event_mask \<Rightarrow> (('l, 'w, 'z) monitored_scheme, unit) prog) \<Rightarrow>
    rawfd \<Rightarrow> event_mask \<Rightarrow> (('l, 'w, 'z) monitored_scheme, unit) prog" where
  "handle_one dispatch fd ev = branch (monitor_has fd) (ret ()) (bnd (flm_get fd) (\<lambda>fl. dispatch fl fd ev))"

lemma handle_events_Cons:
  "handle_events dispatch ((fd, ev) # es) s = (case handle_one dispatch fd ev s of
     (Ok _, s') \<Rightarrow> handle_events dispatch es s' | (r, s') \<Rightarrow> (r, s'))"
  by (auto simp: handle_one_def seq_run fail_as_def split: outcome.split prod.split)

lemma tracks_handle_one:
  "(\<And>fl fd ev. tracks (dispatch fl fd ev)) \<Longrightarrow> tracks (handle_one dispatch fd ev)"
  unfolding handle_one_def by (intro tracking) auto

lemma handle_events_registered:
  assumes tr: "\<And>fl fd ev. tracks (dispatch fl fd ev)" and "monitoring s"
    and "fst ` set es \<subseteq> dom (listeners s) \<union> deletedFds s"
  shows "handle_events dispatch es s = handle_events_strict dispatch es s"
  using assms(2,3)
proof (induction es arbitrary: s)
  case (Cons e es)
  obtain fd ev where e: "e = (fd, ev)" by (cases e)
  have one: "handle_one dispatch fd ev s = (if fd \<in> deletedFds s then (Ok (), s)
      else (case listeners s fd of None \<Rightarrow> (Undef, s) | Some (fl, _) \<Rightarrow> dispatch fl fd ev s))"
    using Cons.prems(2) e
    by (auto simp: handle_one_def branch_run monitor_has_def bnd_run flm_get_run split: option.split)
  obtain r s' where r: "handle_one dispatch fd ev s = (r, s')" by (metis surj_pair)
  note 1 = tracksD [OF tracks_handle_one [OF tr] r Cons.prems(1)]
  have "fst ` set es \<subseteq> dom (listeners s) \<union> deletedFds s" using Cons.prems(2) by simp
  also have "\<dots> \<subseteq> dom (listeners s') \<union> deletedFds s'" using 1 by blast
  finally have "handle_events dispatch es s' = handle_events_strict dispatch es s'"
    using 1 by (intro Cons.IH) simp
  then show ?case
    unfolding e handle_events_Cons r using r unfolding one
    by (simp add: seq_run fail_as_def split: outcome.split)
qed simp

lemma handle_events_deleted:
  assumes tr: "\<And>fl fd ev. tracks (dispatch fl fd ev)" and "monitoring s" and "gone \<in> deletedFds s"
  shows "handle_events dispatch es s = handle_events dispatch (filter (\<lambda>e. fst e \<noteq> gone) es) s"
  using assms(2,3)
proof (induction es arbitrary: s)
  case (Cons e es)
  obtain fd ev where e: "e = (fd, ev)" by (cases e)
  obtain r s' where r: "handle_one dispatch fd ev s = (r, s')" by (metis surj_pair)
  note 1 = tracksD [OF tracks_handle_one [OF tr] r Cons.prems(1)]
  have ih: "handle_events dispatch es s' = handle_events dispatch (filter (\<lambda>e. fst e \<noteq> gone) es) s'"
    using Cons.prems(2) 1 by (intro Cons.IH) auto
  show ?case
  proof (cases "fd = gone")
    case True
    then have "handle_one dispatch fd ev s = (Ok (), s)"
      using Cons.prems(2) by (simp add: handle_one_def branch_run monitor_has_def)
    then show ?thesis using True Cons e by (simp add: handle_events_Cons del: handle_events.simps(2))
  next
    case False
    then show ?thesis using e r ih
      by (simp add: handle_events_Cons del: handle_events.simps(2) split: outcome.split)
  qed
qed simp

section \<open>Waiting\<close>

lemma wait_argument_exact:
  assumes "0 \<le> ticks d" and "ticks d < 1000 * 2 ^ 31"
  shows "wait_argument d = ticks d div 1000"
proof -
  have "0 \<le> ticks d div 1000" "ticks d div 1000 < 2 ^ 31" using assms by auto
  then show ?thesis
    using assms(1) by (simp add: wait_argument_def total_milliseconds_def sint_sbintrunc'
        signed_take_bit_int_eq_self)
qed

lemma clock_now_run:
  assumes "\<And>w. sys_getMonotonicClock S w = (Ok (now_us w div 1000), w)"
  shows "clock_now S s = (Ok (milliseconds (now_us (world s) div 1000)), s)"
  by (simp add: clock_now_def bnd_run on_world_def zoom_run assms)

text \<open>
  The documented behaviour of the clock and of waiting: \<open>now_us\<close> is the time in microseconds, the
  clock shows whole milliseconds of it, and a wait that ends with no events has lasted at least as
  long as asked.
\<close>

definition time_contract :: "'w system \<Rightarrow> ('w \<Rightarrow> int) \<Rightarrow> bool" where
  "time_contract S now_us \<longleftrightarrow> (\<forall>w. sys_getMonotonicClock S w = (Ok (now_us w div 1000), w))
     \<and> (\<forall>ep n t w ev w'. sys_epollWait S ep n t w = (Ok (0, ev), w') \<longrightarrow> 0 \<le> t \<longrightarrow>
          now_us w + 1000 * t \<le> now_us w')"

lemma epoll_wait_timeout:
  assumes "epoll_wait S t s = (Ok True, s')"
  shows "\<exists>ep n ev. sys_epollWait S ep n t (world s) = (Ok (0, ev), world s')"
  using assms unfolding epoll_wait_def epfd_int_def bnd_run seq_run on_world_def zoom_run Let_def
  by (auto split: if_splits prod.splits outcome.splits) blast

section \<open>The signal descriptor\<close>

lemma signals_to_change_spec:
  assumes "\<forall>i \<in> set is. valid_signal i"
  shows "signals_to_change handled orig is (b, u) =
     (b \<union> {i \<in> set is. i \<notin> orig \<and> i \<notin> handled}, u - {i \<in> set is. i \<notin> orig \<and> i \<in> handled})"
  using assms
proof (induction "is" arbitrary: b u)
  case (Cons i "is")
  then have "isSet orig i \<longleftrightarrow> i \<in> orig" "isSet handled i \<longleftrightarrow> i \<in> handled"
    by (simp_all add: isSet_def)
  then show ?case using Cons by (auto simp: signals_to_change.simps(2))
qed simp

lemma foldl_minus: "foldl (\<lambda>u i. u - {i}) u is = u - set is"
  by (induction "is" arbitrary: u) auto

section \<open>Draining the callback queue\<close>

lemma cbq_execute_empties:
  assumes "cbq_execute n g p call s = (Ok b, s')" and "\<And>q s. g (p q s) = q"
  shows "queue (g s') = []"
  using assms(1)
proof (induction n arbitrary: s b)
  case (Suc n)
  show ?case
  proof (cases "queue (g s)")
    case Nil
    then show ?thesis using Suc.prems assms(2) by (auto simp: bnd_run zoom_run cbq_pop_def)
  next
    case (Cons c cs)
    then show ?thesis
      using Suc.prems by (auto simp: bnd_run seq_run zoom_run cbq_pop_def split: prod.splits outcome.splits
          dest: Suc.IH)
  qed
qed simp

section \<open>Properties\<close>

text \<open>
  C16: a listener that was deleted is not called and never looked up in vain. Take a batch of events
  whose descriptors are all registered when its handling starts. Whatever the listeners do through
  the runner's interface (deleting descriptors of this batch and adding the same numbers again
  included), the loop never meets a descriptor without a listener.
\<close>

theorem batch_never_misses:
  assumes "monitoring s" and "fst ` set es \<subseteq> dom (listeners s)"
  shows "handle_events (epoll_dispatch n S (wakeUp S self) sig_cb handle) es s
       = handle_events_strict (epoll_dispatch n S (wakeUp S self) sig_cb handle) es s"
  by (rule handle_events_registered [OF tracks_epoll_dispatch assms(1)]) (use assms(2) in blast)

text \<open>An example: the listener of descriptor 5 deletes descriptor 6, adds it again, and stops.\<close>

definition ex_handle :: "nat \<Rightarrow> rawfd \<Rightarrow> event_mask \<Rightarrow> (nat, string, rawfd \<Rightarrow> event_mask option) client" where
  "ex_handle u fd ev = (if fd = 5 then Call (DelFD 6) (\<lambda>_. Call (AddFD 9 6 EVENT_IN) (\<lambda>_. Finish))
     else Fail BadAlloc)"

definition ex_runner :: "(nat, string, rawfd \<Rightarrow> event_mask option) epoll_runner" where
  "ex_runner = (runner_blank [5 \<mapsto> EVENT_IN, 6 \<mapsto> EVENT_IN])\<lparr>epfd := 3, addCount := 2, monitoring := True,
     listeners := [5 \<mapsto> (User 1, EVENT_IN), 6 \<mapsto> (User 2, EVENT_IN)]\<rparr>"

lemmas runner_eval = ex_runner_def runner_blank_def ex_handle_def handle_events_Cons handle_one_def
  branch_run monitor_has_def flm_get_run bnd_run seq_run epoll_dispatch_def delFDListener_def monitor_add_def
  base_del_def flm_del_def flm_find_def epoll_del_def epfd_int_def on_world_def zoom_run map_system_def
  base_add_def flm_add_def epoll_add_def cbq_empty_def tq_empty_def

theorem batch_never_misses_witness:
  "fst (handle_events_strict (epoll_dispatch 1 map_system (wakeUp map_system 0) (\<lambda>_. ''sig'') ex_handle)
     [(5, EVENT_IN), (6, EVENT_IN)] ex_runner) = Ok ()"
proof -
  have "fst (handle_events (epoll_dispatch 1 map_system (wakeUp map_system 0) (\<lambda>_. ''sig'') ex_handle)
     [(5, EVENT_IN), (6, EVENT_IN)] ex_runner) = Ok ()"
    by (simp add: runner_eval del: handle_events.simps(2))
  then show ?thesis
    by (subst batch_never_misses [symmetric]) (simp_all add: ex_runner_def)
qed

text \<open>
  C17: once a descriptor is deleted during a batch, its remaining events are dropped, also when the
  same number is registered again for another listener in the meantime: handling the rest of the
  batch is the same as handling it without them.
\<close>

theorem deleted_descriptor_ignored:
  assumes "monitoring s" and "delFDListener S gone s = (r, s1)"
  shows "handle_events (epoll_dispatch n S (wakeUp S self) sig_cb handle) es s1
       = handle_events (epoll_dispatch n S (wakeUp S self) sig_cb handle) (filter (\<lambda>e. fst e \<noteq> gone) es) s1"
proof (rule handle_events_deleted [OF tracks_epoll_dispatch])
  let ?s = "monitor_add gone s"
  have "base_del S gone ?s = (r, s1)" using assms(2) by (simp add: delFDListener_def seq_run)
  moreover have "monitoring ?s" "gone \<in> deletedFds ?s" using assms(1) by (simp_all add: monitor_add_def)
  ultimately show "monitoring s1" "gone \<in> deletedFds s1"
    by (cases rule: base_del_cases [of ?s gone S]; auto)+
qed

theorem deleted_descriptor_ignored_witness:
  "\<exists>s1. delFDListener map_system 6 ex_runner = (Ok (), s1)
     \<and> fst (handle_events (epoll_dispatch 1 map_system (wakeUp map_system 0) (\<lambda>_. ''sig'') ex_handle)
          [(6, EVENT_IN)] s1) = Ok ()"
proof -
  obtain r s1 where del: "delFDListener map_system 6 ex_runner = (r, s1)" by (metis surj_pair)
  have r: "r = Ok ()" using del by (auto simp: runner_eval)
  have "handle_events (epoll_dispatch 1 map_system (wakeUp map_system 0) (\<lambda>_. ''sig'') ex_handle) [(6, EVENT_IN)] s1
      = handle_events (epoll_dispatch 1 map_system (wakeUp map_system 0) (\<lambda>_. ''sig'') ex_handle) [] s1"
    using deleted_descriptor_ignored [OF _ del, of 1 0 "\<lambda>_. ''sig''" ex_handle "[(6, EVENT_IN)]"]
    by (simp add: ex_runner_def del: handle_events.simps(2))
  then show ?thesis using del r by auto
qed

text \<open>
  A timer runs at most one millisecond early. When an iteration of \<open>EpollRunner\<close> decides to
  execute the first timer, less than a millisecond is left until the time it was scheduled for; the
  rest is lost because the timeout is rounded down to milliseconds. This holds for timeouts below
  \<open>2^31\<close> milliseconds.
\<close>

theorem timer_at_most_1ms_early:
  assumes "time_contract S now_us" and "timer_due S s = (Ok True, s')" and "entries (tq s) = e # es"
    and "ticks (tte e) - now_us (world s) < 1000 * 2 ^ 31 - 1000"
  shows "ticks (tte e) < now_us (world s') + 1000"
proof -
  let ?now = "milliseconds (now_us (world s) div 1000)" let ?d = "getTimeout ?now (tq s)"
  have clk: "clock_now S s = (Ok ?now, s)"
    using assms(1) by (intro clock_now_run) (simp add: time_contract_def)
  have d: "ticks ?d = max 0 (ticks (tte e) - 1000 * (now_us (world s) div 1000))"
    using assms(3) by (simp add: getTimeout_def dur_minus_def is_negative_def milliseconds_def max_def)
  have floor: "1000 * (now_us (world s) div 1000) \<le> now_us (world s)"
    "now_us (world s) < 1000 * (now_us (world s) div 1000) + 1000" by presburger+
  have run: "(if isTimeout ?d then (Ok True, s) else runner_wait S ?d s) = (Ok True, s')"
    using assms(2) clk by (simp add: timer_due_def bnd_run Let_def)
  show ?thesis
  proof (cases "isTimeout ?d")
    case True
    then have "ticks ?d < 1000" "s' = s"
      using run by (simp_all add: isTimeout_def MIN_TIMEOUT_def less_duration_def milliseconds_def)
    then show ?thesis using d floor by (simp add: max_def split: if_splits)
  next
    case False
    have bnd: "0 \<le> ticks ?d" "ticks ?d < 1000 * 2 ^ 31" using d assms(4) floor by auto
    then have w: "wait_argument ?d = ticks ?d div 1000" by (rule wait_argument_exact)
    from run False have "epoll_wait S (wait_argument ?d) s = (Ok True, s')" by (simp add: runner_wait_def)
    then obtain ep n ev where "sys_epollWait S ep n (ticks ?d div 1000) (world s) = (Ok (0, ev), world s')"
      using epoll_wait_timeout w by metis
    moreover have "0 \<le> ticks ?d div 1000" using bnd by simp
    ultimately have "now_us (world s) + 1000 * (ticks ?d div 1000) \<le> now_us (world s')"
      using assms(1) unfolding time_contract_def by blast
    moreover have "ticks ?d < 1000 * (ticks ?d div 1000) + 1000" by presburger
    moreover have "ticks (tte e) - 1000 * (now_us (world s) div 1000) \<le> ticks ?d" using d by simp
    ultimately show ?thesis using floor by linarith
  qed
qed

text \<open>A world for the examples that is only the time in microseconds; waiting passes the time.\<close>

definition time_system :: "int system" where
  "time_system = idle_system\<lparr>sys_getMonotonicClock := (\<lambda>w. (Ok (w div 1000), w)),
     sys_epollWait := (\<lambda>ep n t w. (Ok (0, []), w + 1000 * max 0 t))\<rparr>"

lemma time_system_contract: "time_contract time_system (\<lambda>w. w)"
  by (auto simp: time_contract_def time_system_def)

theorem timer_at_most_1ms_early_witness:
  "\<exists>s s' :: (nat, string, int) epoll_runner. timer_due time_system s = (Ok True, s')
     \<and> entries (tq s) = [\<lparr>tte = Micros 5999, node = 0, owner = 0\<rparr>] \<and> world s' = 5000
     \<and> 5999 < world s' + 1000"
proof -
  let ?s = "(runner_blank 0)\<lparr>epfd := 3, addCount := 1, tq := tq_empty\<lparr>entries :=
     [\<lparr>tte = Micros 5999, node = 0, owner = 0\<rparr>]\<rparr>\<rparr> :: (nat, string, int) epoll_runner"
  obtain r s' where run: "timer_due time_system ?s = (r, s')" by (metis surj_pair)
  have w: "wait_argument (Micros 5999) = 5" by (subst wait_argument_exact) simp_all
  have r: "r = Ok True" "world s' = 5000"
    using run w by (auto simp: timer_due_def bnd_run seq_run clock_now_def on_world_def zoom_run time_system_def
        runner_blank_def getTimeout_def dur_minus_def milliseconds_def is_negative_def isTimeout_def
        NO_TIMEOUT_def MIN_TIMEOUT_def less_duration_def runner_wait_def epoll_wait_def epfd_int_def
        resize_list_def Let_def tq_empty_def)
  have "5999 < world s' + 1000"
    using timer_at_most_1ms_early [OF time_system_contract run [unfolded r(1)],
        of "\<lparr>tte = Micros 5999, node = 0, owner = 0\<rparr>" "[]"]
    by (simp add: runner_blank_def)
  then show ?thesis using run r by (intro exI [of _ ?s] exI [of _ s']) simp
qed

text \<open>
  C18: the argument of \<open>epoll_wait\<close>. No timeout becomes \<open>-1\<close>, which waits for ever; a timeout from a
  millisecond up to \<open>2^31\<close> milliseconds is rounded down to milliseconds and stays positive; but one
  from \<open>2^31\<close> up to \<open>2^32\<close> milliseconds (25 to 50 days) becomes negative, so the runner waits for
  ever instead.
\<close>

theorem wait_argument_bounds:
  "wait_argument NO_TIMEOUT = - 1
   \<and> (MIN_TIMEOUT \<le> d \<and> d < milliseconds (2 ^ 31) \<longrightarrow> 1 \<le> wait_argument d
        \<and> milliseconds (wait_argument d) \<le> d \<and> d < milliseconds (wait_argument d + 1))
   \<and> (milliseconds (2 ^ 31) \<le> d \<and> d < milliseconds (2 ^ 32) \<longrightarrow> wait_argument d < 0)"
proof (intro conjI impI)
  show "wait_argument NO_TIMEOUT = - 1"
    by (simp add: wait_argument_def NO_TIMEOUT_def milliseconds_def total_milliseconds_def)
next
  assume d: "MIN_TIMEOUT \<le> d \<and> d < milliseconds (2 ^ 31)"
  then have t: "1000 \<le> ticks d" "ticks d < 1000 * 2 ^ 31"
    by (simp_all add: MIN_TIMEOUT_def milliseconds_def less_eq_duration_def less_duration_def)
  then have w: "wait_argument d = ticks d div 1000" by (intro wait_argument_exact) simp_all
  show "1 \<le> wait_argument d" using t w by simp
  show "milliseconds (wait_argument d) \<le> d"
    using w by (simp add: milliseconds_def less_eq_duration_def)
  show "d < milliseconds (wait_argument d + 1)"
    unfolding w milliseconds_def less_duration_def duration.sel by presburger
next
  assume d: "milliseconds (2 ^ 31) \<le> d \<and> d < milliseconds (2 ^ 32)"
  then have "2147483648000 \<le> ticks d" "ticks d < 4294967296000"
    by (simp_all add: milliseconds_def less_eq_duration_def less_duration_def)
  then have "2147483648 \<le> ticks d div 1000" "ticks d div 1000 < 4294967296" "0 \<le> ticks d"
    using zdiv_mono1 [of 2147483648000 "ticks d" 1000] zdiv_mono1 [of "ticks d" 4294967295999 1000]
    by simp_all
  then have t: "2 ^ 31 \<le> ticks d div 1000" "ticks d div 1000 < 2 ^ 32" "0 \<le> ticks d" by simp_all
  have "signed_take_bit 31 (ticks d div 1000) = ticks d div 1000 - 2 ^ 32"
    using signed_take_bit_int_eq_self [of 31 "ticks d div 1000 - 2 ^ 32"] t
      signed_take_bit_add [of 31 "ticks d div 1000" "- (2 ^ 32)"]
    by (simp add: signed_take_bit_eq_if_positive)
  then show "wait_argument d < 0"
    using t by (simp add: wait_argument_def total_milliseconds_def sint_sbintrunc')
qed

theorem wait_argument_bounds_witness:
  "1 \<le> wait_argument (milliseconds 5) \<and> milliseconds (wait_argument (milliseconds 5)) \<le> milliseconds 5
   \<and> wait_argument (milliseconds (2 ^ 31)) < 0"
  using wait_argument_bounds [of "milliseconds 5"] wait_argument_bounds [of "milliseconds (2 ^ 31)"]
  by (simp add: MIN_TIMEOUT_def milliseconds_def less_eq_duration_def less_duration_def)

text \<open>
  The documented behaviour of \<open>signalfd\<close> on an existing descriptor, over a function that gives the
  signals a signal descriptor accepts: it replaces them, but for \<open>SIGKILL\<close> and \<open>SIGSTOP\<close>, which are
  ignored, and fails on any other descriptor, changing nothing; and neither it nor \<open>sigprocmask\<close>
  changes what the other one sets.
\<close>

definition signalfd_contract :: "'w system \<Rightarrow> ('w \<Rightarrow> sigset) \<Rightarrow> ('w \<Rightarrow> nat \<Rightarrow> nat) \<Rightarrow> ('w \<Rightarrow> rawfd \<Rightarrow> sigset option) \<Rightarrow> bool" where
  "signalfd_contract S blocked delivered accepts \<longleftrightarrow>
     (\<forall>fd m w r w'. 0 \<le> fd \<longrightarrow> sys_signalFD S fd m w = (r, w') \<longrightarrow>
        blocked w' = blocked w \<and> delivered w' = delivered w
      \<and> (if accepts w fd = None then r \<noteq> Ok fd \<and> accepts w' = accepts w
         else r = Ok fd \<and> accepts w' = (accepts w)(fd \<mapsto> m - {9, 19})))
   \<and> (\<forall>how m w r w'. sys_sigMask S how m w = (r, w') \<longrightarrow> accepts w' = accepts w)"

lemma signalfd_contractD:
  assumes "signalfd_contract S blocked delivered accepts"
  shows "0 \<le> fd \<Longrightarrow> accepts w fd \<noteq> None \<Longrightarrow> \<exists>w'. sys_signalFD S fd m w = (Ok fd, w') \<and> blocked w' = blocked w
      \<and> delivered w' = delivered w \<and> accepts w' = (accepts w)(fd \<mapsto> m - {9, 19})"
    "sys_sigMask S how m' w = (r, w') \<Longrightarrow> accepts w' = accepts w"
proof -
  note C = assms [unfolded signalfd_contract_def]
  obtain r1 w1 where run: "sys_signalFD S fd m w = (r1, w1)" by (metis surj_pair)
  show "0 \<le> fd \<Longrightarrow> accepts w fd \<noteq> None \<Longrightarrow> \<exists>w'. sys_signalFD S fd m w = (Ok fd, w') \<and> blocked w' = blocked w
      \<and> delivered w' = delivered w \<and> accepts w' = (accepts w)(fd \<mapsto> m - {9, 19})"
    using C [THEN conjunct1, rule_format, OF _ run] run by auto
  show "sys_sigMask S how m' w = (r, w') \<Longrightarrow> accepts w' = accepts w"
    by (rule C [THEN conjunct2, rule_format])
qed

text \<open>
  C19: \<open>setSignals\<close> leaves the thread with exactly the right mask and the signal descriptor with
  exactly the new signals. If before the signals that were blocked originally and the handled ones
  are blocked, afterwards it is the original ones and the new ones: every new signal is blocked, and
  every old one that is neither new nor was blocked originally is unblocked. Only signals of the
  latter kind that were pending are delivered; a pending signal that stays handled is not. This
  holds for the standard signals (1 to 31); \<open>SIGKILL\<close> and \<open>SIGSTOP\<close> are never blocked or accepted.
\<close>

theorem setSignals_mask:
  assumes "signal_contract S blocked pending delivered" and "signalfd_contract S blocked delivered accepts"
    and "the_signalFD s = Some sf" and "0 \<le> sigfd sf" and "accepts (world s) (sigfd sf) \<noteq> None"
    and "blocked (world s) = originallyBlockedSignals sf \<union> handledSignals sf - {9, 19}"
    and "originallyBlockedSignals sf \<union> handledSignals sf \<union> new \<subseteq> {1..31}"
  shows "\<exists>s'. setSignals S new s = (Ok (), s')
     \<and> blocked (world s') = originallyBlockedSignals sf \<union> new - {9, 19}
     \<and> accepts (world s') = (accepts (world s))(sigfd sf \<mapsto> new - {9, 19})
     \<and> delivered (world s') = deliver (pending (world s)
          \<inter> (handledSignals sf - new - originallyBlockedSignals sf)) (delivered (world s))
     \<and> the_signalFD s' = Some (sf\<lparr>handledSignals := new\<rparr>)"
proof -
  let ?orig = "originallyBlockedSignals sf" and ?old = "handledSignals sf"
  let ?block = "{i \<in> new. i \<notin> ?orig \<and> i \<notin> ?old}"
  let ?unblock = "?old - {i \<in> new. i \<notin> ?orig \<and> i \<in> ?old} - ?orig"
  have new: "set (sset_signals new) = new" and orig: "set (sset_signals ?orig) = ?orig"
    using assms(7) by (auto simp: set_sset_signals MAX_SIGNAL_31)
  have "\<forall>i \<in> set (sset_signals new). valid_signal i"
    using assms(7) by (auto simp: new valid_signal_def)
  then have ch: "signals_to_change ?old ?orig (sset_signals new) ({}, ?old)
      = (?block, ?old - {i \<in> new. i \<notin> ?orig \<and> i \<in> ?old})"
    by (simp add: signals_to_change_spec new)
  note D = signal_contractD [OF assms(1)] and F = signalfd_contractD [OF assms(2)]
  obtain w1 where w1: "sys_sigMask S SigBlock (Some ?block) (world s) = (Ok (blocked (world s)), w1)"
    "blocked w1 = new_mask SigBlock (blocked (world s)) ?block"
    "pending w1 = pending (world s) \<inter> blocked w1"
    "delivered w1 = deliver (pending (world s) - blocked w1) (delivered (world s))"
    using D(5) by blast
  then have b1: "blocked w1 = ?orig \<union> ?old \<union> new - {9, 19}" using assms(6) by (auto simp: new_mask_def)
  have sub: "pending (world s) \<subseteq> blocked w1" using D(3) [of "world s"] b1 assms(6) by blast
  have p1: "pending w1 = pending (world s)" "delivered w1 = delivered (world s)"
    using w1(3,4) sub by auto
  obtain w2 where w2: "sys_sigMask S SigUnblock (Some ?unblock) w1 = (Ok (blocked w1), w2)"
    "blocked w2 = new_mask SigUnblock (blocked w1) ?unblock"
    "delivered w2 = deliver (pending w1 - blocked w2) (delivered w1)"
    using D(5) by blast
  then have b2: "blocked w2 = ?orig \<union> new - {9, 19}" using b1 by (auto simp: new_mask_def)
  have "pending w1 - blocked w2 = pending (world s) \<inter> (?old - new - ?orig)"
    using D(3) [of "world s"] p1(1) b2 assms(6) by blast
  then have d2: "delivered w2 = deliver (pending (world s) \<inter> (?old - new - ?orig)) (delivered (world s))"
    using w2(3) p1(2) by simp
  have a: "accepts w2 = accepts (world s)" using F(2) [OF w1(1)] F(2) [OF w2(1)] by simp
  then obtain w3 where w3: "sys_signalFD S (sigfd sf) new w2 = (Ok (sigfd sf), w3)" "blocked w3 = blocked w2"
    "delivered w3 = delivered w2" "accepts w3 = (accepts w2)(sigfd sf \<mapsto> new - {9, 19})"
    using F(1) [of "sigfd sf" w2 new] assms(4,5) by auto
  have "signalfd_setSignals S new (sf, world s) = (Ok (), (sf\<lparr>handledSignals := new\<rparr>, w3))"
    using ch w1(1) w2(1) w3(1) assms(4) orig
    by (simp add: signalfd_setSignals_def foldl_minus seq_run bnd_run zoom_run)
  then have "setSignals S new s = (Ok (), s\<lparr>the_signalFD := Some (sf\<lparr>handledSignals := new\<rparr>), world := w3\<rparr>)"
    using assms(3) by (simp add: setSignals_def)
  then show ?thesis using w3(2-4) b2 d2 a by simp
qed

text \<open>Signals and one signal descriptor, 7.\<close>

definition sigfd_system :: "(sig_world \<times> sigset) system" where
  "sigfd_system = idle_system\<lparr>
     sys_sigPending := (\<lambda>(w, a). case sys_sigPending sig_system w of (r, w') \<Rightarrow> (r, (w', a))),
     sys_sigMask := (\<lambda>how s (w, a). case sys_sigMask sig_system how s w of (r, w') \<Rightarrow> (r, (w', a))),
     sys_sigTimedWait := (\<lambda>s (w, a). case sys_sigTimedWait sig_system s w of (r, w') \<Rightarrow> (r, (w', a))),
     sys_signalFD := (\<lambda>fd s (w, a). if fd = 7 then (Ok 7, (w, s - {9, 19}))
        else (Throw (SystemException ''signalfd'' EINVAL), (w, a)))\<rparr>"

definition sigfd_accepts :: "sig_world \<times> sigset \<Rightarrow> rawfd \<Rightarrow> sigset option" where
  "sigfd_accepts w = [7 \<mapsto> snd w]"

lemma sigfd_system_contracts:
  "signal_contract sigfd_system (sig_blocked \<circ> fst) (sig_pending \<circ> fst) (sig_delivered \<circ> fst)"
  "signalfd_contract sigfd_system (sig_blocked \<circ> fst) (sig_delivered \<circ> fst) sigfd_accepts"
proof -
  show "signal_contract sigfd_system (sig_blocked \<circ> fst) (sig_pending \<circ> fst) (sig_delivered \<circ> fst)"
    unfolding signal_contract_def
  proof (intro conjI allI impI)
    note D = signal_contractD [OF sig_system_contract]
    fix how s sig and w :: "sig_world \<times> sigset"
    obtain v a where w: "w = (v, a)" by (cases w)
    show "9 \<notin> (sig_blocked \<circ> fst) w" "19 \<notin> (sig_blocked \<circ> fst) w" "(sig_pending \<circ> fst) w \<subseteq> (sig_blocked \<circ> fst) w"
      "sys_sigPending sigfd_system w = (Ok ((sig_pending \<circ> fst) w), w)"
      using D(1-4) [of v] by (simp_all add: w sigfd_system_def)
    obtain v1 where "sys_sigMask sig_system how (Some s) v = (Ok (sig_blocked v), v1)"
      "sig_blocked v1 = new_mask how (sig_blocked v) s" "sig_pending v1 = sig_pending v \<inter> sig_blocked v1"
      "sig_delivered v1 = deliver (sig_pending v - sig_blocked v1) (sig_delivered v)"
      using D(5) by blast
    then show "\<exists>w'. sys_sigMask sigfd_system how (Some s) w = (Ok ((sig_blocked \<circ> fst) w), w')
        \<and> (sig_blocked \<circ> fst) w' = new_mask how ((sig_blocked \<circ> fst) w) s
        \<and> (sig_pending \<circ> fst) w' = (sig_pending \<circ> fst) w \<inter> (sig_blocked \<circ> fst) w'
        \<and> (sig_delivered \<circ> fst) w' = deliver ((sig_pending \<circ> fst) w - (sig_blocked \<circ> fst) w') ((sig_delivered \<circ> fst) w)"
      by (intro exI [of _ "(v1, a)"]) (simp add: w sigfd_system_def)
    assume "sig \<in> (sig_pending \<circ> fst) w"
    then obtain v2 where "sys_sigTimedWait sig_system {sig} v = (Ok (int sig), v2)"
      "sig_blocked v2 = sig_blocked v" "sig_pending v2 = sig_pending v - {sig}" "sig_delivered v2 = sig_delivered v"
      using D(6) [of sig v] w by auto
    then show "\<exists>w'. sys_sigTimedWait sigfd_system {sig} w = (Ok (int sig), w')
        \<and> (sig_blocked \<circ> fst) w' = (sig_blocked \<circ> fst) w \<and> (sig_pending \<circ> fst) w' = (sig_pending \<circ> fst) w - {sig}
        \<and> (sig_delivered \<circ> fst) w' = (sig_delivered \<circ> fst) w"
      by (intro exI [of _ "(v2, a)"]) (simp add: w sigfd_system_def)
  qed
  show "signalfd_contract sigfd_system (sig_blocked \<circ> fst) (sig_delivered \<circ> fst) sigfd_accepts"
    by (auto simp: signalfd_contract_def sigfd_system_def sigfd_accepts_def split: if_splits prod.splits)
qed

text \<open>2 and 15 are handled, 1 and 2 were blocked before; then 2 and 10 shall be handled. 15 is pending.\<close>

theorem setSignals_mask_witness:
  "\<exists>s' :: (nat, string, sig_world \<times> sigset) epoll_runner.
     setSignals sigfd_system {2, 10} ((runner_blank (({1, 2, 15}, {2, 15}, \<lambda>_. 0), {2, 15}))\<lparr>the_signalFD :=
       Some \<lparr>sigfd = 7, handledSignals = {2, 15}, originallyBlockedSignals = {1, 2}\<rparr>\<rparr>) = (Ok (), s')
     \<and> sig_blocked (fst (world s')) = {1, 2, 10} \<and> sigfd_accepts (world s') 7 = Some {2, 10}
     \<and> sig_delivered (fst (world s')) 15 = 1 \<and> sig_delivered (fst (world s')) 2 = 0"
proof -
  let ?sf = "\<lparr>sigfd = 7, handledSignals = {2, 15}, originallyBlockedSignals = {1, 2}\<rparr>"
  let ?s = "(runner_blank (({1, 2, 15}, {2, 15}, \<lambda>_. 0), {2, 15}))\<lparr>the_signalFD := Some ?sf\<rparr>
     :: (nat, string, sig_world \<times> sigset) epoll_runner"
  have "\<exists>s'. setSignals sigfd_system {2, 10} ?s = (Ok (), s')
     \<and> (sig_blocked \<circ> fst) (world s') = originallyBlockedSignals ?sf \<union> {2, 10} - {9, 19}
     \<and> sigfd_accepts (world s') = (sigfd_accepts (world ?s))(sigfd ?sf \<mapsto> {2, 10} - {9, 19})
     \<and> (sig_delivered \<circ> fst) (world s') = deliver ((sig_pending \<circ> fst) (world ?s)
          \<inter> (handledSignals ?sf - {2, 10} - originallyBlockedSignals ?sf)) ((sig_delivered \<circ> fst) (world ?s))
     \<and> the_signalFD s' = Some (?sf\<lparr>handledSignals := {2, 10}\<rparr>)"
    by (rule setSignals_mask [OF sigfd_system_contracts])
       (auto simp: runner_blank_def sigfd_accepts_def sig_world_defs)
  then show ?thesis
    by (auto simp: runner_blank_def sig_world_defs deliver_def)
qed


text \<open>A world for the example: the time, and the last setting of the timer descriptor.\<close>

definition arm_system :: "(int \<times> int \<times> int) system" where
  "arm_system = idle_system\<lparr>sys_getMonotonicClock := (\<lambda>w. (Ok (fst w), w)),
     sys_timerFDSetTime := (\<lambda>fd v w. (Ok (), (fst w, v)))\<rparr>"


end
