(* ===== verification/WakeUp.thy ===== *)
theory WakeUp
  imports RunnerProps
begin

text \<open>
  Threads: one thread runs \<open>EpollRunner::run\<close>, any number of others call \<open>addCallback\<close>. The mutex of
  \<open>CallbackQueue\<close> makes each \<open>add\<close> (with the \<open>wakeUp()\<close> it may call) and each \<open>pop\<close> one atomic step,
  and the step relation interleaves them in every order. The question is whether the runner can
  sleep in \<open>epoll_wait\<close> while a callback is queued.
\<close>

section \<open>The step relation\<close>

text \<open>
  Where the runner's thread is: not in \<open>run\<close>; in \<open>cbq.execute()\<close> (or in a callback it calls); in the
  \<open>canContinue()\<close> that follows a non-empty execute; in \<open>epoll_wait\<close>; or in the code between the end
  of the wait and the next \<open>execute\<close> (a timer, the listeners, \<open>canContinue()\<close>).
\<close>

datatype place = Outside | Executing bool | Deciding | Waiting | Handling

record 'c threads =
  place :: place
  callbacks :: "'c callback_queue"
  pipe_bytes :: nat

text \<open>\<open>wakes\<close> is the test of \<open>EpollRunner::wakeUp\<close>: some thread is in \<open>run\<close> and it is not the caller.\<close>

definition wakes :: "bool \<Rightarrow> 'c threads \<Rightarrow> bool" where
  "wakes caller_is_runner s \<longleftrightarrow> place s \<noteq> Outside \<and> \<not> caller_is_runner"

definition add_step :: "bool \<Rightarrow> 'c \<Rightarrow> 'c threads \<Rightarrow> 'c threads" where
  "add_step caller_is_runner c s = (case cbq_add (Some c) (callbacks s) of
       (Ok w, q) \<Rightarrow> s\<lparr>callbacks := q,
          pipe_bytes := (if w \<and> wakes caller_is_runner s then pipe_bytes s + 4 else pipe_bytes s)\<rparr>
     | (_, q) \<Rightarrow> s\<lparr>callbacks := q\<rparr>)"

text \<open>
  \<open>lax\<close> says whether the \<open>canContinue\<close> that is called between \<open>execute\<close> and \<open>epoll_wait\<close> may itself
  add callbacks. In \<open>leave\<close> an exception (of a callback, a listener or a system call) leaves
  \<open>runImpl\<close> and \<open>run\<close>.
\<close>

inductive wstep :: "bool \<Rightarrow> 'c threads \<Rightarrow> 'c threads \<Rightarrow> bool" for lax :: bool where
  start: "place s = Outside \<Longrightarrow> wstep lax s (s\<lparr>place := Executing False\<rparr>)"
| execute: "place s = Executing b \<Longrightarrow> cbq_pop (callbacks s) = (Ok (Some c), q) \<Longrightarrow>
    wstep lax s (s\<lparr>place := Executing True, callbacks := q\<rparr>)"
| executed: "place s = Executing b \<Longrightarrow> cbq_pop (callbacks s) = (Ok None, q) \<Longrightarrow>
    wstep lax s (s\<lparr>place := (if b then Deciding else Waiting), callbacks := q\<rparr>)"
| go_on: "place s = Deciding \<Longrightarrow> wstep lax s (s\<lparr>place := Waiting\<rparr>)"
| leave: "place s \<noteq> Outside \<Longrightarrow> wstep lax s (s\<lparr>place := Outside\<rparr>)"
| stop: "place s = Deciding \<or> place s = Handling \<Longrightarrow> wstep lax s (s\<lparr>place := Outside\<rparr>)"
| events: "place s = Waiting \<Longrightarrow> wstep lax s (s\<lparr>place := Handling\<rparr>)"
| drain_pipe: "place s = Handling \<Longrightarrow> wstep lax s (s\<lparr>pipe_bytes := 0\<rparr>)"
| again: "place s = Handling \<Longrightarrow> wstep lax s (s\<lparr>place := Executing False\<rparr>)"
| own_add: "(\<exists>b. place s = Executing b) \<or> place s = Handling \<or> (lax \<and> place s = Deciding) \<Longrightarrow>
    wstep lax s (add_step True c s)"
| other_add: "wstep lax s (add_step False c s)"

inductive_cases wstepE: "wstep lax s s'"

inductive reachable :: "bool \<Rightarrow> 'c threads \<Rightarrow> bool" for lax :: bool where
  init: "reachable lax \<lparr>place = Outside, callbacks = \<lparr>queue = [], wakeUp_set = True\<rparr>, pipe_bytes = 0\<rparr>"
| step: "reachable lax s \<Longrightarrow> wstep lax s s' \<Longrightarrow> reachable lax s'"

section \<open>The invariant\<close>

definition wake_inv :: "'c threads \<Rightarrow> bool" where
  "wake_inv s \<longleftrightarrow> wakeUp_set (callbacks s)
     \<and> (place s = Waiting \<or> place s = Deciding \<longrightarrow> queue (callbacks s) \<noteq> [] \<longrightarrow> 0 < pipe_bytes s)"

lemma add_step_fields:
  "place (add_step r c s) = place s" "wakeUp_set (callbacks (add_step r c s)) = wakeUp_set (callbacks s)"
  "queue (callbacks (add_step r c s)) = queue (callbacks s) @ [c]"
  "pipe_bytes (add_step r c s) = (if queue (callbacks s) = [] \<and> wakeUp_set (callbacks s) \<and> wakes r s
     then pipe_bytes s + 4 else pipe_bytes s)"
  by (simp_all add: add_step_def cbq_add_def Let_def)

lemma cbq_pop_Some: "cbq_pop q = (Ok (Some c), q') \<Longrightarrow> wakeUp_set q' = wakeUp_set q"
  and cbq_pop_None: "cbq_pop q = (Ok None, q') \<Longrightarrow> q' = q \<and> queue q = []"
  by (auto simp: cbq_pop_def split: list.splits)

lemma wake_inv_step:
  assumes "wstep False s s'" and "wake_inv s"
  shows "wake_inv s'"
  using assms
proof (cases rule: wstep.cases)
  case (own_add c)
  then show ?thesis using assms(2) by (auto simp: wake_inv_def add_step_fields)
next
  case (other_add c)
  then show ?thesis using assms(2) by (auto simp: wake_inv_def add_step_fields wakes_def)
qed (auto simp: wake_inv_def dest: cbq_pop_Some cbq_pop_None)

lemma wake_inv_reachable: "reachable False s \<Longrightarrow> wake_inv s"
proof (induction rule: reachable.induct)
  case init
  show ?case by (simp add: wake_inv_def)
next
  case (step s s')
  then show ?case by (blast intro: wake_inv_step)
qed

section \<open>Properties\<close>

text \<open>
  C21: no wake-up is lost. In every interleaving of the runner's thread with threads that add
  callbacks, whenever the runner is in \<open>epoll_wait\<close> and a callback is queued, the event pipe holds
  unread bytes, so the wait ends; this needs that the \<open>canContinue\<close> function adds no callbacks.
\<close>

theorem no_lost_wakeup:
  assumes "reachable False s" and "place s = Waiting" and "queue (callbacks s) \<noteq> []"
  shows "0 < pipe_bytes s"
  using wake_inv_reachable [OF assms(1)] assms(2,3) by (simp add: wake_inv_def)

lemma wait_reached: "reachable lax \<lparr>place = Waiting, callbacks = \<lparr>queue = [], wakeUp_set = True\<rparr>, pipe_bytes = 0\<rparr>"
proof -
  let ?q = "\<lparr>queue = [], wakeUp_set = True\<rparr>"
  have "reachable lax \<lparr>place = Executing False, callbacks = ?q, pipe_bytes = 0\<rparr>"
    using reachable.step [OF reachable.init wstep.start] by simp
  from reachable.step [OF this wstep.executed [of _ False ?q]] show ?thesis by (simp add: cbq_pop_def)
qed

theorem no_lost_wakeup_witness:
  "\<exists>s. reachable False s \<and> queue (callbacks s) = [''c''] \<and> place s = Waiting \<and> 0 < pipe_bytes s"
proof -
  let ?s = "\<lparr>place = Waiting, callbacks = \<lparr>queue = [], wakeUp_set = True\<rparr>, pipe_bytes = 0\<rparr>"
  have r: "reachable False (add_step False ''c'' ?s)"
    by (rule reachable.step [OF wait_reached wstep.other_add])
  have p: "place (add_step False ''c'' ?s) = Waiting" "queue (callbacks (add_step False ''c'' ?s)) = [''c'']"
    by (simp_all add: add_step_fields)
  have "0 < pipe_bytes (add_step False ''c'' ?s)"
    by (rule no_lost_wakeup [OF r]) (simp_all add: p)
  with r p show ?thesis by blast
qed

text \<open>
  the one gap. A \<open>canContinue\<close> function that adds a callback after a non-empty \<open>execute\<close> does so
  in the runner's own thread, for which \<open>wakeUp\<close> writes nothing, and the runner then waits with a
  callback queued and nothing in the pipe.
\<close>

theorem wakeup_lost_by_canContinue:
  "\<exists>s. reachable True s \<and> place s = Waiting \<and> queue (callbacks s) = [c :: 'c] \<and> pipe_bytes s = 0"
proof -
  let ?q = "\<lparr>queue = [] :: 'c list, wakeUp_set = True\<rparr>" and ?qc = "\<lparr>queue = [c], wakeUp_set = True\<rparr>"
  have add: "add_step False c \<lparr>place = Outside, callbacks = ?q, pipe_bytes = 0\<rparr>
      = \<lparr>place = Outside, callbacks = ?qc, pipe_bytes = 0\<rparr>"
    "add_step True c \<lparr>place = Deciding, callbacks = ?q, pipe_bytes = 0\<rparr>
      = \<lparr>place = Deciding, callbacks = ?qc, pipe_bytes = 0\<rparr>"
    by (simp_all add: add_step_def cbq_add_def wakes_def)
  have "reachable True \<lparr>place = Outside, callbacks = ?qc, pipe_bytes = 0\<rparr>"
    using reachable.step [OF reachable.init wstep.other_add [of True _ c]] by (simp add: add)
  from reachable.step [OF this wstep.start]
  have "reachable True \<lparr>place = Executing False, callbacks = ?qc, pipe_bytes = 0\<rparr>" by simp
  from reachable.step [OF this wstep.execute [of _ False c ?q]]
  have "reachable True \<lparr>place = Executing True, callbacks = ?q, pipe_bytes = 0\<rparr>"
    by (simp add: cbq_pop_def)
  from reachable.step [OF this wstep.executed [of _ True ?q]]
  have "reachable True \<lparr>place = Deciding, callbacks = ?q, pipe_bytes = 0\<rparr>" by (simp add: cbq_pop_def)
  from reachable.step [OF this wstep.own_add [of _ True c]]
  have "reachable True \<lparr>place = Deciding, callbacks = ?qc, pipe_bytes = 0\<rparr>" by (simp add: add)
  from reachable.step [OF this wstep.go_on]
  have "reachable True \<lparr>place = Waiting, callbacks = ?qc, pipe_bytes = 0\<rparr>" by simp
  then show ?thesis by (intro exI conjI) auto
qed

end
