(* ===== verification/StreamSocket.thy ===== *)
theory StreamSocket
  imports StreamBufferProps System
begin

text \<open>
  Model of \<open>src/lib/StreamSocket.cpp\<close>. The socket works on a \<open>System\<close> and a runner, both given as
  records of programs over the world; its callbacks are programs over the whole state, so they may
  use the socket (append to its output, take its input, call \<open>startSending\<close>) and change the world.
  Destroying the socket inside one of its callbacks is not modelled.
\<close>

section \<open>State\<close>

record 'w runner_iface =
  ri_addFDListener :: "rawfd \<Rightarrow> event_mask \<Rightarrow> ('w, unit) prog"
  ri_modifyFDListener :: "rawfd \<Rightarrow> event_mask \<Rightarrow> ('w, unit) prog"
  ri_delFDListener :: "rawfd \<Rightarrow> ('w, unit) prog"

record 'w stream_socket =
  ss_fd :: rawfd
  connecting :: bool
  sending :: bool
  ss_input :: stream_buffer
  ss_output :: stream_buffer
  ss_heap :: heap
  ss_world :: 'w

record 'w ss_callbacks =
  connectionEstablishedCb :: "('w stream_socket, unit) prog option"
  connectionClosedCb :: "int \<Rightarrow> ('w stream_socket, unit) prog"
  dataReceivedCb :: "('w stream_socket, unit) prog"
  allDataSentCb :: "('w stream_socket, unit) prog option"

definition ss_do :: "('w, 'a) prog \<Rightarrow> ('w stream_socket, 'a) prog" where
  "ss_do = zoom ss_world (\<lambda>w. ss_world_update (\<lambda>_. w))"

definition on_input :: "(sb_state, 'a) prog \<Rightarrow> ('w stream_socket, 'a) prog" where
  "on_input = zoom (\<lambda>s. (ss_input s, ss_heap s)) (\<lambda>(b, h) s. s\<lparr>ss_input := b, ss_heap := h\<rparr>)"

definition on_output :: "(sb_state, 'a) prog \<Rightarrow> ('w stream_socket, 'a) prog" where
  "on_output = zoom (\<lambda>s. (ss_output s, ss_heap s)) (\<lambda>(b, h) s. s\<lparr>ss_output := b, ss_heap := h\<rparr>)"

text \<open>The conversion of the descriptor to \<open>int\<close>, which throws when it is closed.\<close>

definition with_fd :: "(rawfd \<Rightarrow> ('w stream_socket, 'a) prog) \<Rightarrow> ('w stream_socket, 'a) prog" where
  "with_fd f = (\<lambda>s. if ss_fd s < 0 then (Throw InvalidFD, s) else f (ss_fd s) s)"

definition has_event :: "event_mask \<Rightarrow> event_mask \<Rightarrow> bool" where
  "has_event events e \<longleftrightarrow> and events e \<noteq> 0"

text \<open>What the kernel reads and writes through an IO vector.\<close>

definition iov_bytes :: "heap \<Rightarrow> iovec list \<Rightarrow> byte list" where
  "iov_bytes h v = map (mem h) (iov_addrs v)"

definition scatter :: "iovec list \<Rightarrow> byte list \<Rightarrow> heap \<Rightarrow> heap" where
  "scatter v bs h = h\<lparr>mem := write_at (mem h) (iov_addrs v) bs\<rparr>"

section \<open>Operations\<close>

definition ss_close :: "'w system \<Rightarrow> 'w runner_iface \<Rightarrow> 'w ss_callbacks \<Rightarrow> int \<Rightarrow> ('w stream_socket, unit) prog" where
  "ss_close S R C error = when_st (\<lambda>s. ss_fd s \<ge> 0)
     (seq (with_fd (\<lambda>fd. ss_do (ri_delFDListener R fd)))
       (seq (with_fd (\<lambda>fd. ss_do (sys_close S fd)))
         (seq (modify_st (\<lambda>s. s\<lparr>ss_fd := - 1\<rparr>)) (connectionClosedCb C error))))"

definition checkConnectionEstablished :: "'w runner_iface \<Rightarrow> 'w ss_callbacks \<Rightarrow> event_mask \<Rightarrow> ('w stream_socket, unit) prog" where
  "checkConnectionEstablished R C events = when_st
     (\<lambda>s. connecting s \<and> has_event events (or EVENT_IN EVENT_OUT) \<and> \<not> has_event events (or EVENT_ERR EVENT_HUP))
     (seq (modify_st (\<lambda>s. s\<lparr>connecting := False\<rparr>))
       (seq (case connectionEstablishedCb C of None \<Rightarrow> ret () | Some cb \<Rightarrow> cb)
         (when_st (\<lambda>s. getUsedSize (ss_output s) = 0)
           (with_fd (\<lambda>fd. ss_do (ri_modifyFDListener R fd EVENT_IN))))))"

definition allocateReceiveBuffer :: "('w stream_socket, unit) prog" where
  "allocateReceiveBuffer = when_st (\<lambda>s. getFreeSize (ss_input s) < 1024 * 10) (on_input (sb_allocate (1024 * 20)))"

definition ss_receive :: "'w system \<Rightarrow> 'w runner_iface \<Rightarrow> 'w ss_callbacks \<Rightarrow> ('w stream_socket, unit) prog" where
  "ss_receive S R C = bnd (on_input getFreeIOVec) (\<lambda>v.
     bnd (with_fd (\<lambda>fd. ss_do (sys_recvmsg S fd (length (iov_addrs v)) 0))) (\<lambda>(ssize, bs, _).
       seq (modify_st (\<lambda>s. s\<lparr>ss_heap := scatter v bs (ss_heap s)\<rparr>))
         (if ssize = 0 then ss_close S R C 0
          else if ssize > 0 then seq (on_input (increaseUsed (nat ssize))) (dataReceivedCb C)
          else ret ())))"

text \<open>The handlers of \<open>SystemException\<close> and \<open>std::bad_alloc\<close>.\<close>

definition close_on_error :: "'w system \<Rightarrow> 'w runner_iface \<Rightarrow> 'w ss_callbacks \<Rightarrow> exn \<Rightarrow> ('w stream_socket, unit) prog option" where
  "close_on_error S R C e = (case e of
       SystemException _ err \<Rightarrow> Some (ss_close S R C err)
     | BadAlloc \<Rightarrow> Some (ss_close S R C ENOMEM)
     | _ \<Rightarrow> None)"

definition checkIncomingData :: "'w system \<Rightarrow> 'w runner_iface \<Rightarrow> 'w ss_callbacks \<Rightarrow> event_mask \<Rightarrow> ('w stream_socket, unit) prog" where
  "checkIncomingData S R C events = try_catch
     (if has_event events EVENT_IN then seq allocateReceiveBuffer (ss_receive S R C) else ret ())
     (close_on_error S R C)"

definition ss_send :: "'w system \<Rightarrow> 'w runner_iface \<Rightarrow> 'w ss_callbacks \<Rightarrow> ('w stream_socket, unit) prog" where
  "ss_send S R C = bnd (on_output getUsedIOVec) (\<lambda>v.
     bnd (with_fd (\<lambda>fd s. ss_do (sys_sendmsg S fd (iov_bytes (ss_heap s) v) []) s)) (\<lambda>ssize.
       seq (if ssize > 0 then on_output (cutHead (nat ssize)) else ret ())
         (branch (\<lambda>s. getUsedSize (ss_output s) > 0)
           (seq (with_fd (\<lambda>fd. ss_do (ri_modifyFDListener R fd (or EVENT_IN EVENT_OUT))))
             (modify_st (\<lambda>s. s\<lparr>sending := True\<rparr>)))
           (seq (with_fd (\<lambda>fd. ss_do (ri_modifyFDListener R fd EVENT_IN)))
             (seq (modify_st (\<lambda>s. s\<lparr>sending := False\<rparr>))
               (case allDataSentCb C of None \<Rightarrow> ret () | Some cb \<Rightarrow> cb))))))"

definition trySend :: "'w system \<Rightarrow> 'w runner_iface \<Rightarrow> 'w ss_callbacks \<Rightarrow> ('w stream_socket, unit) prog" where
  "trySend S R C = try_catch (ss_send S R C) (close_on_error S R C)"

definition checkOutgoingData :: "'w system \<Rightarrow> 'w runner_iface \<Rightarrow> 'w ss_callbacks \<Rightarrow> event_mask \<Rightarrow> ('w stream_socket, unit) prog" where
  "checkOutgoingData S R C events = when_st (\<lambda>s. ss_fd s \<ge> 0 \<and> has_event events EVENT_OUT) (trySend S R C)"

definition checkConnectionClosed :: "'w system \<Rightarrow> 'w runner_iface \<Rightarrow> 'w ss_callbacks \<Rightarrow> event_mask \<Rightarrow> ('w stream_socket, unit) prog" where
  "checkConnectionClosed S R C events = when_st (\<lambda>s. ss_fd s \<ge> 0 \<and> has_event events (or EVENT_HUP EVENT_ERR))
     (bnd (if has_event events EVENT_ERR then with_fd (\<lambda>fd. ss_do (sys_getSocketError S fd)) else ret 0)
       (\<lambda>error. ss_close S R C error))"

definition ss_handleEventsCb :: "'w system \<Rightarrow> 'w runner_iface \<Rightarrow> 'w ss_callbacks \<Rightarrow> event_mask \<Rightarrow> ('w stream_socket, unit) prog" where
  "ss_handleEventsCb S R C events = seq (checkConnectionEstablished R C events)
     (seq (checkIncomingData S R C events)
       (seq (checkOutgoingData S R C events) (checkConnectionClosed S R C events)))"

definition startSending :: "'w system \<Rightarrow> 'w runner_iface \<Rightarrow> 'w ss_callbacks \<Rightarrow> ('w stream_socket, unit) prog" where
  "startSending S R C = when_st (\<lambda>s. \<not> sending s \<and> \<not> connecting s \<and> getUsedSize (ss_output s) > 0) (trySend S R C)"

section \<open>Construction and destruction\<close>

text \<open>
  The three constructors; \<open>remote\<close> and \<open>local\<close> are the family and the bytes of the addresses. When a
  constructor throws, the descriptor it holds is closed. The type of the socket is
  \<open>SOCK_STREAM | SOCK_NONBLOCK | SOCK_CLOEXEC\<close>.
\<close>

definition TYPE_STREAM :: int where "TYPE_STREAM = 1 + 2048 + 524288"

definition ss_blank :: "heap \<Rightarrow> 'w \<Rightarrow> 'w stream_socket" where
  "ss_blank h w = \<lparr>ss_fd = - 1, connecting = False, sending = False, ss_input = sb_empty, ss_output = sb_empty,
     ss_heap = h, ss_world = w\<rparr>"

definition ss_connect :: "'w system \<Rightarrow> 'w runner_iface \<Rightarrow> int \<Rightarrow> byte list option \<Rightarrow> int \<times> byte list \<Rightarrow>
    ('w stream_socket, unit) prog" where
  "ss_connect S R protocol local remote = bnd (ss_do (sys_socket S (fst remote) TYPE_STREAM protocol)) (\<lambda>fd.
     seq (modify_st (\<lambda>s. s\<lparr>ss_fd := fd, connecting := True, sending := False\<rparr>))
       (on_unwind (seq (case local of None \<Rightarrow> ret () | Some a \<Rightarrow> ss_do (sys_bind S fd a))
            (seq (ss_do (sys_connect S fd (snd remote)))
              (ss_do (ri_addFDListener R fd (or EVENT_IN EVENT_OUT)))))
         (ss_do (sys_close S fd))))"

text \<open>The third one takes over a connected descriptor: \<open>fd.release()\<close> of the caller's object.\<close>

definition ss_adopt :: "'w system \<Rightarrow> 'w runner_iface \<Rightarrow> rawfd \<Rightarrow> ('w stream_socket, unit) prog" where
  "ss_adopt S R fd = (if fd < 0 then throw InvalidFD
     else seq (modify_st (\<lambda>s. s\<lparr>ss_fd := fd, connecting := False, sending := False\<rparr>))
       (on_unwind (seq (ss_do (sys_setCloseOnExec S fd))
            (seq (ss_do (sys_setNonBlock S fd)) (ss_do (ri_addFDListener R fd EVENT_IN))))
         (ss_do (sys_close S fd))))"

definition ss_destroy :: "'w system \<Rightarrow> 'w runner_iface \<Rightarrow> ('w stream_socket, unit) prog" where
  "ss_destroy S R = noexcept (when_st (\<lambda>s. ss_fd s \<ge> 0)
     (with_fd (\<lambda>fd. seq (ss_do (ri_delFDListener R fd)) (ss_do (sys_close S fd)))))"

definition ss_getName :: "'w system \<Rightarrow> ('w stream_socket, byte list) prog" where
  "ss_getName S = with_fd (\<lambda>fd. ss_do (sys_getSockName S fd))"

definition ss_getPeer :: "'w system \<Rightarrow> ('w stream_socket, byte list) prog" where
  "ss_getPeer S = with_fd (\<lambda>fd. ss_do (sys_getPeerName S fd))"

section \<open>Well-formed sockets\<close>

text \<open>
  Both buffers satisfy their invariant. They may share arrays (an echo server appends spliced input
  to its ss_output), but the free space of one is not used by the other.
\<close>

definition ss_buffers_ok :: "'w stream_socket \<Rightarrow> bool" where
  "ss_buffers_ok s \<longleftrightarrow> sb_inv (ss_heap s) (ss_input s) \<and> sb_inv (ss_heap s) (ss_output s)
     \<and> set (free_addrs (ss_input s)) \<inter> set (used_addrs (ss_output s)) = {}"

definition ss_in :: "'w stream_socket \<Rightarrow> byte list" where
  "ss_in s = content (ss_heap s) (ss_input s)"

definition ss_out :: "'w stream_socket \<Rightarrow> byte list" where
  "ss_out s = content (ss_heap s) (ss_output s)"

lemma ss_do_run: "ss_do m s = (case m (ss_world s) of (r, w) \<Rightarrow> (r, s\<lparr>ss_world := w\<rparr>))"
  by (simp add: ss_do_def zoom_run)

lemma with_fd_run: "0 \<le> ss_fd s \<Longrightarrow> with_fd f s = f (ss_fd s) s"
  by (simp add: with_fd_def)

lemma has_event_masks [simp]:
  "has_event EVENT_IN EVENT_IN" "\<not> has_event EVENT_IN EVENT_OUT" "\<not> has_event EVENT_OUT EVENT_IN"
  "has_event EVENT_OUT EVENT_OUT" "\<not> has_event EVENT_IN (or EVENT_HUP EVENT_ERR)"
  "\<not> has_event EVENT_IN (or EVENT_ERR EVENT_HUP)"
  by (simp_all add: has_event_def event_masks)

section \<open>Sending and receiving\<close>

text \<open>What \<open>ss_send\<close> does when the kernel accepts \<open>n\<close> of the bytes.\<close>

definition ss_after_send :: "'w runner_iface \<Rightarrow> 'w ss_callbacks \<Rightarrow> rawfd \<Rightarrow> bool \<Rightarrow> ('w stream_socket, unit) prog" where
  "ss_after_send R C fd left = (if left
     then seq (ss_do (ri_modifyFDListener R fd (or EVENT_IN EVENT_OUT))) (modify_st (\<lambda>s. s\<lparr>sending := True\<rparr>))
     else seq (ss_do (ri_modifyFDListener R fd EVENT_IN)) (seq (modify_st (\<lambda>s. s\<lparr>sending := False\<rparr>))
       (case allDataSentCb C of None \<Rightarrow> ret () | Some cb \<Rightarrow> cb)))"

text \<open>\<open>out_is s b bs\<close>: \<open>b\<close> can take the place of the output of \<open>s\<close> and holds \<open>bs\<close>.\<close>

definition out_is :: "'w stream_socket \<Rightarrow> stream_buffer \<Rightarrow> byte list \<Rightarrow> bool" where
  "out_is s b bs \<longleftrightarrow> sb_inv (ss_heap s) b \<and> content (ss_heap s) b = bs \<and> totalSize b \<le> totalSize (ss_output s)
     \<and> free_addrs b = free_addrs (ss_output s)
     \<and> set (used_addrs b) \<subseteq> set (used_addrs (ss_output s))"

lemma ss_send_cases:
  assumes inv: "sb_inv (ss_heap s) (ss_output s)" and fd: "0 \<le> ss_fd s"
    and bound: "\<And>bs n w. sys_sendmsg S (ss_fd s) bs [] (ss_world s) = (Ok n, w) \<Longrightarrow> n \<le> int (length bs)"
  obtains (failed) m b r w where
      "sys_sendmsg S (ss_fd s) (take m (ss_out s)) [] (ss_world s) = (r, w)"
      "\<forall>n. r \<noteq> Ok n" "out_is s b (ss_out s)"
      "ss_send S R C s = (fail_as r, s\<lparr>ss_output := b, ss_world := w\<rparr>)"
      "length (buffers (ss_output s)) \<le> iov_max \<longrightarrow> take m (ss_out s) = ss_out s"
  | (accepted) m b n w where
      "sys_sendmsg S (ss_fd s) (take m (ss_out s)) [] (ss_world s) = (Ok n, w)"
      "nat n \<le> length (take m (ss_out s))" "out_is s b (drop (nat n) (ss_out s))"
      "ss_send S R C s = ss_after_send R C (ss_fd s) (nat n < length (ss_out s)) (s\<lparr>ss_output := b, ss_world := w\<rparr>)"
      "length (buffers (ss_output s)) \<le> iov_max \<longrightarrow> take m (ss_out s) = ss_out s"
proof -
  let ?h = "ss_heap s"
  obtain v m b1 where v: "getUsedIOVec (ss_output s, ?h) = (Ok v, (b1, ?h))"
    "iov_addrs v = take m (used_addrs (ss_output s))" "length (buffers (ss_output s)) \<le> iov_max \<Longrightarrow> m = usedSize (ss_output s)"
    "buffers b1 = buffers (ss_output s)" "usedSize b1 = usedSize (ss_output s)" "totalSize b1 = totalSize (ss_output s)"
    by (cases rule: getUsedIOVec_cases [OF inv]) blast
  have inv1: "sb_inv ?h b1" by (rule sb_inv_other_fields [OF inv v(4-6)])
  have ua: "used_addrs b1 = used_addrs (ss_output s)" by (simp add: used_addrs_def v)
  have fa: "free_addrs b1 = free_addrs (ss_output s)" by (simp add: free_addrs_def v)
  have len: "length (used_addrs (ss_output s)) = usedSize (ss_output s)"
    using inv by (simp add: length_used_addrs sb_inv_def)
  have bytes: "iov_bytes ?h v = take m (ss_out s)"
    using v(2) by (simp add: iov_bytes_def ss_out_def content_def take_map)
  have lo: "length (ss_out s) = usedSize (ss_output s)" using len by (simp add: ss_out_def content_def)
  have whole: "length (buffers (ss_output s)) \<le> iov_max \<longrightarrow> take m (ss_out s) = ss_out s"
    using v(3) lo by simp
  have first: "on_output getUsedIOVec s = (Ok v, s\<lparr>ss_output := b1\<rparr>)"
    using v(1) by (simp add: on_output_def zoom_run)
  have c1: "content ?h b1 = ss_out s" using ua by (simp add: ss_out_def content_def)
  obtain r w where send: "sys_sendmsg S (ss_fd s) (take m (ss_out s)) [] (ss_world s) = (r, w)"
    by (metis surj_pair)
  show ?thesis
  proof (cases "\<exists>n. r = Ok n")
    case False
    have "ss_send S R C s = (fail_as r, s\<lparr>ss_output := b1, ss_world := w\<rparr>)"
      unfolding ss_send_def bnd_Ok [where m = "on_output getUsedIOVec", OF first]
      using fd send bytes False
      by (cases r) (auto simp: bnd_run with_fd_def ss_do_run)
    then show ?thesis using failed [OF send _ _ _ whole, of b1] False inv1 ua fa v(6) c1
      by (simp add: out_is_def)
  next
    case True
    then obtain n where r: "r = Ok n" by blast
    have n: "nat n \<le> length (take m (ss_out s))" using bound send r by fastforce
    let ?s1 = "s\<lparr>ss_output := b1, ss_world := w\<rparr>"
    have "nat n \<le> totalSize b1" using n lo inv1 v(5) by (auto simp: sb_inv_def sb_sizes_def)
    from cutHead_spec [OF inv1 this] obtain b2 where b2: "cutHead (nat n) (b1, ?h) = (Ok (), (b2, ?h))"
      "sb_inv ?h b2" "used_addrs b2 = drop (nat n) (used_addrs b1)"
      "free_addrs b2 = drop (nat n - StreamBuffer.usedSize b1) (free_addrs b1)"
      "content ?h b2 = drop (nat n) (content ?h b1)" "usedSize b2 = usedSize b1 - nat n"
      by metis
    have "totalSize b1 + sb_cost (OpCut (nat n)) < size_t_max" "snd (sb_step (OpCut (nat n)) (b1, ?h)) = (b2, ?h)"
      using inv1 b2(1) by (simp_all add: sb_inv_def sb_sizes_def)
    from sb_step_inv [OF inv1 this] have tot: "totalSize b2 \<le> totalSize b1" by simp
    let ?b = "if n > 0 then b2 else b1"
    have cut: "(if n > 0 then on_output (cutHead (nat n)) else ret ()) ?s1 = (Ok (), s\<lparr>ss_output := ?b, ss_world := w\<rparr>)"
      using b2(1) by (simp add: on_output_def zoom_run)
    have left: "getUsedSize ?b > 0 \<longleftrightarrow> nat n < length (ss_out s)"
      using b2(6) v(5) lo by (auto simp: getUsedSize_def)
    have run: "ss_send S R C s = ss_after_send R C (ss_fd s) (nat n < length (ss_out s)) (s\<lparr>ss_output := ?b, ss_world := w\<rparr>)"
      unfolding ss_send_def bnd_Ok [where m = "on_output getUsedIOVec", OF first]
      using fd send r bytes cut left
      by (auto simp: bnd_run with_fd_def ss_do_run seq_run branch_run ss_after_send_def)
    have "out_is s ?b (drop (nat n) (ss_out s))"
      using b2(2-5) inv1 ua fa v(5,6) c1 tot n lo by (auto simp: out_is_def dest: in_set_dropD)
    from accepted [OF send [unfolded r] n this run whole] show ?thesis .
  qed
qed

text \<open>What \<open>ss_receive\<close> does with the bytes the kernel delivers.\<close>

lemma ss_receive_delivered:
  assumes ok: "ss_buffers_ok s" and fd: "0 \<le> ss_fd s"
    and few: "length (buffers (ss_input s)) \<le> iov_max"
    and recv: "sys_recvmsg S (ss_fd s) (getFreeSize (ss_input s)) 0 (ss_world s) = (Ok (int (length bs), bs, c), w)"
    and n: "length bs \<le> getFreeSize (ss_input s)" "bs \<noteq> []"
  obtains s1 where "ss_receive S R C s = dataReceivedCb C s1" "ss_buffers_ok s1" "ss_in s1 = ss_in s @ bs"
    "ss_out s1 = ss_out s" "ss_world s1 = w" "ss_fd s1 = ss_fd s" "connecting s1 = connecting s"
    "sending s1 = sending s"
proof -
  let ?h = "ss_heap s" and ?b = "ss_input s"
  have inv: "sb_inv ?h ?b" using ok by (simp add: ss_buffers_ok_def)
  obtain v m b1 where v: "getFreeIOVec (?b, ?h) = (Ok v, (b1, ?h))"
    "length (buffers ?b) \<le> iov_max \<Longrightarrow> iov_addrs v = free_addrs ?b"
    "buffers b1 = buffers ?b" "usedSize b1 = usedSize ?b" "totalSize b1 = totalSize ?b"
    by (cases rule: getFreeIOVec_cases [OF inv]) blast
  have ia: "iov_addrs v = free_addrs ?b" using v(2) few .
  have free: "getFreeSize ?b = length (free_addrs ?b)" using inv by (simp add: sb_sizes_free sb_inv_def)
  let ?as = "take (length bs) (free_addrs ?b)"
  have wr: "write_at m (free_addrs ?b) bs = write_at m ?as bs" for m
    using n(1) free write_at_append [of ?as bs m "drop (length bs) (free_addrs ?b)" "[]"] by simp
  let ?h' = "?h\<lparr>mem := write_at (mem ?h) ?as bs\<rparr>"
  have sc: "scatter v bs ?h = ?h'" by (simp add: scatter_def ia wr)
  have fa: "free_addrs b1 = free_addrs ?b" "used_addrs b1 = used_addrs ?b"
    by (simp_all add: free_addrs_def used_addrs_def v)
  have inv1: "sb_inv ?h' b1"
    using sb_inv_other_fields [OF inv v(3-5)] by (simp add: sb_inv_def buf_valid_def)
  have len: "length bs \<le> length (free_addrs b1)" using n(1) free fa by simp
  let ?b2 = "b1\<lparr>usedSize := usedSize b1 + length bs\<rparr>"
  note inc = increaseUsed_ok [OF inv1 len]
  let ?s1 = "s\<lparr>ss_world := w, ss_input := ?b2, ss_heap := ?h'\<rparr>"
  have first: "on_input getFreeIOVec s = (Ok v, s\<lparr>ss_input := b1\<rparr>)"
    using v(1) by (simp add: on_input_def zoom_run)
  have "ss_receive S R C s = dataReceivedCb C ?s1"
    unfolding ss_receive_def bnd_Ok [where m = "on_input getFreeIOVec", OF first]
    using fd recv n(2) ia free sc inc(1)
    by (simp add: bnd_run with_fd_def ss_do_run seq_run on_input_def zoom_run)
  moreover have sep: "set (used_addrs ?b) \<inter> set ?as = {}" "distinct ?as" "length ?as = length bs"
    "set (used_addrs (ss_output s)) \<inter> set ?as = {}"
    using inv ok set_take_subset [of "length bs" "free_addrs ?b"] n(1) free
    by (auto simp: sb_inv_def ss_buffers_ok_def)
  have "ss_in ?s1 = ss_in s @ bs"
    unfolding ss_in_def content_def using inc(2) fa
    by (simp add: write_at_disjoint [OF sep(1)] write_at_same [OF sep(2,3)])
  moreover have "ss_out ?s1 = ss_out s"
    unfolding ss_out_def content_def by (simp add: write_at_disjoint [OF sep(4)])
  moreover have "set (free_addrs ?b2) \<subseteq> set (free_addrs ?b)"
    using inc(3) fa by (auto dest: in_set_dropD)
  then have "ss_buffers_ok ?s1"
    using inc(4) ok by (auto simp: ss_buffers_ok_def sb_inv_def buf_valid_def)
  ultimately show ?thesis by (intro that [of ?s1]) simp_all
qed

end
