(* ===== verification/StreamSocketProps.thy ===== *)
theory StreamSocketProps
  imports StreamSocket StreamBufferThms
begin

text \<open>
  What a \<open>StreamSocket\<close> promises: the bytes the application appends to the output reach the wire in
  order, whatever the kernel accepts and however calls fail; received bytes are appended to the
  input; a failing call closes the socket once. The callbacks are arbitrary programs except where
  a property says what they leave alone.
\<close>

section \<open>The environment of a sender\<close>

text \<open>
  \<open>wire\<close> reads the bytes the kernel has accepted from the state of the world. \<open>quiet\<close> callbacks
  leave the descriptor, the output and the wire alone.
\<close>

definition quiet :: "('w \<Rightarrow> byte list) \<Rightarrow> ('w stream_socket, unit) prog \<Rightarrow> bool" where
  "quiet wire p \<longleftrightarrow> (\<forall>s. ss_fd (snd (p s)) = ss_fd s \<and> ss_output (snd (p s)) = ss_output s
     \<and> ss_heap (snd (p s)) = ss_heap s \<and> wire (ss_world (snd (p s))) = wire (ss_world s))"

definition sendmsg_contract :: "('w \<Rightarrow> byte list) \<Rightarrow> 'w system \<Rightarrow> bool" where
  "sendmsg_contract wire S \<longleftrightarrow> (\<forall>fd bs w r w'. sys_sendmsg S fd bs [] w = (r, w') \<longrightarrow> (case r of
       Ok n \<Rightarrow> n \<le> int (length bs) \<and> wire w' = wire w @ take (nat n) bs
     | _ \<Rightarrow> wire w' = wire w))"

definition tx_env :: "('w \<Rightarrow> byte list) \<Rightarrow> 'w system \<Rightarrow> 'w runner_iface \<Rightarrow> 'w ss_callbacks \<Rightarrow> bool" where
  "tx_env wire S R C \<longleftrightarrow> sendmsg_contract wire S
     \<and> (\<forall>fd ev w. wire (snd (ri_modifyFDListener R fd ev w)) = wire w)
     \<and> (\<forall>fd w. wire (snd (ri_delFDListener R fd w)) = wire w)
     \<and> (\<forall>fd w. wire (snd (sys_close S fd w)) = wire w)
     \<and> (\<forall>e. quiet wire (connectionClosedCb C e))
     \<and> (\<forall>cb. connectionEstablishedCb C = Some cb \<longrightarrow> quiet wire cb)
     \<and> (\<forall>cb. allDataSentCb C = Some cb \<longrightarrow> quiet wire cb)"

text \<open>\<open>keeps wire p\<close>: \<open>p\<close> may move bytes from the output to the wire, in order, and nothing else.\<close>

definition kept :: "('w \<Rightarrow> byte list) \<Rightarrow> 'w stream_socket \<Rightarrow> 'w stream_socket \<Rightarrow> bool" where
  "kept wire s s' \<longleftrightarrow> sb_inv (ss_heap s') (ss_output s') \<and> totalSize (ss_output s') \<le> totalSize (ss_output s)
     \<and> wire (ss_world s') @ ss_out s' = wire (ss_world s) @ ss_out s"

definition keeps :: "('w \<Rightarrow> byte list) \<Rightarrow> ('w stream_socket, 'a) prog \<Rightarrow> bool" where
  "keeps wire p \<longleftrightarrow> (\<forall>s. sb_inv (ss_heap s) (ss_output s) \<longrightarrow> kept wire s (snd (p s)))"

named_theorems keeps_intros \<open>rules for \<open>keeps\<close>\<close>

lemma kept_refl: "sb_inv (ss_heap s) (ss_output s) \<Longrightarrow> kept wire s s"
  by (simp add: kept_def)

lemma kept_trans: "kept wire s t \<Longrightarrow> kept wire t u \<Longrightarrow> kept wire s u"
  by (simp add: kept_def)

lemma kept_inv: "kept wire s t \<Longrightarrow> sb_inv (ss_heap t) (ss_output t)"
  by (simp add: kept_def)

lemma keeps_ret [keeps_intros]: "keeps wire (ret x)"
  by (simp add: keeps_def kept_refl)

lemma keeps_bnd [keeps_intros]:
  fixes m :: "('w stream_socket, 'a) prog"
  assumes "keeps wire m" and "\<And>x. keeps wire (f x)"
  shows "keeps wire (bnd m f)"
  unfolding keeps_def
proof (intro allI impI)
  fix s :: "'w stream_socket" assume inv: "sb_inv (ss_heap s) (ss_output s)"
  obtain r t where m: "m s = (r, t)" by (cases "m s")
  have st: "kept wire s t" using assms(1) inv m by (metis keeps_def snd_conv)
  then show "kept wire s (snd (bnd m f s))"
    using assms(2) kept_inv [OF st] kept_trans [OF st] m
    by (cases r) (auto simp: bnd_run keeps_def)
qed

lemma keeps_seq [keeps_intros]: "keeps wire m \<Longrightarrow> keeps wire k \<Longrightarrow> keeps wire (seq m k)"
  by (simp add: seq_def keeps_bnd)

lemma keeps_when [keeps_intros]: "keeps wire m \<Longrightarrow> keeps wire (when_st b m)"
  by (simp add: keeps_def when_run kept_refl)

lemma keeps_branch [keeps_intros]: "keeps wire m \<Longrightarrow> keeps wire k \<Longrightarrow> keeps wire (branch b m k)"
  by (simp add: keeps_def branch_run)

lemma keeps_with_fd [keeps_intros]: "(\<And>fd. keeps wire (f fd)) \<Longrightarrow> keeps wire (with_fd f)"
  by (simp add: keeps_def with_fd_def kept_refl)

lemma keeps_if [keeps_intros]: "keeps wire m \<Longrightarrow> keeps wire k \<Longrightarrow> keeps wire (if b then m else k)"
  by simp

lemma keeps_ss_do [keeps_intros]: "(\<And>w. wire (snd (m w)) = wire w) \<Longrightarrow> keeps wire (ss_do m)"
  by (auto simp: keeps_def kept_def ss_do_run ss_out_def split: prod.split) (metis snd_conv)

lemma keeps_try [keeps_intros]:
  fixes m :: "('w stream_socket, 'a) prog"
  assumes "keeps wire m" and "\<And>e k. h e = Some k \<Longrightarrow> keeps wire k"
  shows "keeps wire (try_catch m h)"
  unfolding keeps_def
proof (intro allI impI)
  fix s :: "'w stream_socket" assume inv: "sb_inv (ss_heap s) (ss_output s)"
  obtain r t where m: "m s = (r, t)" by (cases "m s")
  have st: "kept wire s t" using assms(1) inv m by (metis keeps_def snd_conv)
  show "kept wire s (snd (try_catch m h s))"
  proof (cases "\<exists>e k. r = Throw e \<and> h e = Some k")
    case True
    then obtain e k where "r = Throw e" "h e = Some k" by blast
    then show ?thesis using m assms(2) kept_inv [OF st] kept_trans [OF st]
      by (simp add: try_catch_run keeps_def)
  next
    case False
    then show ?thesis using m st by (auto simp: try_catch_run split: outcome.splits option.splits)
  qed
qed

lemma keeps_quiet: "quiet wire p \<Longrightarrow> keeps wire p"
  by (simp add: keeps_def quiet_def kept_def ss_out_def)

lemma keeps_fields [keeps_intros]:
  "keeps wire (modify_st (\<lambda>s. s\<lparr>sending := b\<rparr>))" "keeps wire (modify_st (\<lambda>s. s\<lparr>connecting := b\<rparr>))"
  "keeps wire (modify_st (\<lambda>s. s\<lparr>ss_fd := fd\<rparr>))"
  by (simp_all add: keeps_def kept_def ss_out_def)

lemma keeps_opt [keeps_intros]:
  "(\<And>cb. c = Some cb \<Longrightarrow> keeps wire cb) \<Longrightarrow> keeps wire (case c of None \<Rightarrow> ret () | Some cb \<Rightarrow> cb)"
  by (cases c) (simp_all add: keeps_ret)

section \<open>The operations of a sender\<close>

lemma keeps_close:
  assumes "tx_env wire S R C" shows "keeps wire (ss_close S R C e)"
  unfolding ss_close_def
  by (intro keeps_intros) (use assms in \<open>auto simp: tx_env_def intro: keeps_quiet\<close>)

lemma keeps_handler: "tx_env wire S R C \<Longrightarrow> close_on_error S R C e = Some k \<Longrightarrow> keeps wire k"
  by (auto simp: close_on_error_def intro: keeps_close split: exn.splits)

lemma keeps_after_send:
  assumes "tx_env wire S R C" shows "keeps wire (ss_after_send R C fd left)"
  unfolding ss_after_send_def
  by (intro keeps_intros) (use assms in \<open>auto simp: tx_env_def intro: keeps_quiet\<close>)

lemma keeps_send:
  fixes S :: "'w system"
  assumes env: "tx_env wire S R C" shows "keeps wire (ss_send S R C)"
  unfolding keeps_def
proof (intro allI impI)
  fix s :: "'w stream_socket" assume inv: "sb_inv (ss_heap s) (ss_output s)"
  have con: "case r of Ok n \<Rightarrow> n \<le> int (length bs) \<and> wire w' = wire w @ take (nat n) bs | _ \<Rightarrow> wire w' = wire w"
    if "sys_sendmsg S fd bs [] w = (r, w')" for fd bs w r w'
    using env that by (auto simp: tx_env_def sendmsg_contract_def)
  show "kept wire s (snd (ss_send S R C s))"
  proof (cases "ss_fd s < 0")
    case True
    obtain v b where v: "getUsedIOVec (ss_output s, ss_heap s) = (Ok v, (b, ss_heap s))"
      "buffers b = buffers (ss_output s)" "usedSize b = usedSize (ss_output s)" "totalSize b = totalSize (ss_output s)"
      by (cases rule: getUsedIOVec_cases [OF inv]) blast
    have "snd (ss_send S R C s) = s\<lparr>ss_output := b\<rparr>"
      using True v(1) by (simp add: ss_send_def bnd_run on_output_def zoom_run with_fd_def)
    moreover have "sb_inv (ss_heap s) b" by (rule sb_inv_other_fields [OF inv v(2-4)])
    ultimately show ?thesis using v by (simp add: kept_def ss_out_def content_def used_addrs_def)
  next
    case False
    then have fd: "0 \<le> ss_fd s" by simp
    have bound: "n \<le> int (length bs)" if "sys_sendmsg S (ss_fd s) bs [] (ss_world s) = (Ok n, w)" for bs n w
      using con [OF that] by simp
    show ?thesis
    proof (cases rule: ss_send_cases [where S = S and R = R and C = C, OF inv fd bound])
      case A: (2 m b r w)
      then have "wire w = wire (ss_world s)" using con [OF A(1)] A(2) by (cases r) auto
      then show ?thesis using A by (simp add: kept_def ss_out_def out_is_def)
    next
      case A: (3 m b n w)
      have wire: "wire w = wire (ss_world s) @ take (nat n) (ss_out s)"
        using con [OF A(1)] A(2) by (simp add: min_def split: if_splits)
      let ?t = "s\<lparr>ss_output := b, ss_world := w\<rparr>"
      have st: "kept wire s ?t" using A(3) wire by (simp add: kept_def ss_out_def out_is_def)
      have "kept wire ?t (snd (ss_after_send R C (ss_fd s) (nat n < length (ss_out s)) ?t))"
        using keeps_after_send [OF env] kept_inv [OF st] unfolding keeps_def by blast
      with A(4) show ?thesis using kept_trans [OF st] by simp
    qed simp
  qed
qed

lemma keeps_trySend: "tx_env wire S R C \<Longrightarrow> keeps wire (trySend S R C)"
  unfolding trySend_def by (rule keeps_try) (auto intro: keeps_send keeps_handler)

lemma keeps_startSending: "tx_env wire S R C \<Longrightarrow> keeps wire (startSending S R C)"
  unfolding startSending_def by (intro keeps_when keeps_trySend)

lemma keeps_writable:
  assumes env: "tx_env wire S R C" shows "keeps wire (ss_handleEventsCb S R C EVENT_OUT)"
proof -
  have "keeps wire (checkConnectionEstablished R C EVENT_OUT)"
    unfolding checkConnectionEstablished_def
    by (intro keeps_intros) (use env in \<open>auto simp: tx_env_def intro: keeps_quiet\<close>)
  moreover have "keeps wire (checkIncomingData S R C EVENT_OUT)"
    by (simp add: checkIncomingData_def keeps_def try_catch_run kept_refl)
  moreover have "keeps wire (checkOutgoingData S R C EVENT_OUT)"
    unfolding checkOutgoingData_def using env by (intro keeps_when keeps_trySend)
  moreover have "keeps wire (checkConnectionClosed S R C EVENT_OUT)"
    by (simp add: checkConnectionClosed_def keeps_def when_run has_event_def event_masks kept_refl)
  ultimately show ?thesis unfolding ss_handleEventsCb_def by (intro keeps_seq)
qed

section \<open>Histories of a sender\<close>

datatype tx_op = TxAppend "byte list" | TxStart | TxWritable

fun tx_step :: "'w system \<Rightarrow> 'w runner_iface \<Rightarrow> 'w ss_callbacks \<Rightarrow> tx_op \<Rightarrow> ('w stream_socket, unit) prog" where
  "tx_step S R C (TxAppend xs) = on_output (appendData xs)"
| "tx_step S R C TxStart = startSending S R C"
| "tx_step S R C TxWritable = ss_handleEventsCb S R C EVENT_OUT"

fun tx_run :: "'w system \<Rightarrow> 'w runner_iface \<Rightarrow> 'w ss_callbacks \<Rightarrow> tx_op list \<Rightarrow> 'w stream_socket \<Rightarrow> 'w stream_socket" where
  "tx_run S R C [] s = s"
| "tx_run S R C (x # xs) s = tx_run S R C xs (snd (tx_step S R C x s))"

text \<open>The bytes whose append did not fail.\<close>

fun tx_accepted :: "'w system \<Rightarrow> 'w runner_iface \<Rightarrow> 'w ss_callbacks \<Rightarrow> tx_op list \<Rightarrow> 'w stream_socket \<Rightarrow> byte list" where
  "tx_accepted S R C [] s = []"
| "tx_accepted S R C (x # xs) s = (case x of
       TxAppend bs \<Rightarrow> if fst (tx_step S R C x s) = Ok () then bs else []
     | _ \<Rightarrow> []) @ tx_accepted S R C xs (snd (tx_step S R C x s))"

fun tx_cost :: "tx_op \<Rightarrow> nat" where
  "tx_cost (TxAppend xs) = length xs + 8"
| "tx_cost _ = 0"

lemma tx_append:
  assumes inv: "sb_inv (ss_heap s) (ss_output s)" and xs: "xs \<noteq> []"
    and room: "totalSize (ss_output s) + length xs + 8 < size_t_max"
    and run: "on_output (appendData xs) s = (r, s')"
  shows "sb_inv (ss_heap s') (ss_output s') \<and> totalSize (ss_output s') \<le> totalSize (ss_output s) + length xs + 8
    \<and> ss_out s' = ss_out s @ (if r = Ok () then xs else []) \<and> ss_world s' = ss_world s"
proof -
  obtain b h where a: "appendData xs (ss_output s, ss_heap s) = (r, (b, h))"
    and s': "s' = s\<lparr>ss_output := b, ss_heap := h\<rparr>"
    using run by (auto simp: on_output_def zoom_run split: prod.splits)
  have "snd (sb_step (OpAppend xs) (ss_output s, ss_heap s)) = (b, h)" using a by simp
  from sb_step_inv [OF inv _ this] room have "sb_inv h b \<and> totalSize b \<le> totalSize (ss_output s) + length xs + 8"
    by simp
  moreover have "r = Ok () \<and> content h b = ss_out s @ xs \<or> r = Throw BadAlloc \<and> (b, h) = (ss_output s, ss_heap s)"
    using sbi.append_spec [of "(ss_output s, ss_heap s)" xs r "(b, h)"] inv xs room a
    by (auto simp: sb_fits_def ss_out_def)
  ultimately show ?thesis using s' by (auto simp: ss_out_def)
qed

lemma tx_run_kept:
  fixes s :: "'w stream_socket"
  assumes "tx_env wire S R C" and "sb_inv (ss_heap s) (ss_output s)" and "TxAppend [] \<notin> set ops"
    and "totalSize (ss_output s) + sum_list (map tx_cost ops) < size_t_max"
  shows "wire (ss_world (tx_run S R C ops s)) @ ss_out (tx_run S R C ops s)
    = wire (ss_world s) @ ss_out s @ tx_accepted S R C ops s"
  using assms(2-)
proof (induction ops arbitrary: s)
  case (Cons x ops)
  let ?s1 = "snd (tx_step S R C x s)"
  have one: "sb_inv (ss_heap ?s1) (ss_output ?s1)" "totalSize (ss_output ?s1) \<le> totalSize (ss_output s) + tx_cost x"
    "wire (ss_world ?s1) @ ss_out ?s1 = wire (ss_world s) @ ss_out s @ (case x of
       TxAppend bs \<Rightarrow> if fst (tx_step S R C x s) = Ok () then bs else [] | _ \<Rightarrow> [])"
  proof -
    have "sb_inv (ss_heap ?s1) (ss_output ?s1) \<and> totalSize (ss_output ?s1) \<le> totalSize (ss_output s) + tx_cost x
      \<and> wire (ss_world ?s1) @ ss_out ?s1 = wire (ss_world s) @ ss_out s @ (case x of
         TxAppend bs \<Rightarrow> if fst (tx_step S R C x s) = Ok () then bs else [] | _ \<Rightarrow> [])"
    proof (cases x)
      case (TxAppend xs)
      obtain r t where run: "on_output (appendData xs) s = (r, t)" by (metis surj_pair)
      have "xs \<noteq> []" using Cons.prems(2) TxAppend by auto
      from tx_append [OF Cons.prems(1) this _ run] show ?thesis
        using Cons.prems(3) TxAppend run by simp
    next
      case TxStart
      from keeps_startSending [OF assms(1)] Cons.prems(1) have "kept wire s (snd (startSending S R C s))"
        by (simp add: keeps_def)
      then show ?thesis using TxStart by (simp add: kept_def)
    next
      case TxWritable
      from keeps_writable [OF assms(1)] Cons.prems(1) have "kept wire s (snd (ss_handleEventsCb S R C EVENT_OUT s))"
        by (simp add: keeps_def)
      then show ?thesis using TxWritable by (simp add: kept_def)
    qed
    then show "sb_inv (ss_heap ?s1) (ss_output ?s1)" "totalSize (ss_output ?s1) \<le> totalSize (ss_output s) + tx_cost x"
      "wire (ss_world ?s1) @ ss_out ?s1 = wire (ss_world s) @ ss_out s @ (case x of
         TxAppend bs \<Rightarrow> if fst (tx_step S R C x s) = Ok () then bs else [] | _ \<Rightarrow> [])"
      by blast+
  qed
  have "wire (ss_world (tx_run S R C ops ?s1)) @ ss_out (tx_run S R C ops ?s1)
      = wire (ss_world ?s1) @ ss_out ?s1 @ tx_accepted S R C ops ?s1"
    by (rule Cons.IH) (use Cons.prems one in auto)
  with one(3) show ?case by simp
qed simp

section \<open>Receiving\<close>

lemma allocateReceiveBuffer_cases:
  assumes ok: "ss_buffers_ok s" and room: "totalSize (ss_input s) + 20488 \<le> size_t_max"
  obtains (ok) b h where "allocateReceiveBuffer s = (Ok (), s\<lparr>ss_input := b, ss_heap := h\<rparr>)"
      "ss_buffers_ok (s\<lparr>ss_input := b, ss_heap := h\<rparr>)" "10240 \<le> getFreeSize b" "content h b = ss_in s"
      "content h (ss_output s) = ss_out s" "length (buffers b) \<le> Suc (length (buffers (ss_input s)))"
      "totalSize b \<le> totalSize (ss_input s) + 20487"
  | (fail) "allocateReceiveBuffer s = (Throw BadAlloc, s)"
proof (cases "getFreeSize (ss_input s) < 10240")
  case False
  then show ?thesis using ok [where b = "ss_input s" and h = "ss_heap s"] assms
    by (simp add: allocateReceiveBuffer_def when_run ss_in_def ss_out_def)
next
  case True
  let ?b = "ss_input s" and ?h = "ss_heap s"
  have inv: "sb_inv ?h ?b" "sb_inv ?h (ss_output s)" using assms(1) by (simp_all add: ss_buffers_ok_def)
  have run: "allocateReceiveBuffer s = on_input (sb_allocate 20480) s"
    using True by (simp add: allocateReceiveBuffer_def when_run)
  have room': "totalSize ?b + 20480 + 8 \<le> size_t_max" using room by simp
  show ?thesis
  proof (cases rule: sb_allocate_cases [OF inv(1) room'])
    case A: (1 b ns)
    let ?h' = "?h\<lparr>blocks := blocks ?h @ ns\<rparr>"
    have free: "10240 \<le> getFreeSize b" using A(2,5) by (simp add: sb_inv_def sb_sizes_free)
    have len: "length (buffers b) \<le> Suc (length (buffers ?b))"
      using A(1) by (auto simp: sb_allocate_def split: if_splits prod.splits outcome.splits)
    have "sb_inv ?h' (ss_output s)"
      using inv(2) by (auto simp: sb_inv_def intro: buf_valid_more_blocks)
    moreover have "set (free_addrs b) \<inter> set (used_addrs (ss_output s)) = {}"
    proof -
      obtain new where new: "free_addrs b = free_addrs ?b @ new" "\<forall>a \<in> set new. fst a = length (blocks ?h)"
        using A(6) by blast
      have "a \<notin> set new" if "a \<in> set (used_addrs (ss_output s))" for a
        using inv_addrs_old [OF inv(2), of a] set_used_free [of "ss_output s"] that new(2) by force
      moreover have "set (free_addrs ?b) \<inter> set (used_addrs (ss_output s)) = {}"
        using assms(1) by (simp add: ss_buffers_ok_def)
      ultimately show ?thesis using new(1) by auto
    qed
    ultimately have good: "ss_buffers_ok (s\<lparr>ss_input := b, ss_heap := ?h'\<rparr>)"
      using A(2) by (simp add: ss_buffers_ok_def)
    show ?thesis
      by (rule ok [where b = b and h = ?h', OF _ good free _ _ len])
        (use run A in \<open>simp_all add: on_input_def zoom_run content_def ss_in_def ss_out_def\<close>)
  next
    case 2
    then show ?thesis using run fail by (simp add: on_input_def zoom_run)
  qed
qed

text \<open>There is less room than the socket wants, and the allocation of the rest would fail.\<close>

definition no_receive_room :: "'w stream_socket \<Rightarrow> bool" where
  "no_receive_room s \<longleftrightarrow> getFreeSize (ss_input s) < 10240
     \<and> \<not> can_alloc (ss_heap s) (length (blocks (ss_heap s))) (align_up (20480 - getFreeSize (ss_input s)))"

lemma allocateReceiveBuffer_fails: "fst (allocateReceiveBuffer s) = Throw BadAlloc \<longleftrightarrow> no_receive_room s"
  by (auto simp: allocateReceiveBuffer_def when_run on_input_def zoom_run sb_allocate_def new_buffer_def
      Let_def no_receive_room_def)

lemma checkIncomingData_run:
  "has_event ev EVENT_IN \<Longrightarrow> checkIncomingData S R C ev s =
     try_catch (seq allocateReceiveBuffer (ss_receive S R C)) (close_on_error S R C) s"
  by (simp add: checkIncomingData_def)

section \<open>Properties\<close>

text \<open>
  C22: a stream socket sends the bytes of the application in order, once. Whatever the application
  appends, however often \<open>startSending\<close> and writable events come, whatever part of each
  \<open>sendmsg\<close> the kernel accepts and whichever calls and allocations fail, the bytes on the wire
  followed by the bytes still in the output are the old ones followed by all the appended ones.
\<close>

theorem stream_sends_in_order:
  assumes "tx_env wire S R C" and "sb_inv (ss_heap s) (ss_output s)" and "TxAppend [] \<notin> set ops"
    and "totalSize (ss_output s) + sum_list (map tx_cost ops) < size_t_max"
  shows "wire (ss_world (tx_run S R C ops s)) @ ss_out (tx_run S R C ops s)
    = wire (ss_world s) @ ss_out s @ tx_accepted S R C ops s"
  by (rule tx_run_kept [OF assms])

text \<open>A world that is the wire itself, and a kernel that accepts at most three bytes at a time.\<close>

definition three_bytes :: "byte list system" where
  "three_bytes = idle_system\<lparr>sys_sendmsg := (\<lambda>fd bs c w. (Ok (min 3 (int (length bs))), w @ take 3 bs))\<rparr>"

definition quiet_runner :: "'w runner_iface" where
  "quiet_runner = \<lparr>ri_addFDListener = (\<lambda>_ _. ret ()), ri_modifyFDListener = (\<lambda>_ _. ret ()),
     ri_delFDListener = (\<lambda>_. ret ())\<rparr>"

definition quiet_callbacks :: "'w ss_callbacks" where
  "quiet_callbacks = \<lparr>connectionEstablishedCb = None, connectionClosedCb = (\<lambda>_. ret ()),
     dataReceivedCb = ret (), allDataSentCb = None\<rparr>"

definition open_socket :: "'w \<Rightarrow> 'w stream_socket" where
  "open_socket w = (ss_blank heap0 w)\<lparr>ss_fd := 5\<rparr>"

lemma open_socket_simps [simp]:
  "ss_heap (open_socket w) = heap0" "ss_output (open_socket w) = sb_empty" "ss_input (open_socket w) = sb_empty"
  "ss_world (open_socket w) = w" "ss_fd (open_socket w) = 5" "totalSize sb_empty = 0" "buffers sb_empty = []"
  "ss_out (open_socket w) = []" "ss_in (open_socket w) = []"
  by (simp_all add: open_socket_def ss_blank_def sb_empty_def ss_out_def ss_in_def content_def used_addrs_def)

lemma three_bytes_env: "tx_env id three_bytes quiet_runner quiet_callbacks"
  by (auto simp: tx_env_def sendmsg_contract_def three_bytes_def quiet_runner_def quiet_callbacks_def
      quiet_def min_def idle_system_def the_system_def sys_close_impl_def idle_kernel_def bnd_run)

theorem stream_sends_in_order_witness:
  "ss_world (tx_run three_bytes quiet_runner quiet_callbacks [TxAppend [1, 2, 3, 4, 5], TxStart, TxWritable] (open_socket []))
   @ ss_out (tx_run three_bytes quiet_runner quiet_callbacks [TxAppend [1, 2, 3, 4, 5], TxStart, TxWritable] (open_socket []))
   = [1, 2, 3, 4, 5]"
proof -
  have "fst (on_output (appendData [1, 2, 3, 4, 5]) (open_socket ([] :: byte list))) = Ok ()"
    by (simp add: open_socket_def ss_blank_def on_output_def zoom_run sb_eval loops_pos)
  then show ?thesis
    using stream_sends_in_order [OF three_bytes_env, of "open_socket []" "[TxAppend [1, 2, 3, 4, 5], TxStart, TxWritable]"]
    by (simp add: sb_empty_inv size_t_max_def)
qed

text \<open>
  C23: a readable event delivers exactly the bytes the kernel gives, after the ones that are already
  in the input, leaves the output alone and then calls \<open>dataReceivedCb\<close>. The kernel is always
  offered at least 10240 bytes of room. Only when there is less room and the allocation of more
  fails does the socket close instead, with \<open>ENOMEM\<close> and before anything is read.
\<close>

theorem readable_event_delivers:
  assumes "ss_buffers_ok s" and "0 \<le> ss_fd s" and "length (buffers (ss_input s)) < iov_max"
    and "totalSize (ss_input s) + 20488 \<le> size_t_max" and "has_event ev EVENT_IN"
    and recv: "\<And>room. 10240 \<le> room \<Longrightarrow>
      sys_recvmsg S (ss_fd s) room 0 (ss_world s) = (Ok (int (length (bs room)), bs room, []), w)
      \<and> length (bs room) \<le> room \<and> bs room \<noteq> []"
  shows "if no_receive_room s then checkIncomingData S R C ev s = ss_close S R C ENOMEM s
    else \<exists>room s1. 10240 \<le> room
        \<and> checkIncomingData S R C ev s = try_catch (dataReceivedCb C) (close_on_error S R C) s1
        \<and> ss_in s1 = ss_in s @ bs room \<and> ss_out s1 = ss_out s \<and> ss_buffers_ok s1
        \<and> ss_fd s1 = ss_fd s \<and> ss_world s1 = w"
proof (cases rule: allocateReceiveBuffer_cases [OF assms(1,4)])
  case A: (1 b h)
  let ?s = "s\<lparr>ss_input := b, ss_heap := h\<rparr>"
  have "0 \<le> ss_fd ?s" "length (buffers (ss_input ?s)) \<le> iov_max" using assms(2,3) A(6) by simp_all
  from ss_receive_delivered [OF A(2) this, of S "bs (getFreeSize b)" "[]" w, where R = R and C = C] recv [OF A(3)]
  obtain s1 where s1: "ss_receive S R C ?s = dataReceivedCb C s1" "ss_buffers_ok s1"
    "ss_in s1 = ss_in ?s @ bs (getFreeSize b)" "ss_out s1 = ss_out ?s" "ss_world s1 = w" "ss_fd s1 = ss_fd s"
    by auto
  have "checkIncomingData S R C ev s = try_catch (dataReceivedCb C) (close_on_error S R C) s1"
    using A(1) s1(1) assms(5) by (simp add: checkIncomingData_run try_catch_run seq_run)
  moreover have "ss_in ?s = ss_in s" "ss_out ?s = ss_out s" using A(4,5) by (simp_all add: ss_in_def ss_out_def)
  moreover have "\<not> no_receive_room s" using A(1) allocateReceiveBuffer_fails [of s] by simp
  ultimately show ?thesis using A(3) s1 by auto
next
  case 2
  then have "no_receive_room s" using allocateReceiveBuffer_fails [of s] by simp
  with 2 show ?thesis using assms(5)
    by (simp add: checkIncomingData_run try_catch_run seq_run close_on_error_def)
qed

text \<open>A kernel that delivers three bytes to whoever reads.\<close>

definition abc_system :: "'w system" where
  "abc_system = idle_system\<lparr>sys_recvmsg := (\<lambda>fd room croom w. (Ok (3, [97, 98, 99], []), w))\<rparr>"

theorem readable_event_delivers_witness:
  "\<exists>(room :: nat) s1. 10240 \<le> room
      \<and> checkIncomingData abc_system quiet_runner quiet_callbacks EVENT_IN (open_socket ())
        = try_catch (ret ()) (close_on_error abc_system quiet_runner quiet_callbacks) s1
      \<and> ss_in s1 = [97, 98, 99] \<and> ss_out s1 = [] \<and> ss_buffers_ok s1 \<and> ss_fd s1 = 5 \<and> ss_world s1 = ()"
proof -
  have "ss_buffers_ok (open_socket ())"
    by (simp add: ss_buffers_ok_def sb_empty_inv) (simp add: sb_empty_def free_addrs_def)
  note * = readable_event_delivers [OF this, of EVENT_IN abc_system "\<lambda>_. [97, 98, 99]" "()" quiet_runner quiet_callbacks]
  have "\<not> no_receive_room (open_socket ())" by (simp add: no_receive_room_def heap0_def)
  moreover have "sys_recvmsg abc_system fd room n () = (Ok (3, [97, 98, 99], []), ())"
    "dataReceivedCb quiet_callbacks = (ret () :: (unit stream_socket, unit) prog)" for fd room n
    by (simp_all add: abc_system_def quiet_callbacks_def)
  ultimately show ?thesis using * by (simp add: iov_max_def size_t_max_def)
qed

text \<open>
  C24: a failing \<open>recvmsg\<close> ends the connection exactly once. The handler removes the listener, closes
  the descriptor and calls \<open>connectionClosedCb\<close> with the \<open>errno\<close> of the failure; the checks for
  outgoing data and for a closed connection, which follow in the same call, find the socket closed
  and do nothing, whatever the other event bits say.
\<close>

theorem receive_error_closes_once:
  assumes "0 \<le> ss_fd s" and "\<not> connecting s" and "sb_inv (ss_heap s) (ss_input s)"
    and "10240 \<le> getFreeSize (ss_input s)" and "has_event ev EVENT_IN"
    and recv: "\<And>room. sys_recvmsg S (ss_fd s) room 0 (ss_world s) = (Throw (SystemException f e), w1)"
    and del: "ri_delFDListener R (ss_fd s) w1 = (Ok (), w2)" and close: "sys_close S (ss_fd s) w2 = (Ok (), w3)"
    and cb: "\<And>t. ss_fd t = - 1 \<Longrightarrow> ss_world t = w3 \<Longrightarrow> connectionClosedCb C e t = (Ok (), g t) \<and> ss_fd (g t) = - 1"
  shows "\<exists>t. ss_handleEventsCb S R C ev s = (Ok (), g t) \<and> ss_fd t = - 1 \<and> ss_world t = w3
    \<and> ss_in t = ss_in s \<and> ss_output t = ss_output s"
proof -
  obtain v b where v: "getFreeIOVec (ss_input s, ss_heap s) = (Ok v, (b, ss_heap s))"
    "buffers b = buffers (ss_input s)" "usedSize b = usedSize (ss_input s)"
    by (cases rule: getFreeIOVec_cases [OF assms(3)]) blast
  let ?s1 = "s\<lparr>ss_input := b, ss_world := w1\<rparr>"
  let ?t = "s\<lparr>ss_input := b, ss_world := w3, ss_fd := - 1\<rparr>"
  have rcv: "ss_receive S R C s = (Throw (SystemException f e), ?s1)"
    using v(1) recv assms(1) by (simp add: ss_receive_def bnd_run on_input_def zoom_run with_fd_def ss_do_run)
  have "ss_close S R C e ?s1 = connectionClosedCb C e ?t"
    using assms(1) del close by (simp add: ss_close_def when_run seq_run with_fd_def ss_do_run)
  then have "checkIncomingData S R C ev s = (Ok (), g ?t)" "ss_fd (g ?t) = - 1"
    using assms(4,5) rcv cb [of ?t]
    by (simp_all add: checkIncomingData_run try_catch_run seq_run allocateReceiveBuffer_def when_run close_on_error_def)
  then have "ss_handleEventsCb S R C ev s = (Ok (), g ?t)"
    using assms(2) by (simp add: ss_handleEventsCb_def seq_run checkConnectionEstablished_def when_run
        checkOutgoingData_def checkConnectionClosed_def)
  moreover have "ss_in ?t = ss_in s" using v by (simp add: ss_in_def content_def used_addrs_def)
  ultimately show ?thesis by (intro exI [of _ ?t]) simp
qed

text \<open>A kernel whose connections are reset, and a socket with a large receive buffer.\<close>

definition reset_system :: "'w system" where
  "reset_system = idle_system\<lparr>sys_recvmsg := (\<lambda>_ _ _ w. (Throw (SystemException ''recvmsg'' 104), w)),
     sys_sendmsg := (\<lambda>_ _ _ w. (Throw (SystemException ''sendmsg'' 104), w))\<rparr>"

definition big_input :: "'w \<Rightarrow> 'w stream_socket" where
  "big_input w = (open_socket w)\<lparr>ss_input := fst (sb_run [OpAllocate 20480] (sb_empty, heap0)),
     ss_heap := snd (sb_run [OpAllocate 20480] (sb_empty, heap0))\<rparr>"

lemma big_input_ok:
  "sb_inv (ss_heap (big_input w)) (ss_input (big_input w))" "10240 \<le> getFreeSize (ss_input (big_input w))"
proof -
  have "sb_run [OpAllocate 20480] (sb_empty, heap0) = (ss_input (big_input w), ss_heap (big_input w))"
    by (simp add: big_input_def)
  from sb_run_inv [OF sb_empty_inv _ this] show "sb_inv (ss_heap (big_input w)) (ss_input (big_input w))"
    by (simp add: size_t_max_def)
  show "10240 \<le> getFreeSize (ss_input (big_input w))"
    by (simp add: big_input_def sb_eval)
qed

theorem receive_error_closes_once_witness:
  "\<exists>t. ss_handleEventsCb reset_system quiet_runner quiet_callbacks 29 (big_input ()) = (Ok (), t) \<and> ss_fd t = - 1"
proof -
  have close: "sys_close reset_system 5 () = (Ok (), ())"
    by (simp add: reset_system_def idle_system_def the_system_def sys_close_impl_def idle_kernel_def bnd_run)
  have "has_event 29 EVENT_IN" by (simp add: has_event_def event_masks)
  from receive_error_closes_once [OF _ _ big_input_ok this, of "()" reset_system "''recvmsg''" 104 "()"
      quiet_runner "()" "()" quiet_callbacks id] close
  show ?thesis
    by (auto simp: big_input_def open_socket_def ss_blank_def reset_system_def quiet_runner_def quiet_callbacks_def)
qed

text \<open>
  after the connection is established the handler goes on to read without looking at the
  descriptor, unlike the two checks that follow. When the application starts sending queued data in
  \<open>connectionEstablishedCb\<close> and the kernel refuses it, the socket is closed and reported closed, and
  then the same event's \<open>EVENT_IN\<close> makes the handler use the closed descriptor: \<open>InvalidFD\<close> leaves
  \<open>handleEventsCb\<close>.
\<close>

theorem read_after_close_throws:
  assumes "connecting s" and "\<not> sending s" and "0 \<le> ss_fd s"
    and "sb_inv (ss_heap s) (ss_input s)" and "10240 \<le> getFreeSize (ss_input s)"
    and "sb_inv (ss_heap s) (ss_output s)" and "0 < getUsedSize (ss_output s)"
    and "connectionEstablishedCb C = Some (startSending S R C)"
    and send: "\<And>bs. sys_sendmsg S (ss_fd s) bs [] (ss_world s) = (Throw (SystemException f e), w1)"
    and del: "ri_delFDListener R (ss_fd s) w1 = (Ok (), w2)" and close: "sys_close S (ss_fd s) w2 = (Ok (), w3)"
    and cb: "connectionClosedCb C e = ret ()"
  shows "fst (ss_handleEventsCb S R C (or EVENT_IN EVENT_OUT) s) = Throw InvalidFD"
proof -
  let ?ev = "or EVENT_IN EVENT_OUT"
  obtain v b where v: "getUsedIOVec (ss_output s, ss_heap s) = (Ok v, (b, ss_heap s))"
    "usedSize b = usedSize (ss_output s)"
    by (cases rule: getUsedIOVec_cases [OF assms(6)]) blast
  let ?s0 = "s\<lparr>connecting := False\<rparr>"
  let ?s1 = "?s0\<lparr>ss_output := b, ss_world := w1\<rparr>"
  let ?t = "?s0\<lparr>ss_output := b, ss_world := w3, ss_fd := - 1\<rparr>"
  have "ss_send S R C ?s0 = (Throw (SystemException f e), ?s1)"
    using v(1) send assms(3) by (simp add: ss_send_def bnd_run on_output_def zoom_run with_fd_def ss_do_run)
  moreover have "ss_close S R C e ?s1 = (Ok (), ?t)"
    using assms(3) del close cb by (simp add: ss_close_def when_run seq_run with_fd_def ss_do_run)
  ultimately have start: "startSending S R C ?s0 = (Ok (), ?t)"
    using assms(2,7) by (simp add: startSending_def when_run trySend_def try_catch_run close_on_error_def)
  have ev: "has_event ?ev ?ev" "has_event ?ev EVENT_IN" "\<not> has_event ?ev (or EVENT_ERR EVENT_HUP)"
    by (simp_all add: has_event_def event_masks)
  have est: "checkConnectionEstablished R C ?ev s = (Ok (), ?t)"
    using assms(1,7,8) start ev v(2)
    by (simp add: checkConnectionEstablished_def when_run seq_run getUsedSize_def)
  obtain v2 b2 where v2: "getFreeIOVec (ss_input s, ss_heap s) = (Ok v2, (b2, ss_heap s))"
    by (cases rule: getFreeIOVec_cases [OF assms(4)]) blast
  have "checkIncomingData S R C ?ev ?t = (Throw InvalidFD, ?t\<lparr>ss_input := b2\<rparr>)"
    using assms(5) v2 ev
    by (simp add: checkIncomingData_run try_catch_run seq_run allocateReceiveBuffer_def when_run
        close_on_error_def ss_receive_def bnd_run on_input_def zoom_run with_fd_def)
  then show ?thesis
    using est by (simp add: ss_handleEventsCb_def seq_run)
qed

definition sending_callbacks :: "'w ss_callbacks" where
  "sending_callbacks = quiet_callbacks\<lparr>connectionEstablishedCb :=
     Some (startSending reset_system quiet_runner quiet_callbacks)\<rparr>"

lemma sending_callbacks_simps:
  "connectionClosedCb sending_callbacks = connectionClosedCb quiet_callbacks"
  "allDataSentCb sending_callbacks = allDataSentCb quiet_callbacks"
  by (simp_all add: sending_callbacks_def)

lemma close_on_error_sending_callbacks:
  "close_on_error S R sending_callbacks = close_on_error S R quiet_callbacks"
  by (rule ext) (simp add: close_on_error_def ss_close_def sending_callbacks_simps split: exn.split)

lemma startSending_sending_callbacks:
  "startSending S R sending_callbacks = startSending S R quiet_callbacks"
  by (simp add: startSending_def trySend_def ss_send_def sending_callbacks_simps close_on_error_sending_callbacks)

definition queued :: "'w \<Rightarrow> 'w stream_socket" where
  "queued w = (open_socket w)\<lparr>connecting := True,
     ss_output := \<lparr>buffers = [\<lparr>buf_base = 0, buf_off = 0, buf_size = 8\<rparr>], usedSize = 8, totalSize = 8, iovecArray = []\<rparr>,
     ss_input := \<lparr>buffers = [\<lparr>buf_base = 1, buf_off = 0, buf_size = 20480\<rparr>], usedSize = 0, totalSize = 20480,
       iovecArray = []\<rparr>,
     ss_heap := heap0\<lparr>blocks := [8, 20480]\<rparr>\<rparr>"

lemma queued_inv:
  "sb_inv (ss_heap (queued w)) (ss_input (queued w))" "sb_inv (ss_heap (queued w)) (ss_output (queued w))"
  by (simp_all add: queued_def sb_inv_def sb_sizes_def used_addrs_def free_addrs_def buf_valid_def
      size_t_max_def buf_addrs_def)

theorem read_after_close_throws_witness:
  "fst (ss_handleEventsCb reset_system quiet_runner sending_callbacks (or EVENT_IN EVENT_OUT) (queued ())) = Throw InvalidFD"
proof (rule read_after_close_throws [where f = "''sendmsg''" and e = 104 and ?w1.0 = "()" and ?w2.0 = "()" and ?w3.0 = "()",
      OF _ _ _ queued_inv(1) _ queued_inv(2)])
  show "connectionEstablishedCb sending_callbacks = Some (startSending reset_system quiet_runner sending_callbacks)"
    by (simp add: startSending_sending_callbacks) (simp add: sending_callbacks_def)
  show "sys_close reset_system (ss_fd (queued ())) () = (Ok (), ())"
    by (simp add: reset_system_def idle_system_def the_system_def sys_close_impl_def idle_kernel_def bnd_run)
qed (simp_all add: queued_def open_socket_def ss_blank_def getFreeSize_def getUsedSize_def minus64_def
    sending_callbacks_def quiet_callbacks_def quiet_runner_def reset_system_def)

end
