(* ===== verification/ControlMessage.thy ===== *)
theory ControlMessage
  imports Prelude
begin

text \<open>
  Model of \<open>include/EventLoop/ControlMessage.hpp\<close> and \<open>src/lib/ControlMessage.cpp\<close>: the ancillary data
  of \<open>sendmsg\<close> and \<open>recvmsg\<close> as the bytes of the buffer, with the layout of \<open>struct cmsghdr\<close> on 64-bit
  Linux: 8 bytes length, 4 bytes level, 4 bytes type, little endian, aligned to 8 bytes. A value
  is the list of its bytes. Iterators are offsets; reading outside the buffer is undefined. \<open>end()\<close> forms
  \<open>&buffer[0]\<close> also for an empty vector, which is undefined in C++ but is \<open>data()\<close> in every
  implementation; it is modelled as offset 0.
\<close>

section \<open>Sizes\<close>

definition HDR :: nat where "HDR = 16"

definition cmsg_align :: "nat \<Rightarrow> nat" where
  "cmsg_align n = plus64 n 7 div 8 * 8"

definition CMSG_LEN :: "nat \<Rightarrow> nat" where
  "CMSG_LEN n = plus64 HDR n"

definition CMSG_SPACE :: "nat \<Rightarrow> nat" where
  "CMSG_SPACE n = plus64 (cmsg_align n) HDR"

section \<open>The class\<close>

record control_message =
  cm_buffer :: "byte list"
  cm_used :: nat

definition cm_empty :: control_message where
  "cm_empty = \<lparr>cm_buffer = [], cm_used = 0\<rparr>"

definition cm_copy :: "byte list \<Rightarrow> control_message" where
  "cm_copy data = \<lparr>cm_buffer = data, cm_used = length data\<rparr>"

definition cm_is_empty :: "control_message \<Rightarrow> bool" where
  "cm_is_empty cm \<longleftrightarrow> cm_buffer cm = []"

definition capacity :: "control_message \<Rightarrow> nat" where
  "capacity cm = length (cm_buffer cm)"

definition reserve :: "nat \<Rightarrow> control_message \<Rightarrow> control_message" where
  "reserve n cm = cm\<lparr>cm_buffer := resize_list n 0 (cm_buffer cm)\<rparr>"

definition markUsed :: "nat \<Rightarrow> (control_message, unit) prog" where
  "markUsed n = (\<lambda>cm. if length (cm_buffer cm) < n then (Throw ControlMessageOverflow, cm)
     else (Ok (), cm\<lparr>cm_used := n\<rparr>))"

text \<open>Writing bytes into a buffer from an offset.\<close>

definition overwrite :: "nat \<Rightarrow> 'a list \<Rightarrow> 'a list \<Rightarrow> 'a list" where
  "overwrite i new xs = take i xs @ new @ drop (i + length new) xs"

definition cmsg_header :: "nat \<Rightarrow> 32 word \<Rightarrow> 32 word \<Rightarrow> byte list" where
  "cmsg_header len level type = le_bytes 8 len @ le_bytes 4 (unat level) @ le_bytes 4 (unat type)"

definition cm_append :: "32 word \<Rightarrow> 32 word \<Rightarrow> byte list \<Rightarrow> control_message \<Rightarrow> control_message" where
  "cm_append level type val cm =
     (let neededSize = CMSG_SPACE (length val);
          oldUsedSize = cm_used cm;
          newUsedSize = plus64 (cm_used cm) neededSize;
          buf = resize_list newUsedSize 0 (cm_buffer cm)
      in \<lparr>cm_buffer = overwrite oldUsedSize (cmsg_header (CMSG_LEN (length val)) level type @ val) buf,
          cm_used = newUsedSize\<rparr>)"

definition cm_of_value :: "32 word \<Rightarrow> 32 word \<Rightarrow> byte list \<Rightarrow> control_message" where
  "cm_of_value level type val = cm_append level type val cm_empty"

text \<open>The fields of the header at an offset.\<close>

definition cmsg_len :: "control_message \<Rightarrow> nat \<Rightarrow> nat" where
  "cmsg_len cm off = le_nat (take 8 (drop off (cm_buffer cm)))"

definition cmsg_level :: "control_message \<Rightarrow> nat \<Rightarrow> 32 word" where
  "cmsg_level cm off = of_nat (le_nat (take 4 (drop (off + 8) (cm_buffer cm))))"

definition cmsg_type :: "control_message \<Rightarrow> nat \<Rightarrow> 32 word" where
  "cmsg_type cm off = of_nat (le_nat (take 4 (drop (off + 12) (cm_buffer cm))))"

text \<open>\<open>getData\<close> of a type of \<open>n\<close> bytes.\<close>

definition cm_getData :: "control_message \<Rightarrow> nat \<Rightarrow> nat \<Rightarrow> byte list outcome" where
  "cm_getData cm n off = (if cmsg_len cm off < CMSG_LEN n then Throw TruncatedCMSG
     else if length (cm_buffer cm) < off + HDR + n then Undef
     else Ok (take n (drop (off + HDR) (cm_buffer cm))))"

section \<open>Iterators\<close>

type_synonym cm_iter = "nat \<times> nat"

definition cm_begin :: "control_message \<Rightarrow> cm_iter" where
  "cm_begin cm = (0, cm_used cm)"

definition cm_end :: "control_message \<Rightarrow> cm_iter" where
  "cm_end cm = (cm_used cm, 0)"

definition iter_equal :: "cm_iter \<Rightarrow> cm_iter \<Rightarrow> bool" where
  "iter_equal i j \<longleftrightarrow> fst i = fst j"

definition dereference :: "control_message \<Rightarrow> cm_iter \<Rightarrow> nat outcome" where
  "dereference cm = (\<lambda>(off, n). if n < HDR then Throw BadCMSG
     else if length (cm_buffer cm) < off + HDR then Undef
     else if cmsg_len cm off < HDR \<or> n < cmsg_len cm off then Throw BadCMSG
     else Ok off)"

definition increment :: "control_message \<Rightarrow> cm_iter \<Rightarrow> cm_iter" where
  "increment cm = (\<lambda>(off, n). let asize = cmsg_align (cmsg_len cm off) in (off + asize, minus64 n asize))"

text \<open>The loop of the class's documentation, which looks at each message in turn.\<close>

fun cm_iterate :: "nat \<Rightarrow> control_message \<Rightarrow> cm_iter \<Rightarrow> nat list outcome" where
  "cm_iterate 0 cm i = NoFuel"
| "cm_iterate (Suc n) cm i = (if iter_equal i (cm_end cm) then Ok []
     else case dereference cm i of
       Ok off \<Rightarrow> (case cm_iterate n cm (increment cm i) of Ok offs \<Rightarrow> Ok (off # offs) | r \<Rightarrow> r)
     | r \<Rightarrow> fail_as r)"

definition cm_entry :: "control_message \<Rightarrow> nat \<Rightarrow> 32 word \<times> 32 word \<times> byte list outcome" where
  "cm_entry cm off = (cmsg_level cm off, cmsg_type cm off, cm_getData cm (cmsg_len cm off - HDR) off)"

section \<open>Lemmas\<close>

text \<open>What \<open>cm_append\<close> adds to a buffer that is used to its end.\<close>

definition cm_encode :: "32 word \<times> 32 word \<times> byte list \<Rightarrow> byte list" where
  "cm_encode = (\<lambda>(level, type, val). cmsg_header (16 + length val) level type @ val
     @ replicate ((length val + 7) div 8 * 8 - length val) 0)"

lemma length_cm_encode [simp]: "length (cm_encode (l, t, v)) = 16 + (length v + 7) div 8 * 8"
  by (simp add: cm_encode_def cmsg_header_def)

lemma cmsg_sizes:
  assumes "n + 24 < size_t_max"
  shows "cmsg_align n = (n + 7) div 8 * 8" "CMSG_LEN n = 16 + n" "CMSG_SPACE n = 16 + (n + 7) div 8 * 8"
proof -
  have "(n + 7) div 8 * 8 + 16 < size_t_max" using assms by linarith
  then show "cmsg_align n = (n + 7) div 8 * 8" "CMSG_LEN n = 16 + n" "CMSG_SPACE n = 16 + (n + 7) div 8 * 8"
    using assms by (simp_all add: cmsg_align_def CMSG_LEN_def CMSG_SPACE_def HDR_def)
qed

lemma cm_append_full:
  assumes "cm_used cm = length (cm_buffer cm)" and "length (cm_buffer cm) + length v + 24 < size_t_max"
  shows "cm_append l t v cm = \<lparr>cm_buffer = cm_buffer cm @ cm_encode (l, t, v),
    cm_used = length (cm_buffer cm @ cm_encode (l, t, v))\<rparr>"
proof -
  have n: "length v + 24 < size_t_max" using assms(2) by simp
  let ?p = "(length v + 7) div 8 * 8"
  have "length (cm_buffer cm) + (16 + ?p) < size_t_max" using assms(2) by linarith
  then have u: "plus64 (cm_used cm) (CMSG_SPACE (length v)) = length (cm_buffer cm) + 16 + ?p"
    using assms(1) by (simp add: cmsg_sizes [OF n] ac_simps)
  have "overwrite (length (cm_buffer cm)) (cmsg_header (16 + length v) l t @ v)
      (resize_list (length (cm_buffer cm) + 16 + ?p) 0 (cm_buffer cm)) = cm_buffer cm @ cm_encode (l, t, v)"
    by (simp add: overwrite_def resize_list_extend cm_encode_def cmsg_header_def)
  then show ?thesis
    using u assms(1) by (simp add: cm_append_def Let_def cmsg_sizes [OF n])
qed

text \<open>Reading a message that starts at an offset.\<close>

lemma cm_entry_encode:
  assumes "cm_buffer cm = pre @ cm_encode (l, t, v) @ rest" and "length v + 24 < size_t_max"
  shows "cmsg_len cm (length pre) = 16 + length v" "cm_entry cm (length pre) = (l, t, Ok v)"
proof -
  have big: "16 + length v < 256 ^ 8" using assms(2) by (simp add: size_t_max_def)
  have w: "unat w mod 4294967296 = unat w" for w :: "32 word"
  proof -
    have "unat w < 2 ^ LENGTH(32)" by (rule unsigned_less)
    then show ?thesis by simp
  qed
  have enc: "cm_buffer cm = pre @ le_bytes 8 (16 + length v) @ le_bytes 4 (unat l) @ le_bytes 4 (unat t) @ v
      @ replicate ((length v + 7) div 8 * 8 - length v) 0 @ rest"
    using assms(1) by (simp add: cm_encode_def cmsg_header_def)
  show len: "cmsg_len cm (length pre) = 16 + length v"
    using big by (simp add: cmsg_len_def enc le_nat_le_bytes)
  have "cmsg_level cm (length pre) = l" "cmsg_type cm (length pre) = t"
    by (simp_all add: cmsg_level_def cmsg_type_def enc le_nat_le_bytes w)
  moreover have "cm_getData cm (length v) (length pre) = Ok v"
    using len by (simp add: cm_getData_def cmsg_sizes [OF assms(2)] HDR_def enc)
  ultimately show "cm_entry cm (length pre) = (l, t, Ok v)"
    using len by (simp add: cm_entry_def HDR_def)
qed

definition cm_encode_all :: "(32 word \<times> 32 word \<times> byte list) list \<Rightarrow> byte list" where
  "cm_encode_all es = concat (map cm_encode es)"

lemma cm_encode_all_simps [simp]:
  "cm_encode_all [] = []" "cm_encode_all (e # es) = cm_encode e @ cm_encode_all es"
  "cm_encode_all (es @ es') = cm_encode_all es @ cm_encode_all es'"
  by (simp_all add: cm_encode_all_def)

text \<open>One step of an iterator over a message.\<close>

lemma dereference_encode:
  assumes "cm_buffer cm = pre @ cm_encode (l, t, v) @ rest" and "length v + 24 < size_t_max"
  shows "dereference cm (length pre, length (cm_encode (l, t, v)) + n) = Ok (length pre)"
    "increment cm (length pre, length (cm_encode (l, t, v)) + n) = (length (pre @ cm_encode (l, t, v)), n)"
proof -
  note len = cm_entry_encode(1) [OF assms]
  have "length v \<le> (length v + 7) div 8 * 8" by linarith
  then show "dereference cm (length pre, length (cm_encode (l, t, v)) + n) = Ok (length pre)"
    using len by (simp add: dereference_def HDR_def assms(1))
  have "(23 + length v) div 8 * 8 = 16 + (length v + 7) div 8 * 8"
    using div_mult_self1 [of 8 "length v + 7" 2] by simp
  then have "cmsg_align (16 + length v) = 16 + (length v + 7) div 8 * 8"
    using assms(2) by (simp add: cmsg_align_def)
  then show "increment cm (length pre, length (cm_encode (l, t, v)) + n) = (length (pre @ cm_encode (l, t, v)), n)"
    using len by (simp add: increment_def)
qed

lemma cm_iterate_encode:
  assumes "cm_buffer cm = pre @ cm_encode_all es" and "cm_used cm = length (cm_buffer cm)"
    and "length (cm_buffer cm) + 24 < size_t_max" and "length es < n"
  shows "\<exists>offs. cm_iterate n cm (length pre, length (cm_encode_all es)) = Ok offs
    \<and> map (cm_entry cm) offs = map (\<lambda>(l, t, v). (l, t, Ok v)) es"
  using assms
proof (induction es arbitrary: pre n)
  case Nil
  then show ?case by (cases n) (simp_all add: iter_equal_def cm_end_def)
next
  case (Cons e es)
  obtain l t v where e: "e = (l, t, v)" by (cases e)
  obtain m where n: "n = Suc m" using Cons.prems(4) by (cases n) auto
  have buf: "cm_buffer cm = pre @ cm_encode (l, t, v) @ cm_encode_all es" using Cons.prems(1) e by simp
  have "length v \<le> (length v + 7) div 8 * 8" by linarith
  moreover have "length (cm_buffer cm) = length pre + (16 + (length v + 7) div 8 * 8) + length (cm_encode_all es)"
    by (simp add: buf)
  ultimately have small: "length v + 24 < size_t_max" using Cons.prems(3) by linarith
  note step = dereference_encode [OF buf small, of "length (cm_encode_all es)"]
  have "\<not> iter_equal (length pre, length (cm_encode_all (e # es))) (cm_end cm)"
    using Cons.prems(2) by (simp add: iter_equal_def cm_end_def buf)
  moreover from Cons.IH [of "pre @ cm_encode (l, t, v)" m] obtain offs where
    "cm_iterate m cm (length (pre @ cm_encode (l, t, v)), length (cm_encode_all es)) = Ok offs"
    "map (cm_entry cm) offs = map (\<lambda>(l, t, v). (l, t, Ok v)) es"
    using buf Cons.prems n by auto
  ultimately show ?case
    using step cm_entry_encode(2) [OF buf small] n e
    by (intro exI [of _ "length pre # offs"]) simp
qed

lemma cm_iterate_aligned:
  assumes "cm_used cm \<le> length (cm_buffer cm)" and "cm_used cm < size_t_max" and "8 dvd cm_used cm"
    and "cm_used cm div 16 < n"
  shows "(\<exists>offs. cm_iterate n cm (cm_begin cm) = Ok offs \<and> (\<forall>off \<in> set offs. off + cmsg_len cm off \<le> cm_used cm))
    \<or> cm_iterate n cm (cm_begin cm) = Throw BadCMSG"
proof -
  have "(\<exists>offs. cm_iterate n cm (off, left) = Ok offs \<and> (\<forall>off \<in> set offs. off + cmsg_len cm off \<le> cm_used cm))
    \<or> cm_iterate n cm (off, left) = Throw BadCMSG"
    if "off + left = cm_used cm" "8 dvd left" "left div 16 < n" for off left n
    using that
  proof (induction n arbitrary: off left)
    case (Suc n)
    let ?l = "cmsg_len cm off" let ?a = "cmsg_align ?l"
    show ?case
    proof (cases "dereference cm (off, left)")
      case (Ok o')
      then have d: "o' = off" "16 \<le> ?l" "?l \<le> left" "16 \<le> left"
        by (auto simp: dereference_def HDR_def split: if_splits)
      obtain k where k: "left = 8 * k" using Suc.prems(2) by (rule dvdE)
      then have "k < 2 ^ 61" using Suc.prems(1) assms(2) by (simp add: size_t_max_def)
      then have lt: "left + 7 < size_t_max" by (simp add: k size_t_max_def)
      then have "?a = (?l + 7) div 8 * 8" using d by (simp add: cmsg_align_def)
      moreover have "(?l + 7) div 8 * 8 \<le> left" using div_le_mono [of "?l + 7" "7 + k * 8" 8] d(3) by (simp add: k)
      ultimately have a: "?a \<le> left" "16 \<le> ?a" "8 dvd ?a" using d(2) by auto
      let ?i = "(off + ?a, left - ?a)"
      have inc: "increment cm (off, left) = ?i" using a(1) by (simp add: increment_def Let_def)
      have "(\<exists>offs. cm_iterate n cm ?i = Ok offs \<and> (\<forall>off \<in> set offs. off + cmsg_len cm off \<le> cm_used cm))
        \<or> cm_iterate n cm ?i = Throw BadCMSG"
        by (rule Suc.IH) (use a Suc.prems in auto)
      then show ?thesis using Ok d inc Suc.prems(1) by (auto simp: iter_equal_def)
    qed (use Suc.prems assms(1) in \<open>auto simp: dereference_def HDR_def iter_equal_def cm_end_def split: if_splits\<close>)
  qed simp
  from this [of 0 "cm_used cm"] show ?thesis using assms by (simp add: cm_begin_def)
qed

text \<open>Padded messages, and after them one whose data is not padded to a multiple of 8 bytes.\<close>

definition cm_unpadded :: "(32 word \<times> 32 word \<times> byte list) list \<Rightarrow> 32 word \<Rightarrow> 32 word \<Rightarrow> byte list \<Rightarrow> control_message" where
  "cm_unpadded es l t v = cm_copy (cm_encode_all es @ cmsg_header (16 + length v) l t @ v)"

lemma cm_unpadded_last:
  assumes "cm_buffer cm = pre @ cmsg_header (16 + length v) l t @ v" and "cm_used cm = length (cm_buffer cm)"
    and "length (cm_buffer cm) + 24 < size_t_max" and "length v mod 8 \<noteq> 0" and "2 \<le> n"
  shows "cm_iterate n cm (length pre, 16 + length v) = Undef"
proof -
  let ?a = "16 + (length v + 7) div 8 * 8"
  have h: "length (cmsg_header (16 + length v) l t) = 16" by (simp add: cmsg_header_def)
  have small: "length v + 24 < size_t_max" using assms(1,3) h by simp
  have len: "cmsg_len cm (length pre) = 16 + length v"
    using small by (simp add: cmsg_len_def assms(1) cmsg_header_def le_nat_le_bytes size_t_max_def)
  have pad: "length v < (length v + 7) div 8 * 8" "(length v + 7) div 8 * 8 < length v + 8"
    using assms(4) by presburger+
  have "(23 + length v) div 8 * 8 = ?a" using div_mult_self1 [of 8 "length v + 7" 2] by simp
  then have "cmsg_align (16 + length v) = ?a" using small by (simp add: cmsg_align_def)
  then have inc: "increment cm (length pre, 16 + length v) = (length pre + ?a, minus64 (16 + length v) ?a)"
    using len by (simp add: increment_def Let_def)
  have "16 \<le> minus64 (16 + length v) ?a"
    using pad small by (simp add: minus64_def size_t_max_def)
  then have "dereference cm (length pre + ?a, minus64 (16 + length v) ?a) = Undef"
    using assms(1) h pad by (simp add: dereference_def HDR_def)
  moreover have "dereference cm (length pre, 16 + length v) = Ok (length pre)"
    using len assms(1) h by (simp add: dereference_def HDR_def)
  moreover obtain m where "n = Suc (Suc m)" using assms(5) by (metis Suc_le_D numeral_2_eq_2 Suc_le_mono)
  moreover have "\<not> iter_equal (length pre, 16 + length v) (cm_end cm)"
    "\<not> iter_equal (length pre + ?a, minus64 (16 + length v) ?a) (cm_end cm)"
    using assms(1,2) h pad by (simp_all add: iter_equal_def cm_end_def)
  ultimately show ?thesis using inc by simp
qed

lemma cm_unpadded_from:
  assumes "cm_buffer cm = pre @ cm_encode_all es @ cmsg_header (16 + length v) l t @ v"
    and "cm_used cm = length (cm_buffer cm)" and "length (cm_buffer cm) + 24 < size_t_max"
    and "length v mod 8 \<noteq> 0" and "length es + 2 \<le> n"
  shows "cm_iterate n cm (length pre, length (cm_encode_all es) + (16 + length v)) = Undef"
  using assms
proof (induction es arbitrary: pre n)
  case Nil
  then show ?case using cm_unpadded_last [of cm pre v l t n] by simp
next
  case (Cons e es)
  obtain l' t' v' where e: "e = (l', t', v')" by (cases e)
  obtain m where n: "n = Suc m" using Cons.prems(5) by (cases n) auto
  have buf: "cm_buffer cm = pre @ cm_encode (l', t', v') @ (cm_encode_all es @ cmsg_header (16 + length v) l t @ v)"
    using Cons.prems(1) e by simp
  have "length v' \<le> (length v' + 7) div 8 * 8" by linarith
  then have small: "length v' + 24 < size_t_max" using Cons.prems(3) unfolding buf by simp
  note step = dereference_encode [OF buf small, of "length (cm_encode_all es) + (16 + length v)"]
  have "\<not> iter_equal (length pre, length (cm_encode_all (e # es)) + (16 + length v)) (cm_end cm)"
    using Cons.prems(2) by (simp add: iter_equal_def cm_end_def buf e cmsg_header_def)
  moreover from Cons.IH [of "pre @ cm_encode (l', t', v')" m] have
    "cm_iterate m cm (length (pre @ cm_encode (l', t', v')), length (cm_encode_all es) + (16 + length v)) = Undef"
    using buf Cons.prems n by simp
  ultimately show ?case using step n e by (simp add: ac_simps)
qed

section \<open>Properties\<close>

text \<open>
  C25: what is appended is what is read. A control message built by appending messages and then walked
  with an iterator, as its documentation says, gives the same levels, types and values in the
  same order; one more unit of fuel than messages is enough.
\<close>

theorem control_message_roundtrip:
  assumes "sum_list (map (\<lambda>(l, t, v). length v + 24) es) + 24 < size_t_max"
    and "cm = foldl (\<lambda>cm (l, t, v). cm_append l t v cm) cm_empty es" and "length es < n"
  shows "\<exists>offs. cm_iterate n cm (cm_begin cm) = Ok offs
    \<and> map (cm_entry cm) offs = map (\<lambda>(l, t, v). (l, t, Ok v)) es"
proof -
  have bound: "length (cm_encode_all es) \<le> sum_list (map (\<lambda>(l, t, v). length v + 24) es)" for es
  proof (induction es)
    case (Cons e es)
    obtain l t v where e: "e = (l, t, v)" by (cases e)
    have "(length v + 7) div 8 * 8 \<le> length v + 7" by linarith
    then show ?case using Cons e by simp
  qed simp
  have "cm = \<lparr>cm_buffer = cm_encode_all es, cm_used = length (cm_encode_all es)\<rparr>"
    using assms(1,2)
  proof (induction es arbitrary: cm rule: rev_induct)
    case Nil
    then show ?case by (simp add: cm_empty_def)
  next
    case (snoc e es)
    obtain l t v where e: "e = (l, t, v)" by (cases e)
    have "length (cm_encode_all es) + length v + 24 < size_t_max"
      using bound [of es] snoc.prems(1) e by simp
    then show ?case using snoc e by (simp add: cm_append_full)
  qed
  then show ?thesis
    using cm_iterate_encode [of cm "[]" es n] bound [of es] assms(1,3) by (simp add: cm_begin_def)
qed

theorem control_message_roundtrip_witness:
  "\<exists>offs. cm_iterate 3 (cm_append 1 2 [7, 8, 9] (cm_of_value 1 1 [5, 0, 0, 0])) (cm_begin (cm_append 1 2 [7, 8, 9] (cm_of_value 1 1 [5, 0, 0, 0]))) = Ok offs
    \<and> map (cm_entry (cm_append 1 2 [7, 8, 9] (cm_of_value 1 1 [5, 0, 0, 0]))) offs = [(1, 1, Ok [5, 0, 0, 0]), (1, 2, Ok [7, 8, 9])]"
  using control_message_roundtrip [of "[(1, 1, [5, 0, 0, 0]), (1, 2, [7, 8, 9])]" _ 3]
  by (simp add: size_t_max_def cm_of_value_def)

text \<open>
  C26: walking arbitrary bytes received from the kernel is safe when their number is a multiple of
  8: the iteration ends, gives headers that lie in the used part, or throws \<open>BadCMSG\<close>. It is not safe
  when the last message is not padded: for any padded messages followed by one whose data is not a
  multiple of 8 bytes long, at the end of the buffer, the size left wraps around after that message,
  the end is passed unnoticed and the next access is outside the buffer.
\<close>

theorem control_message_iteration:
  assumes "cm_used cm \<le> length (cm_buffer cm)" and "cm_used cm < size_t_max" and "8 dvd cm_used cm"
    and "cm_used cm div 16 < n"
    and "length (cm_buffer (cm_unpadded es l t v)) + 24 < size_t_max" and "length v mod 8 \<noteq> 0" and "length es + 2 \<le> m"
  shows "((\<exists>offs. cm_iterate n cm (cm_begin cm) = Ok offs \<and> (\<forall>off \<in> set offs. off + cmsg_len cm off \<le> cm_used cm))
      \<or> cm_iterate n cm (cm_begin cm) = Throw BadCMSG)
    \<and> cm_iterate m (cm_unpadded es l t v) (cm_begin (cm_unpadded es l t v)) = Undef"
proof -
  let ?cm = "cm_unpadded es l t v"
  have "cm_iterate m ?cm (length ([] :: byte list), length (cm_encode_all es) + (16 + length v)) = Undef"
    by (rule cm_unpadded_from) (use assms(5-7) in \<open>simp_all add: cm_unpadded_def cm_copy_def\<close>)
  then have "cm_iterate m ?cm (cm_begin ?cm) = Undef"
    by (simp add: cm_begin_def cm_unpadded_def cm_copy_def cmsg_header_def)
  then show ?thesis using cm_iterate_aligned [OF assms(1-4)] by blast
qed

text \<open>
  The documented loop over a padded message and over the same message without its padding; 16 bytes
  of which the header says that they are 5 are refused.
\<close>

theorem control_message_iteration_witness:
  "\<exists>off. cm_iterate 3 (cm_of_value 1 1 [5, 0, 0, 0]) (cm_begin (cm_of_value 1 1 [5, 0, 0, 0])) = Ok [off]
     \<and> off + cmsg_len (cm_of_value 1 1 [5, 0, 0, 0]) off \<le> 24
     \<and> cm_iterate 2 (cm_unpadded [] 1 1 [5, 0, 0, 0]) (cm_begin (cm_unpadded [] 1 1 [5, 0, 0, 0])) = Undef
     \<and> cm_iterate 3 (cm_copy (cmsg_header 5 1 1)) (cm_begin (cm_copy (cmsg_header 5 1 1))) = Throw BadCMSG"
proof -
  let ?cm = "cm_of_value 1 1 [5, 0, 0, 0]"
  have enc: "?cm = \<lparr>cm_buffer = cm_encode_all [(1, 1, [5, 0, 0, 0])], cm_used = 24\<rparr>"
    by (simp add: cm_of_value_def cm_append_full cm_empty_def size_t_max_def)
  then have "cm_used ?cm = 24" "length (cm_buffer ?cm) = 24" by simp_all
  then have "cm_used ?cm \<le> length (cm_buffer ?cm)" "cm_used ?cm < size_t_max" "8 dvd cm_used ?cm" "cm_used ?cm div 16 < 3"
    by (simp_all add: size_t_max_def)
  from control_message_iteration [OF this, of "[]" 1 1 "[5, 0, 0, 0]" 2]
  have T: "(\<exists>offs. cm_iterate 3 ?cm (cm_begin ?cm) = Ok offs \<and> (\<forall>off \<in> set offs. off + cmsg_len ?cm off \<le> 24))
      \<or> cm_iterate 3 ?cm (cm_begin ?cm) = Throw BadCMSG"
    "cm_iterate 2 (cm_unpadded [] 1 1 [5, 0, 0, 0]) (cm_begin (cm_unpadded [] 1 1 [5, 0, 0, 0])) = Undef"
    using \<open>cm_used ?cm = 24\<close> by (simp_all add: cm_unpadded_def cm_copy_def cmsg_header_def size_t_max_def)
  obtain offs where offs: "cm_iterate 3 ?cm (cm_begin ?cm) = Ok offs" "length offs = 1"
    using cm_iterate_encode [of ?cm "[]" "[(1, 1, [5, 0, 0, 0])]" 3] map_eq_imp_length_eq
    by (fastforce simp: enc cm_begin_def size_t_max_def)
  then obtain off where "offs = [off]" by (auto simp: length_Suc_conv)
  moreover have "cm_iterate 3 (cm_copy (cmsg_header 5 1 1)) (cm_begin (cm_copy (cmsg_header 5 1 1))) = Throw BadCMSG"
    by (simp add: cm_copy_def cm_begin_def numeral_3_eq_3 iter_equal_def cm_end_def dereference_def HDR_def
        cmsg_len_def cmsg_header_def le_nat_le_bytes)
  ultimately show ?thesis using T offs by auto
qed

end
