(* ===== verification/SeqPacketSocket.thy ===== *)
theory SeqPacketSocket
  imports StreamSocket ControlMessage
begin

text \<open>
  Model of \<open>src/lib/SeqPacketSocket.cpp\<close>: packets that are sent whole, each with a control message,
  and queued while the kernel does not take them. The callbacks are arbitrary programs over the
  state of the socket; the queue holds the control messages by value. Destroying the socket inside
  one of its callbacks is not modelled.
\<close>

section \<open>State\<close>

type_synonym packet = "byte list \<times> control_message"

record 'w seq_packet_socket =
  sq_fd :: rawfd
  maxSize :: nat
  sq_connecting :: bool
  sq_sending :: bool
  sq_buffer :: "byte list"
  sq_cm :: control_message
  outputQueue :: "packet list"
  sq_world :: 'w

record 'w sq_callbacks =
  sqc_established :: "('w seq_packet_socket, unit) prog option"
  sqc_closed :: "int \<Rightarrow> ('w seq_packet_socket, unit) prog"
  sqc_received :: "byte list \<Rightarrow> control_message \<Rightarrow> ('w seq_packet_socket, unit) prog"
  sqc_sent :: "('w seq_packet_socket, unit) prog option"

definition sq_do :: "('w, 'a) prog \<Rightarrow> ('w seq_packet_socket, 'a) prog" where
  "sq_do = zoom sq_world (\<lambda>w. sq_world_update (\<lambda>_. w))"

definition sq_with_fd :: "(rawfd \<Rightarrow> ('w seq_packet_socket, 'a) prog) \<Rightarrow> ('w seq_packet_socket, 'a) prog" where
  "sq_with_fd f = (\<lambda>s. if sq_fd s < 0 then (Throw InvalidFD, s) else f (sq_fd s) s)"

definition opt_cb :: "('s, unit) prog option \<Rightarrow> ('s, unit) prog" where
  "opt_cb c = (case c of None \<Rightarrow> ret () | Some cb \<Rightarrow> cb)"

section \<open>Operations\<close>

definition sq_close :: "'w system \<Rightarrow> 'w runner_iface \<Rightarrow> 'w sq_callbacks \<Rightarrow> int \<Rightarrow> ('w seq_packet_socket, unit) prog" where
  "sq_close S R C error = when_st (\<lambda>s. sq_fd s \<ge> 0)
     (seq (sq_with_fd (\<lambda>fd. sq_do (ri_delFDListener R fd)))
       (seq (sq_with_fd (\<lambda>fd. sq_do (sys_close S fd)))
         (seq (modify_st (\<lambda>s. s\<lparr>sq_fd := - 1\<rparr>)) (sqc_closed C error))))"

text \<open>The bytes \<open>cm.data()\<close>, \<open>cm.size()\<close> give to the kernel.\<close>

definition cm_data :: "control_message \<Rightarrow> byte list" where
  "cm_data cm = take (cm_used cm) (cm_buffer cm)"

definition sendFast :: "'w system \<Rightarrow> packet \<Rightarrow> ('w seq_packet_socket, bool) prog" where
  "sendFast S d = bnd (sq_with_fd (\<lambda>fd. sq_do (sys_sendmsg S fd (fst d) (cm_data (snd d))))) (\<lambda>r. ret (r > 0))"

definition trySendFast :: "'w system \<Rightarrow> 'w runner_iface \<Rightarrow> 'w sq_callbacks \<Rightarrow> packet \<Rightarrow> ('w seq_packet_socket, bool) prog" where
  "trySendFast S R C d = try_catch (sendFast S d) (\<lambda>e. case e of
       SystemException _ err \<Rightarrow> Some (seq (sq_close S R C err) (ret False)) | _ \<Rightarrow> None)"

definition sq_queue :: "'w runner_iface \<Rightarrow> packet \<Rightarrow> ('w seq_packet_socket, unit) prog" where
  "sq_queue R d = seq (modify_st (\<lambda>s. s\<lparr>sq_sending := True\<rparr>))
     (seq (modify_st (\<lambda>s. s\<lparr>outputQueue := outputQueue s @ [d]\<rparr>))
       (sq_with_fd (\<lambda>fd. sq_do (ri_modifyFDListener R fd (or EVENT_IN EVENT_OUT)))))"

definition sq_send :: "'w system \<Rightarrow> 'w runner_iface \<Rightarrow> 'w sq_callbacks \<Rightarrow> packet \<Rightarrow> ('w seq_packet_socket, unit) prog" where
  "sq_send S R C d = bnd (branch (\<lambda>s. sq_sending s \<or> sq_connecting s) (ret False) (trySendFast S R C d))
     (\<lambda>sent. if \<not> sent then when_st (\<lambda>s. sq_fd s \<ge> 0) (sq_queue R d) else opt_cb (sqc_sent C))"

text \<open>\<open>send\<close> without a control message uses an empty one.\<close>

definition sq_send_plain :: "'w system \<Rightarrow> 'w runner_iface \<Rightarrow> 'w sq_callbacks \<Rightarrow> byte list \<Rightarrow> ('w seq_packet_socket, unit) prog" where
  "sq_send_plain S R C data = sq_send S R C (data, cm_empty)"

text \<open>The loop of \<open>sendSlow\<close>, whose result says whether the queue was emptied. It has fuel;
  \<open>sendSlow\<close> gives it one more than there are packets, which it never uses up.\<close>

fun sendSlow_loop :: "nat \<Rightarrow> 'w system \<Rightarrow> 'w runner_iface \<Rightarrow> 'w sq_callbacks \<Rightarrow> ('w seq_packet_socket, bool) prog" where
  "sendSlow_loop 0 S R C s = (NoFuel, s)"
| "sendSlow_loop (Suc n) S R C s = (case outputQueue s of
       [] \<Rightarrow> (Ok True, s)
     | d # _ \<Rightarrow> bnd (trySendFast S R C d) (\<lambda>sent. if sent
         then seq (modify_st (\<lambda>s. s\<lparr>outputQueue := tl (outputQueue s)\<rparr>)) (sendSlow_loop n S R C)
         else ret False) s)"

definition sendSlow :: "'w system \<Rightarrow> 'w runner_iface \<Rightarrow> 'w sq_callbacks \<Rightarrow> ('w seq_packet_socket, unit) prog" where
  "sendSlow S R C = (\<lambda>s. bnd (sendSlow_loop (Suc (length (outputQueue s))) S R C) (\<lambda>emptied. if emptied
     then seq (modify_st (\<lambda>s. s\<lparr>sq_sending := False\<rparr>))
       (seq (sq_with_fd (\<lambda>fd. sq_do (ri_modifyFDListener R fd EVENT_IN))) (opt_cb (sqc_sent C)))
     else ret ()) s)"

definition sq_checkConnectionEstablished :: "'w runner_iface \<Rightarrow> 'w sq_callbacks \<Rightarrow> event_mask \<Rightarrow> ('w seq_packet_socket, unit) prog" where
  "sq_checkConnectionEstablished R C events = when_st
     (\<lambda>s. sq_connecting s \<and> has_event events (or EVENT_IN EVENT_OUT) \<and> \<not> has_event events (or EVENT_ERR EVENT_HUP))
     (seq (modify_st (\<lambda>s. s\<lparr>sq_connecting := False\<rparr>))
       (seq (opt_cb (sqc_established C))
         (when_st (\<lambda>s. \<not> sq_sending s) (sq_with_fd (\<lambda>fd. sq_do (ri_modifyFDListener R fd EVENT_IN))))))"

definition MAX_CM_SIZE :: nat where "MAX_CM_SIZE = 1024"

definition allocateReceiveBuffers :: "'w seq_packet_socket \<Rightarrow> 'w seq_packet_socket" where
  "allocateReceiveBuffers s = s\<lparr>sq_buffer := (if sq_buffer s = [] then resize_list (maxSize s) 0 (sq_buffer s) else sq_buffer s),
     sq_cm := (if capacity (sq_cm s) < MAX_CM_SIZE then reserve MAX_CM_SIZE (sq_cm s) else sq_cm s)\<rparr>"

text \<open>The kernel fills the start of the two buffers; \<open>msg_controllen\<close> is the length of what it wrote.\<close>

definition sq_receive :: "'w system \<Rightarrow> 'w sq_callbacks \<Rightarrow> ('w seq_packet_socket, unit) prog" where
  "sq_receive S C = seq (modify_st allocateReceiveBuffers)
     (\<lambda>s. bnd (sq_with_fd (\<lambda>fd. sq_do (sys_recvmsg S fd (length (sq_buffer s)) (capacity (sq_cm s))))) (\<lambda>(ssize, bs, control).
       seq (modify_st (\<lambda>s. s\<lparr>sq_buffer := overwrite 0 bs (sq_buffer s),
              sq_cm := (sq_cm s)\<lparr>cm_buffer := overwrite 0 control (cm_buffer (sq_cm s))\<rparr>\<rparr>))
         (if ssize \<ge> 0
          then seq (zoom sq_cm (\<lambda>c. sq_cm_update (\<lambda>_. c)) (markUsed (length control)))
            (\<lambda>s. sqc_received C (take (nat ssize) (sq_buffer s)) (sq_cm s) s)
          else ret ())) s)"

definition sq_checkIncomingData :: "'w system \<Rightarrow> 'w runner_iface \<Rightarrow> 'w sq_callbacks \<Rightarrow> event_mask \<Rightarrow> ('w seq_packet_socket, unit) prog" where
  "sq_checkIncomingData S R C events = try_catch (if has_event events EVENT_IN then sq_receive S C else ret ())
     (\<lambda>e. case e of SystemException _ err \<Rightarrow> Some (sq_close S R C err) | _ \<Rightarrow> None)"

definition sq_checkOutgoingData :: "'w system \<Rightarrow> 'w runner_iface \<Rightarrow> 'w sq_callbacks \<Rightarrow> event_mask \<Rightarrow> ('w seq_packet_socket, unit) prog" where
  "sq_checkOutgoingData S R C events = when_st (\<lambda>s. sq_fd s \<ge> 0 \<and> has_event events EVENT_OUT) (sendSlow S R C)"

definition sq_checkConnectionClosed :: "'w system \<Rightarrow> 'w runner_iface \<Rightarrow> 'w sq_callbacks \<Rightarrow> event_mask \<Rightarrow> ('w seq_packet_socket, unit) prog" where
  "sq_checkConnectionClosed S R C events = when_st (\<lambda>s. sq_fd s \<ge> 0 \<and> has_event events (or EVENT_HUP EVENT_ERR))
     (bnd (if has_event events EVENT_ERR then sq_with_fd (\<lambda>fd. sq_do (sys_getSocketError S fd)) else ret 0)
       (\<lambda>error. sq_close S R C error))"

definition sq_handleEventsCb :: "'w system \<Rightarrow> 'w runner_iface \<Rightarrow> 'w sq_callbacks \<Rightarrow> event_mask \<Rightarrow> ('w seq_packet_socket, unit) prog" where
  "sq_handleEventsCb S R C events = seq (sq_checkConnectionEstablished R C events)
     (seq (sq_checkIncomingData S R C events)
       (seq (sq_checkOutgoingData S R C events) (sq_checkConnectionClosed S R C events)))"

section \<open>Construction and destruction\<close>

definition TYPE_SEQPACKET :: int where "TYPE_SEQPACKET = 5 + 2048 + 524288"

definition sq_blank :: "nat \<Rightarrow> 'w \<Rightarrow> 'w seq_packet_socket" where
  "sq_blank n w = \<lparr>sq_fd = - 1, maxSize = n, sq_connecting = False, sq_sending = False, sq_buffer = [],
     sq_cm = cm_empty, outputQueue = [], sq_world = w\<rparr>"

definition sq_connect :: "'w system \<Rightarrow> 'w runner_iface \<Rightarrow> int \<Rightarrow> byte list option \<Rightarrow> int \<times> byte list \<Rightarrow>
    ('w seq_packet_socket, unit) prog" where
  "sq_connect S R protocol local remote = bnd (sq_do (sys_socket S (fst remote) TYPE_SEQPACKET protocol)) (\<lambda>fd.
     seq (modify_st (\<lambda>s. s\<lparr>sq_fd := fd, sq_connecting := True, sq_sending := False\<rparr>))
       (on_unwind (seq (case local of None \<Rightarrow> ret () | Some a \<Rightarrow> sq_do (sys_bind S fd a))
            (seq (sq_do (sys_connect S fd (snd remote)))
              (sq_do (ri_addFDListener R fd (or EVENT_IN EVENT_OUT)))))
         (sq_do (sys_close S fd))))"

definition sq_adopt :: "'w system \<Rightarrow> 'w runner_iface \<Rightarrow> rawfd \<Rightarrow> ('w seq_packet_socket, unit) prog" where
  "sq_adopt S R fd = (if fd < 0 then throw InvalidFD
     else seq (modify_st (\<lambda>s. s\<lparr>sq_fd := fd, sq_connecting := False, sq_sending := False\<rparr>))
       (on_unwind (seq (sq_do (sys_setCloseOnExec S fd))
            (seq (sq_do (sys_setNonBlock S fd)) (sq_do (ri_addFDListener R fd EVENT_IN))))
         (sq_do (sys_close S fd))))"

definition sq_destroy :: "'w system \<Rightarrow> 'w runner_iface \<Rightarrow> ('w seq_packet_socket, unit) prog" where
  "sq_destroy S R = noexcept (when_st (\<lambda>s. sq_fd s \<ge> 0)
     (sq_with_fd (\<lambda>fd. seq (sq_do (ri_delFDListener R fd)) (sq_do (sys_close S fd)))))"

definition sq_getName :: "'w system \<Rightarrow> ('w seq_packet_socket, byte list) prog" where
  "sq_getName S = sq_with_fd (\<lambda>fd. sq_do (sys_getSockName S fd))"

definition sq_getPeer :: "'w system \<Rightarrow> ('w seq_packet_socket, byte list) prog" where
  "sq_getPeer S = sq_with_fd (\<lambda>fd. sq_do (sys_getPeerName S fd))"

lemma sq_do_run: "sq_do m s = (case m (sq_world s) of (r, w) \<Rightarrow> (r, s\<lparr>sq_world := w\<rparr>))"
  by (simp add: sq_do_def zoom_run)

end
