(* ===== verification/SeqPacketProps.thy ===== *)
theory SeqPacketProps
  imports SeqPacketSocket StreamSocketProps
begin

text \<open>
  What a \<open>SeqPacketSocket\<close> promises: packets reach the wire whole, once and in the order they were
  given to \<open>send\<close>, directly or through the queue; and the exception to it, the empty packet.
\<close>

section \<open>The environment of a sender\<close>

type_synonym wire_packet = "byte list \<times> byte list"

definition on_wire :: "packet \<Rightarrow> wire_packet" where
  "on_wire d = (fst d, cm_data (snd d))"

text \<open>A \<open>sendmsg\<close> that returns a number that is not negative has sent the packet; that number is its
  size, 0 for an empty one.\<close>

definition packet_contract :: "('w \<Rightarrow> wire_packet list) \<Rightarrow> 'w system \<Rightarrow> bool" where
  "packet_contract wire S \<longleftrightarrow> (\<forall>fd bs cm w r w'. sys_sendmsg S fd bs cm w = (r, w') \<longrightarrow> (case r of
       Ok n \<Rightarrow> if 0 \<le> n then n = int (length bs) \<and> wire w' = wire w @ [(bs, cm)] else wire w' = wire w
     | _ \<Rightarrow> wire w' = wire w))"

text \<open>Callbacks that return and leave descriptor, queue, sending state and wire alone.\<close>

definition calm :: "('w \<Rightarrow> wire_packet list) \<Rightarrow> ('w seq_packet_socket, unit) prog \<Rightarrow> bool" where
  "calm wire p \<longleftrightarrow> (\<forall>s. fst (p s) = Ok () \<and> sq_fd (snd (p s)) = sq_fd s \<and> outputQueue (snd (p s)) = outputQueue s
     \<and> sq_sending (snd (p s)) = sq_sending s \<and> wire (sq_world (snd (p s))) = wire (sq_world s))"

definition sq_env :: "('w \<Rightarrow> wire_packet list) \<Rightarrow> 'w system \<Rightarrow> 'w runner_iface \<Rightarrow> 'w sq_callbacks \<Rightarrow> bool" where
  "sq_env wire S R C \<longleftrightarrow> packet_contract wire S
     \<and> (\<forall>fd ev w. fst (ri_modifyFDListener R fd ev w) = Ok () \<and> wire (snd (ri_modifyFDListener R fd ev w)) = wire w)
     \<and> (\<forall>fd w. wire (snd (ri_delFDListener R fd w)) = wire w)
     \<and> (\<forall>fd w. wire (snd (sys_close S fd w)) = wire w)
     \<and> (\<forall>e. calm wire (sqc_closed C e)) \<and> calm wire (opt_cb (sqc_established C)) \<and> calm wire (opt_cb (sqc_sent C))"

definition in_transit :: "('w \<Rightarrow> wire_packet list) \<Rightarrow> 'w seq_packet_socket \<Rightarrow> wire_packet list" where
  "in_transit wire s = wire (sq_world s) @ map on_wire (outputQueue s)"

text \<open>The packets in the queue are not empty, and while there are any the socket is in the sending
  state, in which \<open>send\<close> queues: otherwise a packet could overtake them.\<close>

definition no_overtaking :: "'w seq_packet_socket \<Rightarrow> bool" where
  "no_overtaking s \<longleftrightarrow> (\<forall>d \<in> set (outputQueue s). fst d \<noteq> []) \<and> (outputQueue s \<noteq> [] \<longrightarrow> sq_sending s)"

definition forwards :: "('w \<Rightarrow> wire_packet list) \<Rightarrow> ('w seq_packet_socket, 'a) prog \<Rightarrow> bool" where
  "forwards wire p \<longleftrightarrow> (\<forall>s. no_overtaking s \<longrightarrow> no_overtaking (snd (p s)) \<and> in_transit wire (snd (p s)) = in_transit wire s)"

named_theorems forwards_intros \<open>rules for \<open>forwards\<close>\<close>

lemma forwardsI: "(\<And>s. no_overtaking s \<Longrightarrow> no_overtaking (snd (p s)) \<and> in_transit wire (snd (p s)) = in_transit wire s) \<Longrightarrow> forwards wire p"
  by (simp add: forwards_def)

lemma forwardsD: "forwards wire p \<Longrightarrow> no_overtaking s \<Longrightarrow> p s = (r, t) \<Longrightarrow> no_overtaking t \<and> in_transit wire t = in_transit wire s"
  by (metis forwards_def snd_conv)

lemma forwards_ret [forwards_intros]: "forwards wire (ret x)"
  by (simp add: forwards_def)

lemma forwards_bnd [forwards_intros]:
  fixes m :: "('w seq_packet_socket, 'a) prog"
  assumes "forwards wire m" and "\<And>x. forwards wire (f x)"
  shows "forwards wire (bnd m f)"
proof (rule forwardsI)
  fix s :: "'w seq_packet_socket" assume "no_overtaking s"
  moreover obtain r t where m: "m s = (r, t)" by (cases "m s")
  ultimately have t: "no_overtaking t \<and> in_transit wire t = in_transit wire s" using assms(1) forwardsD by blast
  then show "no_overtaking (snd (bnd m f s)) \<and> in_transit wire (snd (bnd m f s)) = in_transit wire s"
    using assms(2) m by (cases r) (simp_all add: bnd_run forwards_def)
qed

lemma forwards_seq [forwards_intros]: "forwards wire m \<Longrightarrow> forwards wire k \<Longrightarrow> forwards wire (seq m k)"
  by (simp add: seq_def forwards_bnd)

lemma forwards_when [forwards_intros]: "forwards wire m \<Longrightarrow> forwards wire (when_st b m)"
  by (simp add: forwards_def when_run)

lemma forwards_with_fd [forwards_intros]: "(\<And>fd. forwards wire (f fd)) \<Longrightarrow> forwards wire (sq_with_fd f)"
  by (simp add: forwards_def sq_with_fd_def)

lemma forwards_do [forwards_intros]:
  fixes m :: "('w, 'a) prog"
  assumes "\<And>w. wire (snd (m w)) = wire w" shows "forwards wire (sq_do m)"
proof (rule forwardsI)
  fix s :: "'w seq_packet_socket" assume "no_overtaking s"
  moreover obtain r w where m: "m (sq_world s) = (r, w)" by (cases "m (sq_world s)")
  moreover have "wire w = wire (sq_world s)" using assms [of "sq_world s"] m by simp
  ultimately show "no_overtaking (snd (sq_do m s)) \<and> in_transit wire (snd (sq_do m s)) = in_transit wire s"
    by (simp add: sq_do_run no_overtaking_def in_transit_def)
qed

lemma forwards_calm: "calm wire p \<Longrightarrow> forwards wire p"
  by (simp add: forwards_def calm_def no_overtaking_def in_transit_def)

lemma forwards_fields [forwards_intros]:
  "forwards wire (modify_st (\<lambda>s. s\<lparr>sq_connecting := b\<rparr>))"
  "forwards wire (modify_st (\<lambda>s. s\<lparr>sq_fd := fd\<rparr>))"
  by (simp_all add: forwards_def no_overtaking_def in_transit_def)

lemma sq_envD:
  assumes "sq_env wire S R C"
  shows "packet_contract wire S" "fst (ri_modifyFDListener R fd ev w) = Ok ()"
    "wire (snd (ri_modifyFDListener R fd ev w)) = wire w" "wire (snd (ri_delFDListener R fd w)) = wire w"
    "wire (snd (sys_close S fd w)) = wire w" "calm wire (sqc_closed C e)" "calm wire (opt_cb (sqc_established C))"
    "calm wire (opt_cb (sqc_sent C))"
  using assms by (simp_all add: sq_env_def)

section \<open>Closing and sending one packet\<close>

lemma forwards_close:
  assumes env: "sq_env wire S R C" shows "forwards wire (sq_close S R C e)"
  unfolding sq_close_def
  by (intro forwards_intros sq_envD(4,5) [OF env] forwards_calm sq_envD(6) [OF env])

text \<open>A close that returns leaves the socket closed.\<close>

lemma sq_close_closed:
  assumes "sq_env wire S R C" and "sq_close S R C e s = (Ok u, t)"
  shows "sq_fd t < 0"
proof (cases "sq_fd s < 0")
  case True
  then show ?thesis using assms(2) by (simp add: sq_close_def when_run)
next
  case False
  obtain s1 where "(sqc_closed C e) (s1\<lparr>sq_fd := - 1\<rparr>) = (Ok u, t)"
    using assms(2) False by (auto simp: sq_close_def when_run elim!: seq_OkE)
  moreover have "sq_fd (snd (sqc_closed C e (s1\<lparr>sq_fd := - 1\<rparr>))) = - 1"
    using sq_envD(6) [OF assms(1), of e] by (simp add: calm_def)
  ultimately show ?thesis by simp
qed

lemma trySendFast_cases:
  assumes env: "sq_env wire S R C" and d: "fst d \<noteq> []"
  obtains (sent) t where "trySendFast S R C d s = (Ok True, t)" "outputQueue t = outputQueue s"
      "wire (sq_world t) = wire (sq_world s) @ [on_wire d]" "sq_fd t = sq_fd s" "0 \<le> sq_fd s"
      "sq_sending t = sq_sending s"
  | (unsent) r t where "trySendFast S R C d s = (r, t)" "r \<noteq> Ok True"
      "no_overtaking s \<longrightarrow> no_overtaking t \<and> in_transit wire t = in_transit wire s"
proof (cases "sq_fd s < 0")
  case True
  then show ?thesis
    by (intro unsent [of "Throw InvalidFD" s])
      (simp_all add: trySendFast_def try_catch_run sendFast_def bnd_run sq_with_fd_def)
next
  case False
  obtain r w where send: "sys_sendmsg S (sq_fd s) (fst d) (cm_data (snd d)) (sq_world s) = (r, w)"
    by (metis surj_pair)
  have con: "case r of Ok n \<Rightarrow> if 0 \<le> n then n = int (length (fst d)) \<and> wire w = wire (sq_world s) @ [on_wire d]
      else wire w = wire (sq_world s) | _ \<Rightarrow> wire w = wire (sq_world s)"
    using sq_envD(1) [OF env] send unfolding packet_contract_def on_wire_def by blast
  let ?t = "s\<lparr>sq_world := w\<rparr>"
  have fast: "sendFast S d s = (case r of Ok n \<Rightarrow> (Ok (n > 0), ?t) | _ \<Rightarrow> (fail_as r, ?t))"
    using False send by (cases r) (simp_all add: sendFast_def bnd_run sq_with_fd_def sq_do_run)
  show ?thesis
  proof (cases "\<exists>n. r = Ok n \<and> 0 < n")
    case True
    then show ?thesis using con fast False
      by (intro sent [of ?t]) (auto simp: trySendFast_def try_catch_run)
  next
    case not_sent: False
    have same: "no_overtaking s \<longrightarrow> no_overtaking ?t \<and> in_transit wire ?t = in_transit wire s"
      using con not_sent d by (cases r) (auto simp: no_overtaking_def in_transit_def split: if_splits)
    show ?thesis
    proof (cases "\<exists>f err. r = Throw (SystemException f err)")
      case True
      then obtain f err where r: "r = Throw (SystemException f err)" by blast
      obtain r' u where cl: "seq (sq_close S R C err) (ret False) ?t = (r', u)" by (metis surj_pair)
      have ne: "r' \<noteq> Ok True" using cl by (auto simp: seq_run split: prod.splits outcome.splits)
      have fw: "forwards wire (seq (sq_close S R C err) (ret False))"
        by (rule forwards_seq [OF forwards_close [OF env] forwards_ret])
      have keep: "no_overtaking s \<longrightarrow> no_overtaking u \<and> in_transit wire u = in_transit wire s"
        using fw [unfolded forwards_def, rule_format, of ?t] same by (simp add: cl)
      have "trySendFast S R C d s = (r', u)"
        using fast r cl by (simp add: trySendFast_def try_catch_run)
      then show ?thesis using ne keep by (rule unsent)
    next
      case False
      have "trySendFast S R C d s = ((case r of Ok n \<Rightarrow> Ok (n > 0) | _ \<Rightarrow> fail_as r), ?t)"
        using fast False by (cases r) (auto simp: trySendFast_def try_catch_run split: exn.split)
      moreover have "(case r of Ok n \<Rightarrow> Ok (n > 0) | _ \<Rightarrow> fail_as r) \<noteq> Ok True"
        using not_sent by (cases r) auto
      ultimately show ?thesis using same by (rule unsent)
    qed
  qed
qed

section \<open>The queue\<close>

lemma forwards_sendSlow_loop:
  fixes S :: "'w system"
  assumes env: "sq_env wire S R C"
  shows "forwards wire (sendSlow_loop n S R C)"
proof (rule forwardsI)
  fix s :: "'w seq_packet_socket" assume "no_overtaking s"
  then show "no_overtaking (snd (sendSlow_loop n S R C s)) \<and> in_transit wire (snd (sendSlow_loop n S R C s)) = in_transit wire s"
  proof (induction n arbitrary: s)
    case (Suc n)
    show ?case
    proof (cases "outputQueue s")
      case Nil
      then show ?thesis using Suc.prems by simp
    next
      case (Cons d ds)
      then have d: "fst d \<noteq> []" using Suc.prems by (simp add: no_overtaking_def)
      show ?thesis
      proof (cases rule: trySendFast_cases [OF env d, of s])
        case (1 t)
        let ?u = "t\<lparr>outputQueue := tl (outputQueue t)\<rparr>"
        have u: "no_overtaking ?u" "in_transit wire ?u = in_transit wire s"
          using 1 Cons Suc.prems by (simp_all add: no_overtaking_def in_transit_def)
        with Suc.IH [OF u(1)] show ?thesis using 1(1) Cons by (simp add: bnd_run seq_run)
      next
        case (2 r t)
        then show ?thesis using Cons Suc.prems
          by (cases r) (auto simp: bnd_run)
      qed
    qed
  qed simp
qed

lemma sendSlow_loop_empties: "sendSlow_loop n S R C s = (Ok True, t) \<Longrightarrow> outputQueue t = []"
proof (induction n arbitrary: s)
  case (Suc n)
  then show ?case
    by (cases "outputQueue s") (auto simp: seq_def elim!: bnd_OkE split: if_splits)
qed simp

lemma forwards_sendSlow:
  fixes S :: "'w system"
  assumes env: "sq_env wire S R C" shows "forwards wire (sendSlow S R C)"
proof (rule forwardsI)
  fix s :: "'w seq_packet_socket" assume s: "no_overtaking s"
  obtain r t where loop: "sendSlow_loop (Suc (length (outputQueue s))) S R C s = (r, t)" by (metis surj_pair)
  have t: "no_overtaking t \<and> in_transit wire t = in_transit wire s"
    using forwardsD [OF forwards_sendSlow_loop [OF env] s loop] .
  let ?rest = "seq (sq_with_fd (\<lambda>fd. sq_do (ri_modifyFDListener R fd EVENT_IN))) (opt_cb (sqc_sent C))"
  have rest: "forwards wire ?rest"
    by (intro forwards_intros forwards_calm sq_envD(3,8) [OF env])
  show "no_overtaking (snd (sendSlow S R C s)) \<and> in_transit wire (snd (sendSlow S R C s)) = in_transit wire s"
  proof (cases "r = Ok True")
    case True
    have "outputQueue t = []" by (rule sendSlow_loop_empties) (rule loop [unfolded True])
    then have "no_overtaking (t\<lparr>sq_sending := False\<rparr>) \<and> in_transit wire (t\<lparr>sq_sending := False\<rparr>) = in_transit wire s"
      using t by (simp add: no_overtaking_def in_transit_def)
    moreover have "snd (sendSlow S R C s) = snd (?rest (t\<lparr>sq_sending := False\<rparr>))"
      using loop True by (simp add: sendSlow_def bnd_Ok seq_run [where m = "modify_st _"] del: sendSlow_loop.simps)
    ultimately show ?thesis using rest by (simp add: forwards_def)
  next
    case False
    then have "snd (sendSlow S R C s) = t"
      using loop by (cases r) (simp_all add: sendSlow_def bnd_run del: sendSlow_loop.simps)
    then show ?thesis using t by simp
  qed
qed

lemma forwards_writable:
  assumes env: "sq_env wire S R C" shows "forwards wire (sq_handleEventsCb S R C EVENT_OUT)"
proof -
  have "forwards wire (sq_checkConnectionEstablished R C EVENT_OUT)"
    unfolding sq_checkConnectionEstablished_def
    by (intro forwards_intros sq_envD [OF env] forwards_calm)
  moreover have "forwards wire (sq_checkIncomingData S R C EVENT_OUT)"
    by (simp add: sq_checkIncomingData_def forwards_def try_catch_run)
  moreover have "forwards wire (sq_checkOutgoingData S R C EVENT_OUT)"
    unfolding sq_checkOutgoingData_def by (intro forwards_when forwards_sendSlow [OF env])
  moreover have "forwards wire (sq_checkConnectionClosed S R C EVENT_OUT)"
    by (simp add: sq_checkConnectionClosed_def forwards_def when_run has_event_def event_masks)
  ultimately show ?thesis unfolding sq_handleEventsCb_def by (intro forwards_seq)
qed

section \<open>Histories of a sender\<close>

datatype sq_op = SqSend packet | SqWritable

fun sq_step :: "'w system \<Rightarrow> 'w runner_iface \<Rightarrow> 'w sq_callbacks \<Rightarrow> sq_op \<Rightarrow> ('w seq_packet_socket, unit) prog" where
  "sq_step S R C (SqSend d) = sq_send S R C d"
| "sq_step S R C SqWritable = sq_handleEventsCb S R C EVENT_OUT"

fun sq_run :: "'w system \<Rightarrow> 'w runner_iface \<Rightarrow> 'w sq_callbacks \<Rightarrow> sq_op list \<Rightarrow> 'w seq_packet_socket \<Rightarrow> 'w seq_packet_socket" where
  "sq_run S R C [] s = s"
| "sq_run S R C (x # xs) s = sq_run S R C xs (snd (sq_step S R C x s))"

text \<open>The packets whose \<open>send\<close> returned and left the socket open.\<close>

fun sq_accepted :: "'w system \<Rightarrow> 'w runner_iface \<Rightarrow> 'w sq_callbacks \<Rightarrow> sq_op list \<Rightarrow> 'w seq_packet_socket \<Rightarrow> packet list" where
  "sq_accepted S R C [] s = []"
| "sq_accepted S R C (x # xs) s = (case x of
       SqSend d \<Rightarrow> (case sq_send S R C d s of (r, t) \<Rightarrow> if r = Ok () \<and> 0 \<le> sq_fd t then [d] else [])
     | SqWritable \<Rightarrow> []) @ sq_accepted S R C xs (snd (sq_step S R C x s))"

lemma sq_queue_run:
  assumes env: "sq_env wire S R C" and fd: "0 \<le> sq_fd s" and run: "sq_queue R d s = (r, t)"
  shows "r = Ok ()" "sq_fd t = sq_fd s" "outputQueue t = outputQueue s @ [d]" "wire (sq_world t) = wire (sq_world s)"
    "sq_sending t"
proof -
  obtain w where m: "ri_modifyFDListener R (sq_fd s) (or EVENT_IN EVENT_OUT) (sq_world s) = (Ok (), w)"
    "wire w = wire (sq_world s)"
    using sq_envD(2,3) [OF env, of "sq_fd s" "or EVENT_IN EVENT_OUT" "sq_world s"]
    by (cases "ri_modifyFDListener R (sq_fd s) (or EVENT_IN EVENT_OUT) (sq_world s)") simp
  then have "sq_queue R d s = (Ok (), s\<lparr>sq_sending := True, outputQueue := outputQueue s @ [d], sq_world := w\<rparr>)"
    using fd by (simp add: sq_queue_def seq_run sq_with_fd_def sq_do_run)
  with run m(2) show "r = Ok ()" "sq_fd t = sq_fd s" "outputQueue t = outputQueue s @ [d]"
    "wire (sq_world t) = wire (sq_world s)" "sq_sending t" by auto
qed

lemma sq_queue_or_drop:
  assumes env: "sq_env wire S R C" and d: "fst d \<noteq> []" and s: "no_overtaking s"
    and run: "when_st (\<lambda>s. sq_fd s \<ge> 0) (sq_queue R d) s = (r, t)"
  shows "no_overtaking t \<and> in_transit wire t = in_transit wire s @ (if r = Ok () \<and> 0 \<le> sq_fd t then [on_wire d] else [])"
proof (cases "0 \<le> sq_fd s")
  case True
  then have "sq_queue R d s = (r, t)" using run by (simp add: when_run)
  from sq_queue_run [OF env True this] True d s show ?thesis by (simp add: no_overtaking_def in_transit_def)
next
  case False
  then show ?thesis using run s by (auto simp: when_run)
qed

lemma sq_send_step:
  assumes env: "sq_env wire S R C" and d: "fst d \<noteq> []" and s: "no_overtaking s"
    and run: "sq_send S R C d s = (r, t)"
  shows "no_overtaking t \<and> in_transit wire t = in_transit wire s @ (if r = Ok () \<and> 0 \<le> sq_fd t then [on_wire d] else [])"
proof (cases "sq_sending s \<or> sq_connecting s")
  case True
  then have "when_st (\<lambda>s. sq_fd s \<ge> 0) (sq_queue R d) s = (r, t)"
    using run by (simp add: sq_send_def bnd_run branch_run)
  then show ?thesis by (rule sq_queue_or_drop [OF env d s])
next
  case False
  show ?thesis
  proof (cases rule: trySendFast_cases [OF env d, of s])
    case (1 u)
    then have "opt_cb (sqc_sent C) u = (r, t)"
      using run False by (simp add: sq_send_def bnd_run branch_run)
    moreover have "\<forall>s. fst (opt_cb (sqc_sent C) s) = Ok () \<and> sq_fd (snd (opt_cb (sqc_sent C) s)) = sq_fd s
      \<and> outputQueue (snd (opt_cb (sqc_sent C) s)) = outputQueue s
      \<and> wire (sq_world (snd (opt_cb (sqc_sent C) s))) = wire (sq_world s)"
      using sq_envD(8) [OF env] by (simp add: calm_def)
    ultimately have cb: "r = Ok ()" "sq_fd t = sq_fd u" "outputQueue t = outputQueue u" "wire (sq_world t) = wire (sq_world u)"
      by (metis fst_conv, metis snd_conv, metis snd_conv, metis snd_conv)
    moreover have "outputQueue s = []" using False s by (auto simp: no_overtaking_def)
    ultimately show ?thesis using 1 by (simp add: no_overtaking_def in_transit_def)
  next
    case (2 q u)
    then have u: "no_overtaking u" "in_transit wire u = in_transit wire s" using s by auto
    show ?thesis
    proof (cases "q = Ok False")
      case True
      then have "when_st (\<lambda>s. sq_fd s \<ge> 0) (sq_queue R d) u = (r, t)"
        using run False 2(1) by (simp add: sq_send_def bnd_run branch_run)
      from sq_queue_or_drop [OF env d u(1) this] u(2) show ?thesis by simp
    next
      case not_ok: False
      then have "t = u \<and> r \<noteq> Ok ()"
        using run False 2(1,2) by (cases q) (auto simp: sq_send_def bnd_run branch_run)
      with u show ?thesis by simp
    qed
  qed
qed

lemma sq_run_in_order:
  fixes s :: "'w seq_packet_socket"
  assumes env: "sq_env wire S R C" and "no_overtaking s" and "\<forall>cm. SqSend ([], cm) \<notin> set ops"
  shows "no_overtaking (sq_run S R C ops s) \<and> in_transit wire (sq_run S R C ops s)
    = in_transit wire s @ map on_wire (sq_accepted S R C ops s)"
  using assms(2-)
proof (induction ops arbitrary: s)
  case (Cons x ops)
  obtain r t where x: "sq_step S R C x s = (r, t)" by (metis surj_pair)
  have "no_overtaking t \<and> in_transit wire t @ map on_wire (sq_accepted S R C ops t)
      = in_transit wire s @ map on_wire (sq_accepted S R C (x # ops) s)"
  proof (cases x)
    case (SqSend d)
    then have "fst d \<noteq> []" using Cons.prems(2) by (cases d) auto
    from sq_send_step [OF env this Cons.prems(1)] x SqSend show ?thesis by simp
  next
    case SqWritable
    from forwardsD [OF forwards_writable [OF env] Cons.prems(1)] x SqWritable show ?thesis by simp
  qed
  then show ?case using Cons.IH [of t] Cons.prems(2) x by simp
qed simp

section \<open>Properties\<close>

text \<open>
  C27: a packet socket delivers its packets in order, each whole and once. Whatever mixture of
  \<open>send\<close> calls and writable events happens, whenever the kernel refuses packets and whichever calls
  fail, the packets on the wire followed by the queued ones are the old ones followed by the
  packets whose \<open>send\<close> left the socket open; none overtakes another. Empty packets are excluded.
\<close>

theorem packets_in_order:
  assumes "sq_env wire S R C" and "no_overtaking s" and "\<forall>cm. SqSend ([], cm) \<notin> set ops"
  shows "wire (sq_world (sq_run S R C ops s)) @ map on_wire (outputQueue (sq_run S R C ops s))
    = wire (sq_world s) @ map on_wire (outputQueue s) @ map on_wire (sq_accepted S R C ops s)"
  using sq_run_in_order [OF assms] by (simp add: in_transit_def)

text \<open>A world that is the wire and the number of packets the kernel still takes.\<close>

definition packet_system :: "(wire_packet list \<times> nat) system" where
  "packet_system = idle_system\<lparr>sys_sendmsg := (\<lambda>fd bs cm (w, room). if room = 0 then (Ok (- 1), (w, room))
     else (Ok (int (length bs)), (w @ [(bs, cm)], room - 1)))\<rparr>"

definition calm_callbacks :: "'w sq_callbacks" where
  "calm_callbacks = \<lparr>sqc_established = None, sqc_closed = (\<lambda>_. ret ()), sqc_received = (\<lambda>_ _. ret ()), sqc_sent = None\<rparr>"

lemma packet_system_env: "sq_env fst packet_system quiet_runner calm_callbacks"
  by (auto simp: sq_env_def packet_contract_def packet_system_def quiet_runner_def calm_callbacks_def calm_def
      opt_cb_def idle_system_def the_system_def sys_close_impl_def idle_kernel_def bnd_run split: if_splits)

definition open_packet_socket :: "'w \<Rightarrow> 'w seq_packet_socket" where
  "open_packet_socket w = (sq_blank 100 w)\<lparr>sq_fd := 5\<rparr>"

lemma open_packet_socket_simps:
  "sq_world (open_packet_socket w) = w" "outputQueue (open_packet_socket w) = []"
  by (simp_all add: open_packet_socket_def sq_blank_def)

theorem packets_in_order_witness:
  "let s = sq_run packet_system quiet_runner calm_callbacks [SqSend ([1], cm_empty), SqSend ([2, 3], cm_empty), SqWritable]
       (open_packet_socket ([], 1))
   in fst (sq_world s) @ map on_wire (outputQueue s) = [([1], []), ([2, 3], [])] \<and> outputQueue s \<noteq> []"
proof -
  let ?ops = "[SqSend ([1], cm_empty), SqSend ([2, 3], cm_empty), SqWritable]"
  have ok: "no_overtaking (open_packet_socket ([], 1))" by (simp add: no_overtaking_def open_packet_socket_def sq_blank_def)
  have acc: "sq_accepted packet_system quiet_runner calm_callbacks ?ops (open_packet_socket ([], 1))
      = [([1], cm_empty), ([2, 3], cm_empty)]"
    and q: "outputQueue (sq_run packet_system quiet_runner calm_callbacks ?ops (open_packet_socket ([], 1))) \<noteq> []"
    by (simp_all add: open_packet_socket_def sq_blank_def sq_send_def bnd_run branch_run trySendFast_def try_catch_run
        sendFast_def sq_with_fd_def sq_do_run packet_system_def calm_callbacks_def opt_cb_def when_run sq_queue_def
        seq_run quiet_runner_def sq_handleEventsCb_def sq_checkConnectionEstablished_def sq_checkIncomingData_def
        sq_checkOutgoingData_def sq_checkConnectionClosed_def sendSlow_def has_event_def event_masks)
  show ?thesis
    using packets_in_order [OF packet_system_env ok, of ?ops] acc q
    by (simp add: Let_def open_packet_socket_simps on_wire_def cm_data_def del: sq_run.simps sq_accepted.simps)
      (simp add: cm_empty_def)
qed

text \<open>
  An empty packet is never recognised as sent. Sending one transmits it and queues it as well;
  once it is first in the queue every writable event transmits it again, and nothing behind it
  is ever sent, although the kernel accepts everything.
\<close>

theorem empty_packet_blocks_queue:
  assumes "0 \<le> sq_fd s" and "\<not> sq_connecting s" and "outputQueue s = ([], cm) # rest"
    and "\<And>w. sys_sendmsg S (sq_fd s) [] (cm_data cm) w = (Ok 0, deliver w)"
    and "\<And>w. ri_modifyFDListener R (sq_fd s) (or EVENT_IN EVENT_OUT) w = (Ok (), w)"
  shows "((\<lambda>s. snd (sq_handleEventsCb S R C EVENT_OUT s)) ^^ k) s = s\<lparr>sq_world := (deliver ^^ k) (sq_world s)\<rparr>
    \<and> sq_send S R C ([], cm) (s\<lparr>sq_sending := False, outputQueue := []\<rparr>)
      = (Ok (), s\<lparr>sq_world := deliver (sq_world s), sq_sending := True, outputQueue := [([], cm)]\<rparr>)"
proof
  have step: "sq_handleEventsCb S R C EVENT_OUT u = (Ok (), u\<lparr>sq_world := deliver (sq_world u)\<rparr>)"
    if "sq_fd u = sq_fd s" "\<not> sq_connecting u" "outputQueue u = ([], cm) # rest" for u
    using that assms(1,4)
    by (simp add: sq_handleEventsCb_def seq_run sq_checkConnectionEstablished_def when_run sq_checkIncomingData_def
        try_catch_run sq_checkOutgoingData_def sq_checkConnectionClosed_def sendSlow_def bnd_run trySendFast_def
        sendFast_def sq_with_fd_def sq_do_run has_event_def event_masks)
  show "((\<lambda>s. snd (sq_handleEventsCb S R C EVENT_OUT s)) ^^ k) s = s\<lparr>sq_world := (deliver ^^ k) (sq_world s)\<rparr>"
    by (induction k) (simp_all add: step assms(2,3))
  show "sq_send S R C ([], cm) (s\<lparr>sq_sending := False, outputQueue := []\<rparr>)
      = (Ok (), s\<lparr>sq_world := deliver (sq_world s), sq_sending := True, outputQueue := [([], cm)]\<rparr>)"
    using assms(1,2,4,5)
    by (simp add: sq_send_def bnd_run branch_run trySendFast_def try_catch_run sendFast_def sq_with_fd_def sq_do_run
        when_run sq_queue_def seq_run)
qed

theorem empty_packet_blocks_queue_witness:
  "\<exists>S s. outputQueue s = [([], cm_empty), ([1], cm_empty)] \<and> sq_world s = (0 :: nat)
     \<and> sq_world (((\<lambda>s. snd (sq_handleEventsCb S quiet_runner calm_callbacks EVENT_OUT s)) ^^ 3) s) = 3
     \<and> outputQueue (((\<lambda>s. snd (sq_handleEventsCb S quiet_runner calm_callbacks EVENT_OUT s)) ^^ 3) s) = outputQueue s"
proof -
  let ?S = "idle_system\<lparr>sys_sendmsg := (\<lambda>_ _ _ w. (Ok 0, Suc w))\<rparr> :: nat system"
  let ?s = "(open_packet_socket 0)\<lparr>outputQueue := [([], cm_empty), ([1], cm_empty)], sq_sending := True\<rparr> :: nat seq_packet_socket"
  have "0 \<le> sq_fd ?s" "\<not> sq_connecting ?s" "outputQueue ?s = ([], cm_empty) # [([1], cm_empty)]"
    by (simp_all add: open_packet_socket_def sq_blank_def)
  from empty_packet_blocks_queue [where S = ?S and deliver = Suc and R = quiet_runner and C = calm_callbacks and k = 3, OF this]
  have "((\<lambda>s. snd (sq_handleEventsCb ?S quiet_runner calm_callbacks EVENT_OUT s)) ^^ 3) ?s = ?s\<lparr>sq_world := 3\<rparr>"
    by (simp add: quiet_runner_def open_packet_socket_simps)
  then show ?thesis by (intro exI [of _ ?S] exI [of _ ?s]) (simp add: open_packet_socket_simps)
qed

end
