(* ===== verification/ListeningSocket.thy ===== *)
theory ListeningSocket
  imports StreamSocket
begin

text \<open>
  Model of \<open>src/lib/ListeningSocket.cpp\<close>. \<open>ls_accepted\<close> is the \<open>FileDescriptor\<close> on the stack of
  \<open>accept\<close>: \<open>newAcceptedSocketCb\<close> gets it by reference and may release it, which sets the field to
  \<open>-1\<close>; what is left in it is closed when the function is left, by a return or by an exception.
\<close>

section \<open>State\<close>

record 'w listening_socket =
  ls_fd :: rawfd
  ls_accepted :: rawfd
  ls_world :: 'w

record 'w ls_callbacks =
  newAcceptedSocketCb :: "rawfd \<Rightarrow> byte list \<Rightarrow> ('w listening_socket, unit) prog"
  handleExceptionCb :: "(exn \<Rightarrow> ('w listening_socket, unit) prog) option"

definition ls_do :: "('w, 'a) prog \<Rightarrow> ('w listening_socket, 'a) prog" where
  "ls_do = zoom ls_world (\<lambda>w. ls_world_update (\<lambda>_. w))"

definition ls_with_fd :: "(rawfd \<Rightarrow> ('w listening_socket, 'a) prog) \<Rightarrow> ('w listening_socket, 'a) prog" where
  "ls_with_fd f = (\<lambda>s. if ls_fd s < 0 then (Throw InvalidFD, s) else f (ls_fd s) s)"

section \<open>Accepting\<close>

definition close_accepted :: "'w system \<Rightarrow> ('w listening_socket, unit) prog" where
  "close_accepted S = seq (noexcept (\<lambda>s. if ls_accepted s \<ge> 0 then ls_do (sys_close S (ls_accepted s)) s else (Ok (), s)))
     (modify_st (\<lambda>s. s\<lparr>ls_accepted := - 1\<rparr>))"

definition ls_accept :: "'w system \<Rightarrow> 'w ls_callbacks \<Rightarrow> ('w listening_socket, bool) prog" where
  "ls_accept S C = bnd (ls_with_fd (\<lambda>fd. ls_do (sys_accept S fd))) (\<lambda>(fd, sa).
     seq (modify_st (\<lambda>s. s\<lparr>ls_accepted := fd\<rparr>))
       (if fd \<ge> 0
        then seq (on_unwind (newAcceptedSocketCb C fd sa) (close_accepted S)) (seq (close_accepted S) (ret True))
        else ret False))"

definition handleEventsOrException :: "'w system \<Rightarrow> 'w ls_callbacks \<Rightarrow> (exn \<Rightarrow> ('w listening_socket, unit) prog) \<Rightarrow>
    ('w listening_socket, bool) prog" where
  "handleEventsOrException S C handler = try_catch (ls_accept S C) (\<lambda>e. Some (seq (handler e) (ret False)))"

text \<open>The loop has fuel: it ends when the kernel has no more connections.\<close>

fun ls_handleEventsCb :: "nat \<Rightarrow> 'w system \<Rightarrow> 'w ls_callbacks \<Rightarrow> ('w listening_socket, unit) prog" where
  "ls_handleEventsCb 0 S C s = (NoFuel, s)"
| "ls_handleEventsCb (Suc n) S C s = bnd
     (case handleExceptionCb C of Some handler \<Rightarrow> handleEventsOrException S C handler | None \<Rightarrow> ls_accept S C)
     (\<lambda>again. if again then ls_handleEventsCb n S C else ret ()) s"

section \<open>Construction and destruction\<close>

text \<open>The argument \<open>sa\<close> is the family and the bytes of the address.\<close>

definition ls_listen :: "'w system \<Rightarrow> 'w runner_iface \<Rightarrow> int \<Rightarrow> int \<Rightarrow> int \<times> byte list \<Rightarrow> ('w listening_socket, unit) prog" where
  "ls_listen S R type protocol sa = bnd (ls_do (sys_socket S (fst sa) (or type (or 2048 524288)) protocol)) (\<lambda>fd.
     seq (modify_st (\<lambda>s. s\<lparr>ls_fd := fd\<rparr>))
       (on_unwind (seq (ls_do (sys_setReuseAddr S fd)) (seq (ls_do (sys_bind S fd (snd sa)))
            (seq (ls_do (sys_listen S fd 16)) (ls_do (ri_addFDListener R fd EVENT_IN)))))
         (ls_do (sys_close S fd))))"

text \<open>The constructor from a descriptor builds its member with the global \<open>System\<close> (\<open>G\<close>), not with the
  one it was given.\<close>

definition ls_adopt :: "'w system \<Rightarrow> 'w system \<Rightarrow> 'w runner_iface \<Rightarrow> rawfd \<Rightarrow> ('w listening_socket, unit) prog" where
  "ls_adopt G S R fd = (if fd < 0 then throw InvalidFD
     else seq (modify_st (\<lambda>s. s\<lparr>ls_fd := fd\<rparr>))
       (on_unwind (seq (ls_do (sys_setCloseOnExec S fd))
            (seq (ls_do (sys_setNonBlock S fd)) (ls_do (ri_addFDListener R fd EVENT_IN))))
         (ls_do (sys_close G fd))))"

text \<open>The argument of the destructor is the \<open>System\<close> its descriptor was built with.\<close>

definition ls_destroy :: "'w system \<Rightarrow> 'w runner_iface \<Rightarrow> ('w listening_socket, unit) prog" where
  "ls_destroy S R = noexcept (ls_with_fd (\<lambda>fd. seq (ls_do (ri_delFDListener R fd)) (ls_do (sys_close S fd))))"

definition ls_getName :: "'w system \<Rightarrow> ('w listening_socket, byte list) prog" where
  "ls_getName S = ls_with_fd (\<lambda>fd. ls_do (sys_getSockName S fd))"

section \<open>Draining the backlog\<close>

text \<open>
  What the property observes of the world: the addresses of the connections that wait to be accepted,
  the open descriptors, what \<open>newAcceptedSocketCb\<close> was given, the exceptions that were thrown and
  the ones that \<open>handleExceptionCb\<close> was given.
\<close>

record ls_obs =
  backlog :: "byte list list"
  opened :: "rawfd set"
  handed :: "(rawfd \<times> byte list) list"
  raised :: "exn list"
  caught :: "exn list"

text \<open>
  The documented behaviour of \<open>accept\<close> and \<open>close\<close>: \<open>accept\<close> takes the first connection and gives it
  a descriptor that is not open, which may be a number that was closed before, or gives \<open>-1\<close> when
  none waits; a failing \<open>accept\<close> opens nothing, but may have dropped the connection
  (\<open>ECONNABORTED\<close>).
\<close>

definition accept_contract :: "'w system \<Rightarrow> ('w \<Rightarrow> ls_obs) \<Rightarrow> bool" where
  "accept_contract S view \<longleftrightarrow>
     (\<forall>fd w r w'. sys_accept S fd w = (r, w') \<longrightarrow> (let v = view w in case r of
          Ok (new, sa) \<Rightarrow> if new < 0 then backlog v = [] \<and> view w' = v
            else new \<notin> opened v \<and> (\<exists>sas. backlog v = sa # sas
              \<and> view w' = v\<lparr>backlog := sas, opened := insert new (opened v)\<rparr>)
        | Throw e \<Rightarrow> \<exists>lost sas. length lost \<le> 1 \<and> backlog v = lost @ sas
            \<and> view w' = v\<lparr>backlog := sas, raised := raised v @ [e]\<rparr>
        | _ \<Rightarrow> False))
   \<and> (\<forall>fd w. \<exists>w'. sys_close S fd w = (Ok (), w') \<and> view w' = (view w)\<lparr>opened := opened (view w) - {fd}\<rparr>)"

text \<open>
  What is assumed of the application: \<open>newAcceptedSocketCb\<close> may throw, and takes over the descriptors
  that satisfy \<open>keep\<close>; \<open>handleExceptionCb\<close>, when there is one, returns.
\<close>

definition callback_contract :: "'w ls_callbacks \<Rightarrow> (rawfd \<Rightarrow> byte list \<Rightarrow> bool) \<Rightarrow> ('w \<Rightarrow> ls_obs) \<Rightarrow> bool" where
  "callback_contract C keep view \<longleftrightarrow>
     (\<forall>fd sa s. \<exists>r w'. newAcceptedSocketCb C fd sa s
          = (r, s\<lparr>ls_world := w', ls_accepted := if keep fd sa then - 1 else ls_accepted s\<rparr>)
        \<and> (let v = (view (ls_world s))\<lparr>handed := handed (view (ls_world s)) @ [(fd, sa)]\<rparr> in
            r = Ok () \<and> view w' = v \<or> (\<exists>e. r = Throw e \<and> view w' = v\<lparr>raised := raised v @ [e]\<rparr>)))
   \<and> (\<forall>h e s. handleExceptionCb C = Some h \<longrightarrow> (\<exists>w'. h e s = (Ok (), s\<lparr>ls_world := w'\<rparr>)
        \<and> view w' = (view (ls_world s))\<lparr>caught := caught (view (ls_world s)) @ [e]\<rparr>))"

lemma ls_do_run: "ls_do m s = (case m (ls_world s) of (r, w) \<Rightarrow> (r, s\<lparr>ls_world := w\<rparr>))"
  by (simp add: ls_do_def zoom_run)

lemma close_accepted_run:
  assumes "accept_contract S view"
  obtains w where "close_accepted S s = (Ok (), s\<lparr>ls_world := w, ls_accepted := - 1\<rparr>)"
    "view w = (if 0 \<le> ls_accepted s then (view (ls_world s))\<lparr>opened := opened (view (ls_world s)) - {ls_accepted s}\<rparr>
       else view (ls_world s))"
proof (cases "0 \<le> ls_accepted s")
  case True
  from assms obtain w where "sys_close S (ls_accepted s) (ls_world s) = (Ok (), w)"
    "view w = (view (ls_world s))\<lparr>opened := opened (view (ls_world s)) - {ls_accepted s}\<rparr>"
    unfolding accept_contract_def by blast
  then show ?thesis using True
    by (intro that [of w]) (simp_all add: close_accepted_def seq_run noexcept_run ls_do_run)
next
  case False
  then show ?thesis
    by (intro that [of "ls_world s"]) (simp_all add: close_accepted_def seq_run noexcept_run)
qed

text \<open>One call of \<open>accept\<close>. The callback may throw; the descriptor is closed then as well.\<close>

lemma ls_accept_cases:
  assumes con: "accept_contract S view" "callback_contract C keep view" and fd: "0 \<le> ls_fd s"
  obtains (none) s' where "ls_accept S C s = (Ok False, s')" "ls_fd s' = ls_fd s"
      "view (ls_world s') = view (ls_world s)" "backlog (view (ls_world s)) = []"
  | (failed) e lost sas s' where "ls_accept S C s = (Throw e, s')" "ls_fd s' = ls_fd s" "length lost \<le> 1"
      "backlog (view (ls_world s)) = lost @ sas"
      "view (ls_world s') = (view (ls_world s))\<lparr>backlog := sas,
         raised := raised (view (ls_world s)) @ [e]\<rparr>"
  | (called) new sa sas r s' where "ls_accept S C s = (r, s')" "ls_fd s' = ls_fd s"
      "backlog (view (ls_world s)) = sa # sas" "r = Ok True \<or> (\<exists>e. r = Throw e)"
      "view (ls_world s') = (view (ls_world s))\<lparr>backlog := sas, handed := handed (view (ls_world s)) @ [(new, sa)],
         opened := opened (view (ls_world s)) \<union> (if keep new sa then {new} else {}),
         raised := raised (view (ls_world s)) @ (case r of Throw e \<Rightarrow> [e] | _ \<Rightarrow> [])\<rparr>"
proof -
  let ?v = "view (ls_world s)"
  obtain r w where acc: "sys_accept S (ls_fd s) (ls_world s) = (r, w)" by (metis surj_pair)
  have A: "case r of
          Ok (new, sa) \<Rightarrow> if new < 0 then backlog ?v = [] \<and> view w = ?v
            else new \<notin> opened ?v \<and> (\<exists>sas. backlog ?v = sa # sas
              \<and> view w = ?v\<lparr>backlog := sas, opened := insert new (opened ?v)\<rparr>)
        | Throw e \<Rightarrow> \<exists>lost sas. length lost \<le> 1 \<and> backlog ?v = lost @ sas
            \<and> view w = ?v\<lparr>backlog := sas, raised := raised ?v @ [e]\<rparr>
        | _ \<Rightarrow> False"
    using con(1) [unfolded accept_contract_def, THEN conjunct1, rule_format, OF acc] by (simp only: Let_def)
  have first: "ls_with_fd (\<lambda>fd. ls_do (sys_accept S fd)) s = (r, s\<lparr>ls_world := w\<rparr>)"
    using fd acc by (simp add: ls_with_fd_def ls_do_run)
  show ?thesis
  proof (cases r)
    case (Throw e)
    with A obtain lost sas where "length lost \<le> 1" "backlog ?v = lost @ sas"
      "view w = ?v\<lparr>backlog := sas, raised := raised ?v @ [e]\<rparr>" by auto
    then show ?thesis using Throw first
      by (intro failed [of e "s\<lparr>ls_world := w\<rparr>" lost sas]) (simp_all add: ls_accept_def bnd_run)
  next
    case (Ok x)
    obtain new sa where x: "x = (new, sa)" by (cases x)
    let ?s1 = "s\<lparr>ls_world := w, ls_accepted := new\<rparr>"
    show ?thesis
    proof (cases "new < 0")
      case True
      then show ?thesis using A first Ok x
        by (intro none [of ?s1]) (simp_all add: ls_accept_def bnd_run seq_run)
    next
      case False
      with A Ok x obtain sas where sas: "new \<notin> opened ?v" "backlog ?v = sa # sas"
        "view w = ?v\<lparr>backlog := sas, opened := insert new (opened ?v)\<rparr>" by auto
      obtain r2 w2 where cb0: "newAcceptedSocketCb C new sa ?s1
          = (r2, ?s1\<lparr>ls_world := w2, ls_accepted := if keep new sa then - 1 else ls_accepted ?s1\<rparr>)"
        and cb: "let v = (view (ls_world ?s1))\<lparr>handed := handed (view (ls_world ?s1)) @ [(new, sa)]\<rparr> in
            r2 = Ok () \<and> view w2 = v \<or> (\<exists>e. r2 = Throw e \<and> view w2 = v\<lparr>raised := raised v @ [e]\<rparr>)"
        using con(2) [unfolded callback_contract_def, THEN conjunct1, rule_format, of new sa ?s1] by blast
      let ?s2 = "?s1\<lparr>ls_world := w2, ls_accepted := if keep new sa then - 1 else ls_accepted ?s1\<rparr>"
      obtain w3 where w3: "close_accepted S ?s2 = (Ok (), ?s2\<lparr>ls_world := w3, ls_accepted := - 1\<rparr>)"
        "view w3 = (if 0 \<le> ls_accepted ?s2 then (view (ls_world ?s2))\<lparr>opened := opened (view (ls_world ?s2)) - {ls_accepted ?s2}\<rparr>
           else view (ls_world ?s2))"
        by (rule close_accepted_run [OF con(1), of ?s2])
      then have v3: "view w3 = (if keep new sa then view w2 else (view w2)\<lparr>opened := opened (view w2) - {new}\<rparr>)"
        using False by simp
      let ?s3 = "?s2\<lparr>ls_world := w3, ls_accepted := - 1\<rparr>"
      let ?t = "\<lambda>r. (view (ls_world s))\<lparr>backlog := sas, handed := handed ?v @ [(new, sa)],
         opened := opened ?v \<union> (if keep new sa then {new} else {}), raised := raised ?v @ r\<rparr>"
      consider "r2 = Ok ()" "view w3 = ?t []" | e where "r2 = Throw e" "view w3 = ?t [e]"
        using cb v3 sas by (cases "keep new sa") (auto simp: Let_def)
      then show ?thesis
      proof cases
        case 1
        then have "ls_accept S C s = (Ok True, ?s3)"
          using first Ok x False cb0 w3(1) by (simp add: ls_accept_def bnd_run seq_run on_unwind_run)
        then show ?thesis by (rule called) (use sas 1 in simp_all)
      next
        case (2 e)
        then have "ls_accept S C s = (Throw e, ?s3)"
          using first Ok x False cb0 w3(1) by (simp add: ls_accept_def bnd_run seq_run on_unwind_run)
        then show ?thesis by (rule called) (use sas 2 in simp_all)
      qed
    qed
  qed (use A in simp_all)
qed

lemma ls_handle_drains:
  assumes con: "accept_contract S view" "callback_contract C keep view"
    and "0 \<le> ls_fd s" and "length (backlog (view (ls_world s))) < fuel"
    and "ls_handleEventsCb fuel S C s = (r, s')" and "v = view (ls_world s)" "v' = view (ls_world s')"
  shows "\<exists>news lost. handed v' = handed v @ news \<and> backlog v = map snd news @ lost @ backlog v'
    \<and> opened v' = opened v \<union> {fd. \<exists>sa. (fd, sa) \<in> set news \<and> keep fd sa}
    \<and> (if raised v' = raised v then r = Ok () \<and> backlog v' = [] \<and> lost = [] \<and> caught v' = caught v
       else \<exists>e. raised v' = raised v @ [e] \<and> length lost \<le> 1 \<and> (case handleExceptionCb C of
           None \<Rightarrow> r = Throw e \<and> caught v' = caught v
         | Some h \<Rightarrow> r = Ok () \<and> caught v' = caught v @ [e]))"
  using assms(3-)
proof (induction fuel arbitrary: s v)
  case (Suc n)
  let ?round = "case handleExceptionCb C of Some handler \<Rightarrow> handleEventsOrException S C handler | None \<Rightarrow> ls_accept S C"
  have run: "bnd ?round (\<lambda>again. if again then ls_handleEventsCb n S C else ret ()) s = (r, s')"
    using Suc.prems(3) by simp
  have fine: "?round s = (Ok b, t)" if "ls_accept S C s = (Ok b, t)" for b t
    using that by (cases "handleExceptionCb C") (simp_all add: handleEventsOrException_def try_catch_run)
  have thrown: "\<exists>w. (case handleExceptionCb C of
        None \<Rightarrow> ?round s = (Throw e, t) \<and> w = ls_world t
      | Some h \<Rightarrow> ?round s = (Ok False, t\<lparr>ls_world := w\<rparr>)
          \<and> view w = (view (ls_world t))\<lparr>caught := caught (view (ls_world t)) @ [e]\<rparr>)"
    if "ls_accept S C s = (Throw e, t)" for e t
  proof (cases "handleExceptionCb C")
    case (Some h)
    with con(2) obtain w where "h e t = (Ok (), t\<lparr>ls_world := w\<rparr>)"
      "view w = (view (ls_world t))\<lparr>caught := caught (view (ls_world t)) @ [e]\<rparr>"
      unfolding callback_contract_def by blast
    then show ?thesis using Some that
      by (intro exI [of _ w]) (simp add: handleEventsOrException_def try_catch_run seq_run)
  qed (use that in simp)
  have ended: "case handleExceptionCb C of
        None \<Rightarrow> r = Throw e \<and> v' = view (ls_world t)
      | Some h \<Rightarrow> r = Ok () \<and> v' = (view (ls_world t))\<lparr>caught := caught (view (ls_world t)) @ [e]\<rparr>"
    if "ls_accept S C s = (Throw e, t)" for e t
    using thrown [OF that] run Suc.prems(5) by (auto simp: bnd_run split: option.splits)
  show ?case
  proof (cases rule: ls_accept_cases [OF con Suc.prems(1)])
    case none: (1 t)
    then have "r = Ok ()" "s' = t" using fine [OF none(1)] run by (simp_all add: bnd_run)
    then show ?thesis using none Suc.prems(4,5) by simp
  next
    case failed: (2 e lost sas t)
    from ended [OF failed(1)] failed Suc.prems(4) show ?thesis
      by (intro exI [of _ "[]"] exI [of _ lost]) (auto split: option.splits)
  next
    case called: (3 new sa sas r1 t)
    show ?thesis
    proof (cases "\<exists>e. r1 = Throw e")
      case True
      then obtain e where e: "r1 = Throw e" by blast
      from ended [OF called(1) [unfolded e]] called Suc.prems(4) e show ?thesis
        by (intro exI [of _ "[(new, sa)]"] exI [of _ "[]"]) (auto split: option.splits)
    next
      case False
      then have r1: "r1 = Ok True" using called(4) by blast
      have rest: "ls_handleEventsCb n S C t = (r, s')"
        using fine [OF called(1) [unfolded r1]] run by (simp add: bnd_run)
      have "0 \<le> ls_fd t" "length (backlog (view (ls_world t))) < n"
        using called Suc.prems(1,2) by simp_all
      from Suc.IH [OF this rest refl Suc.prems(5)] obtain news lost where
        "handed v' = handed (view (ls_world t)) @ news"
        "backlog (view (ls_world t)) = map snd news @ lost @ backlog v'"
        "opened v' = opened (view (ls_world t)) \<union> {fd. \<exists>sa. (fd, sa) \<in> set news \<and> keep fd sa}"
        "if raised v' = raised (view (ls_world t))
         then r = Ok () \<and> backlog v' = [] \<and> lost = [] \<and> caught v' = caught (view (ls_world t))
         else \<exists>e. raised v' = raised (view (ls_world t)) @ [e] \<and> length lost \<le> 1 \<and> (case handleExceptionCb C of
             None \<Rightarrow> r = Throw e \<and> caught v' = caught (view (ls_world t))
           | Some h \<Rightarrow> r = Ok () \<and> caught v' = caught (view (ls_world t)) @ [e])"
        by blast
      note H = this
      have vt: "handed (view (ls_world t)) = handed v @ [(new, sa)]" "raised (view (ls_world t)) = raised v"
        "caught (view (ls_world t)) = caught v" "opened (view (ls_world t)) = opened v \<union> (if keep new sa then {new} else {})"
        "backlog (view (ls_world t)) = sas"
        using called(5) r1 Suc.prems(4) by simp_all
      show ?thesis
      proof (intro exI [of _ "(new, sa) # news"] exI [of _ lost] conjI)
        show "handed v' = handed v @ (new, sa) # news" using H(1) vt by simp
        show "backlog v = map snd ((new, sa) # news) @ lost @ backlog v'" using H(2) vt called(3) Suc.prems(4) by simp
        show "opened v' = opened v \<union> {fd. \<exists>sa'. (fd, sa') \<in> set ((new, sa) # news) \<and> keep fd sa'}"
          using H(3) vt(4) by auto
      qed (use H(4) in \<open>simp only: vt\<close>)
    qed
  qed
qed simp

section \<open>Properties\<close>

text \<open>
  C28: one readable event serves every waiting connection. The loop ends (fuel one more than there
  are connections is enough); every connection is given to the callback once, in order, and a
  descriptor the callback did not take over is closed, also when the callback throws, so none
  leaks, whichever numbers the kernel reuses. Without an exception the backlog is empty at the end.
  The first exception ends the loop and leaves the rest of the backlog: it is given to
  \<open>handleExceptionCb\<close> if there is one, and leaves the handler otherwise.
\<close>

theorem accept_drains_backlog:
  assumes "accept_contract S view" and "callback_contract C keep view"
    and "0 \<le> ls_fd s" and "length (backlog (view (ls_world s))) < fuel"
    and "ls_handleEventsCb fuel S C s = (r, s')" and "v = view (ls_world s)" "v' = view (ls_world s')"
  shows "\<exists>news lost. handed v' = handed v @ news \<and> backlog v = map snd news @ lost @ backlog v'
    \<and> opened v' = opened v \<union> {fd. \<exists>sa. (fd, sa) \<in> set news \<and> keep fd sa}
    \<and> (if raised v' = raised v then r = Ok () \<and> backlog v' = [] \<and> lost = [] \<and> caught v' = caught v
       else \<exists>e. raised v' = raised v @ [e] \<and> length lost \<le> 1 \<and> (case handleExceptionCb C of
           None \<Rightarrow> r = Throw e \<and> caught v' = caught v
         | Some h \<Rightarrow> r = Ok () \<and> caught v' = caught v @ [e]))"
  by (rule ls_handle_drains [OF assms])

text \<open>A process that may have two more descriptors, 7 and 8, and a callback that leaves the
  connections from address \<open>[1]\<close>.\<close>

definition accept_system :: "ls_obs system" where
  "accept_system = idle_system\<lparr>
     sys_accept := (\<lambda>fd v. case backlog v of [] \<Rightarrow> (Ok (- 1, []), v)
       | sa # sas \<Rightarrow> (case find (\<lambda>n. n \<notin> opened v) [7, 8] of
             Some n \<Rightarrow> (Ok (n, sa), v\<lparr>backlog := sas, opened := insert n (opened v)\<rparr>)
           | None \<Rightarrow> (Throw (SystemException ''accept'' 24), v\<lparr>backlog := sa # sas, raised := raised v @ [SystemException ''accept'' 24]\<rparr>))),
     sys_close := (\<lambda>fd v. (Ok (), v\<lparr>opened := opened v - {fd}\<rparr>))\<rparr>"

definition keep_most :: "ls_obs ls_callbacks" where
  "keep_most = \<lparr>newAcceptedSocketCb = (\<lambda>fd sa s. (Ok (), s\<lparr>
       ls_world := (ls_world s)\<lparr>handed := handed (ls_world s) @ [(fd, sa)]\<rparr>,
       ls_accepted := if sa \<noteq> [1] then - 1 else ls_accepted s\<rparr>)),
     handleExceptionCb = Some (\<lambda>e s. (Ok (), s\<lparr>ls_world := (ls_world s)\<lparr>caught := caught (ls_world s) @ [e]\<rparr>\<rparr>))\<rparr>"

lemma accept_system_contracts:
  "accept_contract accept_system id" "callback_contract keep_most (\<lambda>fd sa. sa \<noteq> [1]) id"
proof -
  show "accept_contract accept_system id"
    by (auto simp: accept_contract_def accept_system_def Let_def split: list.splits)
       (rule exI [of _ "[]"], simp)
  show "callback_contract keep_most (\<lambda>fd sa. sa \<noteq> [1]) id"
    by (simp add: callback_contract_def keep_most_def)
qed

text \<open>The number 7 is used twice; the third connection finds no descriptor.\<close>

theorem accept_drains_backlog_witness:
  "\<exists>s'. ls_handleEventsCb 5 accept_system keep_most \<lparr>ls_fd = 3, ls_accepted = - 1, ls_world =
        \<lparr>backlog = [[1], [2], [3], [4]], opened = {3, 8}, handed = [], raised = [], caught = []\<rparr>\<rparr> = (Ok (), s')
    \<and> handed (ls_world s') = [(7, [1]), (7, [2])] \<and> backlog (ls_world s') = [[3], [4]]
    \<and> opened (ls_world s') = {3, 7, 8} \<and> caught (ls_world s') = [SystemException ''accept'' 24]"
proof -
  let ?s = "\<lparr>ls_fd = 3, ls_accepted = - 1, ls_world =
        \<lparr>backlog = [[1], [2], [3], [4]], opened = {3, 8}, handed = [], raised = [], caught = []\<rparr>\<rparr>"
  obtain r s' where run: "ls_handleEventsCb 5 accept_system keep_most ?s = (r, s')" by (metis surj_pair)
  have res: "r = Ok ()" "handed (ls_world s') = [(7, [1]), (7, [2])]" "backlog (ls_world s') = [[3], [4]]"
    "raised (ls_world s') = [SystemException ''accept'' 24]"
    using run by (simp_all add: numeral_eq_Suc accept_system_def keep_most_def bnd_run ls_with_fd_def ls_do_run seq_run
        ls_accept_def handleEventsOrException_def try_catch_run on_unwind_run close_accepted_def noexcept_run) auto
  have "0 \<le> ls_fd ?s" "length (backlog (id (ls_world ?s))) < 5" by simp_all
  from accept_drains_backlog [OF accept_system_contracts this run refl refl] obtain news and lost :: "byte list list" where
    N: "handed (id (ls_world s')) = handed (id (ls_world ?s)) @ news"
      "opened (id (ls_world s')) = opened (id (ls_world ?s)) \<union> {fd. \<exists>sa. (fd, sa) \<in> set news \<and> sa \<noteq> [1]}"
      "if raised (id (ls_world s')) = raised (id (ls_world ?s)) then r = Ok () \<and> backlog (id (ls_world s')) = []
         \<and> lost = [] \<and> caught (id (ls_world s')) = caught (id (ls_world ?s))
       else \<exists>e. raised (id (ls_world s')) = raised (id (ls_world ?s)) @ [e] \<and> length lost \<le> 1
         \<and> (case handleExceptionCb keep_most of None \<Rightarrow> r = Throw e \<and> caught (id (ls_world s')) = caught (id (ls_world ?s))
           | Some h \<Rightarrow> r = Ok () \<and> caught (id (ls_world s')) = caught (id (ls_world ?s)) @ [e])"
    by blast
  have news: "news = [(7, [1]), (7, [2])]" using N(1) res(2) by (simp only: id_apply) simp
  have "caught (ls_world s') = [SystemException ''accept'' 24]" using N(3) res(1,4) by (simp add: keep_most_def)
  moreover have "opened (ls_world s') = {3, 7, 8}"
  proof -
    have "(\<exists>sa. (fd, sa) \<in> set [(7, [1]), (7, [2])] \<and> sa \<noteq> [1 :: byte]) \<longleftrightarrow> fd = (7 :: rawfd)" for fd
      by (simp add: ex_disj_distrib conj_disj_distribR)
    then have "opened (ls_world s') = {3, 8} \<union> {fd. fd = 7}" using N(2) unfolding news by (simp only: id_apply listening_socket.simps ls_obs.simps)
    then show ?thesis by auto
  qed
  ultimately show ?thesis using run [unfolded res(1)] res(2,3) by blast
qed

end
