(* ===== verification/Text.thy ===== *)
theory Text
  imports Prelude
begin

text \<open>
  The text the library reads and prints: characters as bytes, decimal and hexadecimal numbers as the
  output streams write them, C strings, and the input stream a word is read from with \<open>>>\<close>.
\<close>

section \<open>Characters and bytes\<close>

definition byte_of :: "char \<Rightarrow> byte" where
  "byte_of c = word_of_nat (of_char c)"

definition chr :: "byte \<Rightarrow> char" where
  "chr b = char_of (unat b)"

lemma of_char_less_256: "(of_char c :: nat) < 256"
  using nat_of_char_less_256 by simp

lemma chr_byte_of [simp]: "chr (byte_of c) = c"
  using of_char_less_256 [of c] by (simp add: chr_def byte_of_def unat_of_nat take_bit_nat_eq_self)

lemma byte_of_chr [simp]: "byte_of (chr b) = b"
proof -
  have "(of_char (char_of (unat b)) :: nat) = unat b mod 256"
    by (rule of_char_of)
  moreover have "unat b < 256" using unsigned_less [of b, where ?'a = nat] by simp
  ultimately show ?thesis by (simp add: chr_def byte_of_def)
qed

lemma byte_of_inj [simp]: "byte_of c = byte_of d \<longleftrightarrow> c = d"
  by (metis chr_byte_of)

abbreviation NUL :: char where "NUL \<equiv> CHR 0x00"

lemma byte_of_NUL [simp]: "byte_of NUL = 0"
  by (simp add: byte_of_def)

lemma byte_of_eq_0 [simp]: "byte_of c = 0 \<longleftrightarrow> c = NUL"
  by (metis byte_of_NUL byte_of_inj)

text \<open>\<open>c_str()\<close> as the C library reads it: up to the first zero byte.\<close>

definition c_str :: "string \<Rightarrow> string" where
  "c_str s = takeWhile (\<lambda>c. c \<noteq> NUL) s"

lemma c_str_id [simp]: "NUL \<notin> set s \<Longrightarrow> c_str s = s"
  by (auto simp: c_str_def takeWhile_eq_all_conv)

section \<open>Numbers\<close>

text \<open>\<open>operator <<\<close> of an unsigned number under \<open>std::dec\<close> and under \<open>std::hex\<close>.\<close>

definition digit :: "nat \<Rightarrow> char" where
  "digit n = ''0123456789abcdef'' ! n"

fun decimal :: "nat \<Rightarrow> string" where
  "decimal n = (if n < 10 then [digit n] else decimal (n div 10) @ [digit (n mod 10)])"

declare decimal.simps [simp del]

lemma decimal_not_Nil [simp]: "decimal n \<noteq> []"
  by (subst decimal.simps) simp

lemma digit_set: "n < 10 \<Longrightarrow> digit n \<in> set ''0123456789''"
  by (auto simp: digit_def nth_Cons' numeral_eq_Suc less_Suc_eq)

lemma decimal_set: "set (decimal n) \<subseteq> set ''0123456789''"
proof (induction n rule: decimal.induct)
  case (1 n)
  show ?case
  proof (cases "n < 10")
    case True
    then show ?thesis using digit_set [OF True] by (subst decimal.simps) simp
  next
    case False
    with 1 digit_set [of "n mod 10"] show ?thesis
      by (subst decimal.simps) (simp add: False)
  qed
qed

section \<open>Reading a word\<close>

definition is_space :: "char \<Rightarrow> bool" where
  "is_space c \<longleftrightarrow> (of_char c :: nat) \<in> {9, 10, 11, 12, 13, 32}"

record istream =
  in_rest :: string
  in_eof :: bool
  in_fail :: bool
  in_bad :: bool

definition in_good :: "istream \<Rightarrow> bool" where
  "in_good i \<longleftrightarrow> \<not> in_eof i \<and> \<not> in_fail i \<and> \<not> in_bad i"

definition stream_of :: "string \<Rightarrow> istream" where
  "stream_of s = \<lparr>in_rest = s, in_eof = False, in_fail = False, in_bad = False\<rparr>"

text \<open>\<open>in >> str\<close>: the sentry skips white space; a stream that is not good, or has no word left, sets
  \<open>failbit\<close>, and the string stays empty.\<close>

definition read_word :: "istream \<Rightarrow> string \<times> istream" where
  "read_word i = (if \<not> in_good i then ([], i\<lparr>in_fail := True\<rparr>)
     else let r = dropWhile is_space (in_rest i); w = takeWhile (\<lambda>c. \<not> is_space c) r;
              r' = dropWhile (\<lambda>c. \<not> is_space c) r
          in (w, i\<lparr>in_rest := r', in_eof := (r' = []), in_fail := (w = [])\<rparr>))"

text \<open>\<open>in.clear(std::ios_base::failbit)\<close>: the state becomes exactly \<open>failbit\<close>.\<close>

definition clear_failbit :: "istream \<Rightarrow> istream" where
  "clear_failbit i = i\<lparr>in_eof := False, in_fail := True, in_bad := False\<rparr>"

lemma read_word_next:
  assumes "w \<noteq> []" and "\<forall>c\<in>set w. \<not> is_space c" and "rest = [] \<or> is_space (hd rest)"
  shows "read_word (stream_of (w @ rest)) = (w, \<lparr>in_rest = rest, in_eof = (rest = []), in_fail = False, in_bad = False\<rparr>)"
proof -
  have 1: "dropWhile is_space (w @ rest) = w @ rest"
    using assms by (cases w) simp_all
  have "takeWhile (\<lambda>c. \<not> is_space c) rest = []" "dropWhile (\<lambda>c. \<not> is_space c) rest = rest"
    using assms(3) by (cases rest; simp)+
  then have 2: "takeWhile (\<lambda>c. \<not> is_space c) (w @ rest) = w" "dropWhile (\<lambda>c. \<not> is_space c) (w @ rest) = rest"
    using assms(2) by (simp_all add: takeWhile_append2 dropWhile_append2)
  show ?thesis using assms(1)
    by (simp add: read_word_def stream_of_def in_good_def Let_def 1 2 del: takeWhile_eq_Nil_iff dropWhile_eq_Nil_conv)
qed

section \<open>Patterns\<close>

fun strip_prefix :: "'a list \<Rightarrow> 'a list \<Rightarrow> 'a list option" where
  "strip_prefix [] s = Some s"
| "strip_prefix (c # p) [] = None"
| "strip_prefix (c # p) (d # s) = (if c = d then strip_prefix p s else None)"

lemma strip_prefix_iff: "strip_prefix p s = Some t \<longleftrightarrow> s = p @ t"
  by (induction p s rule: strip_prefix.induct) auto

lemma strip_prefix_append [simp]: "strip_prefix p (p @ t) = Some t"
  by (simp add: strip_prefix_iff)

text \<open>The class \<open>[[:alnum:]_]\<close> in the classic locale.\<close>

definition alnum_us :: "char \<Rightarrow> bool" where
  "alnum_us c \<longleftrightarrow> (let n = (of_char c :: nat) in 48 \<le> n \<and> n \<le> 57 \<or> 65 \<le> n \<and> n \<le> 90 \<or> 97 \<le> n \<and> n \<le> 122 \<or> n = 95)"

lemma decimal_chars: "c \<in> set (decimal n) \<Longrightarrow> alnum_us c \<and> \<not> is_space c \<and> c \<noteq> CHR '':''"
  using decimal_set [of n] by (auto simp: alnum_us_def is_space_def)

end
