(* ===== verification/SocketAddress.thy ===== *)
theory SocketAddress
  imports Text
begin

text \<open>
  Model of \<open>src/lib/SocketAddress.cpp\<close> and \<open>include/EventLoop/SocketAddress.hpp\<close>: the union of the
  address structures as its 112 bytes, with the layouts of 64-bit Linux. The address databases, the
  text form of IP addresses and \<open>boost::lexical_cast\<close> are not under \<open>src/\<close>: they are the record
  \<open>netdb\<close>, an argument of the functions that use them. Ports are numbers as they lie in memory.
\<close>

section \<open>Layout\<close>

definition AF_UNSPEC :: int where "AF_UNSPEC = 0"
definition AF_UNIX :: int where "AF_UNIX = 1"
definition AF_INET :: int where "AF_INET = 2"
definition AF_INET6 :: int where "AF_INET6 = 10"
definition AI_NUMERICSERV :: int where "AI_NUMERICSERV = 1024"
definition ENOENT :: int where "ENOENT = 2"

lemmas address_families = AF_UNSPEC_def AF_UNIX_def AF_INET_def AF_INET6_def

definition sizeof_sockaddr_un :: nat where "sizeof_sockaddr_un = 110"
definition sizeof_sun_path :: nat where "sizeof_sun_path = 108"
definition offsetof_sun_path :: nat where "offsetof_sun_path = 2"
definition sizeof_sockaddr_in :: nat where "sizeof_sockaddr_in = 16"
definition sizeof_sockaddr_in6 :: nat where "sizeof_sockaddr_in6 = 28"
definition sizeof_SAUnion :: nat where "sizeof_SAUnion = 112"

lemmas address_sizes = sizeof_sockaddr_un_def sizeof_sun_path_def offsetof_sun_path_def
  sizeof_sockaddr_in_def sizeof_sockaddr_in6_def sizeof_SAUnion_def

record socket_address =
  sa_bytes :: "byte list"
  usedSize :: "32 word"

record netdb =
  getaddrinfo :: "int \<Rightarrow> int \<Rightarrow> string \<Rightarrow> string \<Rightarrow> int + byte list"
  gai_strerror :: "int \<Rightarrow> string"
  strerror :: "int \<Rightarrow> string"
  getservbyname :: "string \<Rightarrow> int \<times> 16 word option"
  inet_ntop :: "int \<Rightarrow> byte list \<Rightarrow> string option"
  lexical_cast_uint16 :: "string \<Rightarrow> 16 word option"
  lexical_cast_string :: "16 word \<Rightarrow> string"

definition field :: "socket_address \<Rightarrow> nat \<Rightarrow> nat \<Rightarrow> byte list" where
  "field a offset n = take n (drop offset (sa_bytes a))"

definition poke :: "nat \<Rightarrow> byte list \<Rightarrow> socket_address \<Rightarrow> socket_address" where
  "poke offset bs a = a\<lparr>sa_bytes := take offset (sa_bytes a) @ bs @ drop (offset + length bs) (sa_bytes a)\<rparr>"

definition getFamily :: "socket_address \<Rightarrow> int" where
  "getFamily a = int (le_nat (field a 0 2))"

definition set_family :: "int \<Rightarrow> socket_address \<Rightarrow> socket_address" where
  "set_family f = poke 0 (le_bytes 2 (nat f))"

definition getIPPort :: "socket_address \<Rightarrow> 16 word" where
  "getIPPort a = of_nat (le_nat (field a 2 2))"

definition ntohs :: "16 word \<Rightarrow> 16 word" where
  "ntohs p = of_nat (unat p mod 256 * 256 + unat p div 256)"

definition htons :: "16 word \<Rightarrow> 16 word" where
  "htons = ntohs"

definition setUsedSize :: "32 word \<Rightarrow> socket_address \<Rightarrow> socket_address" where
  "setUsedSize n a = a\<lparr>usedSize := n\<rparr>"

section \<open>Constructors\<close>

definition new_address :: socket_address where
  "new_address = \<lparr>sa_bytes = replicate sizeof_SAUnion 0, usedSize = 0\<rparr>"

text \<open>The bytes of the destination after \<open>memCopy\<close> and its result.\<close>

definition memCopy :: "byte list \<Rightarrow> nat \<Rightarrow> nat \<Rightarrow> byte list \<times> nat" where
  "memCopy src srcSize dstSize = (let m = min srcSize dstSize
     in (take m src @ (if dstSize > srcSize then replicate (dstSize - srcSize) 0 else []), m))"

definition of_sockaddr :: "byte list \<Rightarrow> 32 word \<Rightarrow> socket_address" where
  "of_sockaddr s n = (case memCopy s (unat n) sizeof_SAUnion of (bs, m) \<Rightarrow> \<lparr>sa_bytes = bs, usedSize = of_nat m\<rparr>)"

definition of_sockaddr_un :: "byte list \<Rightarrow> 32 word \<Rightarrow> socket_address" where
  "of_sockaddr_un sun n = (case memCopy sun (unat n) sizeof_SAUnion of (bs, m) \<Rightarrow> \<lparr>sa_bytes = bs, usedSize = of_nat m\<rparr>)"

definition of_sockaddr_in :: "byte list \<Rightarrow> socket_address" where
  "of_sockaddr_in sin = (case memCopy sin sizeof_sockaddr_in sizeof_SAUnion of (bs, m) \<Rightarrow> \<lparr>sa_bytes = bs, usedSize = of_nat m\<rparr>)"

definition of_in_addr :: "byte list \<Rightarrow> 16 word \<Rightarrow> socket_address" where
  "of_in_addr addr port = poke 2 (le_bytes 2 (unat port)) (poke 4 addr (set_family AF_INET
     \<lparr>sa_bytes = replicate sizeof_SAUnion 0, usedSize = of_nat sizeof_sockaddr_in\<rparr>))"

definition of_sockaddr_in6 :: "byte list \<Rightarrow> socket_address" where
  "of_sockaddr_in6 sin6 = (case memCopy sin6 sizeof_sockaddr_in6 sizeof_SAUnion of (bs, m) \<Rightarrow> \<lparr>sa_bytes = bs, usedSize = of_nat m\<rparr>)"

definition of_in6_addr_scope :: "byte list \<Rightarrow> 32 word \<Rightarrow> 16 word \<Rightarrow> socket_address" where
  "of_in6_addr_scope addr scopeId port = poke 24 (le_bytes 4 (unat scopeId)) (poke 2 (le_bytes 2 (unat port))
     (poke 8 addr (set_family AF_INET6
       \<lparr>sa_bytes = replicate sizeof_SAUnion 0, usedSize = of_nat sizeof_sockaddr_in6\<rparr>)))"

definition of_in6_addr :: "byte list \<Rightarrow> 16 word \<Rightarrow> socket_address" where
  "of_in6_addr addr port = of_in6_addr_scope addr 0 port"

definition createUnix :: "string \<Rightarrow> socket_address outcome" where
  "createUnix path = (if length path \<ge> sizeof_sun_path then Throw TooLongUnixSocketPath
     else Ok ((poke 2 (map byte_of path) (set_family AF_UNIX new_address))
       \<lparr>usedSize := of_nat (offsetof_sun_path + length path + 1)\<rparr>))"

definition createUnixAny :: socket_address where
  "createUnixAny = (set_family AF_UNIX new_address)\<lparr>usedSize := of_nat offsetof_sun_path\<rparr>"

definition createAbstractUnix :: "string \<Rightarrow> socket_address outcome" where
  "createAbstractUnix path = (if length path > sizeof_sun_path - 1 then Throw TooLongUnixSocketPath
     else Ok ((poke (2 + 1) (map byte_of path) (set_family AF_UNIX new_address))
       \<lparr>usedSize := of_nat (2 + length path + 1)\<rparr>))"

section \<open>Addresses from names\<close>

definition and_then :: "'a outcome \<Rightarrow> ('a \<Rightarrow> 'b outcome) \<Rightarrow> 'b outcome" where
  "and_then r f = (case r of Ok x \<Rightarrow> f x | _ \<Rightarrow> fail_as r)"

definition buildError :: "string \<Rightarrow> string \<Rightarrow> string \<Rightarrow> string" where
  "buildError address service err = ''getaddrinfo('' @ address @ '', '' @ service @ ''): '' @ err"

definition buildServError :: "string \<Rightarrow> string \<Rightarrow> string" where
  "buildServError service err = ''getservbyname('' @ service @ ''): '' @ err"

text \<open>\<open>getAddrInfoImpl\<close> returns the bytes it copies over the union; their number is its result.\<close>

definition getAddrInfoImpl :: "netdb \<Rightarrow> int \<Rightarrow> int \<Rightarrow> string \<Rightarrow> string \<Rightarrow> byte list outcome" where
  "getAddrInfoImpl N flags family node service =
     (case getaddrinfo N flags family (c_str node) (c_str service) of
        Inl status \<Rightarrow> Throw (TranslationError (buildError node service (gai_strerror N status)))
      | Inr bs \<Rightarrow> Ok bs)"

definition getAddrInfoWithService :: "netdb \<Rightarrow> int \<Rightarrow> string \<Rightarrow> string \<Rightarrow> byte list outcome" where
  "getAddrInfoWithService N family node service = getAddrInfoImpl N 0 family node service"

definition getAddrInfoWithPort :: "netdb \<Rightarrow> int \<Rightarrow> string \<Rightarrow> 16 word \<Rightarrow> byte list outcome" where
  "getAddrInfoWithPort N family node port =
     getAddrInfoImpl N AI_NUMERICSERV family node (lexical_cast_string N (ntohs port))"

definition getServByName :: "netdb \<Rightarrow> string \<Rightarrow> 16 word outcome" where
  "getServByName N service = (case lexical_cast_uint16 N service of
      Some p \<Rightarrow> Ok (htons p)
    | None \<Rightarrow> (case getservbyname N (c_str service) of (status, found) \<Rightarrow>
        if status \<noteq> 0 then Throw (TranslationError (buildServError service (strerror N status)))
        else case found of
            None \<Rightarrow> Throw (TranslationError (buildServError service (strerror N ENOENT)))
          | Some port \<Rightarrow> Ok port))"

text \<open>What the three factories over \<open>getaddrinfo\<close> do with its result.\<close>

definition filled_with :: "byte list \<Rightarrow> socket_address" where
  "filled_with bs = (poke 0 bs new_address)\<lparr>usedSize := of_nat (length bs)\<rparr>"

definition createIPv4 :: "netdb \<Rightarrow> string \<Rightarrow> string \<Rightarrow> socket_address outcome" where
  "createIPv4 N address service = and_then (getAddrInfoWithService N AF_INET address service) (\<lambda>bs. Ok (filled_with bs))"

definition createIPv4_port :: "netdb \<Rightarrow> string \<Rightarrow> 16 word \<Rightarrow> socket_address outcome" where
  "createIPv4_port N address port = and_then (getAddrInfoWithPort N AF_INET address port) (\<lambda>bs. Ok (filled_with bs))"

definition createIPv4_addr_service :: "netdb \<Rightarrow> byte list \<Rightarrow> string \<Rightarrow> socket_address outcome" where
  "createIPv4_addr_service N addr service = and_then (getServByName N service) (\<lambda>p. Ok (of_in_addr addr p))"

definition createIPv4_addr :: "byte list \<Rightarrow> 16 word \<Rightarrow> socket_address" where
  "createIPv4_addr addr port = of_in_addr addr port"

definition createIPv4Any :: socket_address where
  "createIPv4Any = of_sockaddr_in (le_bytes 2 (nat AF_INET) @ replicate (sizeof_sockaddr_in - 2) 0)"

definition createIPv6 :: "netdb \<Rightarrow> string \<Rightarrow> string \<Rightarrow> socket_address outcome" where
  "createIPv6 N address service = and_then (getAddrInfoWithService N AF_INET6 address service) (\<lambda>bs. Ok (filled_with bs))"

definition createIPv6_port :: "netdb \<Rightarrow> string \<Rightarrow> 16 word \<Rightarrow> socket_address outcome" where
  "createIPv6_port N address port = and_then (getAddrInfoWithPort N AF_INET6 address port) (\<lambda>bs. Ok (filled_with bs))"

definition createIPv6_addr_scope :: "byte list \<Rightarrow> 32 word \<Rightarrow> 16 word \<Rightarrow> socket_address" where
  "createIPv6_addr_scope addr scopeId port = of_in6_addr_scope addr scopeId port"

definition createIPv6_addr :: "byte list \<Rightarrow> 16 word \<Rightarrow> socket_address" where
  "createIPv6_addr addr port = createIPv6_addr_scope addr 0 port"

definition createIPv6_addr_service :: "netdb \<Rightarrow> byte list \<Rightarrow> string \<Rightarrow> socket_address outcome" where
  "createIPv6_addr_service N addr service = and_then (getServByName N service) (\<lambda>p. Ok (createIPv6_addr_scope addr 0 p))"

definition createIPv6_addr_scope_service :: "netdb \<Rightarrow> byte list \<Rightarrow> 32 word \<Rightarrow> string \<Rightarrow> socket_address outcome" where
  "createIPv6_addr_scope_service N addr scopeId service =
     and_then (getServByName N service) (\<lambda>p. Ok (of_in6_addr_scope addr scopeId p))"

definition createIPv6Any :: socket_address where
  "createIPv6Any = of_sockaddr_in6 (le_bytes 2 (nat AF_INET6) @ replicate (sizeof_sockaddr_in6 - 2) 0)"

definition createIPv4OrIPv6 :: "netdb \<Rightarrow> string \<Rightarrow> string \<Rightarrow> socket_address outcome" where
  "createIPv4OrIPv6 N address service = and_then (getAddrInfoWithService N AF_UNSPEC address service) (\<lambda>bs. Ok (filled_with bs))"

definition createIPv4OrIPv6_port :: "netdb \<Rightarrow> string \<Rightarrow> 16 word \<Rightarrow> socket_address outcome" where
  "createIPv4OrIPv6_port N address port = and_then (getAddrInfoWithPort N AF_UNSPEC address port) (\<lambda>bs. Ok (filled_with bs))"

section \<open>Sizes and comparison\<close>

definition getAvailableSize :: "socket_address \<Rightarrow> 32 word" where
  "getAvailableSize a = (if getFamily a = AF_UNIX then of_nat sizeof_sockaddr_un
     else if getFamily a = AF_INET then of_nat sizeof_sockaddr_in
     else if getFamily a = AF_INET6 then of_nat sizeof_sockaddr_in6
     else of_nat sizeof_SAUnion)"

definition getSizePointer :: "socket_address \<Rightarrow> socket_address" where
  "getSizePointer a = a\<lparr>usedSize := getAvailableSize a\<rparr>"

definition isAny :: "socket_address \<Rightarrow> bool" where
  "isAny a = (if getFamily a = AF_UNSPEC then True
     else if getFamily a = AF_UNIX then unat (usedSize a) = offsetof_sun_path
     else if getFamily a = AF_INET then le_nat (field a 2 2) = 0 \<and> le_nat (field a 4 4) = 0
     else if getFamily a = AF_INET6 then le_nat (field a 2 2) = 0 \<and> le_nat (field a 8 4) = 0
       \<and> le_nat (field a 12 4) = 0 \<and> le_nat (field a 16 4) = 0 \<and> le_nat (field a 20 4) = 0
     else False)"

fun memcmp :: "byte list \<Rightarrow> byte list \<Rightarrow> int" where
  "memcmp (x # xs) (y # ys) = (if x = y then memcmp xs ys else if x < y then - 1 else 1)"
| "memcmp _ _ = 0"

definition sa_eq :: "socket_address \<Rightarrow> socket_address \<Rightarrow> bool" where
  "sa_eq a b = (usedSize a = usedSize b
     \<and> memcmp (take (unat (usedSize a)) (sa_bytes a)) (take (unat (usedSize a)) (sa_bytes b)) = 0)"

definition sa_less :: "socket_address \<Rightarrow> socket_address \<Rightarrow> bool" where
  "sa_less a b = (if usedSize a < usedSize b then True
     else if usedSize a = usedSize b
       then memcmp (take (unat (usedSize a)) (sa_bytes a)) (take (unat (usedSize a)) (sa_bytes b)) < 0
     else False)"

section \<open>Printing\<close>

text \<open>Numbers are printed with the default flags of a stream. A failing \<open>inet_ntop\<close> leaves the buffer
  empty. Reading past the end of the union is undefined; the two bytes of the union after
  \<open>sun_path\<close> count as bytes that can be read, as the loop of the code reads them.\<close>

definition output_ip :: "netdb \<Rightarrow> int \<Rightarrow> byte list \<Rightarrow> string" where
  "output_ip N family addr = (case inet_ntop N family addr of Some s \<Rightarrow> c_str s | None \<Rightarrow> [])"

function outputUnix_loop :: "byte list \<Rightarrow> nat \<Rightarrow> nat \<Rightarrow> string outcome" where
  "outputUnix_loop path n i = (if i < n
     then if i < length path
       then if path ! i \<noteq> 0 then and_then (outputUnix_loop path n (Suc i)) (\<lambda>s. Ok (chr (path ! i) # s)) else Ok []
       else Undef
     else Ok [])"
  by pat_completeness auto
termination by (relation "measure (\<lambda>(path, n, i). n - i)") auto

declare outputUnix_loop.simps [simp del]

definition outputUnix :: "byte list \<Rightarrow> nat \<Rightarrow> string outcome" where
  "outputUnix path n = and_then
     (if n > 0
      then if path ! 0 = 0 \<and> path ! 1 \<noteq> 0
        then and_then (outputUnix_loop path n 1) (\<lambda>s. Ok (CHR ''@'' # s))
        else outputUnix_loop path n 0
      else Ok []) (\<lambda>s. Ok (''unix:'' @ s))"

definition outputIPv4 :: "netdb \<Rightarrow> socket_address \<Rightarrow> string" where
  "outputIPv4 N a = ''ipv4:'' @ output_ip N AF_INET (field a 4 4) @ '':'' @ decimal (unat (ntohs (getIPPort a)))"

definition outputIPv6 :: "netdb \<Rightarrow> socket_address \<Rightarrow> string" where
  "outputIPv6 N a = ''ipv6:['' @ output_ip N AF_INET6 (field a 8 16)
     @ (if le_nat (field a 24 4) \<noteq> 0 then CHR ''%'' # decimal (le_nat (field a 24 4)) else [])
     @ '']:'' @ decimal (unat (ntohs (getIPPort a)))"

definition print_address :: "netdb \<Rightarrow> socket_address \<Rightarrow> string outcome" where
  "print_address N a = (if getFamily a = AF_UNIX
       then outputUnix (drop offsetof_sun_path (sa_bytes a)) (minus64 (unat (usedSize a)) offsetof_sun_path)
     else if getFamily a = AF_INET then Ok (outputIPv4 N a)
     else if getFamily a = AF_INET6 then Ok (outputIPv6 N a)
     else Ok ''unspecified'')"

section \<open>Reading\<close>

text \<open>The regular expressions, on a word without white space; the groups are the results.\<close>

definition match_abstract_unix :: "string \<Rightarrow> string option" where
  "match_abstract_unix = strip_prefix ''unix:@''"

definition match_unix :: "string \<Rightarrow> string option" where
  "match_unix = strip_prefix ''unix:''"

definition match_ipv4 :: "string \<Rightarrow> (string \<times> string) option" where
  "match_ipv4 str = (case strip_prefix ''ipv4:'' str of None \<Rightarrow> None
    | Some r \<Rightarrow> (let g = takeWhile (\<lambda>c. c \<noteq> CHR '':'') r in case dropWhile (\<lambda>c. c \<noteq> CHR '':'') r of
        c # p \<Rightarrow> if g \<noteq> [] \<and> p \<noteq> [] then Some (g, p) else None | [] \<Rightarrow> None))"

definition match_ipv6_address :: "string \<Rightarrow> (string \<times> string) option" where
  "match_ipv6_address str = (case strip_prefix ''ipv6:['' str of None \<Rightarrow> None
    | Some r \<Rightarrow> (let p = rev (takeWhile alnum_us (rev r)) in case strip_prefix '':]'' (dropWhile alnum_us (rev r)) of
        Some g \<Rightarrow> if g \<noteq> [] \<and> p \<noteq> [] then Some (rev g, p) else None | None \<Rightarrow> None))"

definition match_ipv6_name :: "string \<Rightarrow> (string \<times> string) option" where
  "match_ipv6_name str = (case strip_prefix ''ipv6:'' str of None \<Rightarrow> None
    | Some r \<Rightarrow> (let g = takeWhile (\<lambda>c. c \<noteq> CHR '':'') r in case dropWhile (\<lambda>c. c \<noteq> CHR '':'') r of
        c # p \<Rightarrow> if g \<noteq> [] \<and> p \<noteq> [] \<and> list_all alnum_us p then Some (g, p) else None | [] \<Rightarrow> None))"

text \<open>\<open>input\<close>: the address it assigns when it returns true.\<close>

definition input_address :: "netdb \<Rightarrow> string \<Rightarrow> socket_address option outcome" where
  "input_address N str =
    (case match_abstract_unix str of Some p \<Rightarrow> and_then (createAbstractUnix p) (\<lambda>a. Ok (Some a)) | None \<Rightarrow>
    (case match_unix str of Some p \<Rightarrow> if p = [] then Ok (Some createUnixAny)
       else and_then (createUnix p) (\<lambda>a. Ok (Some a)) | None \<Rightarrow>
    (case match_ipv4 str of Some (h, p) \<Rightarrow> and_then (createIPv4 N h p) (\<lambda>a. Ok (Some a)) | None \<Rightarrow>
    (case match_ipv6_address str of Some (h, p) \<Rightarrow> and_then (createIPv6 N h p) (\<lambda>a. Ok (Some a)) | None \<Rightarrow>
    (case match_ipv6_name str of Some (h, p) \<Rightarrow> and_then (createIPv6 N h p) (\<lambda>a. Ok (Some a)) | None \<Rightarrow>
     Ok None)))))"

text \<open>\<open>operator >>\<close>, a program over the stream and the address; only \<open>TranslationError\<close> is caught.\<close>

definition read_address :: "netdb \<Rightarrow> (istream \<times> socket_address, unit) prog" where
  "read_address N = (\<lambda>(i, sa). case read_word i of (str, i') \<Rightarrow>
     (case input_address N str of
        Ok (Some a) \<Rightarrow> (Ok (), (i', a))
      | Ok None \<Rightarrow> (Ok (), (clear_failbit i', sa))
      | Throw (TranslationError _) \<Rightarrow> (Ok (), (clear_failbit i', sa))
      | r \<Rightarrow> (fail_as r, (i', sa))))"

end
