(* ===== verification/SocketAddressProps.thy ===== *)
theory SocketAddressProps
  imports SocketAddress
begin

text \<open>
  Properties of socket addresses: every constructor yields a well-formed address and printing one
  stays inside the object, the comparisons are a total order on the used bytes, and what is
  printed is read back.
\<close>

section \<open>Well-formed addresses\<close>

definition wf_address :: "socket_address \<Rightarrow> bool" where
  "wf_address a \<longleftrightarrow> length (sa_bytes a) = sizeof_SAUnion \<and> unat (usedSize a) \<le> sizeof_SAUnion
     \<and> (getFamily a = AF_UNIX \<longrightarrow> offsetof_sun_path \<le> unat (usedSize a) \<or> sa_bytes a ! 2 = 0 \<and> sa_bytes a ! 3 = 0)"

definition used_bytes :: "socket_address \<Rightarrow> byte list" where
  "used_bytes a = take (unat (usedSize a)) (sa_bytes a)"

lemma le_bytes_2: "le_bytes 2 n = [of_nat n, of_nat (n div 256)]"
  by (simp add: numeral_2_eq_2)

lemma le_bytes_4: "length (le_bytes 4 n) = 4"
  by simp

lemma unat_size [simp]: "n < 2 ^ 32 \<Longrightarrow> unat (word_of_nat n :: 32 word) = n"
  by (simp add: unat_of_nat)

lemma replicate_peel: "0 < n \<Longrightarrow> replicate n x = x # replicate (n - 1) x"
  by (cases n) simp_all

lemma poke_zeros:
  assumes "length pre = k" and "length bs \<le> n"
  shows "poke k bs \<lparr>sa_bytes = pre @ replicate n 0, usedSize = u\<rparr>
    = \<lparr>sa_bytes = pre @ bs @ replicate (n - length bs) 0, usedSize = u\<rparr>"
  using assms by (simp add: poke_def)

lemma set_family_zeros:
  "set_family f \<lparr>sa_bytes = replicate sizeof_SAUnion 0, usedSize = u\<rparr>
     = \<lparr>sa_bytes = [of_nat (nat f), of_nat (nat f div 256)] @ replicate 110 0, usedSize = u\<rparr>"
  using poke_zeros [where pre = "[]" and k = 0 and bs = "le_bytes 2 (nat f)" and n = 112 and u = u]
  by (simp add: set_family_def le_bytes_2 sizeof_SAUnion_def)

lemma unix_zeros: "set_family AF_UNIX new_address = \<lparr>sa_bytes = [1, 0] @ replicate 110 0, usedSize = 0\<rparr>"
  unfolding new_address_def set_family_zeros by (simp add: AF_UNIX_def)

lemma getFamily_Cons: "sa_bytes a = x # y # bs \<Longrightarrow> getFamily a = int (unat x + 256 * unat y)"
  by (simp add: getFamily_def field_def numeral_2_eq_2)

lemma getFamily_record [simp]: "getFamily \<lparr>sa_bytes = x # y # bs, usedSize = u\<rparr> = int (unat x + 256 * unat y)"
  by (rule getFamily_Cons) simp

lemma createUnix_Ok:
  assumes "length p < 108"
  shows "createUnix p = Ok \<lparr>sa_bytes = [1, 0] @ map byte_of p @ replicate (110 - length p) 0,
     usedSize = of_nat (3 + length p)\<rparr>"
  using assms poke_zeros [where pre = "[1, 0]" and k = 2 and bs = "map byte_of p" and n = 110 and u = 0]
  by (simp add: createUnix_def unix_zeros address_sizes)

lemma createAbstractUnix_Ok:
  assumes "length p < 108"
  shows "createAbstractUnix p = Ok \<lparr>sa_bytes = [1, 0, 0] @ map byte_of p @ replicate (109 - length p) 0,
     usedSize = of_nat (3 + length p)\<rparr>"
  using assms poke_zeros [where pre = "[1, 0, 0]" and k = 3 and bs = "map byte_of p" and n = 109 and u = 0]
  by (simp add: createAbstractUnix_def unix_zeros address_sizes replicate_peel [where n = 110])

lemma createUnixAny_eq: "createUnixAny = \<lparr>sa_bytes = [1, 0] @ replicate 110 0, usedSize = 2\<rparr>"
  by (simp add: createUnixAny_def unix_zeros address_sizes)

section \<open>Printing paths\<close>

lemma outputUnix_loop_path:
  assumes "NUL \<notin> set p" and "length pre + length p \<le> n"
  shows "outputUnix_loop (pre @ map byte_of p @ 0 # post) n (length pre) = Ok p"
  using assms
proof (induction p arbitrary: pre)
  case Nil
  then show ?case by (subst outputUnix_loop.simps) (simp add: nth_append)
next
  case (Cons c p)
  have "outputUnix_loop ((pre @ [byte_of c]) @ map byte_of p @ 0 # post) n (length (pre @ [byte_of c])) = Ok p"
    using Cons.prems by (intro Cons.IH) auto
  with Cons.prems show ?case
    by (subst outputUnix_loop.simps) (auto simp: nth_append and_then_def)
qed

lemma outputUnix_loop_safe:
  assumes "n \<le> length path"
  shows "\<exists>s. outputUnix_loop path n i = Ok s"
  using assms
proof (induction path n i rule: outputUnix_loop.induct)
  case (1 path n i)
  then show ?case by (subst outputUnix_loop.simps) (auto simp: and_then_def)
qed

lemma print_unix:
  assumes "2 \<le> n" and "n < 2 ^ 32"
  shows "print_address N \<lparr>sa_bytes = [1, 0] @ path, usedSize = of_nat n\<rparr> = outputUnix path (n - 2)"
proof -
  let ?a = "\<lparr>sa_bytes = [1, 0] @ path, usedSize = of_nat n\<rparr>"
  have "getFamily ?a = AF_UNIX"
    using getFamily_Cons [of ?a 1 0 path] by (simp add: AF_UNIX_def)
  then show ?thesis using assms by (simp add: print_address_def offsetof_sun_path_def unat_of_nat)
qed

lemma print_createUnix:
  assumes "p \<noteq> []" and "NUL \<notin> set p" and "length p < 108"
  shows "\<exists>a. createUnix p = Ok a \<and> print_address N a = Ok (''unix:'' @ p)"
proof -
  let ?post = "replicate (109 - length p) 0"
  let ?path = "map byte_of p @ replicate (110 - length p) 0"
  have path: "?path = [] @ map byte_of p @ 0 # ?post"
    using assms(3) by (simp add: replicate_peel [where n = "110 - length p"])
  have "outputUnix_loop ?path (1 + length p) 0 = Ok p"
    using outputUnix_loop_path [where pre = "[]" and n = "1 + length p" and post = ?post] assms(2)
    unfolding path by simp
  moreover have "?path ! 0 \<noteq> 0"
    using assms(1,2) by (cases p) auto
  ultimately have "outputUnix ?path (1 + length p) = Ok (''unix:'' @ p)"
    by (simp add: outputUnix_def and_then_def)
  then show ?thesis
    using assms(3) print_unix [where path = ?path and n = "3 + length p" and N = N] by (simp add: createUnix_Ok)
qed

lemma print_createAbstractUnix:
  assumes "p \<noteq> []" and "NUL \<notin> set p" and "length p < 108"
  shows "\<exists>a. createAbstractUnix p = Ok a \<and> print_address N a = Ok (''unix:@'' @ p)"
proof -
  let ?post = "replicate (108 - length p) 0"
  let ?path = "0 # map byte_of p @ replicate (109 - length p) 0"
  have path: "?path = [0] @ map byte_of p @ 0 # ?post"
    using assms(3) by (simp add: replicate_peel [where n = "109 - length p"])
  have "outputUnix_loop ?path (1 + length p) 1 = Ok p"
    using outputUnix_loop_path [where pre = "[0]" and n = "1 + length p" and post = ?post] assms(2)
    unfolding path by simp
  moreover have "?path ! 1 \<noteq> 0"
    using assms(1,2) by (cases p) auto
  ultimately have "outputUnix ?path (1 + length p) = Ok (''unix:@'' @ p)"
    by (simp add: outputUnix_def and_then_def)
  then show ?thesis
    using assms(3) print_unix [where path = ?path and n = "3 + length p" and N = N] by (simp add: createAbstractUnix_Ok)
qed

section \<open>The patterns\<close>

lemma span_colon:
  assumes "CHR '':'' \<notin> set g"
  shows "takeWhile (\<lambda>c. c \<noteq> CHR '':'') (g @ CHR '':'' # p) = g" "dropWhile (\<lambda>c. c \<noteq> CHR '':'') (g @ CHR '':'' # p) = CHR '':'' # p"
  using assms by (induction g) auto

lemma match_ipv4_iff:
  "match_ipv4 str = Some (g, p) \<longleftrightarrow> str = ''ipv4:'' @ g @ '':'' @ p \<and> CHR '':'' \<notin> set g \<and> g \<noteq> [] \<and> p \<noteq> []"
proof
  assume "match_ipv4 str = Some (g, p)"
  then obtain r c where r: "str = ''ipv4:'' @ r" "g = takeWhile (\<lambda>c. c \<noteq> CHR '':'') r"
    "dropWhile (\<lambda>c. c \<noteq> CHR '':'') r = c # p" "g \<noteq> []" "p \<noteq> []"
    by (auto simp: match_ipv4_def Let_def strip_prefix_iff split: option.splits list.splits if_splits)
  have "c = CHR '':''" using r(3) hd_dropWhile [of "\<lambda>c. c \<noteq> CHR '':''" r] by auto
  moreover have "r = g @ c # p" using takeWhile_dropWhile_id [of "\<lambda>c. c \<noteq> CHR '':''" r] r(2,3) by simp
  moreover have "CHR '':'' \<notin> set g" using r(2) by (auto dest: set_takeWhileD)
  ultimately show "str = ''ipv4:'' @ g @ '':'' @ p \<and> CHR '':'' \<notin> set g \<and> g \<noteq> [] \<and> p \<noteq> []"
    using r by simp
next
  assume "str = ''ipv4:'' @ g @ '':'' @ p \<and> CHR '':'' \<notin> set g \<and> g \<noteq> [] \<and> p \<noteq> []"
  then show "match_ipv4 str = Some (g, p)"
    using span_colon [of g p] by (simp add: match_ipv4_def Let_def)
qed

lemma span_alnum:
  assumes "list_all P xs" and "\<not> P y"
  shows "takeWhile P (xs @ y # ys) = xs" "dropWhile P (xs @ y # ys) = y # ys"
  using assms by (induction xs) auto

lemma match_ipv6_address_iff:
  "match_ipv6_address str = Some (g, p) \<longleftrightarrow>
     str = ''ipv6:['' @ g @ '']:'' @ p \<and> g \<noteq> [] \<and> p \<noteq> [] \<and> list_all alnum_us p"
proof
  assume "match_ipv6_address str = Some (g, p)"
  then obtain r g' where r: "str = ''ipv6:['' @ r" "p = rev (takeWhile alnum_us (rev r))"
    "dropWhile alnum_us (rev r) = '':]'' @ g'" "g = rev g'" "g' \<noteq> []" "p \<noteq> []"
    by (auto simp: match_ipv6_address_def Let_def strip_prefix_iff split: option.splits if_splits)
  have "rev r = rev p @ '':]'' @ g'"
    using takeWhile_dropWhile_id [of alnum_us "rev r"] r(2,3) by simp
  then have "rev (rev r) = rev (rev p @ '':]'' @ g')" by (rule arg_cong)
  then have "r = g @ '']:'' @ p" using r(4) by simp
  moreover have "list_all alnum_us p"
    using r(2) by (auto simp: list_all_iff dest: set_takeWhileD)
  ultimately show "str = ''ipv6:['' @ g @ '']:'' @ p \<and> g \<noteq> [] \<and> p \<noteq> [] \<and> list_all alnum_us p"
    using r by simp
next
  assume a: "str = ''ipv6:['' @ g @ '']:'' @ p \<and> g \<noteq> [] \<and> p \<noteq> [] \<and> list_all alnum_us p"
  have "\<not> alnum_us (CHR '':'')" by (simp add: alnum_us_def)
  then show "match_ipv6_address str = Some (g, p)"
    using a span_alnum [of alnum_us "rev p" "CHR '':''" "CHR '']'' # rev g"]
    by (simp add: match_ipv6_address_def Let_def)
qed

section \<open>Order\<close>

lemma memcmp_eq_iff: "length xs = length ys \<Longrightarrow> memcmp xs ys = 0 \<longleftrightarrow> xs = ys"
  by (induction xs ys rule: memcmp.induct) auto

lemma memcmp_less_iff:
  "length xs = length ys \<Longrightarrow> memcmp xs ys < 0 \<longleftrightarrow> (xs, ys) \<in> lenlex {(x, y). x < y}"
  by (induction xs ys rule: memcmp.induct) (auto simp: Cons_lenlex_iff)

lemma length_used_bytes: "wf_address a \<Longrightarrow> length (used_bytes a) = unat (usedSize a)"
  by (simp add: used_bytes_def wf_address_def)

lemma sa_eq_iff:
  assumes "wf_address a" and "wf_address b"
  shows "sa_eq a b \<longleftrightarrow> used_bytes a = used_bytes b"
proof
  assume "used_bytes a = used_bytes b"
  moreover from this have "usedSize a = usedSize b"
    using length_used_bytes assms by (metis word_unat_eq_iff)
  ultimately show "sa_eq a b"
    using assms by (simp add: sa_eq_def memcmp_eq_iff wf_address_def used_bytes_def)
next
  assume "sa_eq a b"
  then show "used_bytes a = used_bytes b"
    using assms by (auto simp: sa_eq_def memcmp_eq_iff wf_address_def used_bytes_def)
qed

lemma sa_less_iff:
  assumes "wf_address a" and "wf_address b"
  shows "sa_less a b \<longleftrightarrow> (used_bytes a, used_bytes b) \<in> lenlex {(x, y). x < y}"
proof (cases "usedSize a = usedSize b")
  case True
  then show ?thesis
    using assms by (simp add: sa_less_def memcmp_less_iff wf_address_def used_bytes_def)
next
  case False
  with assms show ?thesis
    by (auto simp: sa_less_def lenlex_conv length_used_bytes word_less_nat_alt word_unat_eq_iff)
qed

lemma word_less_props:
  "irrefl {(x, y :: byte). x < y}" "trans {(x, y :: byte). x < y}" "total {(x, y :: byte). x < y}"
  by (auto simp: irrefl_def trans_def total_on_def)

lemma lenlex_bytes:
  fixes x y z :: "byte list"
  shows "x = y \<or> (x, y) \<in> lenlex {(x, y). x < y} \<or> (y, x) \<in> lenlex {(x, y). x < y}"
    "(x, x) \<notin> lenlex {(x, y). x < y}"
    "(x, y) \<in> lenlex {(x, y). x < y} \<Longrightarrow> (y, z) \<in> lenlex {(x, y). x < y} \<Longrightarrow> (x, z) \<in> lenlex {(x, y). x < y}"
    "(x, y) \<in> lenlex {(x, y). x < y} \<Longrightarrow> (y, x) \<notin> lenlex {(x, y). x < y}"
proof -
  have tr: "trans (lenlex {(x, y :: byte). x < y})" by (intro lenlex_transI word_less_props)
  have ir: "(w, w) \<notin> lenlex {(x, y :: byte). x < y}" for w by (rule lenlex_irreflexive) simp
  show "x = y \<or> (x, y) \<in> lenlex {(x, y). x < y} \<or> (y, x) \<in> lenlex {(x, y). x < y}"
    using total_lenlex [OF word_less_props(3)] by (auto simp: total_on_def)
  show "(x, x) \<notin> lenlex {(x, y). x < y}" by (rule ir)
  show "(x, z) \<in> lenlex {(x, y). x < y}" if "(x, y) \<in> lenlex {(x, y). x < y}" "(y, z) \<in> lenlex {(x, y). x < y}"
    using tr that by (rule transD)
  show "(y, x) \<notin> lenlex {(x, y). x < y}" if "(x, y) \<in> lenlex {(x, y). x < y}"
    using transD [OF tr that] ir by blast
qed

text \<open>
  C31: the comparisons agree with a reference: \<open>==\<close> is equality of the used bytes and \<open><\<close> their order by
  length and then lexicographically. So, of two addresses, exactly one of \<open>a < b\<close>, \<open>a == b\<close> and
  \<open>b < a\<close> holds, and \<open><\<close> is transitive: addresses can be the keys of a sorted map.
\<close>

theorem address_order:
  assumes "wf_address a" and "wf_address b" and "wf_address c"
  shows "(sa_eq a b \<longleftrightarrow> used_bytes a = used_bytes b)
    \<and> (sa_less a b \<longleftrightarrow> (used_bytes a, used_bytes b) \<in> lenlex {(x, y). x < y})
    \<and> (sa_less a b \<or> sa_eq a b \<or> sa_less b a)
    \<and> \<not> (sa_less a b \<and> sa_eq a b) \<and> \<not> (sa_less a b \<and> sa_less b a) \<and> \<not> (sa_eq a b \<and> sa_less b a)
    \<and> (sa_less a b \<and> sa_less b c \<longrightarrow> sa_less a c)"
  unfolding sa_eq_iff [OF assms(1,2)] sa_less_iff [OF assms(1,2)] sa_less_iff [OF assms(2,1)]
    sa_less_iff [OF assms(2,3)] sa_less_iff [OF assms(1,3)]
  using lenlex_bytes by metis

section \<open>Reading what was printed\<close>

definition plain :: "string \<Rightarrow> bool" where
  "plain s \<longleftrightarrow> s \<noteq> [] \<and> list_all (\<lambda>c. \<not> is_space c \<and> c \<noteq> NUL) s"

definition at_word_end :: "string \<Rightarrow> bool" where
  "at_word_end rest \<longleftrightarrow> rest = [] \<or> is_space (hd rest)"

definition after_word :: "string \<Rightarrow> istream" where
  "after_word rest = \<lparr>in_rest = rest, in_eof = (rest = []), in_fail = False, in_bad = False\<rparr>"

lemma read_address_word:
  assumes "list_all (\<lambda>c. \<not> is_space c) w" and "w \<noteq> []" and "at_word_end rest" and "input_address N w = Ok (Some a)"
  shows "read_address N (stream_of (w @ rest), b) = (Ok (), (after_word rest, a))"
  using assms by (simp add: read_address_def read_word_next at_word_end_def after_word_def list_all_iff)

text \<open>The interface of the two kinds of printable addresses: what is printed is one word that
  \<open>input\<close> turns into the address. Reading it back from a stream follows once for both.\<close>

locale word_form =
  fixes N :: netdb and ok :: "socket_address \<Rightarrow> bool"
  assumes printed: "ok a \<Longrightarrow> \<exists>w. print_address N a = Ok w \<and> w \<noteq> [] \<and> list_all (\<lambda>c. \<not> is_space c) w
    \<and> input_address N w = Ok (Some a)"
begin

lemma read_back:
  assumes "ok a" and "print_address N a = Ok w" and "at_word_end rest"
  shows "read_address N (stream_of (w @ rest), b) = (Ok (), (after_word rest, a))"
  using printed [OF assms(1)] assms(2,3) by (auto intro: read_address_word)

lemma print_injective:
  assumes "ok a" and "ok b" and "print_address N a = print_address N b"
  shows "a = b"
  using printed [OF assms(1)] printed [OF assms(2)] assms(3) by auto

end

lemma space_letters: "\<not> is_space (CHR ''u'')" "\<not> is_space (CHR ''n'')" "\<not> is_space (CHR ''i'')" "\<not> is_space (CHR ''x'')"
  "\<not> is_space (CHR '':'')" "\<not> is_space (CHR ''@'')" "\<not> is_space (CHR ''p'')" "\<not> is_space (CHR ''v'')"
  "\<not> is_space (CHR ''4'')" "\<not> is_space (CHR ''6'')" "\<not> is_space (CHR ''['')" "\<not> is_space (CHR '']'')" "\<not> is_space (CHR ''%'')"
  by (simp_all add: is_space_def)

lemma plain_facts: "plain p \<Longrightarrow> p \<noteq> [] \<and> NUL \<notin> set p \<and> list_all (\<lambda>c. \<not> is_space c) p"
  by (auto simp: plain_def list_all_iff)

lemma input_unix:
  assumes "p \<noteq> []" and "hd p \<noteq> CHR ''@''" and "createUnix p = Ok a"
  shows "input_address N (''unix:'' @ p) = Ok (Some a)"
  using assms by (cases p) (simp_all add: input_address_def match_abstract_unix_def match_unix_def and_then_def)

lemma input_abstract: "createAbstractUnix p = Ok a \<Longrightarrow> input_address N (''unix:@'' @ p) = Ok (Some a)"
  by (simp add: input_address_def match_abstract_unix_def and_then_def)

lemma print_any: "print_address N createUnixAny = Ok ''unix:''"
  using print_unix [where n = 2 and path = "replicate 110 0" and N = N]
  by (simp add: createUnixAny_eq outputUnix_def and_then_def)

inductive unix_printable :: "socket_address \<Rightarrow> bool" where
  path: "plain p \<Longrightarrow> hd p \<noteq> CHR ''@'' \<Longrightarrow> createUnix p = Ok a \<Longrightarrow> unix_printable a"
| abstract: "plain p \<Longrightarrow> createAbstractUnix p = Ok a \<Longrightarrow> unix_printable a"
| any: "unix_printable createUnixAny"

lemma createUnix_length: "createUnix p = Ok a \<Longrightarrow> length p < 108"
  by (auto simp: createUnix_def address_sizes split: if_splits)

lemma createAbstractUnix_length: "createAbstractUnix p = Ok a \<Longrightarrow> length p < 108"
  by (auto simp: createAbstractUnix_def address_sizes split: if_splits)

interpretation un: word_form N unix_printable for N
proof
  fix a
  assume "unix_printable a"
  then show "\<exists>w. print_address N a = Ok w \<and> w \<noteq> [] \<and> list_all (\<lambda>c. \<not> is_space c) w \<and> input_address N w = Ok (Some a)"
  proof cases
    case (path p)
    then show ?thesis
      using plain_facts [of p] print_createUnix [of p N] createUnix_length [of p a] input_unix [of p a N]
      by (auto simp: space_letters)
  next
    case (abstract p)
    then show ?thesis
      using plain_facts [of p] print_createAbstractUnix [of p N] createAbstractUnix_length [of p a] input_abstract [of p a N]
      by (auto simp: space_letters)
  next
    case any
    then show ?thesis
      by (simp add: print_any space_letters input_address_def match_abstract_unix_def match_unix_def)
  qed
qed

text \<open>
  C29: a Unix address that is printed and read back is the same address, for a path in the file system
  that does not start with \<open>@\<close>, an abstract name, and the address of no path, provided that the path or
  name is not empty, has no white space and no zero byte, and is not longer than the 107 bytes that
  the constructors accept. What is left out is not read back: a
  path that starts with \<open>@\<close> is printed like an abstract name, a path with white space is read back as
  the address of the part before it, and the empty path as the address of no path, each time
  another address than the one printed.
\<close>

theorem unix_address_roundtrip:
  assumes "plain p" and "length p < 108" and "at_word_end rest"
  shows "(hd p \<noteq> CHR ''@'' \<longrightarrow> (\<exists>a. createUnix p = Ok a \<and> print_address N a = Ok (''unix:'' @ p)
        \<and> read_address N (stream_of (''unix:'' @ p @ rest), b) = (Ok (), (after_word rest, a))))
    \<and> (\<exists>a. createAbstractUnix p = Ok a \<and> print_address N a = Ok (''unix:@'' @ p)
        \<and> read_address N (stream_of (''unix:@'' @ p @ rest), b) = (Ok (), (after_word rest, a)))
    \<and> print_address N createUnixAny = Ok ''unix:''
    \<and> read_address N (stream_of (''unix:'' @ rest), b) = (Ok (), (after_word rest, createUnixAny))
    \<and> (length p < 107 \<longrightarrow> (\<exists>a f. createAbstractUnix p = Ok a \<and> createUnix (CHR ''@'' # p) = Ok f \<and> \<not> sa_eq a f
        \<and> print_address N f = print_address N a))
    \<and> (hd p \<noteq> CHR ''@'' \<and> NUL \<notin> set q \<and> length (p @ CHR '' '' # q) < 108 \<longrightarrow> (\<exists>a f w. createUnix p = Ok a \<and> createUnix (p @ CHR '' '' # q) = Ok f \<and> \<not> sa_eq a f
        \<and> print_address N f = Ok w \<and> read_address N (stream_of w, b) = (Ok (), (after_word (CHR '' '' # q), a))))
    \<and> (\<exists>e. createUnix [] = Ok e \<and> \<not> sa_eq e createUnixAny \<and> print_address N e = Ok ''unix:'')"
proof -
  note p = plain_facts [OF assms(1)]
  obtain a where a: "createAbstractUnix p = Ok a" "print_address N a = Ok (''unix:@'' @ p)"
    using print_createAbstractUnix [of p N] p assms(2) by auto
  have "\<exists>f. createUnix (CHR ''@'' # p) = Ok f \<and> \<not> sa_eq a f \<and> print_address N f = print_address N a"
    if at: "length p < 107"
  proof -
    obtain f where f: "createUnix (CHR ''@'' # p) = Ok f" "print_address N f = Ok (''unix:'' @ CHR ''@'' # p)"
      using print_createUnix [of "CHR ''@'' # p" N] p at by auto
    then have "\<not> sa_eq a f"
      using a(1) at createAbstractUnix_Ok [of p] createUnix_Ok [of "CHR ''@'' # p"]
      by (auto simp: sa_eq_def unat_of_nat)
    then show ?thesis using a(2) f by simp
  qed
  moreover have path: "\<exists>u. createUnix p = Ok u \<and> print_address N u = Ok (''unix:'' @ p)
      \<and> read_address N (stream_of (''unix:'' @ p @ rest), b) = (Ok (), (after_word rest, u))"
    if "hd p \<noteq> CHR ''@''" "at_word_end rest" for rest
  proof -
    obtain u where u: "createUnix p = Ok u" "print_address N u = Ok (''unix:'' @ p)"
      using print_createUnix [of p N] p assms(2) by auto
    then show ?thesis
      using un.read_back [where N = N and b = b, OF unix_printable.path [OF assms(1) that(1) u(1)] u(2) that(2)] by simp
  qed
  moreover have "read_address N (stream_of (''unix:@'' @ p @ rest), b) = (Ok (), (after_word rest, a))"
    using un.read_back [where N = N and b = b, OF unix_printable.abstract [OF assms(1) a(1)] a(2) assms(3)] by simp
  moreover have "read_address N (stream_of (''unix:'' @ rest), b) = (Ok (), (after_word rest, createUnixAny))"
    using un.read_back [where N = N and b = b, OF unix_printable.any print_any assms(3)] by simp
  moreover have "\<exists>a f w. createUnix p = Ok a \<and> createUnix (p @ CHR '' '' # q) = Ok f \<and> \<not> sa_eq a f
      \<and> print_address N f = Ok w \<and> read_address N (stream_of w, b) = (Ok (), (after_word (CHR '' '' # q), a))"
    if at: "hd p \<noteq> CHR ''@''" and q: "NUL \<notin> set q" "length (p @ CHR '' '' # q) < 108"
  proof -
    let ?q = "CHR '' '' # q"
    have "NUL \<notin> set (p @ ?q)" using p q(1) by simp
    then obtain g where g: "createUnix (p @ ?q) = Ok g" "print_address N g = Ok (''unix:'' @ p @ ?q)"
      using print_createUnix [of "p @ ?q" N] q(2) by auto
    obtain u where u: "createUnix p = Ok u"
      "read_address N (stream_of (''unix:'' @ p @ ?q), b) = (Ok (), (after_word ?q, u))"
      using path [OF at, of ?q] by (auto simp: at_word_end_def is_space_def)
    have "usedSize u = of_nat (3 + length p)" "usedSize g = of_nat (3 + length (p @ ?q))"
      using u(1) g(1) createUnix_Ok [OF assms(2)] createUnix_Ok [OF q(2)] by auto
    then have "unat (usedSize u) = 3 + length p" "unat (usedSize g) = 3 + length (p @ ?q)"
      using assms(2) q(2) unat_size [of "3 + length p"] unat_size [of "3 + length (p @ ?q)"] by (simp_all del: of_nat_add)
    then have "\<not> sa_eq u g" by (auto simp: sa_eq_def)
    then show ?thesis using g u by blast
  qed
  moreover have "\<exists>e. createUnix [] = Ok e \<and> \<not> sa_eq e createUnixAny \<and> print_address N e = Ok ''unix:''"
  proof -
    have "outputUnix (replicate 110 0) 1 = Ok ''unix:''"
      using outputUnix_loop_path [of "[]" "[]" 1 "replicate 109 0"]
      by (simp add: outputUnix_def and_then_def replicate_peel [where n = 110])
    then show ?thesis
      using createUnix_Ok [of "[]"] print_unix [of 3 N "replicate 110 0"]
      by (simp add: sa_eq_def createUnixAny_eq)
  qed
  ultimately show ?thesis
    using a print_any assms(3) by blast
qed

definition loopback_netdb :: netdb where
  "loopback_netdb = \<lparr>getaddrinfo = \<lambda>flags family node service.
       if family = AF_INET \<and> node = ''127.0.0.1'' \<and> service = ''80'' then Inr (take 16 (sa_bytes (of_in_addr [127, 0, 0, 1] 20480)))
       else Inl (- 2),
     gai_strerror = \<lambda>_. ''Name or service not known'', strerror = \<lambda>_. [], getservbyname = \<lambda>_. (0, None),
     inet_ntop = \<lambda>_ _. Some ''127.0.0.1'', lexical_cast_uint16 = \<lambda>_. None, lexical_cast_string = \<lambda>p. decimal (unat p)\<rparr>"

text \<open>The address of \<open>/tmp/my socket\<close> is read back as the one of \<open>/tmp/my\<close>.\<close>

theorem unix_address_roundtrip_witness:
  "(\<exists>a. createAbstractUnix ''/tmp/my'' = Ok a \<and> print_address loopback_netdb a = Ok ''unix:@/tmp/my''
     \<and> read_address loopback_netdb (stream_of ''unix:@/tmp/my next'', new_address) = (Ok (), (after_word '' next'', a)))
   \<and> (\<exists>a f w. createUnix ''/tmp/my'' = Ok a \<and> createUnix ''/tmp/my socket'' = Ok f \<and> \<not> sa_eq a f
     \<and> print_address loopback_netdb f = Ok w \<and> read_address loopback_netdb (stream_of w, new_address)
         = (Ok (), (after_word '' socket'', a)))"
  using unix_address_roundtrip [of "''/tmp/my''" "'' next''" loopback_netdb new_address "''socket''"]
  by (simp add: plain_def at_word_end_def is_space_def)

section \<open>IP addresses\<close>

text \<open>What the round trip of an IP address needs of the databases: the text of the address is a word, and
  \<open>getaddrinfo\<close> turns that text and the decimal port into the bytes of the address.\<close>

definition host_text :: "socket_address \<Rightarrow> string \<Rightarrow> string" where
  "host_text a h = (if getFamily a = AF_INET6 \<and> le_nat (field a 24 4) \<noteq> 0
     then h @ CHR ''%'' # decimal (le_nat (field a 24 4)) else h)"

definition resolves :: "netdb \<Rightarrow> socket_address \<Rightarrow> string \<Rightarrow> bool" where
  "resolves N a h \<longleftrightarrow> plain h
     \<and> inet_ntop N (getFamily a) (if getFamily a = AF_INET then field a 4 4 else field a 8 16) = Some h
     \<and> (getFamily a = AF_INET \<longrightarrow> CHR '':'' \<notin> set h)
     \<and> getaddrinfo N 0 (getFamily a) (host_text a h) (decimal (unat (ntohs (getIPPort a)))) = Inr (used_bytes a)"

definition zero_tail :: "socket_address \<Rightarrow> bool" where
  "zero_tail a \<longleftrightarrow> sa_bytes a = used_bytes a @ replicate (sizeof_SAUnion - unat (usedSize a)) 0"

lemma filled_with_used:
  assumes "wf_address a" and "zero_tail a"
  shows "filled_with (used_bytes a) = a"
proof -
  have u: "length (used_bytes a) = unat (usedSize a)" "unat (usedSize a) \<le> sizeof_SAUnion"
    using assms(1) length_used_bytes by (simp_all add: wf_address_def)
  have "poke 0 (used_bytes a) new_address
      = \<lparr>sa_bytes = used_bytes a @ replicate (sizeof_SAUnion - unat (usedSize a)) 0, usedSize = 0\<rparr>"
    using poke_zeros [where pre = "[]" and k = 0 and bs = "used_bytes a" and n = sizeof_SAUnion and u = 0] u
    by (simp add: new_address_def)
  also have "\<dots> = \<lparr>sa_bytes = sa_bytes a, usedSize = 0\<rparr>"
    using assms(2) unfolding zero_tail_def by (simp only:)
  finally show ?thesis by (simp add: filled_with_def u)
qed

lemma decimal_plain: "list_all (\<lambda>c. \<not> is_space c) (decimal n)" "list_all alnum_us (decimal n)" "NUL \<notin> set (decimal n)"
proof -
  have "\<not> alnum_us NUL" by (simp add: alnum_us_def)
  then show "list_all (\<lambda>c. \<not> is_space c) (decimal n)" "list_all alnum_us (decimal n)" "NUL \<notin> set (decimal n)"
    using decimal_chars [of _ n] by (auto simp: list_all_iff)
qed

lemma input_ipv4:
  assumes "getFamily a = AF_INET" and "wf_address a" and "zero_tail a" and "resolves N a h"
  shows "input_address N (outputIPv4 N a) = Ok (Some a)"
proof -
  let ?p = "decimal (unat (ntohs (getIPPort a)))"
  note h = plain_facts [of h]
  have "match_ipv4 (''ipv4:'' @ h @ '':'' @ ?p) = Some (h, ?p)"
    unfolding match_ipv4_iff using assms(1,4) h by (simp add: resolves_def)
  moreover have "createIPv4 N h ?p = Ok a"
    using assms h filled_with_used [of a] decimal_plain(3)
    by (simp add: createIPv4_def getAddrInfoWithService_def getAddrInfoImpl_def resolves_def host_text_def
        and_then_def address_families)
  ultimately show ?thesis
    using assms(1,4) h
    by (simp add: input_address_def match_abstract_unix_def match_unix_def outputIPv4_def output_ip_def
        resolves_def and_then_def)
qed

lemma host_text_plain: "plain h \<Longrightarrow> plain (host_text a h)"
  using decimal_plain [of "le_nat (field a 24 4)"]
  by (auto simp: host_text_def plain_def list_all_iff space_letters)

lemma input_ipv6:
  assumes "getFamily a = AF_INET6" and "wf_address a" and "zero_tail a" and "resolves N a h"
  shows "input_address N (outputIPv6 N a) = Ok (Some a)"
proof -
  let ?p = "decimal (unat (ntohs (getIPPort a)))" and ?h = "host_text a h"
  have plain: "plain h" using assms(4) by (simp add: resolves_def)
  note h = plain_facts [OF host_text_plain [OF plain, of a]]
  have out: "outputIPv6 N a = ''ipv6:['' @ ?h @ '']:'' @ ?p"
    using assms(1,4) plain_facts [OF plain]
    by (simp add: outputIPv6_def output_ip_def resolves_def host_text_def address_families)
  have "match_ipv6_address (''ipv6:['' @ ?h @ '']:'' @ ?p) = Some (?h, ?p)"
    unfolding match_ipv6_address_iff using h decimal_plain(2) by simp
  moreover have "createIPv6 N ?h ?p = Ok a"
    using assms h filled_with_used [of a] decimal_plain(3)
    by (simp add: createIPv6_def getAddrInfoWithService_def getAddrInfoImpl_def resolves_def and_then_def)
  ultimately show ?thesis
    unfolding out
    by (simp add: input_address_def match_abstract_unix_def match_unix_def match_ipv4_def and_then_def)
qed

definition ip_printable :: "netdb \<Rightarrow> socket_address \<Rightarrow> bool" where
  "ip_printable N a \<longleftrightarrow> (getFamily a = AF_INET \<or> getFamily a = AF_INET6) \<and> wf_address a \<and> zero_tail a \<and> (\<exists>h. resolves N a h)"

interpretation ip: word_form N "ip_printable N" for N
proof
  fix a
  assume "ip_printable N a"
  then obtain h where a: "getFamily a = AF_INET \<or> getFamily a = AF_INET6" "wf_address a" "zero_tail a" "resolves N a h"
    unfolding ip_printable_def by blast
  have plain: "plain h" using a(4) by (simp add: resolves_def)
  show "\<exists>w. print_address N a = Ok w \<and> w \<noteq> [] \<and> list_all (\<lambda>c. \<not> is_space c) w \<and> input_address N w = Ok (Some a)"
  proof (cases "getFamily a = AF_INET")
    case True
    then have "list_all (\<lambda>c. \<not> is_space c) (outputIPv4 N a)" "outputIPv4 N a \<noteq> []"
      using a(4) plain_facts [OF plain] decimal_plain(1)
      by (simp_all add: resolves_def outputIPv4_def output_ip_def space_letters)
    then show ?thesis
      using input_ipv4 [OF True a(2-4)] True by (simp add: print_address_def address_families)
  next
    case False
    then have six: "getFamily a = AF_INET6" using a(1) by simp
    then have "list_all (\<lambda>c. \<not> is_space c) (outputIPv6 N a)" "outputIPv6 N a \<noteq> []"
      using a(4) plain_facts [OF plain] decimal_plain(1)
      by (simp_all add: resolves_def outputIPv6_def output_ip_def space_letters address_families)
    then show ?thesis
      using input_ipv6 [OF six a(2-4)] six by (simp add: print_address_def address_families)
  qed
qed

text \<open>
  C30: an IPv4 or IPv6 address is printed as one word, with its scope, and is read back as the same address, if
  the databases resolve the text they print.
\<close>

theorem ip_address_roundtrip:
  assumes "getFamily a = AF_INET \<or> getFamily a = AF_INET6" and "wf_address a" and "zero_tail a"
    and "resolves N a h" and "at_word_end rest"
  shows "\<exists>w. print_address N a = Ok w
    \<and> read_address N (stream_of (w @ rest), b) = (Ok (), (after_word rest, a))"
proof -
  have ok: "ip_printable N a" using assms(1-4) unfolding ip_printable_def by blast
  obtain w where w: "print_address N a = Ok w" using ip.printed [OF ok] by blast
  show ?thesis using ip.read_back [where N = N and b = b, OF ok w assms(5)] w by blast
qed

lemma of_in_addr_eq:
  assumes "length addr = 4"
  shows "of_in_addr addr port = \<lparr>sa_bytes = [2, 0] @ le_bytes 2 (unat port) @ addr @ replicate 104 0, usedSize = 16\<rparr>"
proof -
  have "set_family AF_INET \<lparr>sa_bytes = replicate sizeof_SAUnion 0, usedSize = 16\<rparr>
      = \<lparr>sa_bytes = [2, 0, 0, 0] @ replicate 108 0, usedSize = 16\<rparr>"
    unfolding set_family_zeros by (simp add: AF_INET_def replicate_peel [where n = 110] replicate_peel [where n = 109])
  then show ?thesis
    using assms by (simp add: of_in_addr_def sizeof_sockaddr_in_def poke_def)
qed

lemma of_in6_addr_scope_eq:
  assumes "length addr = 16"
  shows "of_in6_addr_scope addr scope port = \<lparr>sa_bytes = [10, 0] @ le_bytes 2 (unat port) @ [0, 0, 0, 0] @ addr
     @ le_bytes 4 (unat scope) @ replicate 84 0, usedSize = 28\<rparr>"
proof -
  have "set_family AF_INET6 \<lparr>sa_bytes = replicate sizeof_SAUnion 0, usedSize = 28\<rparr>
      = \<lparr>sa_bytes = [10, 0, 0, 0, 0, 0, 0, 0] @ replicate 104 0, usedSize = 28\<rparr>"
    unfolding set_family_zeros by (simp add: AF_INET6_def replicate_peel [where n = 110] replicate_peel [where n = 109]
      replicate_peel [where n = 108] replicate_peel [where n = 107] replicate_peel [where n = 106] replicate_peel [where n = 105])
  then show ?thesis
    using assms by (simp add: of_in6_addr_scope_def sizeof_sockaddr_in6_def poke_def)
qed

theorem ip_address_roundtrip_witness:
  "\<exists>w. print_address loopback_netdb (of_in_addr [127, 0, 0, 1] 20480) = Ok w
     \<and> read_address loopback_netdb (stream_of (w @ '' ''), new_address)
       = (Ok (), (after_word '' '', of_in_addr [127, 0, 0, 1] 20480))"
proof -
  let ?a = "of_in_addr [127, 0, 0, 1] 20480"
  have a: "sa_bytes ?a = [2, 0, 0, 80, 127, 0, 0, 1] @ replicate 104 0" "usedSize ?a = 16"
    by (simp_all add: of_in_addr_eq le_bytes_2)
  have f: "getFamily ?a = AF_INET" "unat (ntohs (getIPPort ?a)) = 80"
    using a getFamily_Cons [of ?a 2 0] by (simp_all add: AF_INET_def getIPPort_def field_def ntohs_def)
  have d: "decimal 80 = ''80''"
    by (simp add: decimal.simps [of 80] decimal.simps [of 8] digit_def)
  have w: "wf_address ?a" "zero_tail ?a"
    using a f by (simp_all add: wf_address_def zero_tail_def used_bytes_def address_sizes address_families
      replicate_peel [where n = 104] replicate_peel [where n = 103] replicate_peel [where n = 102]
      replicate_peel [where n = 101] replicate_peel [where n = 100] replicate_peel [where n = 99]
      replicate_peel [where n = 98] replicate_peel [where n = 97])
  have "resolves loopback_netdb ?a ''127.0.0.1''"
    using f a by (simp add: resolves_def loopback_netdb_def plain_def is_space_def host_text_def address_families used_bytes_def d)
  then show ?thesis
    using ip_address_roundtrip [of ?a loopback_netdb "''127.0.0.1''" "'' ''" new_address] w f
    by (simp add: at_word_end_def is_space_def)
qed

section \<open>Types\<close>

lemma wf_of_bytes:
  assumes "length bs = 110" and "2 \<le> n" and "n \<le> 112"
  shows "wf_address \<lparr>sa_bytes = x # y # bs, usedSize = of_nat n\<rparr>"
  using assms by (simp add: wf_address_def address_sizes unat_of_nat)

lemma wf_filled:
  assumes "length bs \<le> 112"
  shows "wf_address \<lparr>sa_bytes = bs @ replicate (112 - length bs) 0, usedSize = of_nat (length bs)\<rparr>"
  using assms by (auto simp: wf_address_def address_sizes nth_append)

lemma wf_memCopy:
  assumes "min n 112 \<le> length s" and "n < 2 ^ 32"
  shows "wf_address (case memCopy s n sizeof_SAUnion of (bs, m) \<Rightarrow> \<lparr>sa_bytes = bs, usedSize = of_nat m\<rparr>)"
proof (cases "n < 112")
  case True
  then have "length (take n s) = n" using assms(1) by simp
  then show ?thesis using wf_filled [of "take n s"] True by (simp add: memCopy_def Let_def address_sizes)
next
  case False
  then have "length (take 112 s) = 112" using assms(1) by simp
  then show ?thesis using wf_filled [of "take 112 s"] False by (simp add: memCopy_def Let_def address_sizes min_def)
qed

lemma wf_filled_with: "length bs \<le> 112 \<Longrightarrow> wf_address (filled_with bs)"
  using wf_filled [of bs] poke_zeros [of "[]" 0 bs 112 0] by (simp add: filled_with_def new_address_def address_sizes)

lemma print_safe:
  assumes "wf_address a"
  shows "\<exists>w. print_address N a = Ok w"
proof -
  let ?path = "drop offsetof_sun_path (sa_bytes a)" and ?n = "unat (usedSize a) - offsetof_sun_path"
  have n: "?n \<le> length ?path" "0 < length ?path" using assms by (auto simp: wf_address_def address_sizes)
  have "\<exists>w. outputUnix ?path ?n = Ok w"
    using outputUnix_loop_safe [OF n(1), of 0] outputUnix_loop_safe [OF n(1), of 1]
    by (auto simp: outputUnix_def and_then_def)
  moreover have "minus64 (unat (usedSize a)) offsetof_sun_path = ?n" if "offsetof_sun_path \<le> unat (usedSize a)"
    using that by simp
  moreover have "\<exists>w. outputUnix ?path m = Ok w" if "sa_bytes a ! 2 = 0" "sa_bytes a ! 3 = 0" for m
  proof -
    have "?path ! 0 = 0" "?path ! 1 = 0" using that assms by (simp_all add: wf_address_def address_sizes numeral_eq_Suc)
    moreover from this n(2) have "outputUnix_loop ?path m 0 = Ok []" by (subst outputUnix_loop.simps) simp
    ultimately show ?thesis by (simp add: outputUnix_def and_then_def)
  qed
  ultimately show ?thesis using assms unfolding print_address_def wf_address_def by (metis outcome.inject(1))
qed

lemma wf_getSizePointer: "wf_address a \<Longrightarrow> wf_address (getSizePointer a)"
  by (auto simp: wf_address_def getSizePointer_def getAvailableSize_def getFamily_def field_def address_sizes)

lemma le_nat_zeros [simp]: "le_nat (replicate n 0) = 0"
  by (induction n) simp_all

lemma wf_any:
  "\<forall>a\<in>{createUnixAny, createIPv4Any, createIPv6Any}. wf_address a \<and> isAny a"
proof -
  have "wf_address createUnixAny" "getFamily createUnixAny = AF_UNIX"
    using wf_of_bytes [of "replicate 110 0" 2 1 0] getFamily_Cons [of createUnixAny 1 0]
    by (simp_all add: createUnixAny_eq AF_UNIX_def)
  moreover have e: "createIPv4Any = \<lparr>sa_bytes = 2 # 0 # replicate 110 0, usedSize = 16\<rparr>"
    "createIPv6Any = \<lparr>sa_bytes = 10 # 0 # replicate 110 0, usedSize = 28\<rparr>"
    by (simp_all add: createIPv4Any_def of_sockaddr_in_def createIPv6Any_def of_sockaddr_in6_def memCopy_def
      address_sizes address_families le_bytes_2 replicate_add [symmetric])
  moreover have "getFamily createIPv4Any = AF_INET" "getFamily createIPv6Any = AF_INET6"
    unfolding e getFamily_record by (simp_all add: address_families)
  moreover have "wf_address \<lparr>sa_bytes = 2 # 0 # replicate 110 0, usedSize = 16\<rparr>"
    "wf_address \<lparr>sa_bytes = 10 # 0 # replicate 110 0, usedSize = 28\<rparr>"
    using wf_of_bytes [of "replicate 110 0" 16 2 0] wf_of_bytes [of "replicate 110 0" 28 10 0] by simp_all
  moreover have "unat (usedSize createUnixAny) = offsetof_sun_path"
    by (simp add: createUnixAny_eq offsetof_sun_path_def)
  moreover have "sa_bytes createIPv4Any = 2 # 0 # replicate 110 0" "sa_bytes createIPv6Any = 10 # 0 # replicate 110 0"
    unfolding e by simp_all
  ultimately show ?thesis
    by (simp add: isAny_def address_families field_def)
qed

lemma wf_new: "wf_address new_address"
  by (simp add: wf_address_def new_address_def address_sizes getFamily_def field_def address_families)

text \<open>
  Every way to make an address: the constructors and the factories, each for all arguments it accepts.
  What is given by pointer must be readable: as many bytes as are copied.
\<close>

inductive constructed :: "netdb \<Rightarrow> socket_address \<Rightarrow> bool" for N where
  "constructed N new_address"
| "min (unat n) sizeof_SAUnion \<le> length s \<Longrightarrow> constructed N (of_sockaddr s n)"
| "min (unat n) sizeof_SAUnion \<le> length sun \<Longrightarrow> constructed N (of_sockaddr_un sun n)"
| "length sin = sizeof_sockaddr_in \<Longrightarrow> constructed N (of_sockaddr_in sin)"
| "length addr = 4 \<Longrightarrow> constructed N (of_in_addr addr port)"
| "length sin6 = sizeof_sockaddr_in6 \<Longrightarrow> constructed N (of_sockaddr_in6 sin6)"
| "length addr6 = 16 \<Longrightarrow> constructed N (of_in6_addr addr6 port)"
| "length addr6 = 16 \<Longrightarrow> constructed N (of_in6_addr_scope addr6 scope port)"
| "createUnix p = Ok a \<Longrightarrow> constructed N a"
| "constructed N createUnixAny"
| "createAbstractUnix p = Ok a \<Longrightarrow> constructed N a"
| "createIPv4 N node service = Ok a \<Longrightarrow> constructed N a"
| "createIPv4_port N node port = Ok a \<Longrightarrow> constructed N a"
| "length addr = 4 \<Longrightarrow> createIPv4_addr_service N addr service = Ok a \<Longrightarrow> constructed N a"
| "length addr = 4 \<Longrightarrow> constructed N (createIPv4_addr addr port)"
| "constructed N createIPv4Any"
| "createIPv6 N node service = Ok a \<Longrightarrow> constructed N a"
| "createIPv6_port N node port = Ok a \<Longrightarrow> constructed N a"
| "length addr6 = 16 \<Longrightarrow> createIPv6_addr_service N addr6 service = Ok a \<Longrightarrow> constructed N a"
| "length addr6 = 16 \<Longrightarrow> constructed N (createIPv6_addr addr6 port)"
| "length addr6 = 16 \<Longrightarrow> createIPv6_addr_scope_service N addr6 scope service = Ok a \<Longrightarrow> constructed N a"
| "length addr6 = 16 \<Longrightarrow> constructed N (createIPv6_addr_scope addr6 scope port)"
| "constructed N createIPv6Any"
| "createIPv4OrIPv6 N node service = Ok a \<Longrightarrow> constructed N a"
| "createIPv4OrIPv6_port N node port = Ok a \<Longrightarrow> constructed N a"

lemma and_then_Ok: "and_then r f = Ok y \<longleftrightarrow> (\<exists>x. r = Ok x \<and> f x = Ok y)"
  by (cases r) (simp_all add: and_then_def)

lemma wf_of_in_addr: "length addr = 4 \<Longrightarrow> wf_address (of_in_addr addr port)"
  using wf_of_bytes [of "le_bytes 2 (unat port) @ addr @ replicate 104 0" 16 2 0] by (simp add: of_in_addr_eq)

lemma wf_of_in6_addr_scope: "length addr = 16 \<Longrightarrow> wf_address (of_in6_addr_scope addr scope port)"
  using wf_of_bytes [of "le_bytes 2 (unat port) @ [0, 0, 0, 0] @ addr @ le_bytes 4 (unat scope) @ replicate 84 0" 28 10 0]
  by (simp add: of_in6_addr_scope_eq)

lemma wf_createUnix: "createUnix p = Ok a \<Longrightarrow> wf_address a"
  using createUnix_length [of p a] createUnix_Ok [of p]
    wf_of_bytes [of "map byte_of p @ replicate (110 - length p) 0" "3 + length p" 1 0] by auto

lemma wf_createAbstractUnix: "createAbstractUnix p = Ok a \<Longrightarrow> wf_address a"
  using createAbstractUnix_length [of p a] createAbstractUnix_Ok [of p]
    wf_of_bytes [of "0 # map byte_of p @ replicate (109 - length p) 0" "3 + length p" 1 0] by auto

definition short_results :: "netdb \<Rightarrow> bool" where
  "short_results N \<longleftrightarrow> (\<forall>flags family node service bs. getaddrinfo N flags family node service = Inr bs
     \<longrightarrow> length bs \<le> sizeof_sockaddr_in6)"

lemma getAddrInfoImpl_length:
  assumes "short_results N"
  shows "getAddrInfoWithService N family node service = Ok bs \<Longrightarrow> length bs \<le> 112"
    "getAddrInfoWithPort N family node port = Ok bs \<Longrightarrow> length bs \<le> 112"
  using assms by (force simp: short_results_def getAddrInfoWithService_def getAddrInfoWithPort_def getAddrInfoImpl_def
      address_sizes split: sum.splits)+

lemmas factory_defs = createIPv4_def createIPv4_port_def createIPv4_addr_service_def createIPv4_addr_def
  createIPv6_def createIPv6_port_def createIPv6_addr_service_def createIPv6_addr_def createIPv6_addr_scope_def
  createIPv6_addr_scope_service_def createIPv4OrIPv6_def createIPv4OrIPv6_port_def of_in6_addr_def

text \<open>
  C32: every way to make an address gives a well-formed one (\<open>constructed\<close> lists all constructors and
  factories): 112 bytes of which at most 112 are used, and of a Unix address at least the family, or
  it has no path. It needs that \<open>getaddrinfo\<close> gives no more than the 28 bytes of an IPv6 address.
  Printing such an address never reads outside it, handing it to a system call offers at most its
  own size, and the three \<open>Any\<close> addresses are \<open>isAny\<close>.
\<close>

theorem addresses_well_formed:
  assumes "constructed N a" and "short_results N"
  shows "wf_address a \<and> (\<exists>w. print_address N a = Ok w)
    \<and> wf_address (getSizePointer a) \<and> (\<exists>w. print_address N (getSizePointer a) = Ok w)
    \<and> isAny createUnixAny \<and> isAny createIPv4Any \<and> isAny createIPv6Any"
proof -
  note len = getAddrInfoImpl_length [OF assms(2)]
  have n: "unat n < 2 ^ 32" for n :: "32 word" using unsigned_less [of n, where ?'a = nat] by simp
  have "wf_address a"
    using assms(1)
  proof cases
  qed (use len n wf_new wf_any wf_of_in_addr wf_of_in6_addr_scope wf_createUnix wf_createAbstractUnix wf_filled_with wf_memCopy in
      \<open>auto simp: factory_defs and_then_Ok of_sockaddr_def of_sockaddr_un_def of_sockaddr_in_def of_sockaddr_in6_def address_sizes\<close>)
  then show ?thesis
    using wf_any wf_getSizePointer print_safe by blast
qed

theorem addresses_well_formed_witness:
  "(\<exists>a. createIPv4 loopback_netdb ''127.0.0.1'' ''80'' = Ok a \<and> wf_address a
      \<and> (\<exists>w. print_address loopback_netdb (getSizePointer a) = Ok w))
   \<and> wf_address (of_sockaddr [1] 1) \<and> isAny createIPv6Any"
proof -
  have db: "short_results loopback_netdb"
    by (auto simp: short_results_def loopback_netdb_def address_sizes split: if_splits)
  obtain a where a: "createIPv4 loopback_netdb ''127.0.0.1'' ''80'' = Ok a"
    by (simp add: createIPv4_def getAddrInfoWithService_def getAddrInfoImpl_def loopback_netdb_def and_then_def)
  have "constructed loopback_netdb (of_sockaddr [1] 1)" by (rule constructed.intros(2)) (simp add: address_sizes)
  from addresses_well_formed [OF this db] addresses_well_formed [OF constructed.intros(12) [OF a] db] show ?thesis
    using a by blast
qed

theorem address_order_witness:
  "sa_less createUnixAny createIPv4Any \<and> sa_less createIPv4Any createIPv6Any \<and> sa_less createUnixAny createIPv6Any"
proof -
  have "usedSize createUnixAny = 2" "usedSize createIPv4Any = 16" "usedSize createIPv6Any = 28"
    by (simp_all add: createUnixAny_eq createIPv4Any_def of_sockaddr_in_def createIPv6Any_def of_sockaddr_in6_def
      memCopy_def address_sizes)
  then have "sa_less createUnixAny createIPv4Any" "sa_less createIPv4Any createIPv6Any"
    by (simp_all add: sa_less_def)
  with address_order [of createUnixAny createIPv4Any createIPv6Any] wf_any show ?thesis
    by simp
qed

end
