(* ===== verification/ChildProcess.thy ===== *)
theory ChildProcess
  imports Text Signals StreamSocket
begin

text \<open>
  Model of \<open>src/lib/ChildProcess.cpp\<close>. \<open>cp_in\<close>, \<open>cp_out\<close> and \<open>cp_err\<close> are the descriptors of the members
  \<open>in\<close>, \<open>out\<close> and \<open>err\<close>; \<open>cp_inRead\<close>, \<open>cp_outWrite\<close> and \<open>cp_errWrite\<close> the local ones of the constructor;
  \<open>cp_is\<close> is the input stream, \<open>cp_os\<close> and \<open>cp_es\<close> are the bytes written to the output streams. Callbacks
  are programs over the whole state. A failed \<open>assert\<close> and an exception that leaves a destructor are
  \<open>Abort\<close>, and so is what follows \<open>fork\<close> in the child: \<open>child\<close> says what it does.
\<close>

section \<open>State\<close>

record 'w child_process =
  cp_in :: rawfd
  cp_out :: rawfd
  cp_err :: rawfd
  cp_inRead :: rawfd
  cp_outWrite :: rawfd
  cp_errWrite :: rawfd
  cp_pid :: int
  cp_is :: istream
  cp_os :: "byte list"
  cp_es :: "byte list"
  cp_world :: 'w

record 'w cp_callbacks =
  successCb :: "('w child_process, unit) prog option"
  errorCb :: "(int \<Rightarrow> ('w child_process, unit) prog) option"
  signalCb :: "(int \<Rightarrow> ('w child_process, unit) prog) option"

definition cp_do :: "('w, 'a) prog \<Rightarrow> ('w child_process, 'a) prog" where
  "cp_do = zoom cp_world (\<lambda>w. cp_world_update (\<lambda>_. w))"

datatype cp_slot = In | Out | Err | InRead | OutWrite | ErrWrite

fun slot_fd :: "cp_slot \<Rightarrow> 'w child_process \<Rightarrow> rawfd" where
  "slot_fd In s = cp_in s" | "slot_fd Out s = cp_out s" | "slot_fd Err s = cp_err s"
| "slot_fd InRead s = cp_inRead s" | "slot_fd OutWrite s = cp_outWrite s" | "slot_fd ErrWrite s = cp_errWrite s"

fun set_slot :: "cp_slot \<Rightarrow> rawfd \<Rightarrow> 'w child_process \<Rightarrow> 'w child_process" where
  "set_slot In fd s = s\<lparr>cp_in := fd\<rparr>" | "set_slot Out fd s = s\<lparr>cp_out := fd\<rparr>" | "set_slot Err fd s = s\<lparr>cp_err := fd\<rparr>"
| "set_slot InRead fd s = s\<lparr>cp_inRead := fd\<rparr>" | "set_slot OutWrite fd s = s\<lparr>cp_outWrite := fd\<rparr>"
| "set_slot ErrWrite fd s = s\<lparr>cp_errWrite := fd\<rparr>"

section \<open>The descriptors\<close>

text \<open>The members of \<open>FileDescriptor\<close> on a slot: conversion to \<open>int\<close>, \<open>close\<close>, \<open>operator=\<close> and the
  destructor.\<close>

definition with_slot :: "cp_slot \<Rightarrow> (rawfd \<Rightarrow> ('w child_process, 'a) prog) \<Rightarrow> ('w child_process, 'a) prog" where
  "with_slot sl f = (\<lambda>s. if slot_fd sl s < 0 then (Throw InvalidFD, s) else f (slot_fd sl s) s)"

definition slot_close :: "'w system \<Rightarrow> cp_slot \<Rightarrow> ('w child_process, unit) prog" where
  "slot_close S sl = seq (with_slot sl (\<lambda>fd. cp_do (sys_close S fd))) (modify_st (set_slot sl (- 1)))"

definition slot_assign :: "'w system \<Rightarrow> cp_slot \<Rightarrow> rawfd \<Rightarrow> ('w child_process, unit) prog" where
  "slot_assign S sl fd = noexcept (seq (when_st (\<lambda>s. slot_fd sl s \<ge> 0) (with_slot sl (\<lambda>fd. cp_do (sys_close S fd))))
     (modify_st (set_slot sl fd)))"

definition slot_destroy :: "'w system \<Rightarrow> cp_slot \<Rightarrow> ('w child_process, unit) prog" where
  "slot_destroy S sl = noexcept (when_st (\<lambda>s. slot_fd sl s \<ge> 0) (with_slot sl (\<lambda>fd. cp_do (sys_close S fd))))"

definition cp_close :: "'w system \<Rightarrow> 'w runner_iface \<Rightarrow> cp_slot \<Rightarrow> ('w child_process, unit) prog" where
  "cp_close S R sl = when_st (\<lambda>s. slot_fd sl s \<ge> 0)
     (seq (with_slot sl (\<lambda>fd. cp_do (ri_delFDListener R fd))) (slot_close S sl))"

definition closeAll :: "'w system \<Rightarrow> 'w runner_iface \<Rightarrow> ('w child_process, unit) prog" where
  "closeAll S R = seq (cp_close S R In) (seq (cp_close S R Out) (cp_close S R Err))"

section \<open>The child\<close>

text \<open>Between \<open>fork\<close> and \<open>execvp\<close>, on the descriptor table of the child. \<open>dup2\<close> and \<open>close\<close> of a descriptor
  that is not open do nothing.\<close>

type_synonym 'f fd_table = "rawfd \<rightharpoonup> 'f"

definition changeFD :: "rawfd \<Rightarrow> rawfd \<Rightarrow> 'f fd_table \<Rightarrow> 'f fd_table" where
  "changeFD oldfd newfd t = (if oldfd \<noteq> newfd \<and> t oldfd \<noteq> None then (t(newfd := t oldfd))(oldfd := None) else t)"

definition child :: "string list \<Rightarrow> rawfd \<Rightarrow> rawfd \<Rightarrow> rawfd \<Rightarrow> 'f fd_table \<Rightarrow> (string \<times> string list \<times> 'f fd_table) option" where
  "child args inp outp errp t = (case args of [] \<Rightarrow> None
     | a # _ \<Rightarrow> Some (c_str a, map c_str args, changeFD errp 2 (changeFD outp 1 (changeFD inp 0 t))))"

section \<open>Construction\<close>

definition cp_pipe :: "'w system \<Rightarrow> cp_slot \<Rightarrow> cp_slot \<Rightarrow> ('w child_process, unit) prog" where
  "cp_pipe S rd wr = bnd (cp_do (sys_pipe S)) (\<lambda>(r, w). seq (slot_assign S rd r) (slot_assign S wr w))"

definition cp_setup :: "'w system \<Rightarrow> 'w runner_iface \<Rightarrow> ('w child_process, unit) prog" where
  "cp_setup S R =
     seq (cp_pipe S InRead In)
    (seq (with_slot In (\<lambda>fd. cp_do (sys_setCloseOnExec S fd)))
    (seq (with_slot In (\<lambda>fd. cp_do (ri_addFDListener R fd EVENT_OUT)))
    (seq (cp_pipe S Out OutWrite)
    (seq (with_slot Out (\<lambda>fd. cp_do (sys_setCloseOnExec S fd)))
    (seq (with_slot Out (\<lambda>fd. cp_do (sys_setNonBlock S fd)))
    (seq (with_slot Out (\<lambda>fd. cp_do (ri_addFDListener R fd EVENT_IN)))
    (seq (cp_pipe S Err ErrWrite)
    (seq (with_slot Err (\<lambda>fd. cp_do (sys_setCloseOnExec S fd)))
    (seq (with_slot Err (\<lambda>fd. cp_do (sys_setNonBlock S fd)))
    (with_slot Err (\<lambda>fd. cp_do (ri_addFDListener R fd EVENT_IN))))))))))))"

text \<open>While an exception leaves the constructor the locals and then the members are destroyed; the
  destructor of the class does not run.\<close>

definition cp_unwind :: "'w system \<Rightarrow> ('w child_process, unit) prog" where
  "cp_unwind S = seq (slot_destroy S ErrWrite) (seq (slot_destroy S OutWrite) (seq (slot_destroy S InRead)
     (seq (slot_destroy S Err) (seq (slot_destroy S Out) (slot_destroy S In)))))"

definition cp_init :: "istream \<Rightarrow> 'w \<Rightarrow> 'w child_process" where
  "cp_init i w = \<lparr>cp_in = - 1, cp_out = - 1, cp_err = - 1, cp_inRead = - 1, cp_outWrite = - 1, cp_errWrite = - 1,
     cp_pid = 0, cp_is = i, cp_os = [], cp_es = [], cp_world = w\<rparr>"

definition cp_create :: "'w system \<Rightarrow> 'w runner_iface \<Rightarrow> ('w child_process, unit) prog" where
  "cp_create S R = on_unwind
     (seq (cp_setup S R)
       (bnd (cp_do (sys_fork S)) (\<lambda>pid.
         seq (modify_st (\<lambda>s. s\<lparr>cp_pid := pid\<rparr>))
           (if pid = 0 then abort
            else seq (slot_close S InRead) (seq (slot_close S OutWrite) (slot_close S ErrWrite))))))
     (cp_unwind S)"

definition SIGKILL :: int where "SIGKILL = 9"
definition WNOHANG :: int where "WNOHANG = 1"

definition cp_kill :: "'w system \<Rightarrow> 'w runner_iface \<Rightarrow> ('w child_process, unit) prog" where
  "cp_kill S R = seq
     (when_st (\<lambda>s. cp_pid s \<noteq> 0)
       (\<lambda>s. seq (cp_do (sys_kill S (cp_pid s) SIGKILL)) (seq (cp_do (sys_waitpid S (cp_pid s) 0)) (ret ())) s))
     (closeAll S R)"

definition cp_destroy :: "'w system \<Rightarrow> 'w runner_iface \<Rightarrow> ('w child_process, unit) prog" where
  "cp_destroy S R = noexcept (seq (cp_kill S R) (seq (slot_destroy S Err) (seq (slot_destroy S Out) (slot_destroy S In))))"

section \<open>The end of the child\<close>

definition WIFEXITED :: "32 word \<Rightarrow> bool" where "WIFEXITED status \<longleftrightarrow> and status 127 = 0"
definition WEXITSTATUS :: "32 word \<Rightarrow> int" where "WEXITSTATUS status = sint (drop_bit 8 (and status 65280))"
definition WTERMSIG :: "32 word \<Rightarrow> int" where "WTERMSIG status = sint (and status 127)"
definition WIFSIGNALED :: "32 word \<Rightarrow> bool" where
  "WIFSIGNALED status \<longleftrightarrow> sint (ucast (and status 127 + 1) :: 8 word) div 2 > 0"

definition handleWaitStatus :: "'w cp_callbacks \<Rightarrow> 32 word \<Rightarrow> ('w child_process, unit) prog" where
  "handleWaitStatus C status = (if WIFEXITED status
     then (let exitStatus = WEXITSTATUS status in
       if exitStatus = 0 \<and> successCb C \<noteq> None then the (successCb C)
       else if status \<noteq> 0 \<and> errorCb C \<noteq> None then the (errorCb C) exitStatus
       else ret ())
     else if WIFSIGNALED status then (case signalCb C of Some cb \<Rightarrow> cb (WTERMSIG status) | None \<Rightarrow> ret ())
     else abort)"

definition sigChildReceived :: "'w system \<Rightarrow> 'w runner_iface \<Rightarrow> 'w cp_callbacks \<Rightarrow> ('w child_process, unit) prog" where
  "sigChildReceived S R C = when_st (\<lambda>s. cp_pid s \<noteq> 0)
     (\<lambda>s. bnd (cp_do (sys_waitpid S (cp_pid s) WNOHANG)) (\<lambda>(r, status).
        if r = cp_pid s
        then seq (modify_st (\<lambda>s. s\<lparr>cp_pid := 0\<rparr>)) (seq (closeAll S R) (handleWaitStatus C (word_of_int status)))
        else ret ()) s)"

section \<open>Events\<close>

definition PIPE_BUF :: nat where "PIPE_BUF = 4096"

definition getInput :: "rawfd \<Rightarrow> ('w child_process, cp_slot) prog" where
  "getInput fd = (\<lambda>s. if cp_out s = fd then (Ok Out, s) else if cp_err s = fd then (Ok Err, s) else (Abort, s))"

fun write_stream :: "cp_slot \<Rightarrow> byte list \<Rightarrow> 'w child_process \<Rightarrow> 'w child_process" where
  "write_stream Out bs s = s\<lparr>cp_os := cp_os s @ bs\<rparr>"
| "write_stream Err bs s = s\<lparr>cp_es := cp_es s @ bs\<rparr>"
| "write_stream _ bs s = s"

fun read_loop :: "nat \<Rightarrow> 'w system \<Rightarrow> cp_slot \<Rightarrow> ('w child_process, unit) prog" where
  "read_loop 0 S sl s = (NoFuel, s)"
| "read_loop (Suc n) S sl s = bnd (with_slot sl (\<lambda>fd. cp_do (sys_read S fd PIPE_BUF))) (\<lambda>(ssize, bs).
     if ssize > 0 then seq (modify_st (write_stream sl (take (nat ssize) bs))) (read_loop n S sl) else ret ()) s"

definition handleEventIn :: "nat \<Rightarrow> 'w system \<Rightarrow> rawfd \<Rightarrow> ('w child_process, unit) prog" where
  "handleEventIn n S fd = bnd (getInput fd) (read_loop n S)"

text \<open>\<open>istream::read\<close>: the bytes \<open>gcount\<close> counts; a short block sets \<open>eofbit\<close> and \<open>failbit\<close>.\<close>

definition read_block :: "nat \<Rightarrow> istream \<Rightarrow> string \<times> istream" where
  "read_block n i = (if \<not> in_good i then ([], i\<lparr>in_fail := True\<rparr>)
     else (take n (in_rest i), i\<lparr>in_rest := drop n (in_rest i), in_eof := length (in_rest i) < n,
       in_fail := length (in_rest i) < n\<rparr>))"

definition feed :: "'w system \<Rightarrow> string \<Rightarrow> ('w child_process, unit) prog" where
  "feed S buffer = bnd (cp_do (sps_create S)) (\<lambda>spb.
     seq (on_unwind
           (bnd (with_slot In (\<lambda>fd. cp_do (sys_write S fd (map byte_of buffer)))) (\<lambda>ssize.
              if ssize = int (length buffer) then ret () else abort))
           (cp_do (sps_destroy S spb)))
       (cp_do (sps_destroy S spb)))"

definition handleEventOut :: "'w system \<Rightarrow> 'w runner_iface \<Rightarrow> ('w child_process, unit) prog" where
  "handleEventOut S R = branch (\<lambda>s. \<not> in_fail (cp_is s) \<and> \<not> in_bad (cp_is s))
     (\<lambda>s. case read_block PIPE_BUF (cp_is s) of (buffer, i) \<Rightarrow>
        try_catch (feed S buffer)
          (\<lambda>e. case e of SystemException _ _ \<Rightarrow> Some (cp_close S R In) | _ \<Rightarrow> None) (s\<lparr>cp_is := i\<rparr>))
     (cp_close S R In)"

definition handleEventHup :: "'w system \<Rightarrow> 'w runner_iface \<Rightarrow> rawfd \<Rightarrow> ('w child_process, unit) prog" where
  "handleEventHup S R fd = branch (\<lambda>s. fd = cp_out s) (cp_close S R Out)
     (branch (\<lambda>s. fd = cp_err s) (cp_close S R Err)
       (when_st (\<lambda>s. fd = cp_in s) (cp_close S R In)))"

definition cp_handleEventsCb :: "nat \<Rightarrow> 'w system \<Rightarrow> 'w runner_iface \<Rightarrow> rawfd \<Rightarrow> event_mask \<Rightarrow> ('w child_process, unit) prog" where
  "cp_handleEventsCb n S R fd events =
     seq (if has_event events EVENT_IN then handleEventIn n S fd else ret ())
    (seq (if has_event events EVENT_OUT then handleEventOut S R else ret ())
         (if has_event events EVENT_HUP then handleEventHup S R fd else ret ()))"

end
