(* ===== verification/ChildProcessProps.thy ===== *)
theory ChildProcessProps
  imports ChildProcess
begin

text \<open>
  Properties of a child process: its output is read completely, its input is fed completely, its end
  is reported once to the right callback, and its descriptors become its standard streams. The
  environment is a contract over the pipes as the kernel sees them.
\<close>

section \<open>The environment\<close>

record pipes =
  p_data :: "rawfd \<Rightarrow> byte list"   \<comment> \<open>what the child has written and nobody read\<close>
  p_written :: "byte list"           \<comment> \<open>what the child was sent\<close>
  p_open :: "rawfd set"
  p_listening :: "rawfd set"
  p_children :: "int set"            \<comment> \<open>children nobody waited for\<close>

definition quiet :: "('w \<Rightarrow> 'o) \<Rightarrow> ('w, 'a) prog \<Rightarrow> bool" where
  "quiet view m \<longleftrightarrow> (\<forall>w. \<exists>x w'. m w = (Ok x, w') \<and> view w' = view w)"

definition closing_contract :: "'w system \<Rightarrow> 'w runner_iface \<Rightarrow> ('w \<Rightarrow> pipes) \<Rightarrow> bool" where
  "closing_contract S R view \<longleftrightarrow>
     (\<forall>fd w. \<exists>w'. sys_close S fd w = (Ok (), w') \<and> view w' = (view w)\<lparr>p_open := p_open (view w) - {fd}\<rparr>)
   \<and> (\<forall>fd w. \<exists>w'. ri_delFDListener R fd w = (Ok (), w') \<and> view w' = (view w)\<lparr>p_listening := p_listening (view w) - {fd}\<rparr>)"

definition reading_contract :: "'w system \<Rightarrow> ('w \<Rightarrow> pipes) \<Rightarrow> bool" where
  "reading_contract S view \<longleftrightarrow> (\<forall>fd n w. 0 < n \<longrightarrow> (\<exists>r bs rest w'. sys_read S fd n w = (Ok (r, bs), w')
     \<and> view w' = (view w)\<lparr>p_data := (p_data (view w))(fd := rest)\<rparr>
     \<and> (if p_data (view w) fd = [] then r \<le> 0 \<and> rest = []
        else bs \<noteq> [] \<and> length bs \<le> n \<and> r = int (length bs) \<and> p_data (view w) fd = bs @ rest)))"

definition writing_contract :: "'w system \<Rightarrow> ('w \<Rightarrow> pipes) \<Rightarrow> bool" where
  "writing_contract S view \<longleftrightarrow> quiet view (sys_sigPending S) \<and> (\<forall>how m. quiet view (sys_sigMask S how m))
   \<and> (\<forall>m. quiet view (sys_sigTimedWait S m))
   \<and> (\<forall>fd bs w. \<exists>w'. sys_write S fd bs w = (Ok (int (length bs)), w')
        \<and> view w' = (view w)\<lparr>p_written := p_written (view w) @ bs\<rparr>)"

definition reaping_contract :: "'w system \<Rightarrow> ('w \<Rightarrow> pipes) \<Rightarrow> bool" where
  "reaping_contract S view \<longleftrightarrow> (\<forall>pid sig. quiet view (sys_kill S pid sig))
   \<and> (\<forall>pid w. if pid \<in> p_children (view w)
        then \<exists>status w'. sys_waitpid S pid 0 w = (Ok (pid, status), w') \<and> view w' = (view w)\<lparr>p_children := p_children (view w) - {pid}\<rparr>
        else \<exists>e w'. sys_waitpid S pid 0 w = (Throw e, w'))"

lemma cp_do_run: "cp_do m s = (case m (cp_world s) of (r, w) \<Rightarrow> (r, s\<lparr>cp_world := w\<rparr>))"
  by (simp add: cp_do_def zoom_run)

lemma with_slot_run: "0 \<le> slot_fd sl s \<Longrightarrow> with_slot sl f s = f (slot_fd sl s) s"
  by (simp add: with_slot_def)

lemma slot_fd_world [simp]: "slot_fd sl (s\<lparr>cp_world := w\<rparr>) = slot_fd sl s"
  by (cases sl) simp_all

lemma slot_fd_set [simp]: "slot_fd sl (set_slot sl' fd s) = (if sl = sl' then fd else slot_fd sl s)"
  by (cases sl; cases sl') simp_all

lemma cp_world_set [simp]: "cp_world (set_slot sl fd s) = cp_world s" "cp_pid (set_slot sl fd s) = cp_pid s"
  "cp_os (set_slot sl fd s) = cp_os s" "cp_es (set_slot sl fd s) = cp_es s" "cp_is (set_slot sl fd s) = cp_is s"
  by (cases sl; simp)+

lemma cp_close_open:
  assumes con: "closing_contract S R view" and True: "0 \<le> slot_fd sl s"
  obtains w where "cp_close S R sl s = (Ok (), set_slot sl (- 1) (s\<lparr>cp_world := w\<rparr>))"
    "view w = (view (cp_world s))\<lparr>p_open := p_open (view (cp_world s)) - {slot_fd sl s},
        p_listening := p_listening (view (cp_world s)) - {slot_fd sl s}\<rparr>"
proof -
  let ?fd = "slot_fd sl s"
  obtain w1 where w1: "ri_delFDListener R ?fd (cp_world s) = (Ok (), w1)"
    "view w1 = (view (cp_world s))\<lparr>p_listening := p_listening (view (cp_world s)) - {?fd}\<rparr>"
    using con unfolding closing_contract_def by blast
  obtain w2 where w2: "sys_close S ?fd w1 = (Ok (), w2)" "view w2 = (view w1)\<lparr>p_open := p_open (view w1) - {?fd}\<rparr>"
    using con unfolding closing_contract_def by blast
  have "cp_close S R sl s = (Ok (), set_slot sl (- 1) (s\<lparr>cp_world := w2\<rparr>))"
    using True w1(1) w2(1) by (simp add: cp_close_def when_run seq_run with_slot_run cp_do_run slot_close_def)
  with w1(2) w2(2) that [of w2] show ?thesis by simp
qed

section \<open>Output\<close>

lemma read_loop_drains:
  assumes con: "reading_contract S view" and "sl = Out \<or> sl = Err" and "0 \<le> slot_fd sl s"
    and "length (p_data (view (cp_world s)) (slot_fd sl s)) < fuel"
  shows "\<exists>w. read_loop fuel S sl s = (Ok (), write_stream sl (p_data (view (cp_world s)) (slot_fd sl s)) (s\<lparr>cp_world := w\<rparr>))
    \<and> view w = (view (cp_world s))\<lparr>p_data := (p_data (view (cp_world s)))(slot_fd sl s := [])\<rparr>"
  using assms(2-)
proof (induction fuel arbitrary: s)
  case 0
  then show ?case by simp
next
  case (Suc fuel)
  let ?fd = "slot_fd sl s" and ?v = "view (cp_world s)"
  obtain r bs rest w where rd: "sys_read S ?fd PIPE_BUF (cp_world s) = (Ok (r, bs), w)"
    "view w = ?v\<lparr>p_data := (p_data ?v)(?fd := rest)\<rparr>"
    "if p_data ?v ?fd = [] then r \<le> 0 \<and> rest = []
     else bs \<noteq> [] \<and> length bs \<le> PIPE_BUF \<and> r = int (length bs) \<and> p_data ?v ?fd = bs @ rest"
    using con [unfolded reading_contract_def, rule_format, of PIPE_BUF ?fd "cp_world s"] by (auto simp: PIPE_BUF_def)
  show ?case
  proof (cases "p_data ?v ?fd = []")
    case True
    with rd Suc.prems show ?thesis by (intro exI [of _ w]) (auto simp: bnd_run with_slot_run cp_do_run fun_upd_def)
  next
    case False
    let ?s = "write_stream sl bs (s\<lparr>cp_world := w\<rparr>)"
    have s: "slot_fd sl ?s = ?fd" "cp_world ?s = w"
      using Suc.prems(1) by auto
    have data: "p_data (view w) ?fd = rest" "(p_data (view w))(?fd := []) = (p_data ?v)(?fd := [])"
      unfolding rd(2) by simp_all
    have "length rest < fuel"
      using False rd(3) Suc.prems(3) by (cases bs) auto
    with Suc.IH [of ?s, OF Suc.prems(1)] Suc.prems(2)
    obtain w' where w': "read_loop fuel S sl ?s = (Ok (), write_stream sl rest (?s\<lparr>cp_world := w'\<rparr>))"
      "view w' = (view w)\<lparr>p_data := (p_data (view w))(?fd := [])\<rparr>"
      unfolding s data(1) by metis
    have "read_loop (Suc fuel) S sl s = read_loop fuel S sl ?s"
    proof -
      have "with_slot sl (\<lambda>fd. cp_do (sys_read S fd PIPE_BUF)) s = (Ok (r, bs), s\<lparr>cp_world := w\<rparr>)"
        using rd(1) Suc.prems(2) by (simp add: with_slot_run cp_do_run)
      moreover have "r = int (length bs)" "bs \<noteq> []" using False rd(3) by simp_all
      ultimately show ?thesis by (simp add: bnd_run seq_run)
    qed
    moreover have "write_stream sl rest (?s\<lparr>cp_world := w'\<rparr>) = write_stream sl (p_data ?v ?fd) (s\<lparr>cp_world := w'\<rparr>)"
      using Suc.prems(1) False rd(3) by auto
    moreover have "view w' = ?v\<lparr>p_data := (p_data ?v)(?fd := [])\<rparr>"
      unfolding w'(2) data(2) unfolding rd(2) by simp
    ultimately show ?thesis using w'(1) by (intro exI [of _ w'] conjI) (simp_all only:)
  qed
qed

lemma read_hup_events: "has_event (or EVENT_IN EVENT_HUP) EVENT_IN" "\<not> has_event (or EVENT_IN EVENT_HUP) EVENT_OUT"
  "has_event (or EVENT_IN EVENT_HUP) EVENT_HUP"
  by (simp_all add: has_event_def event_masks)

lemma getInput_slot:
  "sl = Out \<or> sl = Err \<and> cp_out s \<noteq> slot_fd Err s \<Longrightarrow> getInput (slot_fd sl s) s = (Ok sl, s)"
  by (elim disjE conjE) (simp_all add: getInput_def)

lemma handleEventHup_slot:
  "sl = Out \<or> sl = Err \<and> cp_out s \<noteq> slot_fd Err s \<Longrightarrow> handleEventHup S R (slot_fd sl s) s = cp_close S R sl s"
  by (elim disjE conjE) (simp_all add: handleEventHup_def branch_run)

text \<open>
  C33: when a pipe of the child's output becomes readable and hung up in the same event, everything
  the child wrote is appended to the stream, in order, before the pipe is closed and its listener
  removed; fuel beyond the number of bytes is enough.
\<close>

theorem child_output_complete:
  assumes "reading_contract S view" and "closing_contract S R view" and "sl = Out \<or> sl = Err \<and> cp_out s \<noteq> slot_fd Err s"
    and "0 \<le> slot_fd sl s" and "length (p_data (view (cp_world s)) (slot_fd sl s)) < fuel"
  shows "\<exists>w. cp_handleEventsCb fuel S R (slot_fd sl s) (or EVENT_IN EVENT_HUP) s
      = (Ok (), set_slot sl (- 1) (write_stream sl (p_data (view (cp_world s)) (slot_fd sl s)) (s\<lparr>cp_world := w\<rparr>)))
    \<and> slot_fd sl s \<notin> p_open (view w) \<and> slot_fd sl s \<notin> p_listening (view w) \<and> p_data (view w) (slot_fd sl s) = []"
proof -
  let ?fd = "slot_fd sl s" and ?v = "view (cp_world s)"
  obtain w where w: "read_loop fuel S sl s = (Ok (), write_stream sl (p_data ?v ?fd) (s\<lparr>cp_world := w\<rparr>))"
    "view w = ?v\<lparr>p_data := (p_data ?v)(?fd := [])\<rparr>"
    using read_loop_drains [OF assms(1) _ assms(4,5)] assms(3) by auto
  let ?s = "write_stream sl (p_data ?v ?fd) (s\<lparr>cp_world := w\<rparr>)"
  have s: "slot_fd sl ?s = ?fd" "cp_world ?s = w" "cp_out ?s = cp_out s" "cp_err ?s = cp_err s"
    using assms(3) by auto
  obtain w2 where w2: "cp_close S R sl ?s = (Ok (), set_slot sl (- 1) (?s\<lparr>cp_world := w2\<rparr>))"
    "view w2 = (view w)\<lparr>p_open := p_open (view w) - {?fd}, p_listening := p_listening (view w) - {?fd}\<rparr>"
    using cp_close_open [OF assms(2), of sl ?s] assms(4) unfolding s by metis
  have "handleEventIn fuel S ?fd s = (Ok (), ?s)"
    using getInput_slot [OF assms(3)] w(1) by (simp add: handleEventIn_def bnd_run)
  moreover have "handleEventHup S R ?fd ?s = cp_close S R sl ?s"
    using handleEventHup_slot [of sl ?s S R] assms(3) s by auto
  ultimately have "cp_handleEventsCb fuel S R ?fd (or EVENT_IN EVENT_HUP) s = cp_close S R sl ?s"
    by (simp add: cp_handleEventsCb_def seq_run read_hup_events split: prod.splits outcome.splits)
  moreover have "?s\<lparr>cp_world := w2\<rparr> = write_stream sl (p_data ?v ?fd) (s\<lparr>cp_world := w2\<rparr>)"
    using assms(3) by auto
  ultimately show ?thesis using w2 w(2) by (intro exI [of _ w2]) simp
qed

section \<open>The end of the child\<close>

lemma sint_small: "unat (w :: 32 word) < 2 ^ 31 \<Longrightarrow> sint w = int (unat w)"
proof -
  assume "unat w < 2 ^ 31"
  then have "int (unat w) < int (2 ^ 31)" by (rule iffD2 [OF of_nat_less_iff])
  moreover have "- (2 ^ 31) \<le> int (unat w)" by (rule order_trans [of _ 0]) simp_all
  ultimately have "signed_take_bit 31 (int (unat w)) = int (unat w)"
    by (intro signed_take_bit_int_eq_self) simp_all
  then show ?thesis by (simp add: sint_uint)
qed

lemma and_127: "unat (and w 127 :: 32 word) = unat w mod 128"
proof -
  have "and w 127 = take_bit 7 w" by (simp add: take_bit_eq_mask mask_eq_exp_minus_1)
  also have "unat \<dots> = take_bit 7 (unat w)" by (rule unsigned_take_bit_eq)
  finally show ?thesis by (simp add: take_bit_eq_mod)
qed

lemma exit_status:
  assumes "c < 256"
  shows "WIFEXITED (of_nat (c * 256)) \<and> WEXITSTATUS (of_nat (c * 256)) = int c"
proof -
  let ?w = "of_nat (c * 256) :: 32 word"
  have u: "unat ?w = c * 256" using assms by (simp add: unat_of_nat del: of_nat_mult)
  have "unat (and ?w 127) = 0" unfolding and_127 u by presburger
  then have "WIFEXITED ?w" by (simp add: WIFEXITED_def unat_eq_0 del: of_nat_mult)
  have d: "drop_bit 8 (and ?w 65280) = take_bit 8 (drop_bit 8 ?w)"
    by (simp add: take_bit_eq_mask mask_eq_exp_minus_1 del: of_nat_mult)
  have "unat (take_bit 8 (drop_bit 8 ?w)) = take_bit 8 (unat (drop_bit 8 ?w))" by (rule unsigned_take_bit_eq)
  also have "unat (drop_bit 8 ?w) = unat ?w div 256" by (subst unat_drop_bit_eq) (simp add: drop_bit_eq_div del: of_nat_mult)
  finally have c: "unat (take_bit 8 (drop_bit 8 ?w)) = c" using assms unfolding u by (simp add: take_bit_eq_mod)
  then have "WEXITSTATUS ?w = int c"
    using assms sint_small [of "take_bit 8 (drop_bit 8 ?w)"] unfolding WEXITSTATUS_def d c by simp
  with \<open>WIFEXITED ?w\<close> show ?thesis ..
qed

lemma signal_status:
  assumes "0 < n" "n < 127" and "core \<in> {0, 128}"
  shows "\<not> WIFEXITED (of_nat (n + core)) \<and> WIFSIGNALED (of_nat (n + core)) \<and> WTERMSIG (of_nat (n + core)) = int n"
proof -
  let ?w = "of_nat (n + core) :: 32 word"
  have "unat ?w = n + core" using assms by (auto simp: unat_of_nat simp del: of_nat_add)
  then have u: "unat (and ?w 127) = n" using assms by (auto simp: and_127 simp del: of_nat_add)
  then have w: "and ?w 127 = of_nat n" using assms(2) by (simp add: word_unat_eq_iff unat_of_nat del: of_nat_add)
  have "(ucast (of_nat n + 1 :: 32 word) :: 8 word) = of_nat (n + 1)"
  proof -
    have "unat (of_nat n + 1 :: 32 word) = n + 1"
    proof -
      have "(of_nat n + 1 :: 32 word) = of_nat (Suc n)" by simp
      with assms(2) show ?thesis by (simp add: unat_of_nat del: of_nat_Suc)
    qed
    then show ?thesis
      using assms(2) by (simp add: word_unat_eq_iff unat_of_nat take_bit_eq_mod unsigned_ucast_eq del: of_nat_add of_nat_Suc)
  qed
  moreover have "sint (of_nat (n + 1) :: 8 word) = int (n + 1)"
  proof -
    have "uint (of_nat (n + 1) :: 8 word) = int (n + 1)"
      using assms(2) unfolding uint_nat by (simp add: unat_of_nat del: of_nat_add of_nat_Suc of_nat_unat)
    moreover have "signed_take_bit 7 (int (n + 1)) = int (n + 1)"
      by (rule signed_take_bit_int_eq_self) (use assms(2) in simp_all)
    ultimately show ?thesis unfolding sint_uint by simp
  qed
  ultimately have "sint (ucast (of_nat n + 1 :: 32 word) :: 8 word) = int n + 1" by simp
  then have "WIFSIGNALED ?w" using assms(1) unfolding WIFSIGNALED_def w by simp
  moreover have "\<not> WIFEXITED ?w" unfolding WIFEXITED_def using u assms(1) by (metis less_irrefl unsigned_0)
  moreover have "WTERMSIG ?w = int n" unfolding WTERMSIG_def using sint_small [of "and ?w 127"] assms(2) unfolding u by simp
  ultimately show ?thesis by blast
qed

text \<open>The descriptors of the pipes that are open; a closed one is \<open>-1\<close>.\<close>

definition open_slots :: "'w child_process \<Rightarrow> rawfd set" where
  "open_slots s = {cp_in s, cp_out s, cp_err s} \<inter> {0..}"

definition slots_ok :: "'w child_process \<Rightarrow> bool" where
  "slots_ok s \<longleftrightarrow> - 1 \<le> cp_in s \<and> - 1 \<le> cp_out s \<and> - 1 \<le> cp_err s"

lemma cp_close_any:
  assumes con: "closing_contract S R view" and "- 1 \<le> slot_fd sl s"
  obtains w where "cp_close S R sl s = (Ok (), set_slot sl (- 1) (s\<lparr>cp_world := w\<rparr>))"
    "view w = (view (cp_world s))\<lparr>p_open := p_open (view (cp_world s)) - {slot_fd sl s} \<inter> {0..},
        p_listening := p_listening (view (cp_world s)) - {slot_fd sl s} \<inter> {0..}\<rparr>"
proof (cases "0 \<le> slot_fd sl s")
  case True
  then have "{slot_fd sl s} \<inter> {0..} = {slot_fd sl s}" by auto
  then show ?thesis using cp_close_open [OF con True] that by metis
next
  case False
  then have "slot_fd sl s = - 1" "{slot_fd sl s} \<inter> {0..} = {}" using assms(2) by auto
  moreover from this have "set_slot sl (- 1) (s\<lparr>cp_world := cp_world s\<rparr>) = s" by (cases sl) simp_all
  ultimately show ?thesis
    by (intro that [of "cp_world s"]) (simp_all add: cp_close_def when_run)
qed

lemma closeAll_run:
  assumes con: "closing_contract S R view" and fds: "slots_ok s"
  obtains w where "closeAll S R s = (Ok (), s\<lparr>cp_in := - 1, cp_out := - 1, cp_err := - 1, cp_world := w\<rparr>)"
    "view w = (view (cp_world s))\<lparr>p_open := p_open (view (cp_world s)) - open_slots s,
       p_listening := p_listening (view (cp_world s)) - open_slots s\<rparr>"
proof -
  let ?n = "{0 :: rawfd..}"
  obtain w1 where 1: "cp_close S R In s = (Ok (), set_slot In (- 1) (s\<lparr>cp_world := w1\<rparr>))"
    "view w1 = (view (cp_world s))\<lparr>p_open := p_open (view (cp_world s)) - {slot_fd In s} \<inter> ?n,
       p_listening := p_listening (view (cp_world s)) - {slot_fd In s} \<inter> ?n\<rparr>"
    by (rule cp_close_any [OF con, of In s]) (use fds in \<open>simp_all add: slots_ok_def\<close>)
  let ?s1 = "set_slot In (- 1) (s\<lparr>cp_world := w1\<rparr>)"
  obtain w2 where 2: "cp_close S R Out ?s1 = (Ok (), set_slot Out (- 1) (?s1\<lparr>cp_world := w2\<rparr>))"
    "view w2 = (view (cp_world ?s1))\<lparr>p_open := p_open (view (cp_world ?s1)) - {slot_fd Out ?s1} \<inter> ?n,
       p_listening := p_listening (view (cp_world ?s1)) - {slot_fd Out ?s1} \<inter> ?n\<rparr>"
    by (rule cp_close_any [OF con, of Out ?s1]) (use fds in \<open>simp_all add: slots_ok_def\<close>)
  let ?s2 = "set_slot Out (- 1) (?s1\<lparr>cp_world := w2\<rparr>)"
  obtain w3 where 3: "cp_close S R Err ?s2 = (Ok (), set_slot Err (- 1) (?s2\<lparr>cp_world := w3\<rparr>))"
    "view w3 = (view (cp_world ?s2))\<lparr>p_open := p_open (view (cp_world ?s2)) - {slot_fd Err ?s2} \<inter> ?n,
       p_listening := p_listening (view (cp_world ?s2)) - {slot_fd Err ?s2} \<inter> ?n\<rparr>"
    by (rule cp_close_any [OF con, of Err ?s2]) (use fds in \<open>simp_all add: slots_ok_def\<close>)
  have sets: "A - {a} \<inter> ?n - {b} \<inter> ?n - {c} \<inter> ?n = A - {a, b, c} \<inter> ?n" for A :: "rawfd set" and a b c by blast
  have "closeAll S R s = (Ok (), set_slot Err (- 1) (?s2\<lparr>cp_world := w3\<rparr>))"
    by (simp only: closeAll_def seq_run 1(1) 2(1) 3(1) prod.case outcome.case)
  moreover have "set_slot Err (- 1) (?s2\<lparr>cp_world := w3\<rparr>) = s\<lparr>cp_in := - 1, cp_out := - 1, cp_err := - 1, cp_world := w3\<rparr>"
    by simp
  moreover have "view w3 = (view (cp_world s))\<lparr>p_open := p_open (view (cp_world s)) - open_slots s,
       p_listening := p_listening (view (cp_world s)) - open_slots s\<rparr>"
    unfolding open_slots_def sets [symmetric] by (simp add: 3(2) 2(2) 1(2) del: Int_insert_left Diff_Int_distrib2)
  ultimately show ?thesis using that [of w3] by (simp only:)
qed

definition optional :: "('s, unit) prog option \<Rightarrow> ('s, unit) prog" where
  "optional cb = (case cb of Some m \<Rightarrow> m | None \<Rightarrow> ret ())"

lemma handleWaitStatus_exit:
  assumes "c < 256"
  shows "handleWaitStatus C (of_nat (c * 256)) =
    (if c = 0 then optional (successCb C) else optional (map_option (\<lambda>cb. cb (int c)) (errorCb C)))"
proof -
  have "(of_nat (c * 256) :: 32 word) = 0 \<longleftrightarrow> c = 0"
    using assms by (simp add: word_unat_eq_iff unat_of_nat del: of_nat_mult)
  then show ?thesis
    using exit_status [OF assms] by (auto simp: handleWaitStatus_def Let_def optional_def split: option.splits simp del: of_nat_mult)
qed

lemma handleWaitStatus_signal:
  assumes "0 < n" and "n < 127" and "core \<in> {0, 128}"
  shows "handleWaitStatus C (of_nat (n + core)) = optional (map_option (\<lambda>cb. cb (int n)) (signalCb C))"
  using signal_status [OF assms]
  by (auto simp: handleWaitStatus_def optional_def split: option.splits simp del: of_nat_add)

text \<open>The callbacks may do anything but start a child in the same object.\<close>

definition keeps_pid :: "('w child_process, unit) prog option \<Rightarrow> bool" where
  "keeps_pid cb \<longleftrightarrow> (\<forall>t. cp_pid (snd (optional cb t)) = cp_pid t)"

lemma keeps_pid_None [simp]: "keeps_pid None"
  by (simp add: keeps_pid_def optional_def)

definition callbacks_keep_pid :: "'w cp_callbacks \<Rightarrow> bool" where
  "callbacks_keep_pid C \<longleftrightarrow> keeps_pid (successCb C) \<and> (\<forall>n. keeps_pid (map_option (\<lambda>cb. cb n) (errorCb C)))
     \<and> (\<forall>n. keeps_pid (map_option (\<lambda>cb. cb n) (signalCb C)))"

lemma handleWaitStatus_pid:
  assumes "callbacks_keep_pid C"
  shows "cp_pid (snd (handleWaitStatus C status t)) = cp_pid t"
proof -
  note C = assms [unfolded callbacks_keep_pid_def keeps_pid_def optional_def]
  show ?thesis
    using C [THEN conjunct1] C [THEN conjunct2, THEN conjunct1] C [THEN conjunct2, THEN conjunct2]
    by (auto simp: handleWaitStatus_def Let_def split: option.splits)
qed

text \<open>
  C34: when the child has ended, \<open>sigChildReceived\<close> forgets the pid, closes the pipes that are still
  open and removes their listeners, and only then calls the one callback that the way it ended asks
  for: success for exit code 0, error with any other code, signal with the number of the signal,
  with or without a core. Output that is still in the pipes is not read: the streams are as they
  were. After that callback, unless it started another child, a later \<open>sigChildReceived\<close> does
  nothing.
\<close>

theorem child_exit_reported_once:
  assumes "closing_contract S R view" and "slots_ok s" and "cp_pid s \<noteq> 0"
    and "sys_waitpid S (cp_pid s) WNOHANG (cp_world s) = (Ok (cp_pid s, status), w)"
  shows "\<exists>t. sigChildReceived S R C s = handleWaitStatus C (word_of_int status) t
    \<and> cp_pid t = 0 \<and> cp_in t = - 1 \<and> cp_out t = - 1 \<and> cp_err t = - 1 \<and> cp_os t = cp_os s \<and> cp_es t = cp_es s
    \<and> p_open (view (cp_world t)) = p_open (view w) - open_slots s
    \<and> p_listening (view (cp_world t)) = p_listening (view w) - open_slots s
    \<and> (\<forall>c < 256. status = int (c * 256) \<longrightarrow> sigChildReceived S R C s =
         (if c = 0 then optional (successCb C) else optional (map_option (\<lambda>cb. cb (int c)) (errorCb C))) t)
    \<and> (\<forall>n core. 0 < n \<and> n < 127 \<and> core \<in> {0, 128} \<and> status = int (n + core) \<longrightarrow>
         sigChildReceived S R C s = optional (map_option (\<lambda>cb. cb (int n)) (signalCb C)) t)
    \<and> (\<forall>r u. callbacks_keep_pid C \<and> sigChildReceived S R C s = (r, u) \<longrightarrow> sigChildReceived S R C u = (Ok (), u))"
proof -
  let ?s = "s\<lparr>cp_world := w, cp_pid := 0\<rparr>"
  have "slots_ok ?s" "open_slots ?s = open_slots s" using assms(2) by (simp_all add: slots_ok_def open_slots_def)
  then obtain w' where w': "closeAll S R ?s = (Ok (), ?s\<lparr>cp_in := - 1, cp_out := - 1, cp_err := - 1, cp_world := w'\<rparr>)"
    "view w' = (view w)\<lparr>p_open := p_open (view w) - open_slots s, p_listening := p_listening (view w) - open_slots s\<rparr>"
    using closeAll_run [OF assms(1), of ?s] by auto
  let ?t = "?s\<lparr>cp_in := - 1, cp_out := - 1, cp_err := - 1, cp_world := w'\<rparr>"
  have run: "sigChildReceived S R C s = handleWaitStatus C (word_of_int status) ?t"
    using assms(3,4) w'(1) by (simp add: sigChildReceived_def when_run bnd_run cp_do_run seq_run)
  have "handleWaitStatus C (word_of_int status) = (if c = 0 then optional (successCb C) else optional (map_option (\<lambda>cb. cb (int c)) (errorCb C)))"
    if "c < 256" "status = int (c * 256)" for c
    using handleWaitStatus_exit [OF that(1), of C] unfolding that(2) by (simp only: of_int_of_nat_eq)
  moreover have "handleWaitStatus C (word_of_int status) = optional (map_option (\<lambda>cb. cb (int n)) (signalCb C))"
    if "0 < n" "n < 127" "core \<in> {0, 128}" "status = int (n + core)" for n core
    using handleWaitStatus_signal [OF that(1-3), of C] unfolding that(4) by (simp only: of_int_of_nat_eq)
  moreover have "sigChildReceived S R C u = (Ok (), u)"
    if "callbacks_keep_pid C" "sigChildReceived S R C s = (r, u)" for r u
  proof -
    have "cp_pid u = 0"
      using handleWaitStatus_pid [OF that(1), of "word_of_int status" ?t] that(2) [unfolded run] by simp
    then show ?thesis by (simp add: sigChildReceived_def when_run)
  qed
  ultimately show ?thesis
    using w'(2) by (intro exI [of _ ?t] conjI allI impI) (auto simp: run)
qed

section \<open>Input\<close>

lemma quiet_ret: "quiet view (ret x)"
  by (simp add: quiet_def)

lemma quiet_bnd:
  assumes "quiet view m" and "\<And>x. quiet view (f x)"
  shows "quiet view (bnd m f)"
  unfolding quiet_def
proof
  fix w
  obtain x w1 where 1: "m w = (Ok x, w1)" "view w1 = view w" using assms(1) unfolding quiet_def by blast
  obtain y w2 where 2: "f x w1 = (Ok y, w2)" "view w2 = view w1" using assms(2) unfolding quiet_def by blast
  show "\<exists>x w'. bnd m f w = (Ok x, w') \<and> view w' = view w"
    using 1 2 by (simp add: bnd_run)
qed

lemma quiet_seq: "quiet view m \<Longrightarrow> quiet view k \<Longrightarrow> quiet view (seq m k)"
  unfolding seq_def by (rule quiet_bnd)

lemma quiet_if: "quiet view m \<Longrightarrow> quiet view k \<Longrightarrow> quiet view (if b then m else k)"
  by simp

lemma quiet_noexcept: "quiet view m \<Longrightarrow> quiet view (noexcept m)"
  unfolding quiet_def by (metis noexcept_Ok)

lemmas quiet_rules = quiet_ret quiet_bnd quiet_seq quiet_if quiet_noexcept

lemma quiet_sps:
  assumes "writing_contract S view"
  shows "quiet view (sps_create S)" and "quiet view (sps_destroy S p)"
proof -
  have q: "quiet view (sys_sigPending S)" "\<And>how m. quiet view (sys_sigMask S how m)" "\<And>m. quiet view (sys_sigTimedWait S m)"
    using assms by (simp_all add: writing_contract_def)
  show "quiet view (sps_create S)"
    unfolding sps_create_def sigpipe_pending_def by (intro quiet_rules q)
  show "quiet view (sps_destroy S p)"
    unfolding sps_destroy_def sigpipe_pending_def by (intro quiet_rules q)
qed

lemma feed_writes:
  assumes con: "writing_contract S view" and fd: "0 \<le> cp_in s"
  obtains w where "feed S buffer s = (Ok (), s\<lparr>cp_world := w\<rparr>)"
    "view w = (view (cp_world s))\<lparr>p_written := p_written (view (cp_world s)) @ map byte_of buffer\<rparr>"
proof -
  obtain spb w1 where 1: "sps_create S (cp_world s) = (Ok spb, w1)" "view w1 = view (cp_world s)"
    using quiet_sps(1) [OF con] unfolding quiet_def by blast
  obtain w2 where 2: "sys_write S (cp_in s) (map byte_of buffer) w1 = (Ok (int (length (map byte_of buffer))), w2)"
    "view w2 = (view w1)\<lparr>p_written := p_written (view w1) @ map byte_of buffer\<rparr>"
    using con unfolding writing_contract_def by metis
  obtain u w3 where 3: "sps_destroy S spb w2 = (Ok u, w3)" "view w3 = view w2"
    using quiet_sps(2) [OF con, of spb] unfolding quiet_def by blast
  have "feed S buffer s = (Ok (), s\<lparr>cp_world := w3\<rparr>)"
    using 1(1) 2(1) 3(1) fd
    by (simp add: feed_def bnd_run cp_do_run seq_run on_unwind_run with_slot_def noexcept_def)
  then show ?thesis using that [of w3] 1(2) 2(2) 3(2) by simp
qed

definition unread :: "'w child_process \<Rightarrow> string" where
  "unread s = in_rest (cp_is s)"

lemma write_event:
  assumes "writing_contract S view" and "0 \<le> cp_in s" and "in_good (cp_is s)"
  obtains w i where "cp_handleEventsCb fuel S R (cp_in s) EVENT_OUT s = (Ok (), s\<lparr>cp_is := i, cp_world := w\<rparr>)"
    "view w = (view (cp_world s))\<lparr>p_written := p_written (view (cp_world s)) @ map byte_of (take PIPE_BUF (unread s))\<rparr>"
    "i = \<lparr>in_rest = drop PIPE_BUF (unread s), in_eof = length (unread s) < PIPE_BUF,
       in_fail = length (unread s) < PIPE_BUF, in_bad = False\<rparr>"
proof -
  let ?i = "\<lparr>in_rest = drop PIPE_BUF (unread s), in_eof = length (unread s) < PIPE_BUF,
     in_fail = length (unread s) < PIPE_BUF, in_bad = False\<rparr>"
  have block: "read_block PIPE_BUF (cp_is s) = (take PIPE_BUF (unread s), ?i)"
    using assms(3) by (simp add: read_block_def unread_def in_good_def)
  have events: "\<not> has_event EVENT_OUT EVENT_IN" "has_event EVENT_OUT EVENT_OUT" "\<not> has_event EVENT_OUT EVENT_HUP"
    by (simp_all add: has_event_def event_masks)
  obtain w where w: "feed S (take PIPE_BUF (unread s)) (s\<lparr>cp_is := ?i\<rparr>) = (Ok (), s\<lparr>cp_is := ?i, cp_world := w\<rparr>)"
    "view w = (view (cp_world s))\<lparr>p_written := p_written (view (cp_world s)) @ map byte_of (take PIPE_BUF (unread s))\<rparr>"
    using feed_writes [OF assms(1), of "s\<lparr>cp_is := ?i\<rparr>" "take PIPE_BUF (unread s)"] assms(2) by auto
  have "cp_handleEventsCb fuel S R (cp_in s) EVENT_OUT s = (Ok (), s\<lparr>cp_is := ?i, cp_world := w\<rparr>)"
    using assms(3) events
    by (simp add: cp_handleEventsCb_def seq_run handleEventOut_def branch_run in_good_def block try_catch_run w(1))
  then show ?thesis using that w(2) by blast
qed

fun repeat_prog :: "nat \<Rightarrow> ('s, unit) prog \<Rightarrow> ('s, unit) prog" where
  "repeat_prog 0 m = ret ()"
| "repeat_prog (Suc n) m = seq m (repeat_prog n m)"

lemma close_event:
  assumes "closing_contract S R view" and "0 \<le> cp_in s" and "in_fail (cp_is s)"
  obtains w where "cp_handleEventsCb fuel S R (cp_in s) EVENT_OUT s = (Ok (), s\<lparr>cp_in := - 1, cp_world := w\<rparr>)"
    "view w = (view (cp_world s))\<lparr>p_open := p_open (view (cp_world s)) - {cp_in s},
        p_listening := p_listening (view (cp_world s)) - {cp_in s}\<rparr>"
proof -
  have events: "\<not> has_event EVENT_OUT EVENT_IN" "has_event EVENT_OUT EVENT_OUT" "\<not> has_event EVENT_OUT EVENT_HUP"
    by (simp_all add: has_event_def event_masks)
  obtain w where w: "cp_close S R In s = (Ok (), set_slot In (- 1) (s\<lparr>cp_world := w\<rparr>))"
    "view w = (view (cp_world s))\<lparr>p_open := p_open (view (cp_world s)) - {slot_fd In s},
        p_listening := p_listening (view (cp_world s)) - {slot_fd In s}\<rparr>"
    by (rule cp_close_open [OF assms(1), of In s]) (simp add: assms)
  have "cp_handleEventsCb fuel S R (cp_in s) EVENT_OUT s = (Ok (), s\<lparr>cp_in := - 1, cp_world := w\<rparr>)"
    using assms(3) events by (simp add: cp_handleEventsCb_def seq_run handleEventOut_def branch_run w(1))
  then show ?thesis using that w(2) by simp
qed

text \<open>The state after the input was sent: the stream is at its end, the pipe closed.\<close>

definition input_sent :: "('w \<Rightarrow> pipes) \<Rightarrow> 'w child_process \<Rightarrow> 'w child_process \<Rightarrow> bool" where
  "input_sent view s t \<longleftrightarrow> (\<exists>w. t = s\<lparr>cp_is := \<lparr>in_rest = [], in_eof = True, in_fail = True, in_bad = False\<rparr>,
       cp_in := - 1, cp_world := w\<rparr>
     \<and> view w = (view (cp_world s))\<lparr>p_written := p_written (view (cp_world s)) @ map byte_of (unread s),
         p_open := p_open (view (cp_world s)) - {cp_in s}, p_listening := p_listening (view (cp_world s)) - {cp_in s}\<rparr>)"

lemma feed_last:
  assumes con: "writing_contract S view" "closing_contract S R view" and s: "0 \<le> cp_in s" "in_good (cp_is s)"
    and short: "length (unread s) < PIPE_BUF"
  shows "\<exists>t. repeat_prog 2 (cp_handleEventsCb fuel S R (cp_in s) EVENT_OUT) s = (Ok (), t) \<and> input_sent view s t"
proof -
  let ?m = "cp_handleEventsCb fuel S R (cp_in s) EVENT_OUT"
  obtain w i where 1: "?m s = (Ok (), s\<lparr>cp_is := i, cp_world := w\<rparr>)"
    "view w = (view (cp_world s))\<lparr>p_written := p_written (view (cp_world s)) @ map byte_of (take PIPE_BUF (unread s))\<rparr>"
    "i = \<lparr>in_rest = drop PIPE_BUF (unread s), in_eof = length (unread s) < PIPE_BUF,
       in_fail = length (unread s) < PIPE_BUF, in_bad = False\<rparr>"
    using write_event [OF con(1) s] by metis
  let ?s = "s\<lparr>cp_is := i, cp_world := w\<rparr>"
  obtain w2 where 2: "cp_handleEventsCb fuel S R (cp_in ?s) EVENT_OUT ?s = (Ok (), ?s\<lparr>cp_in := - 1, cp_world := w2\<rparr>)"
    "view w2 = (view (cp_world ?s))\<lparr>p_open := p_open (view (cp_world ?s)) - {cp_in ?s},
        p_listening := p_listening (view (cp_world ?s)) - {cp_in ?s}\<rparr>"
    using close_event [OF con(2), of ?s fuel] s(1) 1(3) short by auto
  have "repeat_prog 2 ?m s = (Ok (), ?s\<lparr>cp_in := - 1, cp_world := w2\<rparr>)"
    using 1(1) 2(1) by (simp add: numeral_2_eq_2 seq_run)
  moreover have "input_sent view s (?s\<lparr>cp_in := - 1, cp_world := w2\<rparr>)"
    unfolding input_sent_def using 1(2,3) 2(2) short by (intro exI [of _ w2]) simp
  ultimately show ?thesis by blast
qed

lemma feed_all:
  assumes con: "writing_contract S view" "closing_contract S R view"
  shows "0 \<le> cp_in s \<Longrightarrow> in_good (cp_is s) \<Longrightarrow> length (unread s) div PIPE_BUF = q \<Longrightarrow>
    \<exists>t. repeat_prog (q + 2) (cp_handleEventsCb fuel S R (cp_in s) EVENT_OUT) s = (Ok (), t) \<and> input_sent view s t"
proof (induction q arbitrary: s)
  case 0
  then have "length (unread s) < PIPE_BUF" by (simp add: PIPE_BUF_def)
  then show ?case using feed_last [OF con 0(1,2), of fuel] unfolding add_0 by blast
next
  case (Suc q)
  let ?m = "cp_handleEventsCb fuel S R (cp_in s) EVENT_OUT"
  have long: "PIPE_BUF \<le> length (unread s)" using Suc.prems(3) by (simp add: PIPE_BUF_def)
  obtain w i where 1: "?m s = (Ok (), s\<lparr>cp_is := i, cp_world := w\<rparr>)"
    "view w = (view (cp_world s))\<lparr>p_written := p_written (view (cp_world s)) @ map byte_of (take PIPE_BUF (unread s))\<rparr>"
    "i = \<lparr>in_rest = drop PIPE_BUF (unread s), in_eof = length (unread s) < PIPE_BUF,
       in_fail = length (unread s) < PIPE_BUF, in_bad = False\<rparr>"
    using write_event [OF con(1) Suc.prems(1,2)] by metis
  let ?s = "s\<lparr>cp_is := i, cp_world := w\<rparr>"
  have u: "unread ?s = drop PIPE_BUF (unread s)" "in_good (cp_is ?s)" "cp_in ?s = cp_in s"
    using 1(3) long by (simp_all add: unread_def in_good_def)
  have "length (unread ?s) div PIPE_BUF = q"
    using Suc.prems(3) long unfolding u(1) by (simp add: PIPE_BUF_def)
  then obtain t where t: "repeat_prog (q + 2) ?m ?s = (Ok (), t)" "input_sent view ?s t"
    using Suc.IH [of ?s] Suc.prems(1) u(2) unfolding u(3) by blast
  have "repeat_prog (Suc q + 2) ?m s = (Ok (), t)"
    using 1(1) t(1) by (simp add: seq_run)
  moreover have "input_sent view s t"
  proof -
    have "map byte_of (take PIPE_BUF (unread s)) @ map byte_of (drop PIPE_BUF (unread s)) = map byte_of (unread s)"
      by (simp flip: map_append)
    with t(2) 1(2) show ?thesis unfolding input_sent_def u(1) by auto
  qed
  ultimately show ?case by blast
qed

lemma feed_prefix:
  assumes con: "writing_contract S view"
  shows "0 \<le> cp_in s \<Longrightarrow> in_good (cp_is s) \<Longrightarrow> k \<le> length (unread s) div PIPE_BUF + 1 \<Longrightarrow>
    \<exists>t. repeat_prog k (cp_handleEventsCb fuel S R (cp_in s) EVENT_OUT) s = (Ok (), t) \<and> cp_in t = cp_in s
      \<and> view (cp_world t) = (view (cp_world s))\<lparr>p_written := p_written (view (cp_world s))
          @ map byte_of (take (k * PIPE_BUF) (unread s))\<rparr>"
proof (induction k arbitrary: s)
  case (Suc k)
  let ?m = "cp_handleEventsCb fuel S R (cp_in s) EVENT_OUT"
  obtain w i where 1: "?m s = (Ok (), s\<lparr>cp_is := i, cp_world := w\<rparr>)"
    "view w = (view (cp_world s))\<lparr>p_written := p_written (view (cp_world s)) @ map byte_of (take PIPE_BUF (unread s))\<rparr>"
    "i = \<lparr>in_rest = drop PIPE_BUF (unread s), in_eof = length (unread s) < PIPE_BUF,
       in_fail = length (unread s) < PIPE_BUF, in_bad = False\<rparr>"
    using write_event [OF con Suc.prems(1,2)] by metis
  let ?s = "s\<lparr>cp_is := i, cp_world := w\<rparr>"
  have u: "unread ?s = drop PIPE_BUF (unread s)" "cp_in ?s = cp_in s" using 1(3) by (simp_all add: unread_def)
  show ?case
  proof (cases "k = 0")
    case True
    then show ?thesis using 1(1,2) by (intro exI [of _ ?s]) (simp add: seq_run)
  next
    case False
    then have long: "PIPE_BUF \<le> length (unread s)" using Suc.prems(3) by (cases "length (unread s) < PIPE_BUF") auto
    then have "in_good (cp_is ?s)" "k \<le> length (unread ?s) div PIPE_BUF + 1"
      using 1(3) Suc.prems(3) unfolding u(1) by (simp_all add: in_good_def PIPE_BUF_def)
    then obtain t where t: "repeat_prog k ?m ?s = (Ok (), t)" "cp_in t = cp_in s"
      "view (cp_world t) = (view w)\<lparr>p_written := p_written (view w)
         @ map byte_of (take (k * PIPE_BUF) (drop PIPE_BUF (unread s)))\<rparr>"
      using Suc.IH [of ?s] Suc.prems(1) unfolding u by auto
    have "take (Suc k * PIPE_BUF) (unread s) = take PIPE_BUF (unread s) @ take (k * PIPE_BUF) (drop PIPE_BUF (unread s))"
      by (simp add: take_add)
    then show ?thesis using 1(1,2) t by (intro exI [of _ t]) (simp add: seq_run)
  qed
qed simp

text \<open>
  C35: the input stream reaches the child completely and in order, in blocks of \<open>PIPE_BUF\<close> bytes, one
  per writable event: after \<open>k\<close> events the child has got exactly the first \<open>k\<close> blocks, and the pipe is
  open. The last block is the rest that is shorter than \<open>PIPE_BUF\<close>; the event after it closes the
  pipe and removes its listener. The number of events is the number of full blocks plus two.
\<close>

theorem child_input_fed:
  assumes "writing_contract S view" and "closing_contract S R view" and "0 \<le> cp_in s" and "in_good (cp_is s)"
    and "k \<le> length (unread s) div PIPE_BUF + 1"
  shows "(\<exists>t. repeat_prog k (cp_handleEventsCb fuel S R (cp_in s) EVENT_OUT) s = (Ok (), t) \<and> cp_in t = cp_in s
        \<and> view (cp_world t) = (view (cp_world s))\<lparr>p_written := p_written (view (cp_world s))
            @ map byte_of (take (k * 4096) (in_rest (cp_is s)))\<rparr>)
    \<and> (\<exists>t. repeat_prog (length (unread s) div PIPE_BUF + 2) (cp_handleEventsCb fuel S R (cp_in s) EVENT_OUT) s = (Ok (), t)
        \<and> p_written (view (cp_world t)) = p_written (view (cp_world s)) @ map byte_of (in_rest (cp_is s))
        \<and> cp_in t = - 1 \<and> cp_in s \<notin> p_open (view (cp_world t)) \<and> cp_in s \<notin> p_listening (view (cp_world t))
        \<and> cp_os t = cp_os s \<and> cp_es t = cp_es s \<and> cp_pid t = cp_pid s)"
proof
  have "PIPE_BUF = 4096" by (simp add: PIPE_BUF_def)
  then show "\<exists>t. repeat_prog k (cp_handleEventsCb fuel S R (cp_in s) EVENT_OUT) s = (Ok (), t) \<and> cp_in t = cp_in s
      \<and> view (cp_world t) = (view (cp_world s))\<lparr>p_written := p_written (view (cp_world s))
          @ map byte_of (take (k * 4096) (in_rest (cp_is s)))\<rparr>"
    using feed_prefix [OF assms(1,3-5), of fuel R] unfolding unread_def by metis
  show "\<exists>t. repeat_prog (length (unread s) div PIPE_BUF + 2) (cp_handleEventsCb fuel S R (cp_in s) EVENT_OUT) s = (Ok (), t)
      \<and> p_written (view (cp_world t)) = p_written (view (cp_world s)) @ map byte_of (in_rest (cp_is s))
      \<and> cp_in t = - 1 \<and> cp_in s \<notin> p_open (view (cp_world t)) \<and> cp_in s \<notin> p_listening (view (cp_world t))
      \<and> cp_os t = cp_os s \<and> cp_es t = cp_es s \<and> cp_pid t = cp_pid s"
    using feed_all [OF assms(1,2), of s "length (unread s) div PIPE_BUF" fuel] assms(3,4)
    by (auto simp: input_sent_def unread_def)
qed

section \<open>Killing\<close>

text \<open>
  \<open>kill\<close> waits for the child but keeps its pid, so the destructor kills and waits once more: by then
  the pid may belong to another process, and as \<open>waitpid\<close> fails for a child that was already waited for,
  the exception leaves the destructor and the program is terminated.
\<close>

theorem kill_then_destroy_aborts:
  assumes "closing_contract S R view" and "reaping_contract S view"
    and "slots_ok s" and "cp_pid s \<noteq> 0" and "cp_pid s \<in> p_children (view (cp_world s))"
  shows "\<exists>t. cp_kill S R s = (Ok (), t) \<and> cp_pid t = cp_pid s \<and> cp_in t = - 1 \<and> cp_out t = - 1 \<and> cp_err t = - 1
    \<and> fst (cp_destroy S R t) = Abort"
proof -
  let ?pid = "cp_pid s"
  have kill: "\<exists>b w'. sys_kill S ?pid SIGKILL w = (Ok b, w') \<and> view w' = view w" for w
    using assms(2) by (simp add: reaping_contract_def quiet_def)
  obtain b w1 where 1: "sys_kill S ?pid SIGKILL (cp_world s) = (Ok b, w1)" "view w1 = view (cp_world s)"
    using kill by blast
  obtain status w2 where 2: "sys_waitpid S ?pid 0 w1 = (Ok (?pid, status), w2)"
    "view w2 = (view w1)\<lparr>p_children := p_children (view w1) - {?pid}\<rparr>"
    using assms(2,5) 1(2) unfolding reaping_contract_def by metis
  let ?s = "s\<lparr>cp_world := w2\<rparr>"
  obtain w3 where 3: "closeAll S R ?s = (Ok (), ?s\<lparr>cp_in := - 1, cp_out := - 1, cp_err := - 1, cp_world := w3\<rparr>)"
    "view w3 = (view w2)\<lparr>p_open := p_open (view w2) - open_slots ?s, p_listening := p_listening (view w2) - open_slots ?s\<rparr>"
    using closeAll_run [OF assms(1), of ?s] assms(3) by (auto simp: slots_ok_def)
  let ?t = "?s\<lparr>cp_in := - 1, cp_out := - 1, cp_err := - 1, cp_world := w3\<rparr>"
  have "cp_kill S R s = (Ok (), ?t)"
    using assms(4) 1(1) 2(1) 3(1) by (simp add: cp_kill_def seq_run when_run cp_do_run)
  moreover obtain b' w4 where 4: "sys_kill S ?pid SIGKILL w3 = (Ok b', w4)" "view w4 = view w3"
    using kill by blast
  have "?pid \<notin> p_children (view w4)" using 4(2) 3(2) 2(2) by simp
  then obtain e w5 where "sys_waitpid S ?pid 0 w4 = (Throw e, w5)"
    using assms(2) unfolding reaping_contract_def by metis
  then have "fst (cp_destroy S R ?t) = Abort"
    using assms(4) 4(1) by (simp add: cp_destroy_def noexcept_def cp_kill_def seq_run when_run cp_do_run)
  ultimately show ?thesis by (intro exI [of _ ?t]) simp
qed

section \<open>Standard streams\<close>

lemma changeFD_new: "t old = Some a \<Longrightarrow> changeFD old new t new = Some a"
  by (auto simp: changeFD_def)

lemma changeFD_old: "old \<noteq> new \<Longrightarrow> changeFD old new t old = None"
  by (auto simp: changeFD_def)

lemma changeFD_other: "fd \<noteq> old \<Longrightarrow> fd \<noteq> new \<Longrightarrow> changeFD old new t fd = t fd"
  by (simp add: changeFD_def)

text \<open>
  C36: the pipe ends become the standard streams of the child, whatever else was open, because \<open>pipe\<close>
  returns the lowest free descriptors: the ends of the later pipes are above the standard numbers
  that are still to be replaced.
\<close>

theorem child_standard_streams:
  assumes "args \<noteq> []" and "t inp = Some a" and "t outp = Some b" and "t errp = Some c"
    and "0 \<le> inp" and "inp < outp" and "outp < errp" and "1 < errp"
  shows "\<exists>t'. child args inp outp errp t = Some (c_str (hd args), map c_str args, t')
    \<and> t' 0 = Some a \<and> t' 1 = Some b \<and> t' 2 = Some c
    \<and> (\<forall>fd. fd \<notin> {0, 1, 2, inp, outp, errp} \<longrightarrow> t' fd = t fd)
    \<and> (\<forall>fd \<in> {inp, outp, errp} - {0, 1, 2}. t' fd = None)"
proof -
  let ?t1 = "changeFD inp 0 t" and ?t2 = "changeFD outp 1 (changeFD inp 0 t)"
  let ?t3 = "changeFD errp 2 (changeFD outp 1 (changeFD inp 0 t))"
  have ne: "outp \<noteq> 0" "outp \<noteq> inp" "errp \<noteq> 0" "errp \<noteq> inp" "errp \<noteq> outp" "errp \<noteq> 1"
    using assms(5-8) by auto
  have t1: "?t1 0 = Some a" "?t1 outp = Some b" "?t1 errp = Some c" "inp \<noteq> 0 \<Longrightarrow> ?t1 inp = None"
    using changeFD_new [of t inp a 0] changeFD_old [of inp 0 t] changeFD_other [of _ inp 0 t] assms(2,3,4) ne by auto
  have t2: "?t2 0 = Some a" "?t2 1 = Some b" "?t2 errp = Some c" "inp \<notin> {0, 1} \<Longrightarrow> ?t2 inp = None" "outp \<noteq> 1 \<Longrightarrow> ?t2 outp = None"
    using changeFD_new [of ?t1 outp b 1] changeFD_old [of outp 1 ?t1] changeFD_other [of _ outp 1 ?t1] t1 ne by auto
  have t3: "?t3 0 = Some a" "?t3 1 = Some b" "?t3 2 = Some c" "inp \<notin> {0, 1, 2} \<Longrightarrow> ?t3 inp = None"
    "outp \<notin> {1, 2} \<Longrightarrow> ?t3 outp = None" "errp \<noteq> 2 \<Longrightarrow> ?t3 errp = None"
    using changeFD_new [of ?t2 errp c 2] changeFD_old [of errp 2 ?t2] changeFD_other [of _ errp 2 ?t2] t2 ne by auto
  have "?t3 fd = t fd" if "fd \<notin> {0, 1, 2, inp, outp, errp}" for fd
  proof -
    have "?t3 fd = ?t2 fd" using that by (intro changeFD_other) auto
    also have "\<dots> = ?t1 fd" using that by (intro changeFD_other) auto
    also have "\<dots> = t fd" using that by (intro changeFD_other) auto
    finally show ?thesis .
  qed
  moreover have "?t3 fd = None" if m: "fd \<in> {inp, outp, errp} - {0, 1, 2}" for fd
  proof -
    consider "fd = inp" "inp \<notin> {0, 1, 2}" | "fd = outp" "outp \<notin> {1, 2}" | "fd = errp" "errp \<noteq> 2"
      using m by blast
    then show ?thesis
    proof cases
      case 1 then show ?thesis using t3(4) [OF 1(2)] by (simp only:)
    next
      case 2 then show ?thesis using t3(5) [OF 2(2)] by (simp only:)
    next
      case 3 then show ?thesis using t3(6) [OF 3(2)] by (simp only:)
    qed
  qed
  moreover have "child args inp outp errp t = Some (c_str (hd args), map c_str args, ?t3)"
    using assms(1) by (cases args) (simp_all add: child_def)
  ultimately show ?thesis using t3(1-3) by (intro exI [of _ ?t3] conjI ballI allI impI)
qed

section \<open>Witnesses\<close>

text \<open>A kernel that keeps exactly what the contracts speak of; children exit with code 3.\<close>

definition pipe_system :: "pipes system" where
  "pipe_system = idle_system\<lparr>
     sys_close := (\<lambda>fd w. (Ok (), w\<lparr>p_open := p_open w - {fd}\<rparr>)),
     sys_read := (\<lambda>fd n w. case p_data w fd of [] \<Rightarrow> (Ok (- 1, []), w)
       | bs \<Rightarrow> (Ok (int (min n (length bs)), take n bs), w\<lparr>p_data := (p_data w)(fd := drop n bs)\<rparr>)),
     sys_write := (\<lambda>fd bs w. (Ok (int (length bs)), w\<lparr>p_written := p_written w @ bs\<rparr>)),
     sys_sigPending := (\<lambda>w. (Ok {}, w)), sys_sigMask := (\<lambda>_ _ w. (Ok {}, w)), sys_sigTimedWait := (\<lambda>_ w. (Ok 0, w)),
     sys_kill := (\<lambda>pid sig w. (Ok True, w)),
     sys_waitpid := (\<lambda>pid opts w. if pid \<in> p_children w then (Ok (pid, 768), w\<lparr>p_children := p_children w - {pid}\<rparr>)
       else (Throw (SystemException ''waitpid'' 10), w))\<rparr>"

definition pipe_runner :: "pipes runner_iface" where
  "pipe_runner = \<lparr>ri_addFDListener = (\<lambda>fd e w. (Ok (), w\<lparr>p_listening := insert fd (p_listening w)\<rparr>)),
     ri_modifyFDListener = (\<lambda>fd e w. (Ok (), w)),
     ri_delFDListener = (\<lambda>fd w. (Ok (), w\<lparr>p_listening := p_listening w - {fd}\<rparr>))\<rparr>"

definition running_child :: "pipes child_process" where
  "running_child = (cp_init (stream_of ''input'') \<lparr>p_data = (\<lambda>fd. if fd = 5 then [104, 105] else []), p_written = [],
     p_open = {4, 5, 6}, p_listening = {4, 5, 6}, p_children = {7}\<rparr>)\<lparr>cp_in := 4, cp_out := 5, cp_err := 6, cp_pid := 7\<rparr>"

lemma pipe_contracts:
  "reading_contract pipe_system id" "closing_contract pipe_system pipe_runner id" "writing_contract pipe_system id"
  "reaping_contract pipe_system id"
proof -
  show "reaping_contract pipe_system id"
    by (auto simp: reaping_contract_def quiet_def pipe_system_def)
  show "closing_contract pipe_system pipe_runner id"
    by (simp add: closing_contract_def pipe_system_def pipe_runner_def)
  show "writing_contract pipe_system id"
    by (simp add: writing_contract_def quiet_def pipe_system_def)
  show "reading_contract pipe_system id"
    unfolding reading_contract_def
  proof (intro allI impI)
    fix fd and n :: nat and w
    assume "0 < n"
    then show "\<exists>r bs rest w'. sys_read pipe_system fd n w = (Ok (r, bs), w')
        \<and> id w' = (id w)\<lparr>p_data := (p_data (id w))(fd := rest)\<rparr>
        \<and> (if p_data (id w) fd = [] then r \<le> 0 \<and> rest = []
           else bs \<noteq> [] \<and> length bs \<le> n \<and> r = int (length bs) \<and> p_data (id w) fd = bs @ rest)"
      by (cases "p_data w fd") (auto simp: pipe_system_def min.commute fun_upd_idem intro: exI [of _ "drop n (p_data w fd)"])
  qed
qed

lemma running_child_facts:
  "cp_in running_child = 4" "cp_out running_child = 5" "cp_err running_child = 6" "cp_pid running_child = 7"
  "cp_is running_child = stream_of ''input''" "p_data (cp_world running_child) 5 = [104, 105]"
  "cp_os running_child = []" "p_written (cp_world running_child) = []" "p_children (cp_world running_child) = {7}"
  by (simp_all add: running_child_def cp_init_def)

theorem child_output_complete_witness:
  "\<exists>t. cp_handleEventsCb 3 pipe_system pipe_runner 5 (or EVENT_IN EVENT_HUP) running_child = (Ok (), t)
     \<and> cp_os t = [104, 105] \<and> cp_out t = - 1"
  using child_output_complete [OF pipe_contracts(1,2), of Out running_child 3]
  by (auto simp: running_child_facts)

definition report_callbacks :: "pipes cp_callbacks" where
  "report_callbacks = \<lparr>successCb = None, errorCb = Some (\<lambda>c s. (Ok (), s\<lparr>cp_es := [word_of_int c]\<rparr>)), signalCb = None\<rparr>"

text \<open>The input was already sent and its pipe is closed; the output pipes are open.\<close>

theorem child_exit_reported_once_witness:
  "\<exists>t. sigChildReceived pipe_system pipe_runner report_callbacks (running_child\<lparr>cp_in := - 1\<rparr>) = (Ok (), t)
     \<and> cp_es t = [3] \<and> cp_pid t = 0 \<and> p_open (cp_world t) = {4} \<and> sigChildReceived pipe_system pipe_runner report_callbacks t = (Ok (), t)"
proof -
  let ?c = "running_child\<lparr>cp_in := - 1\<rparr>"
  have "sys_waitpid pipe_system (cp_pid ?c) WNOHANG (cp_world ?c)
      = (Ok (cp_pid ?c, int (3 * 256)), (cp_world running_child)\<lparr>p_children := {}\<rparr>)"
    by (simp add: pipe_system_def running_child_facts)
  moreover have "slots_ok ?c" "open_slots ?c = {5, 6}" "p_open (cp_world running_child) = {4, 5, 6}"
    by (auto simp: slots_ok_def open_slots_def running_child_def cp_init_def)
  moreover have "callbacks_keep_pid report_callbacks"
    by (simp add: callbacks_keep_pid_def report_callbacks_def keeps_pid_def optional_def)
  ultimately obtain t where t: "cp_pid t = 0" "p_open (cp_world t) = {4, 5, 6} - {5, 6}"
    "optional (map_option (\<lambda>cb. cb (int 3)) (errorCb report_callbacks)) t
      = sigChildReceived pipe_system pipe_runner report_callbacks ?c"
    "\<forall>r u. sigChildReceived pipe_system pipe_runner report_callbacks ?c = (r, u) \<longrightarrow>
        sigChildReceived pipe_system pipe_runner report_callbacks u = (Ok (), u)"
    using child_exit_reported_once [OF pipe_contracts(2), of ?c "int (3 * 256)" _ report_callbacks]
    by (auto simp: running_child_facts)
  moreover have "{4, 5, 6} - {5, 6} = ({4} :: rawfd set)" by auto
  moreover from t(3) have "sigChildReceived pipe_system pipe_runner report_callbacks ?c = (Ok (), t\<lparr>cp_es := [3]\<rparr>)"
    by (simp add: report_callbacks_def optional_def)
  ultimately show ?thesis by simp
qed

text \<open>An input of a block and five bytes: one block is written by the first event.\<close>

theorem child_input_fed_witness:
  "(\<exists>t. repeat_prog 1 (cp_handleEventsCb 1 pipe_system pipe_runner 4 EVENT_OUT)
        (running_child\<lparr>cp_is := stream_of (replicate 4096 CHR ''x'' @ ''input'')\<rparr>) = (Ok (), t)
     \<and> p_written (cp_world t) = map byte_of (replicate 4096 CHR ''x'') \<and> cp_in t = 4)
   \<and> (\<exists>t. repeat_prog 3 (cp_handleEventsCb 1 pipe_system pipe_runner 4 EVENT_OUT)
        (running_child\<lparr>cp_is := stream_of (replicate 4096 CHR ''x'' @ ''input'')\<rparr>) = (Ok (), t)
     \<and> p_written (cp_world t) = map byte_of (replicate 4096 CHR ''x'' @ ''input'') \<and> cp_in t = - 1)"
proof -
  let ?c = "running_child\<lparr>cp_is := stream_of (replicate 4096 CHR ''x'' @ ''input'')\<rparr>"
  have "in_good (cp_is ?c)" and n: "length (unread ?c) div PIPE_BUF + 2 = 3" "1 \<le> length (unread ?c) div PIPE_BUF + 1"
    by (simp_all add: in_good_def stream_of_def unread_def PIPE_BUF_def del: replicate.simps)
  from child_input_fed [OF pipe_contracts(3,2) _ this(1,3), of 1, unfolded n(1)] show ?thesis
    by (auto simp: stream_of_def running_child_facts simp del: repeat_prog.simps)
qed

theorem kill_then_destroy_aborts_witness:
  "\<exists>t. cp_kill pipe_system pipe_runner running_child = (Ok (), t) \<and> fst (cp_destroy pipe_system pipe_runner t) = Abort"
  using kill_then_destroy_aborts [OF pipe_contracts(2,4), of running_child]
  by (auto simp: running_child_facts slots_ok_def)

theorem child_standard_streams_witness:
  "\<exists>t'. child [''cat''] 0 3 5 ((\<lambda>fd. None)(0 := Some ''in'', 3 := Some ''out'', 5 := Some ''err'')) = Some (''cat'', [''cat''], t')
     \<and> t' 0 = Some ''in'' \<and> t' 1 = Some ''out'' \<and> t' 2 = Some ''err''"
  using child_standard_streams [of "[''cat'']" "(\<lambda>fd. None)(0 := Some ''in'', 3 := Some ''out'', 5 := Some ''err'')" 0 "''in''" 3 "''out''" 5 "''err''"]
  by auto

end
