(* ===== verification/Dump.thy ===== *)
theory Dump
  imports Text
begin

text \<open>
  Model of the dump facility: \<open>src/lib/DumpFormatter.cpp\<close> (the indenting stream), \<open>src/lib/DumpUtils.cpp\<close>
  and \<open>include/EventLoop/DumpUtils.hpp\<close> (the functions behind the \<open>DUMP_\<close> macros) and
  \<open>src/lib/DumpCreator.cpp\<close>. The values the templates are instantiated with are the datatype
  \<open>dvalue\<close>, one constructor per overload; what an object's own \<open>dump\<close> or \<open>operator <<\<close> writes is given
  by its text.
\<close>

section \<open>The indenting stream\<close>

record formatter =
  df_target :: string
  df_level :: int
  df_indentNext :: bool

definition df_new :: "string \<Rightarrow> formatter" where
  "df_new target = \<lparr>df_target = target, df_level = 0, df_indentNext = False\<rparr>"

definition df_put :: "string \<Rightarrow> formatter \<Rightarrow> formatter" where
  "df_put s f = f\<lparr>df_target := df_target f @ s\<rparr>"

fun indent_loop :: "nat \<Rightarrow> formatter \<Rightarrow> formatter" where
  "indent_loop 0 f = f"
| "indent_loop (Suc i) f = indent_loop i (df_put ''    '' f)"

definition indentIfNeeded :: "formatter \<Rightarrow> formatter" where
  "indentIfNeeded f = (if df_indentNext f
     then (indent_loop (nat (df_level f)) f)\<lparr>df_indentNext := False\<rparr> else f)"

definition df_char :: "char \<Rightarrow> formatter \<Rightarrow> formatter" where
  "df_char c f = (if c = CHR ''{'' then df_put ''{'' ((indentIfNeeded f)\<lparr>df_level := df_level f + 1\<rparr>)
     else if c = CHR ''}'' then df_put ''}'' (indentIfNeeded (f\<lparr>df_level := df_level f - 1\<rparr>))
     else if c = CHR 0x0A then df_put [c] (f\<lparr>df_indentNext := True\<rparr>)
     else df_put [c] (indentIfNeeded f))"

fun df_write :: "string \<Rightarrow> formatter \<Rightarrow> formatter" where
  "df_write [] f = f"
| "df_write (c # s) f = df_write s (df_char c f)"

section \<open>Streams with flags\<close>

record ostream =
  os_text :: string
  os_hex :: bool
  os_upper :: bool
  os_boolalpha :: bool
  os_fill :: char

definition new_ostringstream :: ostream where
  "new_ostringstream = \<lparr>os_text = [], os_hex = False, os_upper = False, os_boolalpha = False, os_fill = CHR '' ''\<rparr>"

text \<open>\<open>ios_flags_saver\<close> and \<open>tmp.flags(os.flags())\<close>: the flags, not the fill character.\<close>

definition copy_flags :: "ostream \<Rightarrow> ostream \<Rightarrow> ostream" where
  "copy_flags from os = os\<lparr>os_hex := os_hex from, os_upper := os_upper from, os_boolalpha := os_boolalpha from\<rparr>"

definition put :: "string \<Rightarrow> ostream \<Rightarrow> ostream" where
  "put s os = os\<lparr>os_text := os_text os @ s\<rparr>"

definition hex_digit :: "bool \<Rightarrow> nat \<Rightarrow> char" where
  "hex_digit up n = (if up then ''0123456789ABCDEF'' else ''0123456789abcdef'') ! n"

fun hexadecimal :: "bool \<Rightarrow> nat \<Rightarrow> string" where
  "hexadecimal up n = (if n < 16 then [hex_digit up n] else hexadecimal up (n div 16) @ [hex_digit up (n mod 16)])"

declare hexadecimal.simps [simp del]

definition put_nat :: "nat \<Rightarrow> ostream \<Rightarrow> ostream" where
  "put_nat n os = put (if os_hex os then hexadecimal (os_upper os) n else decimal n) os"

definition put_int :: "int \<Rightarrow> ostream \<Rightarrow> ostream" where
  "put_int i os = (if os_hex os then put (hexadecimal (os_upper os) (nat (i mod 2 ^ 32))) os
     else put ((if i < 0 then ''-'' else []) @ decimal (nat \<bar>i\<bar>)) os)"

definition put_bool :: "bool \<Rightarrow> ostream \<Rightarrow> ostream" where
  "put_bool b os = put (if os_boolalpha os then if b then ''true'' else ''false'' else if b then ''1'' else ''0'') os"

definition put_ptr :: "nat \<Rightarrow> ostream \<Rightarrow> ostream" where
  "put_ptr p = put (if p = 0 then ''0'' else ''0x'' @ hexadecimal False p)"

section \<open>Strings and bytes\<close>

definition isprint :: "char \<Rightarrow> bool" where
  "isprint c \<longleftrightarrow> 32 \<le> (of_char c :: nat) \<and> (of_char c :: nat) < 127"

definition outputAsHexEscapeSequence :: "char \<Rightarrow> ostream \<Rightarrow> ostream" where
  "outputAsHexEscapeSequence c os =
     copy_flags os (put_nat (of_char c) ((put [CHR 0x5C, CHR ''x''] os)\<lparr>os_hex := True, os_upper := True\<rparr>))"

definition outputAsCharLiteral :: "char \<Rightarrow> ostream \<Rightarrow> ostream" where
  "outputAsCharLiteral c os =
    (if c = CHR 0x00 then put [CHR 0x5C, CHR ''0''] os
     else if c = CHR 0x0C then put [CHR 0x5C, CHR ''f''] os
     else if c = CHR 0x0A then put [CHR 0x5C, CHR ''n''] os
     else if c = CHR 0x0D then put [CHR 0x5C, CHR ''r''] os
     else if c = CHR 0x09 then put [CHR 0x5C, CHR ''t''] os
     else if c = CHR 0x0B then put [CHR 0x5C, CHR ''v''] os
     else if c = CHR 0x27 then put [CHR 0x5C, CHR 0x27] os
     else if c = CHR 0x22 then put [CHR 0x5C, CHR 0x22] os
     else if c = CHR 0x5C then put [CHR 0x5C, CHR 0x5C] os
     else if isprint c then put [c] os
     else outputAsHexEscapeSequence c os)"

definition outputNull :: "ostream \<Rightarrow> ostream" where
  "outputNull = put ''null''"

text \<open>\<open>byteOutput\<close> restores the flags but leaves the fill character at \<open>0\<close>.\<close>

definition put_byte :: "byte \<Rightarrow> ostream \<Rightarrow> ostream" where
  "put_byte b os = (let h = hexadecimal (os_upper os) (unat b) in
     put (replicate (2 - length h) (CHR ''0'') @ h) (os\<lparr>os_fill := CHR ''0''\<rparr>))"

definition byteOutput :: "byte list \<Rightarrow> ostream \<Rightarrow> ostream" where
  "byteOutput bs os = copy_flags os (fold put_byte bs (os\<lparr>os_hex := True\<rparr>))"

definition outputString :: "string \<Rightarrow> ostream \<Rightarrow> ostream" where
  "outputString str os = put [CHR 0x22] (fold outputAsCharLiteral str (put [CHR 0x22] os))"

definition outputCString :: "string option \<Rightarrow> ostream \<Rightarrow> ostream" where
  "outputCString str os = (case str of None \<Rightarrow> outputNull os
     | Some s \<Rightarrow> put [CHR 0x22] (fold outputAsCharLiteral (c_str s) (put [CHR 0x22] os)))"

section \<open>Values\<close>

datatype dvalue =
    DString string
  | DCString "string option"
  | DException string string          \<comment> \<open>name of the type, \<open>what()\<close>\<close>
  | DBytes "byte list"                \<comment> \<open>no \<open>operator <<\<close>\<close>
  | DEnum int                         \<comment> \<open>an enumeration without \<open>operator <<\<close>\<close>
  | DDumpable string                  \<comment> \<open>what its \<open>dump\<close> writes\<close>
  | DShown string                     \<comment> \<open>a class with \<open>operator <<\<close>\<close>
  | DInt int | DNat nat | DBool bool | DPtr nat
  | DShownEnum string int             \<comment> \<open>an enumeration with \<open>operator <<\<close>\<close>
  | DFunction bool                    \<comment> \<open>a \<open>std::function\<close>: is it set?\<close>
  | DOptional "dvalue option"
  | DShared nat nat                   \<comment> \<open>address and use count\<close>
  | DWeak nat nat                     \<comment> \<open>what \<open>lock()\<close> gives\<close>
  | DUnique nat
  | DTuple "dvalue list"
  | DNull                             \<comment> \<open>\<open>NullPtr\<close>\<close>

fun outputValue :: "dvalue \<Rightarrow> ostream \<Rightarrow> ostream \<times> bool"
  and outputTuple :: "bool \<Rightarrow> dvalue list \<Rightarrow> ostream \<Rightarrow> ostream" where
  "outputValue (DString s) os = (outputString s os, False)"
| "outputValue (DCString s) os = (outputCString s os, False)"
| "outputValue (DException type_name what) os = (put (type_name @ '': '' @ what) os, False)"
| "outputValue (DBytes bs) os = (byteOutput bs os, False)"
| "outputValue (DEnum i) os = (put_int i os, False)"
| "outputValue (DDumpable text) os = (put text os, True)"
| "outputValue (DShown s) os = (put s os, False)"
| "outputValue (DInt i) os = (put_int i os, False)"
| "outputValue (DNat n) os = (put_nat n os, False)"
| "outputValue (DBool b) os = (put_bool b os, False)"
| "outputValue (DPtr p) os = (put_ptr p os, False)"
| "outputValue (DShownEnum s i) os = (put '')'' (put_int i (put '' ('' (put s os))), False)"
| "outputValue (DFunction b) os = (put_bool b os, False)"
| "outputValue (DOptional (Some v)) os = outputValue v os"
| "outputValue (DOptional None) os = (put ''<none>'' os, False)"
| "outputValue (DShared p n) os = (put '')'' (put_nat n (put '' (use count: '' (put_ptr p os))), False)"
| "outputValue (DWeak p n) os = (put '')'' (put_nat n (put '' (use count: '' (put_ptr p os))), False)"
| "outputValue (DUnique p) os = (put_ptr p os, False)"
| "outputValue (DTuple vs) os = (put '')'' (outputTuple True vs (put ''('' os)), False)"
| "outputValue DNull os = (outputNull os, False)"
| "outputTuple first [] os = os"
| "outputTuple first (v # vs) os =
     outputTuple False vs (fst (outputValue v (if first then os else put '', '' os)))"

datatype dname = CName "string option" | VName dvalue

definition outputName :: "dname \<Rightarrow> ostream \<Rightarrow> ostream" where
  "outputName name os = (case name of CName None \<Rightarrow> outputNull os | CName (Some s) \<Rightarrow> put (c_str s) os
     | VName v \<Rightarrow> fst (outputValue v os))"

abbreviation LF :: char where "LF \<equiv> CHR 0x0A"

definition outputNameAndValue :: "dname \<Rightarrow> dvalue \<Rightarrow> ostream \<Rightarrow> ostream" where
  "outputNameAndValue name v os = (case outputValue v (copy_flags os new_ostringstream) of (tmp, many) \<Rightarrow>
     if \<not> many then put ('': '' @ os_text tmp @ [LF]) (outputName name os)
     else put ('':'' @ [LF, CHR ''{'', LF] @ os_text tmp @ [CHR ''}'', LF]) (outputName name os))"

definition outputNamelessValue :: "dvalue \<Rightarrow> ostream \<Rightarrow> ostream" where
  "outputNamelessValue v os = (case outputValue v (copy_flags os new_ostringstream) of (tmp, many) \<Rightarrow>
     if \<not> many then put (os_text tmp @ [LF]) os else put (os_text tmp) os)"

definition outputNameAndHexValue :: "dname \<Rightarrow> dvalue \<Rightarrow> ostream \<Rightarrow> ostream" where
  "outputNameAndHexValue name v os = (let os1 = outputName name os in
     copy_flags os1 (put [LF] (fst (outputValue v ((put '': 0x'' os1)\<lparr>os_hex := True\<rparr>)))))"

definition outputNameAndValuePointedBy :: "dname \<Rightarrow> dvalue option \<Rightarrow> ostream \<Rightarrow> ostream" where
  "outputNameAndValuePointedBy name p os = (case p of None \<Rightarrow> outputNameAndValue name DNull os
     | Some v \<Rightarrow> outputNameAndValue name v os)"

text \<open>The overload for \<open>shared_ptr\<close>; the one for \<open>weak_ptr\<close> locks and calls it. The argument is the
  object and the use count.\<close>

definition outputNameAndValueSharedBy :: "dname \<Rightarrow> (dvalue \<times> nat) option \<Rightarrow> ostream \<Rightarrow> ostream" where
  "outputNameAndValueSharedBy name p os = (case p of None \<Rightarrow> outputNameAndValue name DNull os
     | Some (v, n) \<Rightarrow> (case outputValue v (copy_flags os new_ostringstream) of (tmp, many) \<Rightarrow>
         if \<not> many then put ('': '' @ os_text tmp @ [LF]) (outputName name os)
         else put ([LF, CHR ''}'', LF]) (put_nat n
           (put ('':'' @ [LF, CHR ''{'', LF] @ os_text tmp @ ''use count: '') (outputName name os)))))"

definition outputContainer :: "string \<Rightarrow> dvalue list \<Rightarrow> ostream \<Rightarrow> ostream" where
  "outputContainer name c os =
     put [CHR ''}'', LF] (fold outputNamelessValue c (put (c_str name @ '':'' @ [LF, CHR ''{'', LF]) os))"

definition outputPtrContainer :: "string \<Rightarrow> dvalue option list \<Rightarrow> ostream \<Rightarrow> ostream" where
  "outputPtrContainer name c os = put [CHR ''}'', LF]
     (fold (\<lambda>p. case p of None \<Rightarrow> put (''null'' @ [LF]) | Some v \<Rightarrow> outputNamelessValue v) c
       (put (c_str name @ '':'' @ [LF, CHR ''{'', LF]) os))"

definition outputPairContainer :: "string \<Rightarrow> (dname \<times> dvalue) list \<Rightarrow> ostream \<Rightarrow> ostream" where
  "outputPairContainer name c os = put [CHR ''}'', LF]
     (fold (\<lambda>(n, v). outputNameAndValue n v) c (put (c_str name @ '':'' @ [LF, CHR ''{'', LF]) os))"

definition outputPtrPairContainer :: "string \<Rightarrow> (dname \<times> dvalue option) list \<Rightarrow> ostream \<Rightarrow> ostream" where
  "outputPtrPairContainer name c os = put [CHR ''}'', LF]
     (fold (\<lambda>(n, p). case p of None \<Rightarrow> outputNameAndValue n DNull | Some v \<Rightarrow> outputNameAndValue n v) c
       (put (c_str name @ '':'' @ [LF, CHR ''{'', LF]) os))"

section \<open>Dumps\<close>

text \<open>\<open>Dumpables\<close> are the objects, null pointers included, each given by what its \<open>dump\<close> writes; the
  process id and the time are arguments. The stream is the file or the stream given.\<close>

fun outputDumpables :: "string option list \<Rightarrow> formatter \<Rightarrow> formatter" where
  "outputDumpables [] df = df"
| "outputDumpables (d # ds) df = outputDumpables ds (df_write (case d of None \<Rightarrow> ''null'' @ [LF] | Some text \<Rightarrow> text) df)"

definition dumpToStream :: "nat \<Rightarrow> string \<Rightarrow> string option list \<Rightarrow> ostream \<Rightarrow> ostream" where
  "dumpToStream pid time ds os =
    (let os1 = put [LF] (put_nat pid (put ''Pid: '' (os\<lparr>os_boolalpha := True\<rparr>)));
         os2 = put (''Time: '' @ time @ [LF]) os1;
         os3 = put (''BEGIN'' @ [LF]) os2;
         df = outputDumpables ds (df_new (os_text os3))
     in put (''END'' @ [LF]) (os3\<lparr>os_text := df_target df\<rparr>))"

text \<open>\<open>dumpToFile\<close>: the new content of the file when it could be opened, and the result.\<close>

definition dumpToFile :: "nat \<Rightarrow> string \<Rightarrow> string option list \<Rightarrow> bool \<Rightarrow> string option \<times> bool" where
  "dumpToFile pid time ds can_open =
     (if can_open then (Some (os_text (dumpToStream pid time ds new_ostringstream)), True) else (None, False))"

end
