(* ===== verification/DumpProps.thy ===== *)
theory DumpProps
  imports Dump
begin

text \<open>
  Properties of the dump facility: the character-driven formatter is the line-wise indentation, what
  the dump functions write has balanced braces, so that a dump leaves the indentation as it found
  it, and quoted strings can be read back.
\<close>

section \<open>Indentation by lines\<close>

text \<open>The reference: the depth before a line is the number of braces opened and not closed; a line is
  indented by four spaces per level, one level less when it starts with a closing brace.\<close>

definition brace :: "char \<Rightarrow> int" where
  "brace c = (if c = CHR ''{'' then 1 else if c = CHR ''}'' then - 1 else 0)"

definition depth :: "string \<Rightarrow> int" where
  "depth s = sum_list (map brace s)"

definition indent_line :: "int \<Rightarrow> string \<Rightarrow> string" where
  "indent_line d l = (if l = [] then [] else replicate (4 * nat (d + min 0 (brace (hd l)))) (CHR '' '') @ l)"

fun indent_lines :: "int \<Rightarrow> string list \<Rightarrow> string list" where
  "indent_lines d [] = []"
| "indent_lines d (l # ls) = indent_line d l # indent_lines (d + depth l) ls"

fun join_lines :: "string list \<Rightarrow> string" where
  "join_lines [] = []"
| "join_lines [l] = l"
| "join_lines (l # ls) = l @ LF # join_lines ls"

lemma df_write_append: "df_write (s @ t) f = df_write t (df_write s f)"
  by (induction s arbitrary: f) simp_all

lemma indent_loop_eq: "indent_loop n f = f\<lparr>df_target := df_target f @ replicate (4 * n) (CHR '' '')\<rparr>"
  by (induction n arbitrary: f) (simp_all add: df_put_def replicate_app_Cons_same numeral_eq_Suc)

lemma df_char_plain:
  "LF \<noteq> c \<Longrightarrow> df_indentNext f = False \<Longrightarrow>
     df_char c f = f\<lparr>df_target := df_target f @ [c], df_level := df_level f + brace c\<rparr>"
  by (auto simp: df_char_def df_put_def indentIfNeeded_def brace_def)

lemma df_char_first:
  "LF \<noteq> c \<Longrightarrow> df_indentNext f \<Longrightarrow> df_char c f = f\<lparr>df_target := df_target f @ indent_line (df_level f) [c],
     df_level := df_level f + brace c, df_indentNext := False\<rparr>"
  by (auto simp: df_char_def df_put_def indentIfNeeded_def brace_def indent_loop_eq indent_line_def)

lemma df_write_line:
  "LF \<notin> set l \<Longrightarrow> df_indentNext f = False \<Longrightarrow>
     df_write l f = f\<lparr>df_target := df_target f @ l, df_level := df_level f + depth l\<rparr>"
  by (induction l arbitrary: f) (simp_all add: df_char_plain depth_def)

lemma df_write_first_line:
  assumes "LF \<notin> set l" and "df_indentNext f"
  shows "df_write l f = f\<lparr>df_target := df_target f @ indent_line (df_level f) l, df_level := df_level f + depth l,
     df_indentNext := (l = [])\<rparr>"
proof (cases l)
  case Nil
  then show ?thesis using assms(2) by (simp add: depth_def indent_line_def)
next
  case (Cons c l')
  with assms show ?thesis
    by (simp add: df_char_first df_write_line depth_def indent_line_def)
qed

lemma df_write_lines:
  assumes "\<forall>l\<in>set ls. LF \<notin> set l" and "df_indentNext f"
  shows "df_target (df_write (join_lines ls) f) = df_target f @ join_lines (indent_lines (df_level f) ls)"
  using assms
proof (induction ls arbitrary: f rule: join_lines.induct)
  case (3 l l' ls)
  let ?f = "f\<lparr>df_target := df_target f @ indent_line (df_level f) l @ [LF], df_level := df_level f + depth l, df_indentNext := True\<rparr>"
  have "df_write (join_lines (l # l' # ls)) f = df_write (join_lines (l' # ls)) (df_write [LF] (df_write l f))"
    by (simp add: df_write_append)
  also have "df_write [LF] (df_write l f) = ?f"
    using 3(2,3) by (simp add: df_write_first_line df_char_def df_put_def)
  finally show ?case using 3(1) [of ?f] 3(2) by simp
qed (simp_all add: df_write_first_line)

text \<open>
  C37: the character-driven formatter computes the line-wise indentation: each non-empty line gets
  four spaces per open brace, one level less when it starts with a closing brace; empty lines stay
  empty. It does not matter in which pieces the text is written.
\<close>

theorem formatter_indents_lines:
  assumes "ls \<noteq> []" and "\<forall>l\<in>set ls. LF \<notin> set l" and "s @ t = join_lines ls"
  shows "df_target (df_write t (df_write s (df_new target))) = target @ join_lines (indent_lines 0 ls)"
proof -
  have zero: "indent_line 0 l = l" for l by (simp add: indent_line_def)
  obtain l ls' where ls: "ls = l # ls'" using assms(1) by (cases ls) auto
  have "df_target (df_write (join_lines ls) (df_new target)) = target @ join_lines (indent_lines 0 ls)"
  proof (cases ls')
    case Nil
    then show ?thesis using assms(2) ls zero by (simp add: df_write_line df_new_def)
  next
    case (Cons l2 ls2)
    let ?f = "\<lparr>df_target = target @ l @ [LF], df_level = depth l, df_indentNext = True\<rparr>"
    have "df_write (join_lines ls) (df_new target) = df_write (join_lines ls') (df_write [LF] (df_write l (df_new target)))"
      using ls Cons by (simp add: df_write_append)
    also have "df_write [LF] (df_write l (df_new target)) = ?f"
      using assms(2) ls by (simp add: df_write_line df_new_def df_char_def df_put_def)
    finally show ?thesis
      using df_write_lines [of ls' ?f] assms(2) ls Cons zero by simp
  qed
  then show ?thesis by (simp flip: df_write_append add: assms(3))
qed

theorem formatter_indents_lines_witness:
  "df_target (df_write [LF, CHR ''x'', LF, CHR ''}''] (df_write ''a{'' (df_new [])))
     = join_lines [''a{'', ''    x'', ''}'']"
proof -
  have "indent_lines 0 [''a{'', ''x'', ''}''] = [''a{'', ''    x'', ''}'']"
    by (simp add: indent_line_def depth_def brace_def numeral_eq_Suc)
  then show ?thesis
    using formatter_indents_lines [of "[''a{'', ''x'', ''}'']" "''a{''" "[LF, CHR ''x'', LF, CHR ''}'']" "[]"] by simp
qed

section \<open>Quoted strings\<close>

text \<open>The inverse of the escapes other than the hexadecimal ones.\<close>

definition unescaped :: "char \<Rightarrow> char" where
  "unescaped c = (if c = CHR ''0'' then CHR 0x00 else if c = CHR ''f'' then CHR 0x0C else if c = CHR ''n'' then CHR 0x0A
     else if c = CHR ''r'' then CHR 0x0D else if c = CHR ''t'' then CHR 0x09 else if c = CHR ''v'' then CHR 0x0B else c)"

fun unquote :: "string \<Rightarrow> (string \<times> string) option" where
  "unquote [] = None"
| "unquote [c] = (if c = CHR 0x22 then Some ([], []) else None)"
| "unquote (c # d # s) = (if c = CHR 0x22 then Some ([], d # s)
     else if c = CHR 0x5C then map_option (apfst ((#) (unescaped d))) (unquote s)
     else map_option (apfst ((#) c)) (unquote (d # s)))"

definition has_literal :: "char \<Rightarrow> bool" where
  "has_literal c \<longleftrightarrow> isprint c \<or> c \<in> {CHR 0x00, CHR 0x0C, CHR 0x0A, CHR 0x0D, CHR 0x09, CHR 0x0B}"

definition literal :: "char \<Rightarrow> string" where
  "literal c = os_text (outputAsCharLiteral c new_ostringstream)"

lemma outputAsCharLiteral_eq: "has_literal c \<Longrightarrow> outputAsCharLiteral c os = put (literal c) os"
  by (auto simp: outputAsCharLiteral_def literal_def put_def new_ostringstream_def has_literal_def)

lemma put_put [simp]: "put s (put t os) = put (t @ s) os"
  by (simp add: put_def)

lemma fold_literals:
  "list_all has_literal s \<Longrightarrow> fold outputAsCharLiteral s os = put (concat (map literal s)) os"
  by (induction s arbitrary: os) (simp_all add: outputAsCharLiteral_eq, simp add: put_def)

lemma unquote_literal:
  assumes "has_literal c" and "t \<noteq> []"
  shows "unquote (literal c @ t) = map_option (apfst ((#) c)) (unquote t)"
  using assms
  by (cases t) (auto simp: literal_def outputAsCharLiteral_def put_def new_ostringstream_def unescaped_def has_literal_def)

lemma unquote_literals:
  "list_all has_literal s \<Longrightarrow> unquote (concat (map literal s) @ CHR 0x22 # rest) = Some (s, rest)"
  by (induction s) (cases rest; simp add: unquote_literal)+

text \<open>
  a string of printable and common control characters is dumped so that it can be read back, whatever
  follows: the quotes end it and the escapes stand for one character each. So two such strings
  are never dumped alike. (Hexadecimal escapes have no fixed length; see \<open>hex_escapes_collide\<close>.)
\<close>

theorem string_dump_roundtrip:
  assumes "list_all has_literal s"
  shows "\<exists>text. outputString s os = put (CHR 0x22 # text) os \<and> (\<forall>rest. unquote (text @ rest) = Some (s, rest))"
  using fold_literals [OF assms] unquote_literals [OF assms]
  by (intro exI [of _ "concat (map literal s) @ [CHR 0x22]"]) (simp add: outputString_def)

theorem string_dump_roundtrip_witness:
  "\<exists>text. outputString [CHR ''a'', CHR 0x22, CHR 0x0A] new_ostringstream = put (CHR 0x22 # text) new_ostringstream
     \<and> unquote (text @ ''b'') = Some ([CHR ''a'', CHR 0x22, CHR 0x0A], ''b'')"
  using string_dump_roundtrip [of "[CHR ''a'', CHR 0x22, CHR 0x0A]" new_ostringstream] by (auto simp: has_literal_def isprint_def)

theorem hex_escapes_collide:
  "os_text (outputString [CHR 0x01, CHR ''2''] new_ostringstream) = os_text (outputString [CHR 0x12] new_ostringstream)"
  by (simp add: outputString_def outputAsCharLiteral_def outputAsHexEscapeSequence_def put_def put_nat_def copy_flags_def
      new_ostringstream_def isprint_def hexadecimal.simps hex_digit_def)

section \<open>Balanced dumps\<close>

fun scan :: "int \<Rightarrow> string \<Rightarrow> int option" where
  "scan d [] = Some d"
| "scan d (c # s) = (if d + brace c < 0 then None else scan (d + brace c) s)"

definition balanced :: "string \<Rightarrow> bool" where
  "balanced s \<longleftrightarrow> scan 0 s = Some 0"

definition no_braces :: "string \<Rightarrow> bool" where
  "no_braces s \<longleftrightarrow> list_all (\<lambda>c. brace c = 0) s"

lemma scan_append: "scan d (s @ t) = Option.bind (scan d s) (\<lambda>e. scan e t)"
  by (induction s arbitrary: d) simp_all

lemma scan_shift: "scan d s = Some e \<Longrightarrow> 0 \<le> k \<Longrightarrow> scan (d + k) s = Some (e + k)"
proof (induction s arbitrary: d)
  case (Cons c s)
  then show ?case using Cons.IH [of "d + brace c"] by (auto simp: algebra_simps split: if_splits)
qed simp

lemma balanced_scan: "balanced s \<Longrightarrow> 0 \<le> k \<Longrightarrow> scan k s = Some k"
  using scan_shift [of 0 s 0 k] by (simp add: balanced_def)

lemma balanced_append: "balanced s \<Longrightarrow> balanced t \<Longrightarrow> balanced (s @ t)"
  by (simp add: balanced_def scan_append)

lemma balanced_block: "balanced s \<Longrightarrow> balanced (CHR ''{'' # s @ [CHR ''}''])"
  using balanced_scan [of s 1] by (simp add: balanced_def scan_append brace_def)

lemma no_braces_balanced: "no_braces s \<Longrightarrow> balanced s"
proof -
  have "0 \<le> d \<Longrightarrow> no_braces s \<Longrightarrow> scan d s = Some d" for d
    by (induction s arbitrary: d) (simp_all add: no_braces_def)
  then show "no_braces s \<Longrightarrow> balanced s" by (simp add: balanced_def)
qed

lemma scan_depth: "scan d s = Some e \<Longrightarrow> e = d + depth s"
proof (induction s arbitrary: d)
  case (Cons c s)
  then have "scan (d + brace c) s = Some e" by (simp split: if_splits)
  from Cons.IH [OF this] show ?case unfolding depth_def by simp
qed (simp add: depth_def)

lemma df_char_level: "df_level (df_char c f) = df_level f + brace c"
  by (auto simp: df_char_def df_put_def indentIfNeeded_def indent_loop_eq brace_def)

lemma df_write_level: "df_level (df_write s f) = df_level f + depth s"
  by (induction s arbitrary: f) (simp_all add: df_char_level depth_def)

lemma balanced_level: "balanced s \<Longrightarrow> df_level (df_write s f) = df_level f"
  using scan_depth [of 0 s 0] by (simp add: balanced_def df_write_level)

text \<open>\<open>appends os os'\<close>: the second stream has a balanced text more.\<close>

definition appends :: "ostream \<Rightarrow> ostream \<Rightarrow> bool" where
  "appends os os' \<longleftrightarrow> (\<exists>t. os_text os' = os_text os @ t \<and> balanced t)"

lemma appends_refl: "os_text os' = os_text os \<Longrightarrow> appends os os'"
  by (simp add: appends_def balanced_def)

lemma appends_trans: "appends a b \<Longrightarrow> appends b c \<Longrightarrow> appends a c"
  unfolding appends_def using balanced_append by (metis append.assoc)

lemma appends_put: "balanced t \<Longrightarrow> appends os (put t os)"
  by (auto simp: appends_def put_def)

lemma appends_text: "appends os a \<Longrightarrow> os_text b = os_text a \<Longrightarrow> appends os b"
  by (simp add: appends_def)

lemma appends_from: "appends a os \<Longrightarrow> os_text a = os_text b \<Longrightarrow> appends b os"
  by (simp add: appends_def)

lemma copy_flags_text [simp]: "os_text (copy_flags a os) = os_text os"
  by (simp add: copy_flags_def)

lemma digit_no_brace: "n < 16 \<Longrightarrow> brace (hex_digit up n) = 0" "n < 10 \<Longrightarrow> brace (digit n) = 0"
  by (auto simp: brace_def hex_digit_def digit_def nth_Cons' split: if_splits)

lemma hexadecimal_no_braces: "no_braces (hexadecimal up n)"
proof (induction up n rule: hexadecimal.induct)
  case (1 up n)
  then show ?case
    by (subst hexadecimal.simps) (simp add: no_braces_def digit_no_brace)
qed

lemma decimal_no_braces: "no_braces (decimal n)"
proof (induction n rule: decimal.induct)
  case (1 n)
  then show ?case by (subst decimal.simps) (simp add: no_braces_def digit_no_brace)
qed

lemma no_braces_append: "no_braces (s @ t) \<longleftrightarrow> no_braces s \<and> no_braces t"
  by (simp add: no_braces_def)

lemma no_braces_Cons: "no_braces (c # t) \<longleftrightarrow> brace c = 0 \<and> no_braces t" "no_braces []"
  by (simp_all add: no_braces_def)

lemmas no_braces_simps = no_braces_append no_braces_Cons hexadecimal_no_braces decimal_no_braces

lemma appends_numbers: "appends os (put_nat n os)" "appends os (put_int i os)" "appends os (put_bool b os)" "appends os (put_ptr p os)"
  by (simp_all add: put_nat_def put_int_def put_bool_def put_ptr_def appends_put no_braces_balanced no_braces_simps brace_def)

lemma appends_literal:
  assumes "brace c = 0"
  shows "appends os (outputAsCharLiteral c os)"
proof -
  have "appends os (outputAsHexEscapeSequence c os)"
    unfolding outputAsHexEscapeSequence_def
    by (rule appends_text [OF appends_trans [OF appends_put appends_from [OF appends_numbers(1)]]])
      (simp_all add: no_braces_balanced no_braces_simps brace_def)
  moreover have "balanced [c]" using assms by (simp add: no_braces_balanced no_braces_simps)
  moreover have "balanced [CHR 0x5C, d]" if "brace d = 0" for d using that by (simp add: no_braces_balanced no_braces_simps brace_def)
  ultimately show ?thesis
    by (simp add: outputAsCharLiteral_def appends_put brace_def)
qed

lemma appends_fold: "(\<And>x os. x \<in> set xs \<Longrightarrow> appends os (f x os)) \<Longrightarrow> appends os (fold f xs os)"
proof (induction xs arbitrary: os)
  case (Cons x xs)
  then show ?case using appends_trans [of os "f x os"] by simp
qed (simp add: appends_refl)

text \<open>Values whose own texts are balanced: strings and names have no braces, objects dump balanced texts.\<close>

fun clean_value :: "dvalue \<Rightarrow> bool" where
  "clean_value (DString s) = no_braces s"
| "clean_value (DCString s) = (case s of None \<Rightarrow> True | Some s \<Rightarrow> no_braces s)"
| "clean_value (DException t w) = (no_braces t \<and> no_braces w)"
| "clean_value (DDumpable t) = balanced t"
| "clean_value (DShown s) = no_braces s"
| "clean_value (DShownEnum s i) = no_braces s"
| "clean_value (DOptional (Some v)) = clean_value v"
| "clean_value (DTuple vs) = list_all clean_value vs"
| "clean_value _ = True"

definition clean_name :: "dname \<Rightarrow> bool" where
  "clean_name n = (case n of CName None \<Rightarrow> True | CName (Some s) \<Rightarrow> no_braces s | VName v \<Rightarrow> clean_value v)"

lemma no_braces_c_str: "no_braces s \<Longrightarrow> no_braces (c_str s)"
  by (auto simp: no_braces_def c_str_def list_all_iff dest: set_takeWhileD)

lemma appends_plain: "no_braces t \<Longrightarrow> appends os (put t os)"
  by (simp add: appends_put no_braces_balanced)

lemma appends_string: "no_braces s \<Longrightarrow> appends os (outputString s os)"
  unfolding outputString_def
  by (rule appends_trans [OF appends_plain appends_trans [OF appends_fold appends_plain]])
    (auto simp: no_braces_simps brace_def no_braces_def list_all_iff intro: appends_literal)

lemma appends_bytes: "appends os (byteOutput bs os)"
proof -
  have byte: "appends os (put_byte b os)" for b os
  proof -
    have "no_braces (replicate n (CHR ''0''))" for n by (induction n) (simp_all add: no_braces_simps brace_def)
    then show ?thesis
      unfolding put_byte_def Let_def by (intro appends_from [OF appends_plain]) (simp_all add: no_braces_simps)
  qed
  show ?thesis
    unfolding byteOutput_def by (rule appends_text [OF appends_from [OF appends_fold [OF byte]]]) simp_all
qed

lemma appends_cstring: "(case s of None \<Rightarrow> True | Some s \<Rightarrow> no_braces s) \<Longrightarrow> appends os (outputCString s os)"
  using appends_string [OF no_braces_c_str]
  by (auto simp: outputCString_def outputNull_def outputString_def no_braces_simps brace_def intro: appends_plain split: option.splits)

lemma appends_then: "appends os a \<Longrightarrow> appends a (f a) \<Longrightarrow> appends os (f a)"
  by (rule appends_trans)

lemma appends_value:
  "clean_value v \<Longrightarrow> appends os (fst (outputValue v os))"
  "list_all clean_value vs \<Longrightarrow> appends os (outputTuple first vs os)"
proof (induction v os and first vs os rule: outputValue_outputTuple.induct)
  case (12 s i os)
  have "appends os (put '' ('' (put s os))" using 12 by (intro appends_trans [OF appends_plain appends_plain]) (simp_all add: no_braces_simps brace_def)
  then have "appends os (put_int i (put '' ('' (put s os)))" using appends_numbers(2) by (rule appends_trans)
  then show ?case using appends_trans appends_plain [of "'')''"] by (fastforce simp: no_braces_simps brace_def)
next
  case (16 p n os)
  have "appends os (put '' (use count: '' (put_ptr p os))"
    by (rule appends_trans [OF appends_numbers(4) appends_plain]) (simp add: no_braces_simps brace_def)
  then have "appends os (put_nat n (put '' (use count: '' (put_ptr p os)))" using appends_numbers(1) by (rule appends_trans)
  then show ?case using appends_trans appends_plain [of "'')''"] by (fastforce simp: no_braces_simps brace_def)
next
  case (17 p n os)
  have "appends os (put '' (use count: '' (put_ptr p os))"
    by (rule appends_trans [OF appends_numbers(4) appends_plain]) (simp add: no_braces_simps brace_def)
  then have "appends os (put_nat n (put '' (use count: '' (put_ptr p os)))" using appends_numbers(1) by (rule appends_trans)
  then show ?case using appends_trans appends_plain [of "'')''"] by (fastforce simp: no_braces_simps brace_def)
next
  case (19 vs os)
  have "appends os (put ''('' os)" by (intro appends_plain) (simp add: no_braces_simps brace_def)
  then have "appends os (outputTuple True vs (put ''('' os))" using 19 by (auto intro: appends_trans)
  then show ?case using appends_trans appends_plain [of "'')''"] by (fastforce simp: no_braces_simps brace_def)
next
  case (22 first v vs os)
  let ?os = "if first then os else put '', '' os"
  have "appends os ?os" by (simp add: appends_refl appends_plain no_braces_simps brace_def)
  moreover have "appends ?os (fst (outputValue v ?os))" "appends (fst (outputValue v ?os)) (outputTuple False vs (fst (outputValue v ?os)))"
    using 22 by simp_all
  ultimately have "appends os (outputTuple False vs (fst (outputValue v ?os)))" by (meson appends_trans)
  then show ?case by simp
qed (simp_all add: appends_refl appends_plain appends_put appends_numbers appends_string appends_cstring appends_bytes
    outputNull_def no_braces_simps brace_def)

lemma appends_name: "clean_name n \<Longrightarrow> appends os (outputName n os)"
  by (auto simp: outputName_def clean_name_def outputNull_def appends_value(1) no_braces_simps brace_def no_braces_c_str
      intro: appends_plain split: dname.splits option.splits)

lemma value_text_balanced:
  assumes "clean_value v" and "outputValue v (copy_flags os new_ostringstream) = (tmp, many)"
  shows "balanced (os_text tmp)"
  using appends_value(1) [OF assms(1), of "copy_flags os new_ostringstream"] assms(2)
  by (auto simp: appends_def new_ostringstream_def)

lemma balanced_separators: "balanced [LF]" "balanced t \<Longrightarrow> balanced ('': '' @ t @ [LF])"
  "balanced t \<Longrightarrow> balanced ('':'' @ [LF, CHR ''{'', LF] @ t @ [CHR ''}'', LF])"
  using balanced_scan [of t 1]
  by (simp_all add: balanced_def scan_append brace_def)

lemma appends_name_value:
  assumes "clean_name n" and "clean_value v"
  shows "appends os (outputNameAndValue n v os)"
proof -
  obtain tmp many where tmp: "outputValue v (copy_flags os new_ostringstream) = (tmp, many)" by fastforce
  have "balanced (os_text tmp)" using value_text_balanced [OF assms(2) tmp] .
  with tmp show ?thesis
    using appends_trans [OF appends_name [OF assms(1)] appends_put] balanced_separators(2,3) [of "os_text tmp"]
    by (simp add: outputNameAndValue_def)
qed

lemma appends_nameless:
  assumes "clean_value v"
  shows "appends os (outputNamelessValue v os)"
proof -
  obtain tmp many where tmp: "outputValue v (copy_flags os new_ostringstream) = (tmp, many)" by fastforce
  have "balanced (os_text tmp)" using value_text_balanced [OF assms tmp] .
  with tmp show ?thesis
    by (simp add: outputNamelessValue_def appends_put balanced_append balanced_separators(1))
qed

lemma appends_hex:
  assumes "clean_name n" and "clean_value v"
  shows "appends os (outputNameAndHexValue n v os)"
proof -
  let ?a = "(put '': 0x'' (outputName n os))\<lparr>os_hex := True\<rparr>"
  have "appends os (put '': 0x'' (outputName n os))"
    by (rule appends_trans [OF appends_name [OF assms(1)] appends_plain]) (simp add: no_braces_simps brace_def)
  then have "appends os ?a" by (rule appends_text) simp
  then have "appends os (fst (outputValue v ?a))" using appends_value(1) [OF assms(2)] by (rule appends_trans)
  then have "appends os (put [LF] (fst (outputValue v ?a)))"
    using appends_trans appends_put [OF balanced_separators(1)] by blast
  then show ?thesis unfolding outputNameAndHexValue_def Let_def by (rule appends_text) simp
qed

lemma appends_block:
  assumes "no_braces name" and "\<And>x os. x \<in> set c \<Longrightarrow> appends os (f x os)"
  shows "appends os (put [CHR ''}'', LF] (fold f c (put (c_str name @ '':'' @ [LF, CHR ''{'', LF]) os)))"
proof -
  let ?a = "put (c_str name @ '':'' @ [LF, CHR ''{'', LF]) os"
  obtain t where t: "os_text (fold f c ?a) = os_text ?a @ t" "balanced t"
    using appends_fold [of c f ?a] assms(2) unfolding appends_def by blast
  have "scan 0 (c_str name) = Some 0"
    using no_braces_balanced [OF no_braces_c_str [OF assms(1)]] by (simp add: balanced_def)
  then have "balanced ((c_str name @ '':'' @ [LF, CHR ''{'', LF]) @ t @ [CHR ''}'', LF])"
    using balanced_scan [OF t(2), of 1] by (simp add: balanced_def scan_append brace_def)
  then show ?thesis using t(1) by (auto simp: appends_def put_def)
qed

text \<open>
  C38: a dump leaves the indentation as it found it. Whatever values are dumped, by name, in hexadecimal,
  through a pointer or in a container, the text has balanced braces, closing none that it did not
  open, if names and strings have no braces and objects dump balanced texts; so the formatter is at
  the same level after it as before.
\<close>

theorem dumps_keep_indentation:
  assumes "clean_name n" and "clean_value v" and "no_braces name" and "list_all clean_value vs"
    and "list_all (pred_option clean_value) ps" and "list_all (\<lambda>(k, v). clean_name k \<and> clean_value v) kvs"
  shows "\<forall>os' \<in> {outputNameAndValue n v os, outputNameAndHexValue n v os, outputNameAndValuePointedBy n (Some v) os,
      outputContainer name vs os, outputPtrContainer name ps os, outputPairContainer name kvs os}.
    \<exists>text. os_text os' = os_text os @ text \<and> balanced text \<and> df_level (df_write text f) = df_level f"
proof -
  have "appends os (outputContainer name vs os)"
    unfolding outputContainer_def using assms(3,4) by (intro appends_block) (auto simp: list_all_iff appends_nameless)
  moreover have "appends os (outputPtrContainer name ps os)"
    unfolding outputPtrContainer_def using assms(3,5)
    by (intro appends_block) (auto simp: list_all_iff appends_nameless no_braces_simps brace_def intro: appends_plain split: option.splits)
  moreover have "appends os (outputPairContainer name kvs os)"
    unfolding outputPairContainer_def using assms(3,6)
    by (intro appends_block) (auto simp: list_all_iff intro: appends_name_value)
  moreover have "appends os (outputNameAndValuePointedBy n (Some v) os)"
    using appends_name_value [OF assms(1,2)] by (simp add: outputNameAndValuePointedBy_def)
  moreover note appends_name_value [OF assms(1,2), of os] appends_hex [OF assms(1,2), of os]
  ultimately show ?thesis
    by (simp add: appends_def) (metis balanced_level)
qed

theorem dumps_keep_indentation_witness:
  "\<exists>text. os_text (outputPairContainer ''map'' [(VName (DInt 1), DDumpable ''D{x}'')] new_ostringstream) = text
     \<and> balanced text \<and> df_level (df_write text (df_new [])) = 0"
  using dumps_keep_indentation [of "CName None" DNull "''map''" "[]" "[]" "[(VName (DInt 1), DDumpable ''D{x}'')]" new_ostringstream "df_new []"]
  by (simp add: clean_name_def no_braces_simps brace_def balanced_def new_ostringstream_def df_new_def)

end
