(* ===== verification/UncaughtExceptions.thy ===== *)
theory UncaughtExceptions
  imports Prelude
begin

text \<open>
  Model of \<open>src/lib/UncaughtExceptionHandler.cpp\<close>: the two handlers of the process, the variables that
  keep the original ones and what is logged. \<open>Foreign\<close> handlers are those of the application and of
  the C++ library, an argument of the functions that call them; \<open>None\<close> is the null pointer. The
  mutex makes each function one step, so the steps of several threads are some sequence of them.
\<close>

section \<open>State\<close>

datatype handler = HandleUnexpected | HandleTerminate | Foreign nat

record handlers =
  cur_unexpected :: "handler option"
  cur_terminate :: "handler option"
  originalUnexpected :: "handler option"
  originalTerminate :: "handler option"
  referenceCount :: int
  syslog :: "string list"

datatype thrown =
    NoException
  | StdException string string   \<comment> \<open>demangled type name and \<open>what()\<close>\<close>
  | OtherException string
  | UntypedException             \<comment> \<open>one the C++ library has no type for\<close>

section \<open>Operations\<close>

definition ueh_enable :: "handlers \<Rightarrow> handlers" where
  "ueh_enable s = s\<lparr>originalUnexpected := cur_unexpected s, cur_unexpected := Some HandleUnexpected,
     originalTerminate := cur_terminate s, cur_terminate := Some HandleTerminate,
     referenceCount := referenceCount s + 1\<rparr>"

definition ueh_disable :: "handlers \<Rightarrow> handlers" where
  "ueh_disable s = (let s1 = s\<lparr>referenceCount := referenceCount s - 1\<rparr> in
     if referenceCount s1 = 0
     then s1\<lparr>cur_unexpected := originalUnexpected s1, originalUnexpected := None,
       cur_terminate := originalTerminate s1, originalTerminate := None\<rparr>
     else s1)"

definition getReferenceCount :: "handlers \<Rightarrow> int" where
  "getReferenceCount s = referenceCount s"

definition called_name :: "bool \<Rightarrow> string" where
  "called_name unexpected = (if unexpected then ''unexpected'' else ''terminate'')"

definition log_message :: "string \<Rightarrow> (handlers, unit) prog" where
  "log_message m = modify_st (\<lambda>s. s\<lparr>syslog := syslog s @ [m]\<rparr>)"

definition analyzeStdException :: "bool \<Rightarrow> string \<Rightarrow> string \<Rightarrow> (handlers, unit) prog" where
  "analyzeStdException unexpected type_name what = log_message (called_name unexpected
     @ '' called after throwing an instance of '' @ [CHR 0x27] @ type_name @ [CHR 0x27] @ '': '' @ what @ [CHR 0x0A])"

definition analyzeUnknownException :: "bool \<Rightarrow> string option \<Rightarrow> (handlers, unit) prog" where
  "analyzeUnknownException unexpected t = (case t of
      Some type_name \<Rightarrow> log_message (called_name unexpected
        @ '' called after throwing an instance of '' @ [CHR 0x27] @ type_name @ [CHR 0x27] @ [CHR 0x0A])
    | None \<Rightarrow> log_message (called_name unexpected @ '' called after throwing uknown exception'' @ [CHR 0x0A]))"

text \<open>\<open>throw;\<close> without a current exception calls \<open>std::terminate\<close>, hence the current handler. The
  recursion has fuel.\<close>

fun run_handler :: "nat \<Rightarrow> (nat \<Rightarrow> (handlers, unit) prog) \<Rightarrow> thrown \<Rightarrow> handler option \<Rightarrow> (handlers, unit) prog"
  and getAndAnalyzeException :: "nat \<Rightarrow> (nat \<Rightarrow> (handlers, unit) prog) \<Rightarrow> thrown \<Rightarrow> bool \<Rightarrow> (handlers, unit) prog" where
  "run_handler 0 F x h s = (NoFuel, s)"
| "run_handler (Suc n) F x h s = (case h of
     None \<Rightarrow> (Undef, s)
   | Some (Foreign k) \<Rightarrow> F k s
   | Some HandleUnexpected \<Rightarrow> seq (getAndAnalyzeException n F x True)
       (seq (\<lambda>s. run_handler n F x (originalUnexpected s) s) abort) s
   | Some HandleTerminate \<Rightarrow> seq (getAndAnalyzeException n F x False)
       (seq (\<lambda>s. run_handler n F x (originalTerminate s) s) abort) s)"
| "getAndAnalyzeException 0 F x unexpected s = (NoFuel, s)"
| "getAndAnalyzeException (Suc n) F x unexpected s = (case x of
     StdException t w \<Rightarrow> analyzeStdException unexpected t w s
   | OtherException t \<Rightarrow> analyzeUnknownException unexpected (Some t) s
   | UntypedException \<Rightarrow> analyzeUnknownException unexpected None s
   | NoException \<Rightarrow> run_handler n F x (cur_terminate s) s)"

text \<open>\<open>std::terminate\<close>.\<close>

definition terminate :: "nat \<Rightarrow> (nat \<Rightarrow> (handlers, unit) prog) \<Rightarrow> thrown \<Rightarrow> (handlers, unit) prog" where
  "terminate n F x = (\<lambda>s. run_handler n F x (cur_terminate s) s)"

section \<open>Properties\<close>

text \<open>
  Enabling and disabling the handler leaves the handlers of the process as they were. While it is
  enabled, an uncaught exception is logged once, with its type and text, and then the handler of
  the application runs as if it were called directly; three units of fuel are enough.
\<close>

theorem uncaught_exception_logged_once:
  assumes "referenceCount s = 0" and "cur_terminate s = Some (Foreign k)" and "3 \<le> n"
  shows "ueh_disable (ueh_enable s) = s\<lparr>originalUnexpected := None, originalTerminate := None\<rparr>
    \<and> terminate n F (StdException t w) (ueh_enable s)
      = seq (analyzeStdException False t w) (seq (F k) abort) (ueh_enable s)"
proof
  show "ueh_disable (ueh_enable s) = s\<lparr>originalUnexpected := None, originalTerminate := None\<rparr>"
    using assms(1) by (simp add: ueh_enable_def ueh_disable_def Let_def)
  obtain m where n: "n = Suc (Suc (Suc m))"
    using assms(3) by (metis add_2_eq_Suc le_Suc_ex numeral_3_eq_3 plus_nat.simps(2) add_Suc)
  have "originalTerminate (snd (log_message msg (ueh_enable s))) = Some (Foreign k)" for msg
    using assms(2) by (simp add: log_message_def ueh_enable_def)
  then show "terminate n F (StdException t w) (ueh_enable s)
      = seq (analyzeStdException False t w) (seq (F k) abort) (ueh_enable s)"
    using assms(2) unfolding n terminate_def
    by (simp add: ueh_enable_def seq_run analyzeStdException_def log_message_def)
qed

theorem uncaught_exception_logged_once_witness:
  "let s = \<lparr>cur_unexpected = Some (Foreign 0), cur_terminate = Some (Foreign 1), originalUnexpected = None,
      originalTerminate = None, referenceCount = 0, syslog = []\<rparr>
   in ueh_disable (ueh_enable s) = s
     \<and> terminate 3 (\<lambda>k. abort) (StdException ''E'' ''text'') (ueh_enable s)
       = (Abort, (ueh_enable s)\<lparr>syslog := [''terminate called after throwing an instance of '' @ [CHR 0x27] @ ''E''
            @ [CHR 0x27] @ '': text'' @ [CHR 0x0A]]\<rparr>)"
  using uncaught_exception_logged_once [of "\<lparr>cur_unexpected = Some (Foreign 0), cur_terminate = Some (Foreign 1),
      originalUnexpected = None, originalTerminate = None, referenceCount = 0, syslog = []\<rparr>" 1 3 "\<lambda>k. abort" "''E''" "''text''"]
  by (simp add: Let_def analyzeStdException_def log_message_def seq_run called_name_def ueh_enable_def)

text \<open>Enabled twice, the handler takes itself for the original one: an uncaught exception makes it call
  itself without end, and disabling it twice leaves it installed.\<close>

theorem enabled_twice_never_ends:
  "fst (terminate n F (OtherException t) (ueh_enable (ueh_enable s))) = NoFuel"
proof -
  have "cur_terminate s' = Some HandleTerminate \<Longrightarrow> originalTerminate s' = Some HandleTerminate \<Longrightarrow>
      fst (run_handler n F (OtherException t) (Some HandleTerminate) s') = NoFuel" for s'
  proof (induction n arbitrary: s' rule: less_induct)
    case (less n)
    consider "n = 0" | "n = 1" | m where "n = Suc (Suc m)" by (metis One_nat_def not0_implies_Suc)
    then show ?case
    proof cases
      case 3
      let ?s = "s'\<lparr>syslog := syslog s' @ [called_name False @ '' called after throwing an instance of '' @ [CHR 0x27] @ t @ [CHR 0x27] @ [CHR 0x0A]]\<rparr>"
      have "fst (run_handler (Suc m) F (OtherException t) (Some HandleTerminate) ?s) = NoFuel"
        using less.IH [of "Suc m" ?s] less.prems 3 by simp
      then obtain s'' where "run_handler (Suc m) F (OtherException t) (Some HandleTerminate) ?s = (NoFuel, s'')"
        by (metis prod.collapse)
      with less.prems 3 show ?thesis
        by (simp add: seq_run analyzeUnknownException_def log_message_def del: run_handler.simps(2))
          (simp add: seq_run analyzeUnknownException_def log_message_def)
    qed (use less.prems in \<open>simp_all add: seq_run\<close>)
  qed
  then show ?thesis by (simp add: terminate_def ueh_enable_def)
qed

theorem disabled_twice_stays:
  "referenceCount s = 0 \<Longrightarrow> cur_terminate (ueh_disable (ueh_disable (ueh_enable (ueh_enable s)))) = Some HandleTerminate"
  by (simp add: ueh_enable_def ueh_disable_def Let_def)

text \<open>Without a current exception \<open>throw;\<close> calls \<open>std::terminate\<close> again, without end.\<close>

theorem terminate_without_exception_never_ends:
  "cur_terminate s = Some HandleTerminate \<Longrightarrow> fst (terminate n F NoException s) = NoFuel"
proof -
  assume cur: "cur_terminate s = Some HandleTerminate"
  have "fst (run_handler n F NoException (Some HandleTerminate) s) = NoFuel"
  proof (induction n rule: less_induct)
    case (less n)
    consider "n = 0" | "n = 1" | m where "n = Suc (Suc m)" by (metis One_nat_def not0_implies_Suc)
    then show ?case
    proof cases
      case 3
      then obtain s'' where "run_handler m F NoException (Some HandleTerminate) s = (NoFuel, s'')"
        using less.IH [of m] by (metis lessI less_SucI prod.collapse)
      with cur 3 show ?thesis by (simp add: seq_run)
    qed (simp_all add: seq_run)
  qed
  with cur show ?thesis by (simp add: terminate_def)
qed

end
