(* ===== verification/EchoServer.thy ===== *)
theory EchoServer
  imports Runners StreamSocketProps ListeningSocket SocketAddress
begin

text \<open>
  Model of the example server, \<open>src/examples/EchoServer1/EchoServer.cpp\<close> with
  \<open>include/examples/EchoServer.hpp\<close>, and of \<open>src/examples/EchoServer1/main.cpp\<close>. It composes the library: the
  state is an \<open>EpollRunner\<close> with the objects of the server, the sockets run on this state through the
  descriptor functions of the runner, and the callbacks and timers of the server are entries of the
  runner's queues. Objects are numbers, which are never used twice (the code compares addresses); the
  timer of an accepted socket has the number of the socket.
\<close>

section \<open>State\<close>

text \<open>The objects that listen to descriptors, and what the server puts into the runner's queues:
  \<open>Server::removeAcceptedSocket\<close> and \<open>AcceptedSocket::remove\<close>, bound to a socket, and the handler of a signal.\<close>

datatype echo_obj = LsObj nat | AsObj nat

datatype echo_cb = CbRemoveAccepted nat | CbRemove nat | CbSignal nat

record ('a, 'k) echo_server = "(echo_obj, echo_cb, 'k) epoll_runner" +
  lss :: "(nat \<times> rawfd) list"
  ass :: "(nat \<times> 'a) list"
  next_obj :: nat
  cout :: string
  cerr :: string
  doContinue :: bool

text \<open>The classes of the library on this state: \<open>System\<close> acts on the world inside the runner.\<close>

definition server_system :: "'k system \<Rightarrow> ('u, 'c, 'k, 'z) base_runner_scheme system" where
  "server_system S = \<lparr>
     sys_getMonotonicClock = on_world (sys_getMonotonicClock S),
     sys_epollCreate = on_world (sys_epollCreate S),
     sys_epollCtl = (\<lambda>ep op fd ev. on_world (sys_epollCtl S ep op fd ev)),
     sys_epollWait = (\<lambda>ep n t. on_world (sys_epollWait S ep n t)),
     sys_pipe = on_world (sys_pipe S),
     sys_timerFDCreate = on_world (sys_timerFDCreate S),
     sys_timerFDSetTime = (\<lambda>fd t. on_world (sys_timerFDSetTime S fd t)),
     sys_socket = (\<lambda>d t p. on_world (sys_socket S d t p)),
     sys_setCloseOnExec = (\<lambda>fd. on_world (sys_setCloseOnExec S fd)),
     sys_setNonBlock = (\<lambda>fd. on_world (sys_setNonBlock S fd)),
     sys_setReuseAddr = (\<lambda>fd. on_world (sys_setReuseAddr S fd)),
     sys_getSockName = (\<lambda>fd. on_world (sys_getSockName S fd)),
     sys_getPeerName = (\<lambda>fd. on_world (sys_getPeerName S fd)),
     sys_bind = (\<lambda>fd a. on_world (sys_bind S fd a)),
     sys_connect = (\<lambda>fd a. on_world (sys_connect S fd a)),
     sys_listen = (\<lambda>fd n. on_world (sys_listen S fd n)),
     sys_accept = (\<lambda>fd. on_world (sys_accept S fd)),
     sys_write = (\<lambda>fd bs. on_world (sys_write S fd bs)),
     sys_read = (\<lambda>fd n. on_world (sys_read S fd n)),
     sys_sendmsg = (\<lambda>fd bs c. on_world (sys_sendmsg S fd bs c)),
     sys_recvmsg = (\<lambda>fd n c. on_world (sys_recvmsg S fd n c)),
     sys_getSocketError = (\<lambda>fd. on_world (sys_getSocketError S fd)),
     sys_close = (\<lambda>fd. on_world (sys_close S fd)),
     sys_sigMask = (\<lambda>how m. on_world (sys_sigMask S how m)),
     sys_sigPending = on_world (sys_sigPending S),
     sys_sigTimedWait = (\<lambda>m. on_world (sys_sigTimedWait S m)),
     sys_signalFD = (\<lambda>fd m. on_world (sys_signalFD S fd m)),
     sys_fork = on_world (sys_fork S),
     sys_kill = (\<lambda>pid sig. on_world (sys_kill S pid sig)),
     sys_waitpid = (\<lambda>pid fl. on_world (sys_waitpid S pid fl))\<rparr>"

definition server_runner :: "'k system \<Rightarrow> 'u \<Rightarrow> ('u, 'c, 'k, 'z) base_runner_scheme runner_iface" where
  "server_runner S obj = \<lparr>ri_addFDListener = (\<lambda>fd ev. base_add S (User obj) fd ev),
     ri_modifyFDListener = (\<lambda>fd ev. base_modify S fd ev), ri_delFDListener = (\<lambda>fd. delFDListener S fd)\<rparr>"

definition print_out :: "string \<Rightarrow> (('a, 'k, 'z) echo_server_scheme, unit) prog" where
  "print_out t = modify_st (\<lambda>s. s\<lparr>cout := cout s @ t\<rparr>)"

definition print_err :: "string \<Rightarrow> (('a, 'k, 'z) echo_server_scheme, unit) prog" where
  "print_err t = modify_st (\<lambda>s. s\<lparr>cerr := cerr s @ t\<rparr>)"

definition print_addr :: "netdb \<Rightarrow> socket_address \<Rightarrow> (('a, 'k, 'z) echo_server_scheme, unit) prog" where
  "print_addr N sa = (\<lambda>s. case print_address N sa of Ok t \<Rightarrow> print_out t s | r \<Rightarrow> (fail_as r, s))"

abbreviation NL :: string where "NL \<equiv> [CHR 0x0A]"

section \<open>AcceptedSocket\<close>

text \<open>The callbacks are programs over the \<open>StreamSocket\<close> that is the member \<open>ss\<close>; its world is the
  server. \<open>self\<close> is the thread that runs, \<open>i\<close> the object.\<close>

definition TIMEOUT :: duration where
  "TIMEOUT = Micros 10000000"

definition as_remove :: "'k system \<Rightarrow> nat \<Rightarrow> nat \<Rightarrow> (('a, 'k) echo_server, unit) prog" where
  "as_remove S self i = addCallback (wakeUp S self) (Some (CbRemoveAccepted i))"

definition resetTimeout :: "'k system \<Rightarrow> nat \<Rightarrow> (('a, 'k) echo_server, unit) prog" where
  "resetTimeout S i = schedule_timer S i TIMEOUT (Some (CbRemove i))"

definition as_connectionClosedCb :: "netdb \<Rightarrow> 'k system \<Rightarrow> nat \<Rightarrow> nat \<Rightarrow> int \<Rightarrow>
    (('a, 'k) echo_server stream_socket, unit) prog" where
  "as_connectionClosedCb N S self i error = seq
     (ss_do (if error \<noteq> 0 then print_err (''Error in accepted connection: '' @ strerror N error @ NL)
        else print_out (''Accepted socket closed'' @ NL)))
     (ss_do (as_remove S self i))"

definition as_members :: "netdb \<Rightarrow> 'k system \<Rightarrow> nat \<Rightarrow> nat \<Rightarrow> (('a, 'k) echo_server stream_socket, unit) prog \<Rightarrow>
    ('a, 'k) echo_server ss_callbacks" where
  "as_members N S self i received = \<lparr>connectionEstablishedCb = None, connectionClosedCb = as_connectionClosedCb N S self i,
     dataReceivedCb = received, allDataSentCb = None\<rparr>"

text \<open>\<open>startSending\<close> never calls \<open>dataReceivedCb\<close>, so the record it is given has none here.\<close>

definition as_dataReceivedCb :: "netdb \<Rightarrow> 'k system \<Rightarrow> nat \<Rightarrow> nat \<Rightarrow> (('a, 'k) echo_server stream_socket, unit) prog" where
  "as_dataReceivedCb N S self i = seq (ss_do (resetTimeout S i))
     (bnd (\<lambda>s. on_input (spliceHead (getUsedSize (ss_input s))) s) (\<lambda>sb.
       seq (on_output (appendStreamBuffer sb))
         (startSending (server_system S) (server_runner S (AsObj i)) (as_members N S self i undef))))"

definition as_callbacks :: "netdb \<Rightarrow> 'k system \<Rightarrow> nat \<Rightarrow> nat \<Rightarrow> ('a, 'k) echo_server ss_callbacks" where
  "as_callbacks N S self i = as_members N S self i (as_dataReceivedCb N S self i)"

text \<open>The destructor: its body, then the members \<open>timeout\<close> and \<open>ss\<close>.\<close>

type_synonym 'k stream_server = "(unit stream_socket, 'k) echo_server"

definition with_world :: "'v \<Rightarrow> 'w stream_socket \<Rightarrow> 'v stream_socket" where
  "with_world w s = \<lparr>ss_fd = ss_fd s, connecting = connecting s, sending = sending s, ss_input = ss_input s,
     ss_output = ss_output s, ss_heap = ss_heap s, ss_world = w\<rparr>"

definition destroy_ss :: "'k system \<Rightarrow> nat \<Rightarrow> unit stream_socket \<Rightarrow> ('k stream_server, unit) prog" where
  "destroy_ss S i a = (\<lambda>s. case ss_destroy (server_system S) (server_runner S (AsObj i)) (with_world s a) of
     (r, t) \<Rightarrow> (r, ss_world t))"

definition as_destroy :: "'k system \<Rightarrow> nat \<Rightarrow> unit stream_socket \<Rightarrow> ('k stream_server, unit) prog" where
  "as_destroy S i a = seq (print_out (''Deleting accepted socket'' @ NL))
     (seq (noexcept (on_tq (timer_destroy i))) (destroy_ss S i a))"

text \<open>The constructor; \<open>h\<close> is the free store of the socket. When it throws, the members are destroyed.\<close>

definition as_create :: "'k system \<Rightarrow> heap \<Rightarrow> nat \<Rightarrow> rawfd \<Rightarrow> ('k stream_server, unit stream_socket) prog" where
  "as_create S h i fd = (\<lambda>s. case ss_adopt (server_system S) (server_runner S (AsObj i)) fd (ss_blank h s) of
       (Ok _, t) \<Rightarrow> (let a = with_world () t in
         on_unwind
           (seq (modify_st (\<lambda>s. s\<lparr>tq := timer_create i (tq s)\<rparr>))
             (seq (print_out (''New accepted socket'' @ NL))
               (seq (on_unwind (resetTimeout S i) (on_tq (timer_destroy i))) (ret a))))
           (destroy_ss S i a) (ss_world t))
     | (r, t) \<Rightarrow> (fail_as r, ss_world t))"

section \<open>Server\<close>

definition newAcceptedSocket :: "'k system \<Rightarrow> heap \<Rightarrow> rawfd \<Rightarrow> ('k stream_server, unit) prog" where
  "newAcceptedSocket S h fd = (\<lambda>s. let i = next_obj s in
     bnd (as_create S h i fd) (\<lambda>a. modify_st (\<lambda>s. s\<lparr>ass := ass s @ [(i, a)]\<rparr>)) (s\<lparr>next_obj := Suc i\<rparr>))"

text \<open>The loop over the list: the object found and the list without it.\<close>

fun find_release :: "nat \<Rightarrow> (nat \<times> 'a) list \<Rightarrow> ('a \<times> (nat \<times> 'a) list) option" where
  "find_release i [] = None"
| "find_release i ((j, a) # xs) = (if j = i then Some (a, xs)
     else map_option (\<lambda>(b, ys). (b, (j, a) # ys)) (find_release i xs))"

definition removeAcceptedSocket :: "'k system \<Rightarrow> nat \<Rightarrow> ('k stream_server, unit) prog" where
  "removeAcceptedSocket S i = (\<lambda>s. case find_release i (ass s) of
       None \<Rightarrow> (Ok (), s)
     | Some (a, rest) \<Rightarrow> as_destroy S i a (s\<lparr>ass := rest\<rparr>))"

section \<open>ListeningSocket\<close>

definition ls_newAcceptedSocketCb :: "netdb \<Rightarrow> 'k system \<Rightarrow> heap \<Rightarrow> rawfd \<Rightarrow> byte list \<Rightarrow>
    ('k stream_server listening_socket, unit) prog" where
  "ls_newAcceptedSocketCb N S h fd sa =
     seq (ls_do (seq (print_out ''New accepted connection from '')
            (seq (print_addr N (filled_with sa)) (print_out NL))))
       (seq (modify_st (\<lambda>l. l\<lparr>ls_accepted := - 1\<rparr>)) (ls_do (newAcceptedSocket S h fd)))"

definition ls_handleExceptionCb :: "(exn \<Rightarrow> string) \<Rightarrow> exn \<Rightarrow> (('a, 'k) echo_server listening_socket, unit) prog" where
  "ls_handleExceptionCb what e = ls_do (print_err (''Error while accepting new connection: '' @ what e @ NL))"

definition ls_callbacks_of :: "netdb \<Rightarrow> (exn \<Rightarrow> string) \<Rightarrow> 'k system \<Rightarrow> heap \<Rightarrow> 'k stream_server ls_callbacks" where
  "ls_callbacks_of N what S h = \<lparr>newAcceptedSocketCb = ls_newAcceptedSocketCb N S h,
     handleExceptionCb = Some (ls_handleExceptionCb what)\<rparr>"

definition address_bytes :: "socket_address \<Rightarrow> byte list" where
  "address_bytes sa = take (unat (SocketAddress.usedSize sa)) (sa_bytes sa)"

definition ListeningSocket_create :: "netdb \<Rightarrow> 'k system \<Rightarrow> nat \<Rightarrow> socket_address \<Rightarrow> ('k stream_server, rawfd) prog" where
  "ListeningSocket_create N S i sa = (\<lambda>s. let R = server_runner S (LsObj i) in
     case ls_listen (server_system S) R 1 0 (getFamily sa, address_bytes sa)
            \<lparr>ls_fd = - 1, ls_accepted = - 1, ls_world = s\<rparr> of
       (Ok _, l) \<Rightarrow> seq
          (on_unwind (seq (print_out ''Listening '') (seq (print_addr N sa) (print_out NL)))
            (\<lambda>s. case ls_destroy (server_system S) R (l\<lparr>ls_world := s\<rparr>) of (r, l) \<Rightarrow> (r, ls_world l)))
          (ret (ls_fd l)) (ls_world l)
     | (r, l) \<Rightarrow> (fail_as r, ls_world l))"

definition newListeningSocket :: "netdb \<Rightarrow> 'k system \<Rightarrow> socket_address \<Rightarrow> ('k stream_server, unit) prog" where
  "newListeningSocket N S sa = (\<lambda>s. let i = next_obj s in
     bnd (ListeningSocket_create N S i sa) (\<lambda>fd. modify_st (\<lambda>s. s\<lparr>lss := lss s @ [(i, fd)]\<rparr>)) (s\<lparr>next_obj := Suc i\<rparr>))"

section \<open>Events, callbacks and the program\<close>

text \<open>\<open>handleEvents\<close> of the objects; the runner calls it only for objects that are listening.\<close>

definition put_socket :: "nat \<Rightarrow> 'k stream_server stream_socket \<Rightarrow> 'k stream_server" where
  "put_socket i t = (ss_world t)\<lparr>ass := map (\<lambda>(j, b). (j, if j = i then with_world () t else b)) (ass (ss_world t))\<rparr>"

definition on_accepted :: "nat \<Rightarrow> ('k stream_server stream_socket, unit) prog \<Rightarrow> ('k stream_server, unit) prog" where
  "on_accepted i m = (\<lambda>s. case map_of (ass s) i of
       None \<Rightarrow> (Undef, s)
     | Some a \<Rightarrow> (case m (with_world s a) of (r, t) \<Rightarrow> (r, put_socket i t)))"

definition on_listening :: "nat \<Rightarrow> (('a, 'k) echo_server listening_socket, unit) prog \<Rightarrow> (('a, 'k) echo_server, unit) prog" where
  "on_listening i m = (\<lambda>s. case map_of (lss s) i of
       None \<Rightarrow> (Undef, s)
     | Some fd \<Rightarrow> (case m \<lparr>ls_fd = fd, ls_accepted = - 1, ls_world = s\<rparr> of (r, l) \<Rightarrow> (r, ls_world l)))"

definition echo_handle :: "nat \<Rightarrow> netdb \<Rightarrow> (exn \<Rightarrow> string) \<Rightarrow> 'k system \<Rightarrow> heap \<Rightarrow> nat \<Rightarrow> echo_obj \<Rightarrow> event_mask \<Rightarrow>
    ('k stream_server, unit) prog" where
  "echo_handle n N what S h self obj ev = (case obj of
       LsObj i \<Rightarrow> on_listening i (ls_handleEventsCb n (server_system S) (ls_callbacks_of N what S h))
     | AsObj i \<Rightarrow> on_accepted i (ss_handleEventsCb (server_system S) (server_runner S obj) (as_callbacks N S self i) ev))"

definition echo_call :: "'k system \<Rightarrow> nat \<Rightarrow> echo_cb \<Rightarrow> ('k stream_server, unit) prog" where
  "echo_call S self cb = (case cb of
       CbRemoveAccepted i \<Rightarrow> removeAcceptedSocket S i
     | CbRemove i \<Rightarrow> as_remove S self i
     | CbSignal sig \<Rightarrow> modify_st (\<lambda>s. if sig = 2 then s\<lparr>doContinue := False\<rparr> else s))"

text \<open>\<open>main\<close>: \<open>lexical_cast\<close> reads the arguments (\<open>None\<close> when it throws), and an exception that leaves
  \<open>main\<close> ends the process.\<close>

definition echo_dispatch :: "nat \<Rightarrow> netdb \<Rightarrow> (exn \<Rightarrow> string) \<Rightarrow> 'k system \<Rightarrow> heap \<Rightarrow> nat \<Rightarrow>
    echo_obj run_listener \<Rightarrow> rawfd \<Rightarrow> event_mask \<Rightarrow> ('k stream_server, unit) prog" where
  "echo_dispatch n N what S h self fl fd ev = (case fl of
       EventPipe \<Rightarrow> (\<lambda>s. read_all n S (readFD s) 32 s)
     | SignalListener \<Rightarrow> signalfd_handle n S (wakeUp S self) CbSignal
     | TimerListener \<Rightarrow> undef
     | User obj \<Rightarrow> echo_handle n N what S h self obj ev)"

fun listen_all :: "(string \<Rightarrow> socket_address option) \<Rightarrow> netdb \<Rightarrow> 'k system \<Rightarrow> string list \<Rightarrow> ('k stream_server, unit) prog" where
  "listen_all lexical_cast N S [] = ret ()"
| "listen_all lexical_cast N S (arg # args) = (case lexical_cast arg of
       None \<Rightarrow> abort
     | Some sa \<Rightarrow> seq (newListeningSocket N S sa) (listen_all lexical_cast N S args))"

fun destroy_accepted :: "'k system \<Rightarrow> (nat \<times> unit stream_socket) list \<Rightarrow> ('k stream_server, unit) prog" where
  "destroy_accepted S [] = ret ()"
| "destroy_accepted S ((i, a) # as) = seq (as_destroy S i a) (destroy_accepted S as)"

fun destroy_listening :: "'k system \<Rightarrow> (nat \<times> rawfd) list \<Rightarrow> (('a, 'k) echo_server, unit) prog" where
  "destroy_listening S [] = ret ()"
| "destroy_listening S ((i, fd) # ls) = seq
     (\<lambda>s. case ls_destroy (server_system S) (server_runner S (LsObj i)) \<lparr>ls_fd = fd, ls_accepted = - 1, ls_world = s\<rparr> of
       (r, l) \<Rightarrow> (r, ls_world l)) (destroy_listening S ls)"

definition server_destroy :: "'k system \<Rightarrow> ('k stream_server, unit) prog" where
  "server_destroy S = (\<lambda>s. seq (destroy_accepted S (ass s)) (seq (modify_st (\<lambda>s. s\<lparr>ass := []\<rparr>))
     (seq (destroy_listening S (lss s)) (modify_st (\<lambda>s. s\<lparr>lss := []\<rparr>)))) s)"

definition echo_main :: "nat \<Rightarrow> (string \<Rightarrow> socket_address option) \<Rightarrow> netdb \<Rightarrow> (exn \<Rightarrow> string) \<Rightarrow> 'k system \<Rightarrow> heap \<Rightarrow> nat \<Rightarrow>
    string list \<Rightarrow> ('k stream_server, int) prog" where
  "echo_main n lexical_cast N what S h self args = noexcept
     (seq (epoll_runner_create S (Some {2}))
       (seq (listen_all lexical_cast N S args)
         (seq (modify_st (\<lambda>s. s\<lparr>runnerThreadId := Some self\<rparr>))
           (seq (scope_exit (runImpl n S (echo_call S self) (echo_dispatch n N what S h self) (get_st doContinue))
                  (\<lambda>s. s\<lparr>runnerThreadId := None\<rparr>))
             (seq (print_out (''Done'' @ NL))
               (seq (server_destroy S) (seq (epoll_runner_destroy S) (ret 0))))))))"

end
