(* ===== verification/EchoServerProps.thy ===== *)
theory EchoServerProps
  imports EchoServer SocketAddressProps "HOL-Library.Sublist"
begin

text \<open>
  What the echo server promises to one peer: every byte it sends is a byte it received, in order, and
  no byte is lost between the two. The proof composes the stream buffers, the sockets and the
  runner; the kernel appears as a contract for one connection.
\<close>

section \<open>One connection\<close>

text \<open>
  \<open>sent\<close> and \<open>recvd\<close> are the bytes the kernel has taken from the descriptor and given to it. Nothing but
  \<open>sendmsg\<close> and \<open>recvmsg\<close> on this descriptor changes them.
\<close>

definition wires :: "('k \<Rightarrow> 'b) \<Rightarrow> ('k \<Rightarrow> 'c) \<Rightarrow> 'k \<Rightarrow> 'b \<times> 'c" where
  "wires sent recvd w = (sent w, recvd w)"

text \<open>The other functions of \<open>System\<close> that a server calls leave a part \<open>f\<close> of the world alone.\<close>

definition leaves :: "('k \<Rightarrow> 'b) \<Rightarrow> 'k system \<Rightarrow> bool" where
  "leaves f S \<longleftrightarrow> unchanged f (sys_getMonotonicClock S) \<and>
     (\<forall>ep op d ev. unchanged f (sys_epollCtl S ep op d ev)) \<and>
     (\<forall>d bs. unchanged f (sys_write S d bs)) \<and>
     (\<forall>d. unchanged f (sys_getSocketError S d)) \<and>
     (\<forall>d. unchanged f (sys_close S d))"

definition connection :: "('k \<Rightarrow> byte list) \<Rightarrow> ('k \<Rightarrow> byte list) \<Rightarrow> rawfd \<Rightarrow> 'k system \<Rightarrow> bool" where
  "connection sent recvd fd S \<longleftrightarrow>
     (\<forall>bs w r w'. sys_sendmsg S fd bs [] w = (r, w') \<longrightarrow> recvd w' = recvd w \<and> (case r of
        Ok n \<Rightarrow> n \<le> int (length bs) \<and> sent w' = sent w @ take (nat n) bs | _ \<Rightarrow> sent w' = sent w)) \<and>
     (\<forall>room w r w'. sys_recvmsg S fd room 0 w = (r, w') \<longrightarrow> sent w' = sent w \<and> (case r of
        Ok (n, bs, c) \<Rightarrow> length bs = nat n \<and> length bs \<le> room \<and> recvd w' = recvd w @ bs
      | _ \<Rightarrow> recvd w' = recvd w)) \<and>
     leaves (wires sent recvd) S"

text \<open>The bytes on both wires and in both buffers balance; \<open>B\<close> bounds the sizes of the buffers.\<close>

definition echo_inv :: "nat \<Rightarrow> ('k \<Rightarrow> byte list) \<Rightarrow> ('k \<Rightarrow> byte list) \<Rightarrow> rawfd \<Rightarrow> ('a, 'k) echo_server stream_socket \<Rightarrow> bool" where
  "echo_inv B sent recvd fd s \<longleftrightarrow> ss_buffers_ok s \<and> free_addrs (ss_output s) = []
     \<and> totalSize (ss_input s) + totalSize (ss_output s) \<le> B \<and> (ss_fd s = fd \<or> ss_fd s < 0)
     \<and> sent (world (ss_world s)) @ ss_out s @ ss_in s = recvd (world (ss_world s))"

lemma echo_inv_mono: "echo_inv B sent recvd fd s \<Longrightarrow> B \<le> C \<Longrightarrow> echo_inv C sent recvd fd s"
  by (simp add: echo_inv_def)

section \<open>What leaves the connection alone\<close>

lemma unchanged_on_world [unchanged_intros]:
  "unchanged f m \<Longrightarrow> unchanged (\<lambda>s. f (world s)) (on_world m)"
  by (simp add: unchanged_def on_world_def zoom_run split_beta)

lemma unchanged_on_cbq [unchanged_intros]: "unchanged (\<lambda>s. f (world s)) (on_cbq m)"
  by (simp add: unchanged_def on_cbq_def zoom_run split_beta)

lemma unchanged_on_tq [unchanged_intros]: "unchanged (\<lambda>s. f (world s)) (on_tq m)"
  by (simp add: unchanged_def on_tq_def zoom_run split_beta)

lemma leaves_unchanged:
  assumes "leaves f S"
  shows "unchanged f (sys_getMonotonicClock S)"
    "unchanged f (sys_epollCtl S ep op d ev)" "unchanged f (sys_write S d bs)"
    "unchanged f (sys_getSocketError S d)" "unchanged f (sys_close S d)"
  using assms by (simp_all add: leaves_def)

lemma connection_leaves: "connection sent recvd fd S \<Longrightarrow> leaves (wires sent recvd) S"
  by (simp add: connection_def)

lemma unchanged_find: "unchanged f (flm_find d)"
  by (simp add: unchanged_def flm_find_def split: option.split)

lemma unchanged_epfd: "unchanged f epfd_int"
  by (simp add: unchanged_def epfd_int_def)

lemma modify_unchanged:
  assumes "leaves f S" shows "unchanged (\<lambda>s. f (world s)) (base_modify S d ev)"
  unfolding base_modify_def flm_modify_def epoll_modify_def
  by (intro unchanged_intros leaves_unchanged [OF assms] unchanged_find unchanged_epfd) simp

lemma del_unchanged:
  assumes "leaves f S" shows "unchanged (\<lambda>s. f (world s)) (delFDListener S d)"
  unfolding delFDListener_def base_del_def flm_del_def epoll_del_def
  by (intro unchanged_intros leaves_unchanged [OF assms] unchanged_find unchanged_epfd)
    (simp_all add: monitor_add_def)

lemma write_unchanged:
  assumes "leaves f S" shows "unchanged (\<lambda>s. f (world s)) (bnd (on_world (sys_write S d bs)) (\<lambda>_. ret ()))"
  by (intro unchanged_intros leaves_unchanged [OF assms])

lemma wakeUp_unchanged:
  assumes "leaves f S" shows "unchanged (\<lambda>s. f (world s)) (wakeUp S self)"
  by (simp add: unchanged_def wakeUp_def unchangedD [OF write_unchanged [OF assms]])

lemma addCallback_unchanged:
  assumes "leaves f S" shows "unchanged (\<lambda>s. f (world s)) (addCallback (wakeUp S self) c)"
  unfolding addCallback_def by (intro unchanged_intros wakeUp_unchanged [OF assms])

lemma schedule_unchanged:
  assumes "leaves f S" shows "unchanged (\<lambda>s. f (world s)) (schedule_timer S i d (Some c))"
  unfolding schedule_timer_def option.case clock_now_def
  by (intro unchanged_intros leaves_unchanged [OF assms])

lemma remove_unchanged: "leaves f S \<Longrightarrow> unchanged (\<lambda>s. f (world s)) (as_remove S self i)"
  unfolding as_remove_def by (rule addCallback_unchanged)

lemma resetTimeout_unchanged: "leaves f S \<Longrightarrow> unchanged (\<lambda>s. f (world s)) (resetTimeout S i)"
  unfolding resetTimeout_def by (rule schedule_unchanged)

section \<open>The members of an accepted socket\<close>

lemma echo_inv_other:
  assumes "echo_inv B sent recvd fd s" and "ss_input t = ss_input s" and "ss_output t = ss_output s"
    and "ss_heap t = ss_heap s" and "ss_fd t = ss_fd s \<or> ss_fd t < 0"
    and "wires sent recvd (world (ss_world t)) = wires sent recvd (world (ss_world s))"
  shows "echo_inv B sent recvd fd t"
  using assms by (auto simp: echo_inv_def ss_buffers_ok_def ss_in_def ss_out_def wires_def)

lemma echo_inv_do:
  fixes m :: "(('a, 'k) echo_server, 'b) prog"
  assumes "unchanged (\<lambda>s. wires sent recvd (world s)) m" shows "preserves (echo_inv B sent recvd fd) (ss_do m)"
  unfolding preserves_def
proof (intro allI impI)
  fix s :: "('a, 'k) echo_server stream_socket" assume "echo_inv B sent recvd fd s"
  then show "echo_inv B sent recvd fd (snd (ss_do m s))"
    by (rule echo_inv_other) (use unchangedD [OF assms, of "ss_world s"] in \<open>simp_all add: ss_do_run split_beta\<close>)
qed

lemma echo_inv_fields [preserves_intros]:
  "preserves (echo_inv B sent recvd fd) (modify_st (\<lambda>s. s\<lparr>sending := b\<rparr>))"
  "preserves (echo_inv B sent recvd fd) (modify_st (\<lambda>s. s\<lparr>connecting := b\<rparr>))"
  "preserves (echo_inv B sent recvd fd) (modify_st (\<lambda>s. s\<lparr>ss_fd := - 1\<rparr>))"
  by (rule preserves_modify, erule echo_inv_other, simp_all)+

lemma echo_inv_with_fd [preserves_intros]:
  "(\<And>d. preserves (echo_inv B sent recvd fd) (f d)) \<Longrightarrow> preserves (echo_inv B sent recvd fd) (with_fd f)"
  by (simp add: preserves_def with_fd_def)

lemma server_system_run:
  "sys_close (server_system S) d = on_world (sys_close S d)"
  "sys_sendmsg (server_system S) d bs c = on_world (sys_sendmsg S d bs c)"
  "sys_recvmsg (server_system S) d n m = on_world (sys_recvmsg S d n m)"
  "sys_getSocketError (server_system S) d = on_world (sys_getSocketError S d)"
  by (simp_all add: server_system_def)

lemma closedCb_preserves:
  assumes "connection sent recvd fd S"
  shows "preserves (echo_inv B sent recvd fd) (as_connectionClosedCb N S self i e)"
  unfolding as_connectionClosedCb_def print_out_def print_err_def
  by (intro preserves_intros echo_inv_do unchanged_if unchanged_modify remove_unchanged [OF connection_leaves [OF assms]]) simp_all

lemma close_preserves:
  assumes "connection sent recvd fd S"
  shows "preserves (echo_inv B sent recvd fd)
    (ss_close (server_system S) (server_runner S obj) (as_members N S self i received) e)"
  unfolding ss_close_def
  by (intro preserves_intros echo_inv_do)
    (simp_all add: server_runner_def as_members_def server_system_run closedCb_preserves [OF assms]
      del_unchanged [OF connection_leaves [OF assms]] unchanged_on_world leaves_unchanged [OF connection_leaves [OF assms]])

lemma on_error_preserves:
  assumes "connection sent recvd fd S"
    and "close_on_error (server_system S) (server_runner S obj) (as_members N S self i received) e = Some k"
  shows "preserves (echo_inv B sent recvd fd) k"
  using assms(2) close_preserves [OF assms(1)] by (auto simp: close_on_error_def split: exn.splits)

lemma after_send_preserves:
  assumes "connection sent recvd fd S"
  shows "preserves (echo_inv B sent recvd fd)
    (ss_after_send (server_runner S obj) (as_members N S self i received) d left)"
proof -
  have "preserves (echo_inv B sent recvd fd) (ss_do (ri_modifyFDListener (server_runner S obj) d ev))" for ev
    by (rule echo_inv_do) (simp add: server_runner_def modify_unchanged [OF connection_leaves [OF assms]])
  then show ?thesis unfolding ss_after_send_def as_members_def
    by (simp; intro preserves_intros conjI impI)
qed

section \<open>Sending\<close>

lemma sent_all:
  assumes "connection sent recvd fd S" and "sys_sendmsg (server_system S) fd bs [] s = (r, t)"
  shows "recvd (world t) = recvd (world s) \<and> (case r of
      Ok n \<Rightarrow> n \<le> int (length bs) \<and> sent (world t) = sent (world s) @ take (nat n) bs
    | _ \<Rightarrow> sent (world t) = sent (world s))"
proof -
  obtain r' w where w: "sys_sendmsg S fd bs [] (world s) = (r', w)" by (metis surj_pair)
  then have "r' = r" "world t = w" using assms(2) by (auto simp: server_system_run on_world_def zoom_run)
  then show ?thesis using assms(1) w by (simp add: connection_def)
qed

lemma send_preserves:
  fixes S :: "'k system"
  assumes con: "connection sent recvd fd S"
  shows "preserves (echo_inv B sent recvd fd)
    (ss_send (server_system S) (server_runner S obj) (as_members N S self i received))"
    (is "preserves ?I ?send")
  unfolding preserves_def
proof (intro allI impI)
  fix s :: "('a, 'k) echo_server stream_socket" assume I: "?I s"
  then have inv: "sb_inv (ss_heap s) (ss_output s)" by (simp add: echo_inv_def ss_buffers_ok_def)
  show "?I (snd (?send s))"
  proof (cases "ss_fd s < 0")
    case True
    obtain v b where v: "getUsedIOVec (ss_output s, ss_heap s) = (Ok v, (b, ss_heap s))"
      "buffers b = buffers (ss_output s)" "StreamBuffer.usedSize b = StreamBuffer.usedSize (ss_output s)"
      "totalSize b = totalSize (ss_output s)"
      by (cases rule: getUsedIOVec_cases [OF inv]) blast
    have "snd (?send s) = s\<lparr>ss_output := b\<rparr>"
      using True v(1) by (simp add: ss_send_def bnd_run on_output_def zoom_run with_fd_def)
    moreover have "sb_inv (ss_heap s) b" by (rule sb_inv_other_fields [OF inv v(2-4)])
    moreover have "used_addrs b = used_addrs (ss_output s)" "free_addrs b = free_addrs (ss_output s)"
      using v by (simp_all add: used_addrs_def free_addrs_def)
    ultimately show ?thesis using I v
      by (simp add: echo_inv_def ss_buffers_ok_def ss_out_def ss_in_def content_def)
  next
    case False
    then have fd: "0 \<le> ss_fd s" "ss_fd s = fd" using I by (auto simp: echo_inv_def)
    have bound: "n \<le> int (length bs)" if "sys_sendmsg (server_system S) (ss_fd s) bs [] (ss_world s) = (Ok n, w)" for bs n w
      using sent_all [OF con] that fd(2) by fastforce
    show ?thesis
    proof (cases rule: ss_send_cases [where S = "server_system S" and R = "server_runner S obj"
          and C = "as_members N S self i received", OF inv fd(1) bound])
      case A: (2 m b r w)
      have "wires sent recvd (world w) = wires sent recvd (world (ss_world s))"
        using sent_all [OF con A(1) [unfolded fd(2)]] A(2) by (cases r) (auto simp: wires_def)
      then show ?thesis using A I
        by (auto simp: echo_inv_def ss_buffers_ok_def out_is_def ss_out_def ss_in_def wires_def)
    next
      case A: (3 m b n w)
      have w: "recvd (world w) = recvd (world (ss_world s))"
        "sent (world w) = sent (world (ss_world s)) @ take (nat n) (ss_out s)"
        using sent_all [OF con A(1) [unfolded fd(2)]] A(2) by (auto simp: min_def split: if_splits)
      let ?t = "s\<lparr>ss_output := b, ss_world := w\<rparr>"
      have "?I ?t" using A(3) w I
        by (auto simp: echo_inv_def ss_buffers_ok_def out_is_def ss_out_def ss_in_def take_drop_append)
      then show ?thesis unfolding A(4) by (rule preservesD [OF after_send_preserves [OF con]])
    qed simp
  qed
qed

lemma startSending_preserves:
  assumes "connection sent recvd fd S"
  shows "preserves (echo_inv B sent recvd fd)
    (startSending (server_system S) (server_runner S obj) (as_members N S self i received))"
  unfolding startSending_def trySend_def
  by (intro preserves_intros send_preserves [OF assms] on_error_preserves [OF assms])

section \<open>Echoing\<close>

text \<open>All input becomes output: the two calls on the buffers cannot fail.\<close>

lemma move_input:
  fixes s :: "('a, 'k) echo_server stream_socket"
  assumes I: "echo_inv B sent recvd fd s" and B: "B < size_t_max"
  obtains t where "\<And>k :: (('a, 'k) echo_server stream_socket, unit) prog. bnd (on_input (spliceHead (getUsedSize (ss_input s)))) (\<lambda>sb. seq (on_output (appendStreamBuffer sb)) k) s = k t"
    "echo_inv B sent recvd fd t" "ss_in t = []" "ss_out t = ss_out s @ ss_in s" "ss_fd t = ss_fd s"
    "sending t = sending s" "connecting t = connecting s" "ss_world t = ss_world s"
proof -
  let ?h = "ss_heap s" and ?n = "StreamBuffer.usedSize (ss_input s)"
  have inv: "sb_inv ?h (ss_input s)" "sb_inv ?h (ss_output s)" using I by (simp_all add: echo_inv_def ss_buffers_ok_def)
  have n: "?n \<le> totalSize (ss_input s)" "length (used_addrs (ss_input s)) = ?n"
    using inv(1) by (simp_all add: sb_inv_def sb_sizes_def length_used_addrs)
  from spliceHead_spec [OF inv(1) n(1)] obtain front rest where sp:
    "spliceHead ?n (ss_input s, ?h) = (Ok front, (rest, ?h))" "sb_inv ?h front" "sb_inv ?h rest"
    "used_addrs front = used_addrs (ss_input s)" "used_addrs rest = []" "free_addrs rest = free_addrs (ss_input s)"
    "totalSize front = ?n" "totalSize rest = totalSize (ss_input s) - ?n"
    using n(2) by (metis (no_types, lifting) diff_self_eq_0 drop0 drop_all order_refl take_all)
  have used: "StreamBuffer.usedSize front = ?n"
    using sp(2,4) n(2) by (metis length_used_addrs sb_inv_def)
  have room: "totalSize (ss_output s) + StreamBuffer.usedSize front < size_t_max"
    using I B n(1) used by (simp add: echo_inv_def)
  have apart: "set (used_addrs front) \<inter> set (free_addrs (ss_output s)) = {}" using I by (simp add: echo_inv_def)
  from appendStreamBuffer_spec [OF inv(2) sp(2) room apart] obtain out where ap:
    "appendStreamBuffer front (ss_output s, ?h) = (Ok (), (out, ?h))" "sb_inv ?h out"
    "used_addrs out = used_addrs (ss_output s) @ used_addrs front" "free_addrs out = free_addrs (ss_output s)"
    "totalSize out = totalSize (ss_output s) + ?n" unfolding used by metis
  let ?t = "s\<lparr>ss_input := rest, ss_output := out\<rparr>"
  have "bnd (on_input (spliceHead (getUsedSize (ss_input s)))) (\<lambda>sb. seq (on_output (appendStreamBuffer sb)) k) s = k ?t"
    for k :: "(('a, 'k) echo_server stream_socket, unit) prog"
    using sp(1) ap(1) by (simp add: bnd_run seq_run on_input_def on_output_def zoom_run getUsedSize_def)
  moreover have "ss_in ?t = []" "ss_out ?t = ss_out s @ ss_in s"
    using sp(4,5) ap(3) by (simp_all add: ss_in_def ss_out_def content_def)
  moreover have "set (free_addrs rest) \<inter> set (used_addrs out) = {}"
    using I inv(1) sp(4,6) ap(3) by (auto simp: echo_inv_def ss_buffers_ok_def sb_inv_def)
  then have "echo_inv B sent recvd fd ?t"
    using calculation(2,3) I sp(3,8) ap(2,4,5) n(1) by (simp add: echo_inv_def ss_buffers_ok_def)
  ultimately show ?thesis by (intro that [of ?t]) simp_all
qed

lemma dataReceived_preserves:
  fixes S :: "'k system"
  assumes con: "connection sent recvd fd S" and B: "B < size_t_max"
  shows "preserves (echo_inv B sent recvd fd)
    (as_dataReceivedCb N S self i :: (('a, 'k) echo_server stream_socket, unit) prog)"
proof -
  let ?I = "echo_inv B sent recvd fd"
  let ?go = "startSending (server_system S) (server_runner S (AsObj i)) (as_members N S self i undef)
    :: (('a, 'k) echo_server stream_socket, unit) prog"
  have "preserves ?I (bnd (\<lambda>s. on_input (spliceHead (getUsedSize (ss_input s))) s) (\<lambda>sb. seq (on_output (appendStreamBuffer sb)) ?go))"
    unfolding preserves_def
  proof (intro allI impI)
    fix s :: "('a, 'k) echo_server stream_socket" assume I: "?I s"
    show "?I (snd (bnd (\<lambda>s. on_input (spliceHead (getUsedSize (ss_input s))) s) (\<lambda>sb. seq (on_output (appendStreamBuffer sb)) ?go) s))"
    proof (rule move_input [OF I B], goal_cases)
      case (1 t)
      have "bnd (\<lambda>s. on_input (spliceHead (getUsedSize (ss_input s))) s) (\<lambda>sb. seq (on_output (appendStreamBuffer sb)) ?go) s = ?go t"
        using 1(1) [of ?go] by (simp add: bnd_def)
      then show ?case using preservesD [OF startSending_preserves [OF con] 1(2)] by simp
    qed
  qed
  then show ?thesis unfolding as_dataReceivedCb_def
    by (intro preserves_seq echo_inv_do resetTimeout_unchanged [OF connection_leaves [OF con]])
qed

section \<open>Receiving\<close>

text \<open>The kernel fills the start of the free space, as many bytes as it delivers.\<close>

lemma received:
  assumes ok: "ss_buffers_ok s" and v: "iov_addrs v = take m (free_addrs (ss_input s))"
    "buffers b = buffers (ss_input s)" "StreamBuffer.usedSize b = StreamBuffer.usedSize (ss_input s)"
    "totalSize b = totalSize (ss_input s)" and n: "length bs \<le> length (iov_addrs v)"
  defines "h \<equiv> scatter v bs (ss_heap s)" and "b' \<equiv> b\<lparr>StreamBuffer.usedSize := StreamBuffer.usedSize b + length bs\<rparr>"
  shows "increaseUsed (length bs) (b, h) = (Ok (), (b', h))"
    and "ss_buffers_ok (s\<lparr>ss_input := b', ss_heap := h\<rparr>)"
    and "content h b' = ss_in s @ bs" and "content h (ss_output s) = ss_out s"
proof -
  let ?h = "ss_heap s" and ?as = "take (length bs) (free_addrs (ss_input s))"
  have inv: "sb_inv ?h (ss_input s)" "sb_inv ?h (ss_output s)" using ok by (simp_all add: ss_buffers_ok_def)
  have le: "length bs \<le> length (free_addrs (ss_input s))" "length bs \<le> m" using n v(1) by simp_all
  have split: "iov_addrs v = ?as @ drop (length bs) (iov_addrs v)"
    using v(1) le(2) by (metis append_take_drop_id min_absorb1 take_take)
  have h: "h = ?h\<lparr>mem := write_at (mem ?h) ?as bs\<rparr>"
    using write_at_append [of ?as bs "mem ?h" "drop (length bs) (iov_addrs v)" "[]"] le(1) split
    by (simp add: h_def scatter_def)
  have same: "used_addrs b = used_addrs (ss_input s)" "free_addrs b = free_addrs (ss_input s)"
    by (simp_all add: used_addrs_def free_addrs_def v)
  have keep: "sb_inv h c" if "sb_inv ?h c" for c using that by (simp add: h sb_inv_def buf_valid_def)
  have "length bs \<le> length (free_addrs b)" using le(1) same by simp
  note inc = increaseUsed_ok [OF keep [OF sb_inv_other_fields [OF inv(1) v(2-4)]] this, folded b'_def]
  show "increaseUsed (length bs) (b, h) = (Ok (), (b', h))" by (rule inc(1))
  have sep: "set (used_addrs (ss_input s)) \<inter> set ?as = {}" "distinct ?as" "length ?as = length bs"
    "set (used_addrs (ss_output s)) \<inter> set ?as = {}"
    using inv ok set_take_subset [of "length bs" "free_addrs (ss_input s)"] le(1)
    by (auto simp: sb_inv_def ss_buffers_ok_def)
  show "content h b' = ss_in s @ bs"
    unfolding ss_in_def content_def inc(2) same
    by (simp add: h write_at_disjoint [OF sep(1)] write_at_same [OF sep(2,3)])
  show "content h (ss_output s) = ss_out s"
    unfolding ss_out_def content_def by (simp add: h write_at_disjoint [OF sep(4)])
  have "set (free_addrs b') \<subseteq> set (free_addrs (ss_input s))" using inc(3) same by (auto dest: in_set_dropD)
  then show "ss_buffers_ok (s\<lparr>ss_input := b', ss_heap := h\<rparr>)"
    using inc(4) keep [OF inv(2)] ok by (auto simp: ss_buffers_ok_def)
qed

lemma got:
  assumes "connection sent recvd fd S" and "sys_recvmsg (server_system S) fd room 0 s = (r, t)"
  shows "sent (world t) = sent (world s) \<and> (case r of
      Ok (n, bs, c) \<Rightarrow> length bs = nat n \<and> length bs \<le> room \<and> recvd (world t) = recvd (world s) @ bs
    | _ \<Rightarrow> recvd (world t) = recvd (world s))"
proof -
  obtain r' w where w: "sys_recvmsg S fd room 0 (world s) = (r', w)" by (metis surj_pair)
  then have "r' = r" "world t = w" using assms(2) by (auto simp: server_system_run on_world_def zoom_run)
  then show ?thesis using assms(1) w by (auto simp: connection_def)
qed

lemma receive_preserves:
  fixes S :: "'k system"
  assumes con: "connection sent recvd fd S" and B: "B < size_t_max"
  shows "preserves (echo_inv B sent recvd fd)
    (ss_receive (server_system S) (server_runner S (AsObj i)) (as_callbacks N S self i))"
    (is "preserves ?I ?rcv")
  unfolding preserves_def
proof (intro allI impI)
  fix s :: "('a, 'k) echo_server stream_socket" assume I: "?I s"
  let ?C = "as_callbacks N S self i" and ?S = "server_system S" and ?R = "server_runner S (AsObj i)"
  have ok: "ss_buffers_ok s" using I by (simp add: echo_inv_def)
  then have inv: "sb_inv (ss_heap s) (ss_input s)" by (simp add: ss_buffers_ok_def)
  obtain v m b where v: "getFreeIOVec (ss_input s, ss_heap s) = (Ok v, (b, ss_heap s))"
    "iov_addrs v = take m (free_addrs (ss_input s))" "buffers b = buffers (ss_input s)"
    "StreamBuffer.usedSize b = StreamBuffer.usedSize (ss_input s)" "totalSize b = totalSize (ss_input s)"
    by (cases rule: getFreeIOVec_cases [OF inv]) blast
  have first: "on_input getFreeIOVec s = (Ok v, s\<lparr>ss_input := b\<rparr>)"
    using v(1) by (simp add: on_input_def zoom_run)
  have same: "used_addrs b = used_addrs (ss_input s)" "free_addrs b = free_addrs (ss_input s)"
    by (simp_all add: used_addrs_def free_addrs_def v(3,4))
  have I1: "?I (s\<lparr>ss_input := b, ss_world := w\<rparr>)" if "wires sent recvd (world w) = wires sent recvd (world (ss_world s))" for w
    using that I sb_inv_other_fields [OF inv v(3-5)] v(5) same
    by (simp add: echo_inv_def ss_buffers_ok_def ss_in_def ss_out_def content_def wires_def)
  show "?I (snd (?rcv s))"
  proof (cases "ss_fd s < 0")
    case True
    then have "snd (?rcv s) = s\<lparr>ss_input := b, ss_world := ss_world s\<rparr>"
      unfolding ss_receive_def bnd_Ok [where m = "on_input getFreeIOVec", OF first] by (simp add: bnd_run with_fd_def)
    then show ?thesis using I1 [of "ss_world s"] by simp
  next
    case False
    then have fd: "ss_fd s = fd" "\<not> fd < 0" using I by (auto simp: echo_inv_def)
    obtain r w where rcv: "sys_recvmsg ?S fd (length (iov_addrs v)) 0 (ss_world s) = (r, w)" by (metis surj_pair)
    note g = got [OF con rcv]
    show ?thesis
    proof (cases "\<exists>n bs c. r = Ok (n, bs, c)")
      case False
      then have "snd (?rcv s) = s\<lparr>ss_input := b, ss_world := w\<rparr>"
        unfolding ss_receive_def bnd_Ok [where m = "on_input getFreeIOVec", OF first]
        using fd rcv False by (cases r) (auto simp: bnd_run with_fd_def ss_do_run)
      then show ?thesis using I1 [of w] False g by (cases r) (auto simp: wires_def)
    next
      case True
      then obtain n bs c where r: "r = Ok (n, bs, c)" by blast
      have bs: "length bs = nat n" "length bs \<le> length (iov_addrs v)" using g r by simp_all
      let ?h = "scatter v bs (ss_heap s)" and ?b = "b\<lparr>StreamBuffer.usedSize := StreamBuffer.usedSize b + length bs\<rparr>"
      let ?t = "s\<lparr>ss_world := w, ss_input := ?b, ss_heap := ?h\<rparr>"
      note rec = received [OF ok v(2-5) bs(2)]
      have It: "?I ?t"
        using rec(2-4) I g r v(5) by (simp add: echo_inv_def ss_in_def ss_out_def ss_buffers_ok_def)
      have "?rcv s = (if n = 0 then ss_close ?S ?R ?C 0
          else if n > 0 then seq (on_input (increaseUsed (nat n))) (dataReceivedCb ?C) else ret ())
            (s\<lparr>ss_input := b, ss_world := w, ss_heap := ?h\<rparr>)"
        unfolding ss_receive_def bnd_Ok [where m = "on_input getFreeIOVec", OF first]
        using fd rcv r by (simp add: bnd_run seq_run with_fd_def ss_do_run)
      moreover have "on_input (increaseUsed (nat n)) (s\<lparr>ss_input := b, ss_world := w, ss_heap := ?h\<rparr>) = (Ok (), ?t)"
        using rec(1) bs(1) by (simp add: on_input_def zoom_run)
      moreover have "s\<lparr>ss_input := b, ss_world := w, ss_heap := ?h\<rparr> = ?t" if "n \<le> 0" using that bs(1) by simp
      ultimately have run: "?rcv s = (if n = 0 then ss_close ?S ?R ?C 0 else if n > 0 then dataReceivedCb ?C else ret ()) ?t"
        by (auto simp: seq_run)
      have "preserves ?I (if n = 0 then ss_close ?S ?R ?C 0 else if n > 0 then dataReceivedCb ?C else ret ())"
        using close_preserves [OF con] dataReceived_preserves [OF con B]
        by (intro preserves_intros) (simp_all add: as_callbacks_def as_members_def)
      from preservesD [where I = ?I, OF this It] show ?thesis unfolding run .
    qed
  qed
qed

text \<open>A readable event may allocate a buffer.\<close>

lemma incoming_inv:
  assumes con: "connection sent recvd fd S" and I: "echo_inv B sent recvd fd s" and B: "B + 20488 \<le> size_t_max"
  shows "echo_inv (B + 20487) sent recvd fd
    (snd (checkIncomingData (server_system S) (server_runner S (AsObj i)) (as_callbacks N S self i) ev s))"
    (is "?J (snd (?check s))")
proof (cases "has_event ev EVENT_IN")
  case False
  then show ?thesis using echo_inv_mono [OF I, of "B + 20487"] by (simp add: checkIncomingData_def try_catch_run)
next
  case True
  let ?S = "server_system S" and ?R = "server_runner S (AsObj i)" and ?C = "as_callbacks N S self i"
  have ok: "ss_buffers_ok s" "totalSize (ss_input s) + 20488 \<le> size_t_max" using I B by (simp_all add: echo_inv_def)
  have J: "?J s" by (rule echo_inv_mono [OF I]) simp
  have handler: "preserves ?J k" if "close_on_error ?S ?R ?C e = Some k" for e k
    using on_error_preserves [OF con] that unfolding as_callbacks_def .
  have "B + 20487 < size_t_max" using B by simp
  note rcv = receive_preserves [OF con this, of i N self]
  show ?thesis
  proof (cases rule: allocateReceiveBuffer_cases [OF ok])
    case A: (1 b h)
    let ?s = "s\<lparr>ss_input := b, ss_heap := h\<rparr>"
    have "?J ?s" using A I by (simp add: echo_inv_def ss_in_def ss_out_def)
    moreover have "?check s = try_catch (ss_receive ?S ?R ?C) (close_on_error ?S ?R ?C) ?s"
      using A(1) True by (simp add: checkIncomingData_run try_catch_run seq_run)
    moreover have "preserves ?J (try_catch (ss_receive ?S ?R ?C) (close_on_error ?S ?R ?C))"
      by (rule preserves_try [OF rcv handler])
    ultimately show ?thesis using preservesD by metis
  next
    case 2
    then have "?check s = ss_close ?S ?R ?C ENOMEM s"
      using True by (simp add: checkIncomingData_run try_catch_run seq_run close_on_error_def)
    then show ?thesis
      using preservesD [OF close_preserves [OF con] J] by (simp add: as_callbacks_def)
  qed
qed

lemma established_preserves:
  assumes con: "connection sent recvd fd S"
  shows "preserves (echo_inv B sent recvd fd)
    (checkConnectionEstablished (server_runner S (AsObj i)) (as_callbacks N S self i) ev)"
  unfolding checkConnectionEstablished_def as_callbacks_def as_members_def ss_callbacks.simps option.case
    server_runner_def runner_iface.simps
  by (intro preserves_when preserves_seq echo_inv_fields preserves_ret echo_inv_with_fd echo_inv_do
      modify_unchanged [OF connection_leaves [OF con]])

lemma rest_preserves:
  assumes con: "connection sent recvd fd S"
  shows "preserves (echo_inv B sent recvd fd)
    (seq (checkOutgoingData (server_system S) (server_runner S (AsObj i)) (as_callbacks N S self i) ev)
      (checkConnectionClosed (server_system S) (server_runner S (AsObj i)) (as_callbacks N S self i) ev))"
  unfolding checkOutgoingData_def checkConnectionClosed_def trySend_def as_callbacks_def server_system_run
  by (intro preserves_seq preserves_if preserves_when preserves_bnd preserves_ret echo_inv_with_fd close_preserves [OF con]
      preserves_try send_preserves [OF con] on_error_preserves [OF con] echo_inv_do unchanged_on_world
      leaves_unchanged [OF connection_leaves [OF con]])

lemma event_inv:
  assumes con: "connection sent recvd fd S" and I: "echo_inv B sent recvd fd s" and B: "B + 20488 \<le> size_t_max"
  shows "echo_inv (B + 20487) sent recvd fd
    (snd (ss_handleEventsCb (server_system S) (server_runner S (AsObj i)) (as_callbacks N S self i) ev s))"
proof -
  let ?S = "server_system S" and ?R = "server_runner S (AsObj i)" and ?C = "as_callbacks N S self i"
  let ?J = "echo_inv (B + 20487) sent recvd fd"
  let ?est = "checkConnectionEstablished ?R ?C ev"
  let ?rest = "seq (checkOutgoingData ?S ?R ?C ev) (checkConnectionClosed ?S ?R ?C ev)"
  note est = established_preserves [OF con, of B i N self ev] and rest = rest_preserves [OF con, of "B + 20487" i N self ev]
  obtain r t where est_run: "?est s = (r, t)" by (cases "?est s")
  have It: "echo_inv B sent recvd fd t" using preservesD [OF est I] est_run by simp
  obtain r' u where inc: "checkIncomingData ?S ?R ?C ev t = (r', u)" by (metis surj_pair)
  have Ju: "?J u" using incoming_inv [OF con It B, of i N self ev] inc by simp
  have "?J (snd (?rest u))" by (rule preservesD [OF rest Ju])
  moreover have "?J t" by (rule echo_inv_mono [OF It]) simp
  ultimately show ?thesis using est_run inc Ju
    by (simp add: ss_handleEventsCb_def seq_run split: outcome.split)
qed

section \<open>Histories\<close>

text \<open>The events of the socket, and anything else that happens in the server in between: other
  connections, callbacks, timers.\<close>

datatype ('a, 'k) echo_event = SocketEvents event_mask | Elsewhere "('a, 'k) echo_server \<Rightarrow> ('a, 'k) echo_server"

fun echo_history :: "netdb \<Rightarrow> 'k system \<Rightarrow> nat \<Rightarrow> nat \<Rightarrow> ('a, 'k) echo_event list \<Rightarrow>
    ('a, 'k) echo_server stream_socket \<Rightarrow> ('a, 'k) echo_server stream_socket" where
  "echo_history N S self i [] s = s"
| "echo_history N S self i (SocketEvents ev # es) s = echo_history N S self i es
     (snd (ss_handleEventsCb (server_system S) (server_runner S (AsObj i)) (as_callbacks N S self i) ev s))"
| "echo_history N S self i (Elsewhere f # es) s = echo_history N S self i es (s\<lparr>ss_world := f (ss_world s)\<rparr>)"

lemma history_inv:
  assumes "connection sent recvd fd S"
    and "\<And>f w. Elsewhere f \<in> set es \<Longrightarrow> wires sent recvd (world (f w)) = wires sent recvd (world w)"
    and "echo_inv B sent recvd fd s" and "B + 20488 * length es \<le> size_t_max"
  shows "\<exists>C. echo_inv C sent recvd fd (echo_history N S self i es s)"
  using assms(2-)
proof (induction es arbitrary: B s)
  case (Cons e es)
  show ?case
  proof (cases e)
    case (SocketEvents ev)
    have "echo_inv (B + 20487) sent recvd fd
      (snd (ss_handleEventsCb (server_system S) (server_runner S (AsObj i)) (as_callbacks N S self i) ev s))"
      by (rule event_inv [OF assms(1) Cons.prems(2)]) (use Cons.prems(3) in simp)
    from Cons.IH [OF _ this] show ?thesis using Cons.prems SocketEvents by simp
  next
    case (Elsewhere f)
    have "echo_inv B sent recvd fd (s\<lparr>ss_world := f (ss_world s)\<rparr>)"
      by (rule echo_inv_other [OF Cons.prems(2)]) (use Cons.prems(1) Elsewhere in simp_all)
    from Cons.IH [OF _ this] show ?thesis using Cons.prems Elsewhere by simp
  qed
qed auto

lemma fresh_inv:
  assumes "sent (world w) = []" and "recvd (world w) = []"
  shows "echo_inv 0 sent recvd fd ((ss_blank h w)\<lparr>ss_fd := fd\<rparr>)"
  using assms by (simp add: echo_inv_def ss_buffers_ok_def ss_blank_def sb_empty_inv ss_in_def ss_out_def)
    (simp add: sb_empty_def content_def used_addrs_def free_addrs_def)

section \<open>Properties\<close>

text \<open>
  C39: the echo server gives every peer its own bytes back, in order. From a fresh connection, after
  any events on its socket with whatever the kernel delivers and accepts, failing calls and closing
  included, and with anything that does not touch this connection in between, the bytes sent, the
  bytes waiting in the output and those waiting in the input are together exactly the bytes
  received; so what the peer gets is a prefix of what it sent.
\<close>

theorem echo_in_order:
  assumes "connection sent recvd fd S"
    and "\<And>f w. Elsewhere f \<in> set es \<Longrightarrow> wires sent recvd (world (f w)) = wires sent recvd (world w)"
    and "sent (world w) = []" and "recvd (world w) = []" and "20488 * length es \<le> size_t_max"
    and t: "t = echo_history N S self i es ((ss_blank h w)\<lparr>ss_fd := fd\<rparr>)"
  shows "sent (world (ss_world t)) @ ss_out t @ ss_in t = recvd (world (ss_world t))
    \<and> prefix (sent (world (ss_world t))) (recvd (world (ss_world t)))"
proof -
  have "\<exists>C. echo_inv C sent recvd fd t"
    unfolding t
    by (rule history_inv [where B = 0 and sent = sent and recvd = recvd, OF assms(1)], erule assms(2),
        rule fresh_inv) (use assms(3-5) in simp_all)
  then have "sent (world (ss_world t)) @ ss_out t @ ss_in t = recvd (world (ss_world t))"
    by (auto simp: echo_inv_def)
  then show ?thesis by (metis prefixI)
qed

text \<open>A kernel with one connection: the bytes that are still to come, the bytes sent and the bytes received;
  it takes at most three bytes at a time.\<close>

definition one_peer :: "(byte list \<times> byte list \<times> byte list) system" where
  "one_peer = idle_system\<lparr>
     sys_recvmsg := (\<lambda>fd room c (todo, s, r). if todo = [] then (Ok (- 1, [], []), (todo, s, r))
       else (Ok (int (length (take room todo)), take room todo, []), (drop room todo, s, r @ take room todo))),
     sys_sendmsg := (\<lambda>fd bs c (todo, s, r). (Ok (min 3 (int (length bs))), (todo, s @ take 3 bs, r)))\<rparr>"

lemma idle_leaves: "leaves f idle_system"
  unfolding leaves_def
proof (intro conjI allI)
  fix a c d and b :: ctl_op and bs
  show "unchanged f (sys_getMonotonicClock idle_system)" "unchanged f (sys_epollCtl idle_system a b c d)"
    "unchanged f (sys_write idle_system a bs)" "unchanged f (sys_getSocketError idle_system a)"
    "unchanged f (sys_close idle_system a)"
    by (cases b; simp add: unchanged_def idle_system_def the_system_def idle_kernel_def bnd_run getMonotonicClock_def
        epollCtl_def sys_write_impl_def getSocketError_def sys_close_impl_def throw_nonzero_def throw_negative_def
        throw_unless_def)+
qed

lemma one_peer_connection: "connection (\<lambda>(_, s, _). s) (\<lambda>(_, _, r). r) 7 one_peer"
proof -
  have "sys_getMonotonicClock one_peer = sys_getMonotonicClock idle_system" "sys_epollCtl one_peer = sys_epollCtl idle_system"
    "sys_write one_peer = sys_write idle_system" "sys_getSocketError one_peer = sys_getSocketError idle_system"
    "sys_close one_peer = sys_close idle_system"
    by (simp_all add: one_peer_def)
  then have "leaves f one_peer" for f :: "_ \<Rightarrow> 'b" using idle_leaves [of f] by (simp add: leaves_def)
  then show ?thesis
    by (auto simp: connection_def one_peer_def min_def split: if_splits)
qed

definition peer_server :: "(unit, byte list \<times> byte list \<times> byte list) echo_server" where
  "peer_server = \<lparr>listeners = Map.empty, epfd = 3, addCount = 0, eventArray = [], world = ([1, 2, 3, 4, 5], [], []),
     monitoring = False, deletedFds = {}, cbq = cbq_empty, tq = timer_create 0 tq_empty, runnerThreadId = Some 1,
     readFD = 4, writeFD = 5, the_signalFD = None, lss = [], ass = [], next_obj = 1, cout = [], cerr = [],
     doContinue = True\<rparr>"

theorem echo_in_order_witness:
  "prefix (fst (snd (world (ss_world (echo_history loopback_netdb one_peer 1 0
       [SocketEvents EVENT_IN, Elsewhere (\<lambda>w. w\<lparr>cout := []\<rparr>), SocketEvents EVENT_OUT]
       ((ss_blank heap0 peer_server)\<lparr>ss_fd := 7\<rparr>))))))
     (snd (snd (world (ss_world (echo_history loopback_netdb one_peer 1 0
       [SocketEvents EVENT_IN, Elsewhere (\<lambda>w. w\<lparr>cout := []\<rparr>), SocketEvents EVENT_OUT]
       ((ss_blank heap0 peer_server)\<lparr>ss_fd := 7\<rparr>))))))"
  using echo_in_order [OF one_peer_connection, of "[SocketEvents EVENT_IN, Elsewhere (\<lambda>w. w\<lparr>cout := []\<rparr>), SocketEvents EVENT_OUT]"
      peer_server _ loopback_netdb 1 0 heap0]
  by (auto simp: wires_def peer_server_def size_t_max_def split_beta)

section \<open>Removing a connection\<close>

definition closing_contract :: "'k system \<Rightarrow> ('k \<Rightarrow> rawfd list) \<Rightarrow> bool" where
  "closing_contract S closed \<longleftrightarrow>
     (\<forall>ep fd w. \<exists>w'. sys_epollCtl S ep CtlDel fd 0 w = (Ok (), w') \<and> closed w' = closed w) \<and>
     (\<forall>fd w. \<exists>w'. sys_close S fd w = (Ok (), w') \<and> closed w' = fd # closed w)"

lemma find_release_Some:
  "distinct (map fst xs) \<Longrightarrow> map_of xs i = Some a \<Longrightarrow> find_release i xs = Some (a, filter (\<lambda>x. fst x \<noteq> i) xs)"
proof (induction xs)
  case (Cons x xs)
  then show ?case
    by (cases x) (force simp: filter_id_conv intro: filter_True [symmetric] split: if_splits)
qed simp

lemma find_release_None: "i \<notin> set (map fst xs) \<Longrightarrow> find_release i xs = None"
  by (induction xs) auto

lemma timer_destroy_spec:
  assumes "tq_inv q" and "timers q t = Some tm"
  obtains q' where "timer_destroy t q = (Ok (), q')" "entries q' = filter (\<lambda>e. owner e \<noteq> t) (entries q)"
    "timers q' = (timers q)(t := None)"
proof (rule timer_cancel_spec [OF assms], goal_cases)
  case (1 q')
  then show ?thesis
    by (intro that [of "q'\<lparr>timers := (timers q')(t := None)\<rparr>"]) (simp_all add: timer_destroy_def seq_run)
qed

lemma delFDListener_spec:
  assumes "closing_contract S closed" and "listeners s fd = Some l" and "0 \<le> epfd s"
  obtains w where "delFDListener S fd s = (Ok (), (monitor_add fd s)\<lparr>world := w, addCount := minus64 (addCount s) 1,
      listeners := (listeners s)(fd := None)\<rparr>)" "closed w = closed (world s)"
proof -
  from assms(1) obtain w where w: "sys_epollCtl S (epfd s) CtlDel fd 0 (world s) = (Ok (), w)" "closed w = closed (world s)"
    unfolding closing_contract_def by metis
  have "delFDListener S fd s = (Ok (), (monitor_add fd s)\<lparr>world := w, addCount := minus64 (addCount s) 1,
      listeners := (listeners s)(fd := None)\<rparr>)"
    using assms(2,3) w(1)
    by (simp add: delFDListener_def base_del_def flm_del_def flm_find_def epoll_del_def epfd_int_def bnd_run seq_run
        on_world_def zoom_run monitor_add_def split_beta)
  then show ?thesis using that w(2) by blast
qed

text \<open>
  A connection is removed once, with everything it owns. \<open>removeAcceptedSocket\<close> takes the socket
  out of the list and leaves the others in their order, cancels its timer, removes its listener and closes
  its descriptor; called again for the same socket it does nothing.
\<close>

theorem connection_removed_once:
  assumes "closing_contract S closed" and "distinct (map fst (ass s))" and "map_of (ass s) i = Some a"
    and "tq_inv (tq s)" and "timers (tq s) i = Some tm" and "0 \<le> ss_fd a" and "listeners s (ss_fd a) = Some l"
    and "0 \<le> epfd s"
  shows "\<exists>t. removeAcceptedSocket S i s = (Ok (), t) \<and> ass t = filter (\<lambda>x. fst x \<noteq> i) (ass s)
    \<and> entries (tq t) = filter (\<lambda>e. owner e \<noteq> i) (entries (tq s)) \<and> timers (tq t) i = None
    \<and> listeners t = (listeners s)(ss_fd a := None) \<and> closed (world t) = ss_fd a # closed (world s)
    \<and> removeAcceptedSocket S i t = (Ok (), t)"
proof -
  let ?rest = "filter (\<lambda>x. fst x \<noteq> i) (ass s)" and ?R = "server_runner S (AsObj i)"
  obtain q where q: "timer_destroy i (tq s) = (Ok (), q)"
    "entries q = filter (\<lambda>e. owner e \<noteq> i) (entries (tq s))" "timers q = (timers (tq s))(i := None)"
    by (rule timer_destroy_spec [OF assms(4,5)])
  let ?s1 = "s\<lparr>ass := ?rest, cout := cout s @ ''Deleting accepted socket'' @ NL, tq := q\<rparr>"
  obtain w where w: "delFDListener S (ss_fd a) ?s1 = (Ok (), (monitor_add (ss_fd a) ?s1)\<lparr>world := w,
      addCount := minus64 (addCount s) 1, listeners := (listeners s)(ss_fd a := None)\<rparr>)" "closed w = closed (world s)"
    by (rule delFDListener_spec [OF assms(1), of ?s1 "ss_fd a" l]) (use assms(7,8) in simp_all)
  from assms(1) obtain w' where w': "sys_close S (ss_fd a) w = (Ok (), w')" "closed w' = ss_fd a # closed w"
    unfolding closing_contract_def by metis
  let ?t = "(monitor_add (ss_fd a) ?s1)\<lparr>world := w', addCount := minus64 (addCount s) 1,
      listeners := (listeners s)(ss_fd a := None)\<rparr>"
  have "destroy_ss S i a ?s1 = (Ok (), ?t)"
    using assms(6) w(1) w'(1)
    by (simp add: destroy_ss_def ss_destroy_def noexcept_run when_run with_world_def with_fd_def seq_run ss_do_run
        server_runner_def server_system_run on_world_def zoom_run)
  then have "as_destroy S i a (s\<lparr>ass := ?rest\<rparr>) = (Ok (), ?t)"
    using q(1) by (simp add: as_destroy_def seq_run print_out_def noexcept_run on_tq_def zoom_run)
  then have "removeAcceptedSocket S i s = (Ok (), ?t)"
    using find_release_Some [OF assms(2,3)] by (simp add: removeAcceptedSocket_def)
  moreover have "find_release i (ass ?t) = None"
    by (rule find_release_None) (auto simp: monitor_add_def)
  then have "removeAcceptedSocket S i ?t = (Ok (), ?t)" by (simp add: removeAcceptedSocket_def)
  ultimately show ?thesis using q w(2) w'(2) by (intro exI [of _ ?t]) (auto simp: monitor_add_def)
qed

definition closing_system :: "rawfd list system" where
  "closing_system = idle_system\<lparr>sys_close := (\<lambda>fd w. (Ok (), fd # w))\<rparr>"

definition closing_server :: "rawfd list stream_server" where
  "closing_server = \<lparr>listeners = [7 \<mapsto> (User (AsObj 0), EVENT_IN)], epfd = 3, addCount = 1, eventArray = [], world = [],
     monitoring = False, deletedFds = {}, cbq = cbq_empty, tq = timer_create 0 tq_empty, runnerThreadId = Some 1,
     readFD = 4, writeFD = 5, the_signalFD = None, lss = [], ass = [(0, (ss_blank heap0 ())\<lparr>ss_fd := 7\<rparr>)], next_obj = 1,
     cout = [], cerr = [], doContinue = True\<rparr>"

theorem connection_removed_once_witness:
  "\<exists>t. removeAcceptedSocket closing_system 0 closing_server = (Ok (), t) \<and> ass t = [] \<and> world t = [7]
     \<and> removeAcceptedSocket closing_system 0 t = (Ok (), t)"
proof -
  have "closing_contract closing_system id"
    by (simp add: closing_contract_def closing_system_def)
      (simp add: idle_system_def the_system_def epollCtl_def idle_kernel_def bnd_run throw_nonzero_def)
  from connection_removed_once [OF this, of closing_server 0 "(ss_blank heap0 ())\<lparr>ss_fd := 7\<rparr>"
      "\<lparr>position = None, timer_cb = None\<rparr>"] timer_create_inv [OF tq_empty_inv, of 0]
  show ?thesis by (auto simp: closing_server_def ss_blank_def timer_create_def tq_empty_def)
qed

end
