(* ===== verification/UnitTest.thy ===== *)
theory UnitTest
  imports Prelude
begin

text \<open>
  The vocabulary of the unit tests in \<open>src/tst\<close>: a test is a program over the state of its objects, and
  an expectation that does not hold ends it. (\<open>EXPECT\<close> lets the test continue and report further
  failures, \<open>ASSERT\<close> returns; a test passes exactly if none of either fails.)
\<close>

definition expect :: "('s \<Rightarrow> bool) \<Rightarrow> ('s, unit) prog" where
  "expect b = (\<lambda>s. if b s then (Ok (), s) else (Abort, s))"

definition EXPECT_THROW :: "exn \<Rightarrow> ('s, 'a) prog \<Rightarrow> ('s, unit) prog" where
  "EXPECT_THROW e m = (\<lambda>s. case m s of
     (Throw e', s') \<Rightarrow> if e' = e then (Ok (), s') else (Abort, s')
   | (_, s') \<Rightarrow> (Abort, s'))"

primrec steps :: "('s, unit) prog list \<Rightarrow> ('s, unit) prog" where
  "steps [] = ret ()"
| "steps (m # ms) = seq m (steps ms)"

lemma expect_run: "expect b s = (if b s then (Ok (), s) else (Abort, s))"
  by (simp add: expect_def)

lemma EXPECT_THROW_run: "EXPECT_THROW e m s = (case m s of
     (Throw e', s') \<Rightarrow> if e' = e then (Ok (), s') else (Abort, s')
   | (_, s') \<Rightarrow> (Abort, s'))"
  by (simp add: EXPECT_THROW_def)

lemma steps_append: "steps (ms @ ks) = seq (steps ms) (steps ks)"
proof (induction ms)
  case Nil
  show ?case by (simp add: seq_def bnd_def ret_def)
next
  case (Cons m ms)
  then show ?case by (auto simp: seq_def bnd_def fun_eq_iff split: prod.split outcome.split)
qed

lemma steps_fixed: "(\<And>m. m \<in> set ms \<Longrightarrow> m s = (Ok (), s)) \<Longrightarrow> steps ms s = (Ok (), s)"
proof (induction ms)
  case (Cons m ms)
  then have "m s = (Ok (), s)" "steps ms s = (Ok (), s)" by auto
  then show ?case by (simp add: seq_run)
qed simp

lemma steps_iterate:
  assumes "\<And>k s. k < n \<Longrightarrow> I k s \<Longrightarrow> \<exists>s'. f k s = (Ok (), s') \<and> I (Suc k) s'" and "I 0 s"
  shows "\<exists>s'. steps (map f [0..<n]) s = (Ok (), s') \<and> I n s'"
proof -
  have "\<exists>s'. steps (map f [0..<m]) s = (Ok (), s') \<and> I m s'" if "m \<le> n" for m
    using that
  proof (induction m)
    case 0
    show ?case using assms(2) by simp
  next
    case (Suc m)
    then obtain s' where s': "steps (map f [0..<m]) s = (Ok (), s')" "I m s'" by auto
    moreover obtain s'' where "f m s' = (Ok (), s'')" "I (Suc m) s''" using assms(1) s'(2) Suc.prems by (metis Suc_le_lessD)
    ultimately show ?case by (simp add: steps_append seq_run)
  qed
  then show ?thesis by simp
qed

end
