(* ===== verification/StreamBufferTest.thy ===== *)
theory StreamBufferTest
  imports StreamBufferThms Text UnitTest
begin

text \<open>
  The unit tests of \<open>src/tst/StreamBufferTest.cpp\<close> on the model: one definition per \<open>TEST\<close>, with the
  name the macro gives its class, and the theorem that it passes. The fresh memory holds arbitrary
  bytes and lies anywhere, as long as every allocation succeeds and arrays are aligned to 8 bytes
  (\<open>fresh_heap\<close>). They check the model against what the authors of the library expect of the code;
  the tests that allocate more than \<open>IOV_MAX\<close> buffers are proved by induction, the others by
  evaluation. The two tests of \<open>dump\<close> are left out.
\<close>

section \<open>Helpers\<close>

definition fresh_heap :: "heap \<Rightarrow> bool" where
  "fresh_heap h \<longleftrightarrow> blocks h = [] \<and> (\<forall>b n. can_alloc h b n) \<and> (\<forall>b. base_addr h b mod 8 = 0)"

definition bytes :: "string \<Rightarrow> byte list" where
  "bytes s = map byte_of s"

definition stringFromVoidPtr :: "heap \<Rightarrow> addr option \<Rightarrow> nat \<Rightarrow> byte list" where
  "stringFromVoidPtr h p n = (case p of Some a \<Rightarrow> peek h a n | None \<Rightarrow> [])"

definition uint64_at :: "heap \<Rightarrow> addr \<Rightarrow> nat" where
  "uint64_at h p = le_nat (peek h p 8)"

definition iovecToString :: "heap \<Rightarrow> iovec \<Rightarrow> byte list" where
  "iovecToString h iov = stringFromVoidPtr h (iov_base iov) (iov_len iov)"

definition iovecsToString :: "heap \<Rightarrow> iovec list \<Rightarrow> byte list" where
  "iovecsToString h iovs = concat (map (iovecToString h) iovs)"

definition no_zero_length_iovecs :: "iovec list \<Rightarrow> bool" where
  "no_zero_length_iovecs iovs = list_all (\<lambda>i. iov_base i \<noteq> None \<and> 0 < iov_len i) iovs"

definition proper_iovec_sizes :: "iovec list \<Rightarrow> nat \<Rightarrow> bool" where
  "proper_iovec_sizes iovs n \<longleftrightarrow> list_all (\<lambda>i. iov_base i \<noteq> None \<and> 0 < iov_len i) iovs \<and> sum_list (map iov_len iovs) = n"

definition EXPECT_PROPER_IOVEC_SIZES :: "(sb_state, unit) prog" where
  "EXPECT_PROPER_IOVEC_SIZES = steps [
     bnd getUsedIOVec (\<lambda>v. expect (\<lambda>(sb, h). proper_iovec_sizes v (getUsedSize sb))),
     bnd getFreeIOVec (\<lambda>v. expect (\<lambda>(sb, h). proper_iovec_sizes v (getFreeSize sb)))]"

text \<open>The three sizes of a stream buffer; writing through a pointer; \<open>getData<T>\<close> of a number.\<close>

definition expect_sizes :: "nat \<Rightarrow> nat \<Rightarrow> nat \<Rightarrow> (sb_state, unit) prog" where
  "expect_sizes f u t = expect (\<lambda>(sb, h). getFreeSize sb = f \<and> getUsedSize sb = u \<and> getTotalSize sb = t)"

definition at_least_sizes :: "nat \<Rightarrow> nat \<Rightarrow> nat \<Rightarrow> (sb_state, unit) prog" where
  "at_least_sizes f u t = expect (\<lambda>(sb, h). f \<le> getFreeSize sb \<and> getUsedSize sb = u \<and> t \<le> getTotalSize sb)"

definition write_mem :: "addr \<Rightarrow> byte list \<Rightarrow> (sb_state, unit) prog" where
  "write_mem p bs = modify_st (\<lambda>(sb, h). (sb, poke h p bs))"

definition expect_uint64 :: "nat \<Rightarrow> (sb_state, unit) prog" where
  "expect_uint64 n = bnd (getData 8 8) (\<lambda>p. expect (\<lambda>(sb, h). uint64_at h p = n))"

definition expect_char :: "char \<Rightarrow> (sb_state, unit) prog" where
  "expect_char c = bnd (getData 1 1) (\<lambda>p. expect (\<lambda>(sb, h). mem h p = byte_of c))"

definition expect_used_text :: "string \<Rightarrow> (sb_state, unit) prog" where
  "expect_used_text t = bnd getUsedIOVec (\<lambda>v. expect (\<lambda>(sb, h). iovecsToString h v = bytes t))"

text \<open>\<open>BigData\<close>: four \<open>uint64_t\<close>, 32 bytes, aligned to 8.\<close>

definition expect_BigData :: "nat \<Rightarrow> nat \<Rightarrow> nat \<Rightarrow> nat \<Rightarrow> addr \<Rightarrow> (sb_state, unit) prog" where
  "expect_BigData i0 i1 i2 i3 p = expect (\<lambda>(sb, h). uint64_at h p = i0 \<and> uint64_at h (incrementPointer p 8) = i1
     \<and> uint64_at h (incrementPointer p 16) = i2 \<and> uint64_at h (incrementPointer p 24) = i3)"

text \<open>The tests with two stream buffers, which share one memory.\<close>

record two_buffers =
  tb1 :: stream_buffer
  tb2 :: stream_buffer
  tb_heap :: heap

definition on_sb1 :: "(sb_state, 'a) prog \<Rightarrow> (two_buffers, 'a) prog" where
  "on_sb1 = zoom (\<lambda>s. (tb1 s, tb_heap s)) (\<lambda>(b, h) s. s\<lparr>tb1 := b, tb_heap := h\<rparr>)"

definition on_sb2 :: "(sb_state, 'a) prog \<Rightarrow> (two_buffers, 'a) prog" where
  "on_sb2 = zoom (\<lambda>s. (tb2 s, tb_heap s)) (\<lambda>(b, h) s. s\<lparr>tb2 := b, tb_heap := h\<rparr>)"

definition set_sb2 :: "stream_buffer \<Rightarrow> (two_buffers, unit) prog" where
  "set_sb2 sb = modify_st (\<lambda>s. s\<lparr>tb2 := sb\<rparr>)"

definition append_sb2 :: "(two_buffers, unit) prog" where
  "append_sb2 = bnd (get_st tb2) (\<lambda>sb. on_sb1 (appendStreamBuffer sb))"

definition passes1 :: "(sb_state, unit) prog \<Rightarrow> bool" where
  "passes1 p \<longleftrightarrow> (\<forall>h. fresh_heap h \<longrightarrow> fst (p (sb_empty, h)) = Ok ())"

definition passes2 :: "(two_buffers, unit) prog \<Rightarrow> bool" where
  "passes2 p \<longleftrightarrow> (\<forall>h. fresh_heap h \<longrightarrow> fst (p \<lparr>tb1 = sb_empty, tb2 = sb_empty, tb_heap = h\<rparr>) = Ok ())"

subsection \<open>Evaluation\<close>

lemma used_iovs_pos: "0 < n \<Longrightarrow> 0 < room \<Longrightarrow> used_iovs (b # bs) n room =
     map_option (Cons \<lparr>iov_base = Some (buf_data b), iov_len = min (buf_size b) n\<rparr>)
       (used_iovs bs (n - min (buf_size b) n) (room - 1))"
  by (cases n; cases room; simp)

lemma mem_poke: "mem (poke h p xs) a = (if fst a = fst p \<and> snd p \<le> snd a \<and> snd a < snd p + length xs
    then xs ! (snd a - snd p) else mem h a)"
proof (induction xs arbitrary: h p a)
  case (Cons x xs)
  show ?case
    by (cases a; cases p; cases "snd a = snd p") (auto simp: Cons.IH incrementPointer_def nth_Cons')
qed auto

lemma peek_nth: "i < n \<Longrightarrow> peek h p n ! i = mem h (fst p, snd p + i)"
  by (simp add: peek_def range_addrs_def)

lemma peek_0 [simp]: "peek h p 0 = []"
  by (simp add: peek_def range_addrs_def)

lemma length_peek [simp]: "length (peek h p n) = n"
  by (simp add: peek_def)

lemma peek_blocks: "peek (h\<lparr>blocks := bs\<rparr>) p n = peek h p n"
  by (simp add: peek_def)

lemma peek_add: "peek h p (m + n) = peek h p m @ peek h (incrementPointer p m) n"
  by (auto intro!: nth_equalityI simp: peek_nth nth_append incrementPointer_def)

lemma peek_poke_other:
  "fst p \<noteq> fst q \<or> snd q + n \<le> snd p \<or> snd p + length xs \<le> snd q \<Longrightarrow> peek (poke h p xs) q n = peek h q n"
  by (auto intro!: nth_equalityI simp: peek_nth mem_poke)

lemma peek_poke_same:
  "peek (poke h p xs) p n = take n xs @ peek h (incrementPointer p (length xs)) (n - length xs)"
  by (auto intro!: nth_equalityI simp: peek_nth mem_poke nth_append incrementPointer_def)

lemma peek_poke_inside:
  "fst p = fst q \<Longrightarrow> snd p < snd q \<Longrightarrow> snd q < snd p + length xs \<Longrightarrow> peek (poke h p xs) q n
     = take n (drop (snd q - snd p) xs) @ peek h (fst p, snd p + length xs) (n - (snd p + length xs - snd q))"
  by (auto intro!: nth_equalityI simp: peek_nth mem_poke nth_append min_def) (simp_all add: algebra_simps)

lemma peek_poke_later:
  assumes "fst p = fst q" and "snd q < snd p" and "snd p < snd q + n"
  shows "peek (poke h p xs) q n = peek h q (snd p - snd q) @ peek (poke h p xs) p (n - (snd p - snd q))"
proof -
  have "incrementPointer q (snd p - snd q) = p" using assms by (simp add: incrementPointer_def prod_eq_iff)
  with peek_add [of "poke h p xs" q "snd p - snd q" "n - (snd p - snd q)"] assms show ?thesis
    by (simp add: peek_poke_other)
qed

lemma poke_fields: "blocks (poke h p xs) = blocks h" "can_alloc (poke h p xs) = can_alloc h" "base_addr (poke h p xs) = base_addr h"
  by (induction h p xs rule: poke.induct) simp_all

lemma le_bytes_eval: "le_bytes (numeral k) n = of_nat n # le_bytes (pred_numeral k) (n div 256)"
  by (subst numeral_eq_Suc) simp

lemma list_eval:
  "take 1 (x # xs) = [x]" "drop 1 (x # xs) = xs" "replicate 1 x = [x]" "le_bytes 1 n = [of_nat n]"
  by simp_all

lemma replicate_eval: "replicate (numeral k) x = x # replicate (pred_numeral k) x"
  by (subst numeral_eq_Suc) simp

lemma fresh_heap_aligned: "fresh_heap h \<Longrightarrow> (base_addr h b + k) mod 8 = k mod 8"
  by (metis fresh_heap_def mod_add_left_eq add_0)

lemma fresh_heapD: "fresh_heap h \<Longrightarrow> blocks h = [] \<and> can_alloc h = (\<lambda>_ _. True) \<and> base_addr h b mod 8 = 0"
  by (auto simp: fresh_heap_def)

lemmas helper_defs = bytes_def stringFromVoidPtr_def uint64_at_def iovecToString_def iovecsToString_def
  no_zero_length_iovecs_def proper_iovec_sizes_def EXPECT_PROPER_IOVEC_SIZES_def expect_sizes_def at_least_sizes_def
  write_mem_def expect_uint64_def expect_char_def expect_used_text_def expect_BigData_def on_sb1_def on_sb2_def
  set_sb2_def append_sb2_def passes1_def passes2_def

lemmas test_eval = helper_defs expect_run EXPECT_THROW_run sb_eval loops_pos used_iovs_pos zoom_run getUsedIOVec_def getFreeIOVec_def allocateIOVecArray_def
  iov_max_def getUsedSize_def getTotalSize_def buf_iov_def peek_poke_other peek_poke_same peek_poke_inside peek_poke_later mem_poke poke_fields peek_blocks le_bytes_eval list_eval replicate_eval
  appendStreamBuffer_def split_at_location_def spliceHead_def linearize_def forceLinearize_def front_needs_linearize_def
  machine_address_def getData_def getConstArray_def branch_run sb_copy_def sb_assign_def fresh_heapD fresh_heap_aligned Let_def
  One_nat_def [symmetric]

section \<open>Tests\<close>

definition StreamBuffer_constructorCreatesEmptyBuffer_Test :: "(sb_state, unit) prog" where
  "StreamBuffer_constructorCreatesEmptyBuffer_Test = steps [
     expect_sizes 0 0 0]"

lemma StreamBuffer_constructorCreatesEmptyBuffer_Test_passes: "passes1 StreamBuffer_constructorCreatesEmptyBuffer_Test"
  by (simp add: test_eval StreamBuffer_constructorCreatesEmptyBuffer_Test_def del: One_nat_def poke.simps(2))

definition StreamBuffer_allocateAllocatesAtLeastRequestedSize_Test :: "(sb_state, unit) prog" where
  "StreamBuffer_allocateAllocatesAtLeastRequestedSize_Test = steps [
     sb_allocate 100,
     at_least_sizes 100 0 100]"

lemma StreamBuffer_allocateAllocatesAtLeastRequestedSize_Test_passes: "passes1 StreamBuffer_allocateAllocatesAtLeastRequestedSize_Test"
  by (simp add: test_eval StreamBuffer_allocateAllocatesAtLeastRequestedSize_Test_def del: One_nat_def poke.simps(2))

definition StreamBuffer_increaseUsed_Test :: "(sb_state, unit) prog" where
  "StreamBuffer_increaseUsed_Test = steps [
     sb_allocate 80,
     expect (\<lambda>(sb, h). getUsedSize sb = 0),
     expect (\<lambda>(sb, h). getFreeSize sb = 80),
     increaseUsed 50,
     expect (\<lambda>(sb, h). getUsedSize sb = 50),
     expect (\<lambda>(sb, h). getFreeSize sb = 30)]"

lemma StreamBuffer_increaseUsed_Test_passes: "passes1 StreamBuffer_increaseUsed_Test"
  by (simp add: test_eval StreamBuffer_increaseUsed_Test_def del: One_nat_def poke.simps(2))

definition StreamBuffer_markTooMuchUsedThrows_Test :: "(sb_state, unit) prog" where
  "StreamBuffer_markTooMuchUsedThrows_Test = steps [
     sb_allocate 100,
     bnd (get_st (\<lambda>(sb, h). getTotalSize sb + 1)) (\<lambda>n. EXPECT_THROW BufferUnderflow (increaseUsed n))]"

lemma StreamBuffer_markTooMuchUsedThrows_Test_passes: "passes1 StreamBuffer_markTooMuchUsedThrows_Test"
  by (simp add: test_eval StreamBuffer_markTooMuchUsedThrows_Test_def del: One_nat_def poke.simps(2))

definition StreamBuffer_getUsedIOVecWithEmptyStreamBufferReturnsEmptyArray_Test :: "(sb_state, unit) prog" where
  "StreamBuffer_getUsedIOVecWithEmptyStreamBufferReturnsEmptyArray_Test = steps [
     bnd getUsedIOVec (\<lambda>v. expect (\<lambda>(sb, h). length v = 0))]"

lemma StreamBuffer_getUsedIOVecWithEmptyStreamBufferReturnsEmptyArray_Test_passes: "passes1 StreamBuffer_getUsedIOVecWithEmptyStreamBufferReturnsEmptyArray_Test"
  by (simp add: test_eval StreamBuffer_getUsedIOVecWithEmptyStreamBufferReturnsEmptyArray_Test_def del: One_nat_def poke.simps(2))

definition StreamBuffer_getUsedIOVecUnusedStreamBufferReturnsEmptyArray_Test :: "(sb_state, unit) prog" where
  "StreamBuffer_getUsedIOVecUnusedStreamBufferReturnsEmptyArray_Test = steps [
     sb_allocate 80,
     bnd getUsedIOVec (\<lambda>v. expect (\<lambda>(sb, h). length v = 0))]"

lemma StreamBuffer_getUsedIOVecUnusedStreamBufferReturnsEmptyArray_Test_passes: "passes1 StreamBuffer_getUsedIOVecUnusedStreamBufferReturnsEmptyArray_Test"
  by (simp add: test_eval StreamBuffer_getUsedIOVecUnusedStreamBufferReturnsEmptyArray_Test_def del: One_nat_def poke.simps(2))

definition StreamBuffer_getUsedIOVecWithPartialBuffer_Test :: "(sb_state, unit) prog" where
  "StreamBuffer_getUsedIOVecWithPartialBuffer_Test = steps [
     sb_allocate 80,
     increaseUsed 40,
     bnd getUsedIOVec (\<lambda>v. expect (\<lambda>(sb, h). no_zero_length_iovecs v \<and> length v = 1 \<and> iov_base (v ! 0) \<noteq> None \<and> iov_len (v ! 0) = 40))]"

lemma StreamBuffer_getUsedIOVecWithPartialBuffer_Test_passes: "passes1 StreamBuffer_getUsedIOVecWithPartialBuffer_Test"
  by (simp add: test_eval StreamBuffer_getUsedIOVecWithPartialBuffer_Test_def del: One_nat_def poke.simps(2))

definition StreamBuffer_getUsedIOVecWithMultipleBuffers_Test :: "(sb_state, unit) prog" where
  "StreamBuffer_getUsedIOVecWithMultipleBuffers_Test = steps [
     sb_allocate 80,
     increaseUsed 80,
     sb_allocate 160,
     increaseUsed 160,
     sb_allocate 80,
     increaseUsed 40,
     bnd getUsedIOVec (\<lambda>v. expect (\<lambda>(sb, h). no_zero_length_iovecs v \<and> length v = 3 \<and> map iov_len v = [80, 160, 40]))]"

lemma StreamBuffer_getUsedIOVecWithMultipleBuffers_Test_passes: "passes1 StreamBuffer_getUsedIOVecWithMultipleBuffers_Test"
  by (simp add: test_eval StreamBuffer_getUsedIOVecWithMultipleBuffers_Test_def del: One_nat_def poke.simps(2))

definition StreamBuffer_getFreeIOVecWithEmptyStreamBufferReturnsEmptyArray_Test :: "(sb_state, unit) prog" where
  "StreamBuffer_getFreeIOVecWithEmptyStreamBufferReturnsEmptyArray_Test = steps [
     bnd getFreeIOVec (\<lambda>v. expect (\<lambda>(sb, h). no_zero_length_iovecs v \<and> length v = 0))]"

lemma StreamBuffer_getFreeIOVecWithEmptyStreamBufferReturnsEmptyArray_Test_passes: "passes1 StreamBuffer_getFreeIOVecWithEmptyStreamBufferReturnsEmptyArray_Test"
  by (simp add: test_eval StreamBuffer_getFreeIOVecWithEmptyStreamBufferReturnsEmptyArray_Test_def del: One_nat_def poke.simps(2))

definition StreamBuffer_getFreeIOVecCompletelyUsedStreamBufferReturnsEmptyArray_Test :: "(sb_state, unit) prog" where
  "StreamBuffer_getFreeIOVecCompletelyUsedStreamBufferReturnsEmptyArray_Test = steps [
     sb_allocate 80,
     increaseUsed 80,
     bnd getFreeIOVec (\<lambda>v. expect (\<lambda>(sb, h). length v = 0))]"

lemma StreamBuffer_getFreeIOVecCompletelyUsedStreamBufferReturnsEmptyArray_Test_passes: "passes1 StreamBuffer_getFreeIOVecCompletelyUsedStreamBufferReturnsEmptyArray_Test"
  by (simp add: test_eval StreamBuffer_getFreeIOVecCompletelyUsedStreamBufferReturnsEmptyArray_Test_def del: One_nat_def poke.simps(2))

definition StreamBuffer_getFreeIOVecWithPartialBuffer_Test :: "(sb_state, unit) prog" where
  "StreamBuffer_getFreeIOVecWithPartialBuffer_Test = steps [
     sb_allocate 80,
     increaseUsed 40,
     bnd getFreeIOVec (\<lambda>v. expect (\<lambda>(sb, h). no_zero_length_iovecs v \<and> length v = 1 \<and> iov_len (v ! 0) = 40))]"

lemma StreamBuffer_getFreeIOVecWithPartialBuffer_Test_passes: "passes1 StreamBuffer_getFreeIOVecWithPartialBuffer_Test"
  by (simp add: test_eval StreamBuffer_getFreeIOVecWithPartialBuffer_Test_def del: One_nat_def poke.simps(2))

definition StreamBuffer_getFreeIOVecWithCompleteBuffer_Test :: "(sb_state, unit) prog" where
  "StreamBuffer_getFreeIOVecWithCompleteBuffer_Test = steps [
     sb_allocate 80,
     bnd getFreeIOVec (\<lambda>v. expect (\<lambda>(sb, h). no_zero_length_iovecs v \<and> length v = 1 \<and> iov_len (v ! 0) = 80))]"

lemma StreamBuffer_getFreeIOVecWithCompleteBuffer_Test_passes: "passes1 StreamBuffer_getFreeIOVecWithCompleteBuffer_Test"
  by (simp add: test_eval StreamBuffer_getFreeIOVecWithCompleteBuffer_Test_def del: One_nat_def poke.simps(2))

definition StreamBuffer_getFreeIOVecWithMultipleBuffers_Test :: "(sb_state, unit) prog" where
  "StreamBuffer_getFreeIOVecWithMultipleBuffers_Test = steps [
     sb_allocate 80,
     sb_allocate 240,
     sb_allocate 320,
     increaseUsed 40,
     bnd getFreeIOVec (\<lambda>v. expect (\<lambda>(sb, h). no_zero_length_iovecs v \<and> length v = 3 \<and> map iov_len v = [40, 160, 80]))]"

lemma StreamBuffer_getFreeIOVecWithMultipleBuffers_Test_passes: "passes1 StreamBuffer_getFreeIOVecWithMultipleBuffers_Test"
  by (simp add: test_eval StreamBuffer_getFreeIOVecWithMultipleBuffers_Test_def del: One_nat_def poke.simps(2))

definition StreamBuffer_appendDataIntoEmptyStreamBuffer_Test :: "(sb_state, unit) prog" where
  "StreamBuffer_appendDataIntoEmptyStreamBuffer_Test = steps [
     appendData (bytes ''Hello world!''),
     EXPECT_PROPER_IOVEC_SIZES,
     at_least_sizes 0 12 12,
     bnd getUsedIOVec (\<lambda>v. expect (\<lambda>(sb, h). length v = 1 \<and> iovecToString h (v ! 0) = bytes ''Hello world!''))]"

lemma StreamBuffer_appendDataIntoEmptyStreamBuffer_Test_passes: "passes1 StreamBuffer_appendDataIntoEmptyStreamBuffer_Test"
  by (simp add: test_eval StreamBuffer_appendDataIntoEmptyStreamBuffer_Test_def del: One_nat_def poke.simps(2))

definition StreamBuffer_appendDataMultipleTimes_Test :: "(sb_state, unit) prog" where
  "StreamBuffer_appendDataMultipleTimes_Test = steps [
     appendData (bytes ''12345678''),
     appendData (bytes ''12345678''),
     appendData (bytes ''12345678''),
     appendData (bytes ''12345678''),
     EXPECT_PROPER_IOVEC_SIZES,
     at_least_sizes 0 32 32,
     bnd getUsedIOVec (\<lambda>v. expect (\<lambda>(sb, h). map (iovecToString h) v = replicate 4 (bytes ''12345678'')))]"

lemma StreamBuffer_appendDataMultipleTimes_Test_passes: "passes1 StreamBuffer_appendDataMultipleTimes_Test"
  by (simp add: test_eval StreamBuffer_appendDataMultipleTimes_Test_def del: One_nat_def poke.simps(2))

definition StreamBuffer_appendDataOnTopOfPartialBuffer_Test :: "(sb_state, unit) prog" where
  "StreamBuffer_appendDataOnTopOfPartialBuffer_Test = steps [
     sb_allocate 10,
     appendData (bytes ''12345678''),
     appendData (bytes ''12345678''),
     appendData (bytes ''12345678''),
     EXPECT_PROPER_IOVEC_SIZES,
     at_least_sizes 0 24 24,
     expect_used_text ''123456781234567812345678'']"

lemma StreamBuffer_appendDataOnTopOfPartialBuffer_Test_passes: "passes1 StreamBuffer_appendDataOnTopOfPartialBuffer_Test"
  by (simp add: test_eval StreamBuffer_appendDataOnTopOfPartialBuffer_Test_def del: One_nat_def poke.simps(2))

definition StreamBuffer_appendDataWithTemplate_Test :: "(sb_state, unit) prog" where
  "StreamBuffer_appendDataWithTemplate_Test = steps [
     appendData (le_bytes 8 123),
     EXPECT_PROPER_IOVEC_SIZES,
     expect_uint64 123]"

lemma StreamBuffer_appendDataWithTemplate_Test_passes: "passes1 StreamBuffer_appendDataWithTemplate_Test"
  by (simp add: test_eval StreamBuffer_appendDataWithTemplate_Test_def del: One_nat_def poke.simps(2))

definition StreamBuffer_appendCppString_Test :: "(sb_state, unit) prog" where
  "StreamBuffer_appendCppString_Test = steps [
     appendData (bytes ''Hello world!''),
     EXPECT_PROPER_IOVEC_SIZES,
     expect_used_text ''Hello world!'']"

lemma StreamBuffer_appendCppString_Test_passes: "passes1 StreamBuffer_appendCppString_Test"
  by (simp add: test_eval StreamBuffer_appendCppString_Test_def del: One_nat_def poke.simps(2))

definition StreamBuffer_appendCString_Test :: "(sb_state, unit) prog" where
  "StreamBuffer_appendCString_Test = steps [
     appendData (bytes ''Hello world!''),
     EXPECT_PROPER_IOVEC_SIZES,
     expect_used_text ''Hello world!'']"

lemma StreamBuffer_appendCString_Test_passes: "passes1 StreamBuffer_appendCString_Test"
  by (simp add: test_eval StreamBuffer_appendCString_Test_def del: One_nat_def poke.simps(2))

definition StreamBuffer_appendEmptyStreamBuffer_Test :: "(two_buffers, unit) prog" where
  "StreamBuffer_appendEmptyStreamBuffer_Test = steps [
     on_sb1 (sb_allocate 80),
     on_sb1 (appendData (bytes ''11111111'')),
     append_sb2,
     on_sb1 (expect_sizes 72 8 80),
     on_sb1 (expect_used_text ''11111111''),
     on_sb1 EXPECT_PROPER_IOVEC_SIZES]"

lemma StreamBuffer_appendEmptyStreamBuffer_Test_passes: "passes2 StreamBuffer_appendEmptyStreamBuffer_Test"
  by (simp add: test_eval StreamBuffer_appendEmptyStreamBuffer_Test_def del: One_nat_def poke.simps(2))

definition StreamBuffer_appendStreamBufferAtTheBeginning_Test :: "(two_buffers, unit) prog" where
  "StreamBuffer_appendStreamBufferAtTheBeginning_Test = steps [
     on_sb2 (appendData (bytes ''11111111'')),
     on_sb2 (sb_allocate 80),
     on_sb2 (appendData (bytes ''22222222'')),
     append_sb2,
     on_sb1 (expect_sizes 0 16 16),
     on_sb1 (expect_used_text ''1111111122222222''),
     on_sb1 EXPECT_PROPER_IOVEC_SIZES]"

lemma StreamBuffer_appendStreamBufferAtTheBeginning_Test_passes: "passes2 StreamBuffer_appendStreamBufferAtTheBeginning_Test"
  by (simp add: test_eval StreamBuffer_appendStreamBufferAtTheBeginning_Test_def del: One_nat_def poke.simps(2))

definition StreamBuffer_appendStreamBufferInTheMiddle_Test :: "(two_buffers, unit) prog" where
  "StreamBuffer_appendStreamBufferInTheMiddle_Test = steps [
     on_sb1 (appendData (bytes ''11111111'')),
     on_sb1 (sb_allocate 80),
     on_sb1 (appendData (bytes ''22222222'')),
     on_sb2 (appendData (bytes ''33333333'')),
     on_sb2 (sb_allocate 80),
     on_sb2 (appendData (bytes ''44444444'')),
     append_sb2,
     on_sb1 (expect_sizes 72 32 104),
     on_sb1 (expect_used_text ''11111111222222223333333344444444''),
     on_sb1 EXPECT_PROPER_IOVEC_SIZES]"

lemma StreamBuffer_appendStreamBufferInTheMiddle_Test_passes: "passes2 StreamBuffer_appendStreamBufferInTheMiddle_Test"
  by (simp add: test_eval StreamBuffer_appendStreamBufferInTheMiddle_Test_def del: One_nat_def poke.simps(2))

definition StreamBuffer_appendStreamBufferAtTheEnd_Test :: "(two_buffers, unit) prog" where
  "StreamBuffer_appendStreamBufferAtTheEnd_Test = steps [
     on_sb1 (appendData (bytes ''11111111'')),
     on_sb1 (appendData (bytes ''22222222'')),
     on_sb2 (appendData (bytes ''33333333'')),
     on_sb2 (sb_allocate 80),
     on_sb2 (appendData (bytes ''44444444'')),
     append_sb2,
     on_sb1 (expect_sizes 0 32 32),
     on_sb1 (expect_used_text ''11111111222222223333333344444444''),
     on_sb1 EXPECT_PROPER_IOVEC_SIZES]"

lemma StreamBuffer_appendStreamBufferAtTheEnd_Test_passes: "passes2 StreamBuffer_appendStreamBufferAtTheEnd_Test"
  by (simp add: test_eval StreamBuffer_appendStreamBufferAtTheEnd_Test_def del: One_nat_def poke.simps(2))

definition StreamBuffer_getMutableArrayUpdatesUsedSize_Test :: "(sb_state, unit) prog" where
  "StreamBuffer_getMutableArrayUpdatesUsedSize_Test = steps [
     discard (getMutableArray 10),
     EXPECT_PROPER_IOVEC_SIZES,
     at_least_sizes 0 10 10]"

lemma StreamBuffer_getMutableArrayUpdatesUsedSize_Test_passes: "passes1 StreamBuffer_getMutableArrayUpdatesUsedSize_Test"
  by (simp add: test_eval StreamBuffer_getMutableArrayUpdatesUsedSize_Test_def del: One_nat_def poke.simps(2))

definition StreamBuffer_getMutableArrayReturnsValidPointer_Test :: "(sb_state, unit) prog" where
  "StreamBuffer_getMutableArrayReturnsValidPointer_Test = steps [
     bnd (getMutableArray 10) (\<lambda>ptr. steps [EXPECT_PROPER_IOVEC_SIZES, write_mem ptr [byte_of CHR ''a''], expect_char CHR ''a''])]"

lemma StreamBuffer_getMutableArrayReturnsValidPointer_Test_passes: "passes1 StreamBuffer_getMutableArrayReturnsValidPointer_Test"
  by (simp add: test_eval StreamBuffer_getMutableArrayReturnsValidPointer_Test_def del: One_nat_def poke.simps(2))

definition StreamBuffer_getMutableArrayToAlreadyAllocatesbuffer_Test :: "(sb_state, unit) prog" where
  "StreamBuffer_getMutableArrayToAlreadyAllocatesbuffer_Test = steps [
     sb_allocate 256,
     bnd (getMutableArray 10) (\<lambda>ptr. steps [EXPECT_PROPER_IOVEC_SIZES, at_least_sizes 246 10 256, write_mem ptr (replicate 10 (byte_of CHR ''a'')), expect_char CHR ''a''])]"

lemma StreamBuffer_getMutableArrayToAlreadyAllocatesbuffer_Test_passes: "passes1 StreamBuffer_getMutableArrayToAlreadyAllocatesbuffer_Test"
  by (simp add: test_eval StreamBuffer_getMutableArrayToAlreadyAllocatesbuffer_Test_def del: One_nat_def poke.simps(2))

definition StreamBuffer_getMutableArrayToAlreadyAllocatesbutTooSmallUnusesbuffer_Test :: "(sb_state, unit) prog" where
  "StreamBuffer_getMutableArrayToAlreadyAllocatesbutTooSmallUnusesbuffer_Test = steps [
     sb_allocate 8,
     bnd (getMutableArray 32) (\<lambda>ptr. steps [EXPECT_PROPER_IOVEC_SIZES, at_least_sizes 0 32 32, write_mem ptr (replicate 32 (byte_of CHR ''a'')), expect_used_text ''aaaaaaaaaaaaaaaaaaaaaaaaaaaaaaaa''])]"

lemma StreamBuffer_getMutableArrayToAlreadyAllocatesbutTooSmallUnusesbuffer_Test_passes: "passes1 StreamBuffer_getMutableArrayToAlreadyAllocatesbutTooSmallUnusesbuffer_Test"
  by (simp add: test_eval StreamBuffer_getMutableArrayToAlreadyAllocatesbutTooSmallUnusesbuffer_Test_def del: One_nat_def poke.simps(2))

definition StreamBuffer_getMutableArrayToAlreadyAllocatesbutTooSmallUsesbuffer_Test :: "(sb_state, unit) prog" where
  "StreamBuffer_getMutableArrayToAlreadyAllocatesbutTooSmallUsesbuffer_Test = steps [
     sb_allocate 8,
     appendData (bytes ''b''),
     bnd (getMutableArray 32) (\<lambda>ptr. steps [EXPECT_PROPER_IOVEC_SIZES, at_least_sizes 0 33 33, write_mem ptr (replicate 32 (byte_of CHR ''a'')), expect_used_text ''baaaaaaaaaaaaaaaaaaaaaaaaaaaaaaaa''])]"

lemma StreamBuffer_getMutableArrayToAlreadyAllocatesbutTooSmallUsesbuffer_Test_passes: "passes1 StreamBuffer_getMutableArrayToAlreadyAllocatesbutTooSmallUsesbuffer_Test"
  by (simp add: test_eval StreamBuffer_getMutableArrayToAlreadyAllocatesbutTooSmallUsesbuffer_Test_def del: One_nat_def poke.simps(2))

definition StreamBuffer_linearizeEmptyStreamBuffer_Test :: "(sb_state, unit) prog" where
  "StreamBuffer_linearizeEmptyStreamBuffer_Test = steps [
     linearize,
     EXPECT_PROPER_IOVEC_SIZES,
     expect_sizes 0 0 0]"

lemma StreamBuffer_linearizeEmptyStreamBuffer_Test_passes: "passes1 StreamBuffer_linearizeEmptyStreamBuffer_Test"
  by (simp add: test_eval StreamBuffer_linearizeEmptyStreamBuffer_Test_def del: One_nat_def poke.simps(2))

definition StreamBuffer_linearizeUnusedStreamBuffer_Test :: "(sb_state, unit) prog" where
  "StreamBuffer_linearizeUnusedStreamBuffer_Test = steps [
     sb_allocate 80,
     linearize,
     EXPECT_PROPER_IOVEC_SIZES,
     expect_sizes 80 0 80]"

lemma StreamBuffer_linearizeUnusedStreamBuffer_Test_passes: "passes1 StreamBuffer_linearizeUnusedStreamBuffer_Test"
  by (simp add: test_eval StreamBuffer_linearizeUnusedStreamBuffer_Test_def del: One_nat_def poke.simps(2))

definition StreamBuffer_linearizePartialBuffer_Test :: "(sb_state, unit) prog" where
  "StreamBuffer_linearizePartialBuffer_Test = steps [
     sb_allocate 100,
     increaseUsed 11,
     cutHead 1,
     linearize,
     EXPECT_PROPER_IOVEC_SIZES,
     at_least_sizes 0 10 10,
     bnd getUsedIOVec (\<lambda>v. expect (\<lambda>(sb, h). length v = 1 \<and> iov_len (v ! 0) = 10 \<and> machine_address h (the (iov_base (v ! 0))) mod 8 = 0))]"

lemma StreamBuffer_linearizePartialBuffer_Test_passes: "passes1 StreamBuffer_linearizePartialBuffer_Test"
  by (simp add: test_eval StreamBuffer_linearizePartialBuffer_Test_def del: One_nat_def poke.simps(2))

definition StreamBuffer_linearizeMultipleBuffers_Test :: "(sb_state, unit) prog" where
  "StreamBuffer_linearizeMultipleBuffers_Test = steps [
     appendData (bytes ''Hello world again!''),
     appendData (bytes ''Hello world again!''),
     appendData (bytes ''Hello world again!''),
     linearize,
     EXPECT_PROPER_IOVEC_SIZES,
     expect (\<lambda>(sb, h). getUsedSize sb = 54 \<and> 54 \<le> getTotalSize sb),
     bnd getUsedIOVec (\<lambda>v. expect (\<lambda>(sb, h). length v = 1 \<and> iov_len (v ! 0) = 54 \<and> machine_address h (the (iov_base (v ! 0))) mod 8 = 0 \<and> iovecToString h (v ! 0) = bytes ''Hello world again!Hello world again!Hello world again!''))]"

lemma StreamBuffer_linearizeMultipleBuffers_Test_passes: "passes1 StreamBuffer_linearizeMultipleBuffers_Test"
  by (simp add: test_eval StreamBuffer_linearizeMultipleBuffers_Test_def del: One_nat_def poke.simps(2))

definition StreamBuffer_linearizingAlreadyLinearizedDoesntChangeAnything_Test :: "(sb_state, unit) prog" where
  "StreamBuffer_linearizingAlreadyLinearizedDoesntChangeAnything_Test = steps [
     appendData (bytes ''Hello world again!''),
     appendData (bytes ''Hello world again!''),
     appendData (bytes ''Hello world again!''),
     linearize,
     EXPECT_PROPER_IOVEC_SIZES,
     bnd getUsedIOVec (\<lambda>v1. steps [expect (\<lambda>_. length v1 = 1), linearize, bnd getUsedIOVec (\<lambda>v2. expect (\<lambda>_. length v2 = 1 \<and> iov_base (v1 ! 0) = iov_base (v2 ! 0)))])]"

lemma StreamBuffer_linearizingAlreadyLinearizedDoesntChangeAnything_Test_passes: "passes1 StreamBuffer_linearizingAlreadyLinearizedDoesntChangeAnything_Test"
  by (simp add: test_eval StreamBuffer_linearizingAlreadyLinearizedDoesntChangeAnything_Test_def del: One_nat_def poke.simps(2))

definition StreamBuffer_linearizingTakesRoundingIntoAccountWhenAddingNewBuffer_Test :: "(sb_state, unit) prog" where
  "StreamBuffer_linearizingTakesRoundingIntoAccountWhenAddingNewBuffer_Test = steps [
     sb_allocate 100,
     increaseUsed 11,
     cutHead 1,
     linearize,
     bnd getFreeIOVec (\<lambda>v. expect (\<lambda>(sb, h). sum_list (map iov_len v) = getFreeSize sb))]"

lemma StreamBuffer_linearizingTakesRoundingIntoAccountWhenAddingNewBuffer_Test_passes: "passes1 StreamBuffer_linearizingTakesRoundingIntoAccountWhenAddingNewBuffer_Test"
  by (simp add: test_eval StreamBuffer_linearizingTakesRoundingIntoAccountWhenAddingNewBuffer_Test_def del: One_nat_def poke.simps(2))

definition StreamBuffer_spliceHeadWithZeroFromEmptyStreamBuffer_Test :: "(two_buffers, unit) prog" where
  "StreamBuffer_spliceHeadWithZeroFromEmptyStreamBuffer_Test = steps [
     bnd (on_sb1 (spliceHead 0)) set_sb2,
     on_sb1 EXPECT_PROPER_IOVEC_SIZES,
     on_sb2 EXPECT_PROPER_IOVEC_SIZES,
     on_sb1 (expect_sizes 0 0 0),
     on_sb1 (bnd getUsedIOVec (\<lambda>v. expect (\<lambda>(sb, h). length v = 0))),
     on_sb2 (expect_sizes 0 0 0),
     on_sb1 (bnd getUsedIOVec (\<lambda>v. expect (\<lambda>(sb, h). length v = 0)))]"

lemma StreamBuffer_spliceHeadWithZeroFromEmptyStreamBuffer_Test_passes: "passes2 StreamBuffer_spliceHeadWithZeroFromEmptyStreamBuffer_Test"
  by (simp add: test_eval StreamBuffer_spliceHeadWithZeroFromEmptyStreamBuffer_Test_def del: One_nat_def poke.simps(2))

definition StreamBuffer_spliceHeadLessThanUsedUpdatesSizesCorrectly_Test :: "(two_buffers, unit) prog" where
  "StreamBuffer_spliceHeadLessThanUsedUpdatesSizesCorrectly_Test = steps [
     on_sb1 (sb_allocate 80),
     on_sb1 (increaseUsed 15),
     on_sb1 (expect_sizes 65 15 80),
     bnd (on_sb1 (spliceHead 10)) set_sb2,
     on_sb1 EXPECT_PROPER_IOVEC_SIZES,
     on_sb2 EXPECT_PROPER_IOVEC_SIZES,
     on_sb1 (expect_sizes 65 5 70),
     on_sb2 (expect_sizes 0 10 10)]"

lemma StreamBuffer_spliceHeadLessThanUsedUpdatesSizesCorrectly_Test_passes: "passes2 StreamBuffer_spliceHeadLessThanUsedUpdatesSizesCorrectly_Test"
  by (simp add: test_eval StreamBuffer_spliceHeadLessThanUsedUpdatesSizesCorrectly_Test_def del: One_nat_def poke.simps(2))

definition StreamBuffer_spliceHeadMoreThanUsedUpdatesSizesCorrectly_Test :: "(two_buffers, unit) prog" where
  "StreamBuffer_spliceHeadMoreThanUsedUpdatesSizesCorrectly_Test = steps [
     on_sb1 (sb_allocate 80),
     on_sb1 (increaseUsed 15),
     on_sb1 (expect_sizes 65 15 80),
     bnd (on_sb1 (spliceHead 20)) set_sb2,
     on_sb1 EXPECT_PROPER_IOVEC_SIZES,
     on_sb2 EXPECT_PROPER_IOVEC_SIZES,
     on_sb1 (expect_sizes 60 0 60),
     on_sb2 (expect_sizes 5 15 20)]"

lemma StreamBuffer_spliceHeadMoreThanUsedUpdatesSizesCorrectly_Test_passes: "passes2 StreamBuffer_spliceHeadMoreThanUsedUpdatesSizesCorrectly_Test"
  by (simp add: test_eval StreamBuffer_spliceHeadMoreThanUsedUpdatesSizesCorrectly_Test_def del: One_nat_def poke.simps(2))

definition StreamBuffer_spliceHeadSplicesDataCorrectlyWithPartialBuffer_Test :: "(two_buffers, unit) prog" where
  "StreamBuffer_spliceHeadSplicesDataCorrectlyWithPartialBuffer_Test = steps [
     on_sb1 (appendData (bytes ''Splice me!'')),
     bnd (on_sb1 (spliceHead 3)) set_sb2,
     on_sb1 EXPECT_PROPER_IOVEC_SIZES,
     on_sb2 EXPECT_PROPER_IOVEC_SIZES,
     on_sb1 (expect_used_text ''ice me!''),
     on_sb2 (expect_used_text ''Spl'')]"

lemma StreamBuffer_spliceHeadSplicesDataCorrectlyWithPartialBuffer_Test_passes: "passes2 StreamBuffer_spliceHeadSplicesDataCorrectlyWithPartialBuffer_Test"
  by (simp add: test_eval StreamBuffer_spliceHeadSplicesDataCorrectlyWithPartialBuffer_Test_def del: One_nat_def poke.simps(2))

definition StreamBuffer_spliceHeadSplicesDataCorrectlyWithCompleteBuffer_Test :: "(two_buffers, unit) prog" where
  "StreamBuffer_spliceHeadSplicesDataCorrectlyWithCompleteBuffer_Test = steps [
     on_sb1 (appendData (bytes ''Complete block!'')),
     on_sb1 (appendData (bytes ''Splice me!'')),
     bnd (on_sb1 (spliceHead 20)) set_sb2,
     on_sb1 EXPECT_PROPER_IOVEC_SIZES,
     on_sb2 EXPECT_PROPER_IOVEC_SIZES,
     on_sb1 (expect_used_text ''e me!''),
     on_sb2 (expect_used_text ''Complete block!Splic'')]"

lemma StreamBuffer_spliceHeadSplicesDataCorrectlyWithCompleteBuffer_Test_passes: "passes2 StreamBuffer_spliceHeadSplicesDataCorrectlyWithCompleteBuffer_Test"
  by (simp add: test_eval StreamBuffer_spliceHeadSplicesDataCorrectlyWithCompleteBuffer_Test_def del: One_nat_def poke.simps(2))

definition StreamBuffer_spliceHeadMoreThanTotalSizeThrows_Test :: "(sb_state, unit) prog" where
  "StreamBuffer_spliceHeadMoreThanTotalSizeThrows_Test = steps [
     sb_allocate 8,
     EXPECT_THROW BufferUnderflow (spliceHead 9)]"

lemma StreamBuffer_spliceHeadMoreThanTotalSizeThrows_Test_passes: "passes1 StreamBuffer_spliceHeadMoreThanTotalSizeThrows_Test"
  by (simp add: test_eval StreamBuffer_spliceHeadMoreThanTotalSizeThrows_Test_def del: One_nat_def poke.simps(2))

definition StreamBuffer_cutHeadWithZeroFromEmptyStreamBuffer_Test :: "(sb_state, unit) prog" where
  "StreamBuffer_cutHeadWithZeroFromEmptyStreamBuffer_Test = steps [
     cutHead 0,
     EXPECT_PROPER_IOVEC_SIZES,
     expect_sizes 0 0 0,
     bnd getUsedIOVec (\<lambda>v. expect (\<lambda>(sb, h). length v = 0))]"

lemma StreamBuffer_cutHeadWithZeroFromEmptyStreamBuffer_Test_passes: "passes1 StreamBuffer_cutHeadWithZeroFromEmptyStreamBuffer_Test"
  by (simp add: test_eval StreamBuffer_cutHeadWithZeroFromEmptyStreamBuffer_Test_def del: One_nat_def poke.simps(2))

definition StreamBuffer_cutHeadLessThanUsedUpdatesSizesCorrectly_Test :: "(sb_state, unit) prog" where
  "StreamBuffer_cutHeadLessThanUsedUpdatesSizesCorrectly_Test = steps [
     sb_allocate 80,
     increaseUsed 15,
     expect_sizes 65 15 80,
     cutHead 10,
     EXPECT_PROPER_IOVEC_SIZES,
     expect_sizes 65 5 70]"

lemma StreamBuffer_cutHeadLessThanUsedUpdatesSizesCorrectly_Test_passes: "passes1 StreamBuffer_cutHeadLessThanUsedUpdatesSizesCorrectly_Test"
  by (simp add: test_eval StreamBuffer_cutHeadLessThanUsedUpdatesSizesCorrectly_Test_def del: One_nat_def poke.simps(2))

definition StreamBuffer_cutHeadMoreThanUsedUpdatesSizesCorrectly_Test :: "(sb_state, unit) prog" where
  "StreamBuffer_cutHeadMoreThanUsedUpdatesSizesCorrectly_Test = steps [
     sb_allocate 80,
     increaseUsed 15,
     expect_sizes 65 15 80,
     cutHead 20,
     EXPECT_PROPER_IOVEC_SIZES,
     expect_sizes 60 0 60]"

lemma StreamBuffer_cutHeadMoreThanUsedUpdatesSizesCorrectly_Test_passes: "passes1 StreamBuffer_cutHeadMoreThanUsedUpdatesSizesCorrectly_Test"
  by (simp add: test_eval StreamBuffer_cutHeadMoreThanUsedUpdatesSizesCorrectly_Test_def del: One_nat_def poke.simps(2))

definition StreamBuffer_cutHeadCutsDataCorrectlyWithPartialBuffer_Test :: "(sb_state, unit) prog" where
  "StreamBuffer_cutHeadCutsDataCorrectlyWithPartialBuffer_Test = steps [
     appendData (bytes ''Do cut me!''),
     cutHead 3,
     EXPECT_PROPER_IOVEC_SIZES,
     expect_used_text ''cut me!'']"

lemma StreamBuffer_cutHeadCutsDataCorrectlyWithPartialBuffer_Test_passes: "passes1 StreamBuffer_cutHeadCutsDataCorrectlyWithPartialBuffer_Test"
  by (simp add: test_eval StreamBuffer_cutHeadCutsDataCorrectlyWithPartialBuffer_Test_def del: One_nat_def poke.simps(2))

definition StreamBuffer_cutHeadCutsDataCorrectlyWithCompleteBuffer_Test :: "(sb_state, unit) prog" where
  "StreamBuffer_cutHeadCutsDataCorrectlyWithCompleteBuffer_Test = steps [
     appendData (bytes ''Complete block!''),
     appendData (bytes ''Do cut me!''),
     cutHead 20,
     EXPECT_PROPER_IOVEC_SIZES,
     expect_used_text ''t me!'']"

lemma StreamBuffer_cutHeadCutsDataCorrectlyWithCompleteBuffer_Test_passes: "passes1 StreamBuffer_cutHeadCutsDataCorrectlyWithCompleteBuffer_Test"
  by (simp add: test_eval StreamBuffer_cutHeadCutsDataCorrectlyWithCompleteBuffer_Test_def del: One_nat_def poke.simps(2))

definition StreamBuffer_cutHeadMoreThanTotalSizeThrows_Test :: "(sb_state, unit) prog" where
  "StreamBuffer_cutHeadMoreThanTotalSizeThrows_Test = steps [
     sb_allocate 8,
     EXPECT_THROW BufferUnderflow (cutHead 9)]"

lemma StreamBuffer_cutHeadMoreThanTotalSizeThrows_Test_passes: "passes1 StreamBuffer_cutHeadMoreThanTotalSizeThrows_Test"
  by (simp add: test_eval StreamBuffer_cutHeadMoreThanTotalSizeThrows_Test_def del: One_nat_def poke.simps(2))

definition StreamBuffer_getDataInHappyCaseDoesntLinearize_Test :: "(sb_state, unit) prog" where
  "StreamBuffer_getDataInHappyCaseDoesntLinearize_Test = steps [
     sb_allocate 100,
     appendData (take 1 (le_bytes 8 123)),
     bnd (getData 1 1) (\<lambda>origPtr. steps [appendData (drop 1 (le_bytes 8 123)), bnd (getData 8 8) (\<lambda>newPtr. steps [expect_uint64 123, expect (\<lambda>_. origPtr = newPtr)])])]"

lemma StreamBuffer_getDataInHappyCaseDoesntLinearize_Test_passes: "passes1 StreamBuffer_getDataInHappyCaseDoesntLinearize_Test"
  by (simp add: test_eval StreamBuffer_getDataInHappyCaseDoesntLinearize_Test_def del: One_nat_def poke.simps(2))

definition StreamBuffer_getDataLinearizesIfBufferIsNotAligned_Test :: "(sb_state, unit) prog" where
  "StreamBuffer_getDataLinearizesIfBufferIsNotAligned_Test = steps [
     sb_allocate 100,
     appendData [0],
     appendData (le_bytes 8 123),
     cutHead 1,
     bnd (getData 8 8) (\<lambda>ptr. steps [expect_uint64 123, expect (\<lambda>(sb, h). machine_address h ptr mod 8 = 0)])]"

lemma StreamBuffer_getDataLinearizesIfBufferIsNotAligned_Test_passes: "passes1 StreamBuffer_getDataLinearizesIfBufferIsNotAligned_Test"
  by (simp add: test_eval StreamBuffer_getDataLinearizesIfBufferIsNotAligned_Test_def del: One_nat_def poke.simps(2))

definition StreamBuffer_getDataLinearizesIfDataIsntInOneBuffer_Test :: "(sb_state, unit) prog" where
  "StreamBuffer_getDataLinearizesIfDataIsntInOneBuffer_Test = steps [
     appendData (le_bytes 8 1),
     appendData (le_bytes 8 2),
     appendData (le_bytes 8 3),
     appendData (le_bytes 8 4),
     bnd getUsedIOVec (\<lambda>v. expect (\<lambda>(sb, h). length v = 4)),
     bnd (getData 32 8) (expect_BigData 1 2 3 4)]"

lemma StreamBuffer_getDataLinearizesIfDataIsntInOneBuffer_Test_passes: "passes1 StreamBuffer_getDataLinearizesIfDataIsntInOneBuffer_Test"
  by (simp add: test_eval StreamBuffer_getDataLinearizesIfDataIsntInOneBuffer_Test_def del: One_nat_def poke.simps(2))

definition StreamBuffer_getDataThrowsIfNotEnoughUsedData_Test :: "(sb_state, unit) prog" where
  "StreamBuffer_getDataThrowsIfNotEnoughUsedData_Test = steps [
     sb_allocate 100,
     EXPECT_THROW BufferOverflow (getData 1 1)]"

lemma StreamBuffer_getDataThrowsIfNotEnoughUsedData_Test_passes: "passes1 StreamBuffer_getDataThrowsIfNotEnoughUsedData_Test"
  by (simp add: test_eval StreamBuffer_getDataThrowsIfNotEnoughUsedData_Test_def del: One_nat_def poke.simps(2))

definition StreamBuffer_getConstArrayThrowsIfNotEnoughUsedData_Test :: "(sb_state, unit) prog" where
  "StreamBuffer_getConstArrayThrowsIfNotEnoughUsedData_Test = steps [
     sb_allocate 100,
     increaseUsed 4,
     EXPECT_THROW BufferOverflow (getConstArray 3 3)]"

lemma StreamBuffer_getConstArrayThrowsIfNotEnoughUsedData_Test_passes: "passes1 StreamBuffer_getConstArrayThrowsIfNotEnoughUsedData_Test"
  by (simp add: test_eval StreamBuffer_getConstArrayThrowsIfNotEnoughUsedData_Test_def del: One_nat_def poke.simps(2))

definition StreamBuffer_getConstArrayInOneBuffer_Test :: "(sb_state, unit) prog" where
  "StreamBuffer_getConstArrayInOneBuffer_Test = steps [
     sb_allocate 100,
     appendData (le_bytes 8 1),
     appendData (le_bytes 8 2),
     bnd (getConstArray 0 8) (\<lambda>p. expect (\<lambda>(sb, h). uint64_at h p = 1)),
     bnd (getConstArray 8 8) (\<lambda>p. expect (\<lambda>(sb, h). uint64_at h p = 2))]"

lemma StreamBuffer_getConstArrayInOneBuffer_Test_passes: "passes1 StreamBuffer_getConstArrayInOneBuffer_Test"
  by (simp add: test_eval StreamBuffer_getConstArrayInOneBuffer_Test_def del: One_nat_def poke.simps(2))

definition StreamBuffer_getConstArrayInMultipleBuffers_Test :: "(sb_state, unit) prog" where
  "StreamBuffer_getConstArrayInMultipleBuffers_Test = steps [
     sb_allocate 24,
     appendData (le_bytes 8 1),
     appendData (le_bytes 8 2),
     appendData (le_bytes 8 3),
     bnd getUsedIOVec (\<lambda>v. expect (\<lambda>(sb, h). length v = 1)),
     sb_allocate 16,
     appendData (le_bytes 8 4),
     appendData (le_bytes 8 5),
     bnd getUsedIOVec (\<lambda>v. expect (\<lambda>(sb, h). length v = 2)),
     bnd (getConstArray 8 32) (expect_BigData 2 3 4 5)]"

lemma StreamBuffer_getConstArrayInMultipleBuffers_Test_passes: "passes1 StreamBuffer_getConstArrayInMultipleBuffers_Test"
  by (simp add: test_eval StreamBuffer_getConstArrayInMultipleBuffers_Test_def del: One_nat_def poke.simps(2))

definition StreamBuffer_copyOfStreamBufferSharesTheSameRawData_Test :: "(two_buffers, unit) prog" where
  "StreamBuffer_copyOfStreamBufferSharesTheSameRawData_Test = steps [
     on_sb1 (appendData (bytes ''blaablaablaa'')),
     bnd (get_st tb1) (\<lambda>sb. set_sb2 (sb_copy sb)),
     bnd (on_sb1 (getData 1 1)) (\<lambda>ptr1. bnd (on_sb2 (getData 1 1)) (\<lambda>ptr2. expect (\<lambda>_. ptr1 = ptr2)))]"

lemma StreamBuffer_copyOfStreamBufferSharesTheSameRawData_Test_passes: "passes2 StreamBuffer_copyOfStreamBufferSharesTheSameRawData_Test"
  by (simp add: test_eval StreamBuffer_copyOfStreamBufferSharesTheSameRawData_Test_def del: One_nat_def poke.simps(2))

definition StreamBuffer_afterAssignmentSharesTheSameRawData_Test :: "(two_buffers, unit) prog" where
  "StreamBuffer_afterAssignmentSharesTheSameRawData_Test = steps [
     on_sb1 (appendData (bytes ''blaablaablaa'')),
     bnd (get_st (\<lambda>s. sb_assign (tb2 s) (tb1 s))) set_sb2,
     bnd (on_sb1 (getData 1 1)) (\<lambda>ptr1. bnd (on_sb2 (getData 1 1)) (\<lambda>ptr2. expect (\<lambda>_. ptr1 = ptr2)))]"

lemma StreamBuffer_afterAssignmentSharesTheSameRawData_Test_passes: "passes2 StreamBuffer_afterAssignmentSharesTheSameRawData_Test"
  by (simp add: test_eval StreamBuffer_afterAssignmentSharesTheSameRawData_Test_def del: One_nat_def poke.simps(2))

definition StreamBuffer_getMutableArrayTakesRoundingIntoAccountWhenAddingNewBuffer_Test :: "(sb_state, unit) prog" where
  "StreamBuffer_getMutableArrayTakesRoundingIntoAccountWhenAddingNewBuffer_Test = steps [
     sb_allocate 16,
     increaseUsed 15,
     discard (getMutableArray 2),
     bnd getFreeIOVec (\<lambda>v. expect (\<lambda>(sb, h). sum_list (map iov_len v) = getFreeSize sb))]"

lemma StreamBuffer_getMutableArrayTakesRoundingIntoAccountWhenAddingNewBuffer_Test_passes: "passes1 StreamBuffer_getMutableArrayTakesRoundingIntoAccountWhenAddingNewBuffer_Test"
  by (simp add: test_eval StreamBuffer_getMutableArrayTakesRoundingIntoAccountWhenAddingNewBuffer_Test_def del: One_nat_def poke.simps(2))

section \<open>Loops\<close>

definition StreamBuffer_allocateRoundsUp8Bytes_Test :: "(sb_state, unit) prog" where
  "StreamBuffer_allocateRoundsUp8Bytes_Test = steps (map (\<lambda>i. steps [
     modify_st (\<lambda>(_, h). (sb_empty, h)),
     sb_allocate i,
     expect (\<lambda>(sb, h). 8 \<le> getFreeSize sb)]) [1..<8])"

definition StreamBuffer_allocatingAlreadyExistingSizeDoesntChangeAnything_Test :: "(sb_state, unit) prog" where
  "StreamBuffer_allocatingAlreadyExistingSizeDoesntChangeAnything_Test = seq (sb_allocate 100)
     (bnd (get_st fst) (\<lambda>sb0. steps (map (\<lambda>i. steps [
        sb_allocate i,
        expect (\<lambda>(sb, h). getFreeSize sb = getFreeSize sb0 \<and> getUsedSize sb = getUsedSize sb0
          \<and> getTotalSize sb = getTotalSize sb0)]) [0..<100])))"

definition StreamBuffer_getUsedIOVecWithTooManyBuffers_Test :: "(sb_state, unit) prog" where
  "StreamBuffer_getUsedIOVecWithTooManyBuffers_Test = steps [
     steps (map (\<lambda>_. appendData (bytes ''1234567890123456'')) [0..<iov_max + 3]),
     bnd getUsedIOVec (\<lambda>v. expect (\<lambda>_. length v = iov_max))]"

definition StreamBuffer_getFreeIOVecWithTooManyBuffers_Test :: "(sb_state, unit) prog" where
  "StreamBuffer_getFreeIOVecWithTooManyBuffers_Test = steps [
     steps (map (\<lambda>i. sb_allocate (i * 16 + 16)) [0..<iov_max + 3]),
     bnd getFreeIOVec (\<lambda>v. expect (\<lambda>_. length v = iov_max))]"

lemma StreamBuffer_allocateRoundsUp8Bytes_Test_passes: "passes1 StreamBuffer_allocateRoundsUp8Bytes_Test"
proof -
  have "[1::nat..<8] = [1, 2, 3, 4, 5, 6, 7]" by (simp add: upt_conv_Cons)
  then show ?thesis
    by (simp add: StreamBuffer_allocateRoundsUp8Bytes_Test_def test_eval del: One_nat_def poke.simps(2))
qed

lemma StreamBuffer_allocatingAlreadyExistingSizeDoesntChangeAnything_Test_passes:
  "passes1 StreamBuffer_allocatingAlreadyExistingSizeDoesntChangeAnything_Test"
  unfolding passes1_def
proof (intro allI impI)
  fix h assume h: "fresh_heap h"
  let ?sb = "\<lparr>buffers = [\<lparr>buf_base = 0, buf_off = 0, buf_size = 104\<rparr>], usedSize = 0, totalSize = 104, iovecArray = []\<rparr>"
  have s: "sb_allocate 100 (sb_empty, h) = (Ok (), (?sb, h\<lparr>blocks := [104]\<rparr>))"
    using h by (simp add: fresh_heap_def sb_eval)
  have "steps (map (\<lambda>i. steps [sb_allocate i, expect (\<lambda>(sb, h). getFreeSize sb = getFreeSize ?sb
      \<and> getUsedSize sb = getUsedSize ?sb \<and> getTotalSize sb = getTotalSize ?sb)]) [0..<100])
      (?sb, h\<lparr>blocks := [104]\<rparr>) = (Ok (), (?sb, h\<lparr>blocks := [104]\<rparr>))"
    by (rule steps_fixed) (auto simp: seq_run sb_allocate_def getFreeSize_def minus64_def expect_run)
  then show "fst (StreamBuffer_allocatingAlreadyExistingSizeDoesntChangeAnything_Test (sb_empty, h)) = Ok ()"
    by (simp add: StreamBuffer_allocatingAlreadyExistingSizeDoesntChangeAnything_Test_def seq_run s bnd_run)
qed

text \<open>\<open>k\<close> buffers of 16 bytes, of which the first \<open>u\<close> bytes are used.\<close>

definition sixteens :: "nat \<Rightarrow> nat \<Rightarrow> sb_state \<Rightarrow> bool" where
  "sixteens k u = (\<lambda>(sb, h). length (buffers sb) = k \<and> (\<forall>b \<in> set (buffers sb). buf_size b = 16)
     \<and> usedSize sb = u \<and> totalSize sb = 16 * k \<and> (\<forall>b n. can_alloc h b n))"

lemma findLocation_16: "\<forall>b \<in> set bs. buf_size b = 16 \<Longrightarrow> n \<le> length bs \<Longrightarrow> findLocation bs (16 * n) = Some (n, 0)"
proof (induction bs arbitrary: n)
  case (Cons b bs)
  then show ?case by (cases n) (simp_all add: loops_pos)
qed simp

lemma used_iovs_16: "\<forall>b \<in> set bs. buf_size b = 16 \<Longrightarrow> n \<le> length bs \<Longrightarrow>
    \<exists>v. used_iovs bs (16 * n) room = Some v \<and> length v = min n room"
proof (induction bs arbitrary: n room)
  case (Cons b bs)
  show ?case
  proof (cases "n = 0 \<or> room = 0")
    case True
    then show ?thesis by (cases "16 * n"; cases room; auto)
  next
    case False
    then obtain m r where "n = Suc m" "room = Suc r" by (meson not0_implies_Suc)
    with Cons.IH [of m r] Cons.prems show ?thesis by (auto simp: used_iovs_pos)
  qed
qed simp

lemma new_buffer_16:
  "(\<And>b n. can_alloc h b n) \<Longrightarrow> new_buffer 16 h
     = (Ok \<lparr>buf_base = length (blocks h), buf_off = 0, buf_size = 16\<rparr>, h\<lparr>blocks := blocks h @ [16]\<rparr>)"
  by (simp add: new_buffer_def align_up_def buffer_align_to_def plus64_def size_t_max_def Let_def)

lemma len16: "length (bytes ''1234567890123456'') = 16"
  by (simp add: bytes_def)

lemma append_16:
  assumes "sixteens k (16 * k) s" and "k < 2000" and "length d = 16"
  shows "\<exists>s'. appendData d s = (Ok (), s') \<and> sixteens (Suc k) (16 * Suc k) s'"
proof -
  obtain sb h where s: "s = (sb, h)" by (cases s)
  let ?b = "\<lparr>buf_base = length (blocks h), buf_off = 0, buf_size = 16\<rparr>"
  have alloc: "sb_allocate 16 (sb, h) = (Ok (), (sb\<lparr>buffers := buffers sb @ [?b], totalSize := 16 * Suc k\<rparr>, h\<lparr>blocks := blocks h @ [16]\<rparr>))"
    using assms by (simp add: s sixteens_def sb_allocate_def getFreeSize_def new_buffer_16 size_t_max_def)
  have "findLocation (buffers sb @ [?b]) (16 * k) = Some (k, 0)"
    using assms by (intro findLocation_16) (auto simp: s sixteens_def)
  with alloc show ?thesis
    using assms by (auto simp: s sixteens_def appendData_def seq_run findFirstUnused_def sizeLeftInBuffer_def
        nth_append increaseUsed_def size_t_max_def poke_fields)
qed

lemma StreamBuffer_getUsedIOVecWithTooManyBuffers_Test_passes: "passes1 StreamBuffer_getUsedIOVecWithTooManyBuffers_Test"
  unfolding passes1_def
proof (intro allI impI)
  fix h assume h: "fresh_heap h"
  then have start: "sixteens 0 (16 * 0) (sb_empty, h)" by (auto simp: sixteens_def sb_empty_def fresh_heap_def)
  have step: "\<exists>s'.  appendData (bytes ''1234567890123456'') s = (Ok (), s') \<and> sixteens (Suc k) (16 * Suc k) s'"
    if "k < iov_max + 3" "sixteens k (16 * k) s" for k s
    by (rule append_16 [OF that(2) _ len16]) (use that(1) in \<open>simp add: iov_max_def\<close>)
  have "\<exists>s'. steps (map (\<lambda>_. appendData (bytes ''1234567890123456'')) [0..<iov_max + 3]) (sb_empty, h) = (Ok (), s') \<and> sixteens (iov_max + 3) (16 * (iov_max + 3)) s'"
    by (rule steps_iterate [where I = "\<lambda>k. sixteens k (16 * k)", OF step start])
  then obtain s' where s': "steps (map (\<lambda>_. appendData (bytes ''1234567890123456'')) [0..<iov_max + 3]) (sb_empty, h) = (Ok (), s')" "sixteens (iov_max + 3) (16 * (iov_max + 3)) s'" by blast
  obtain sb h' where eq: "s' = (sb, h')" by (cases s')
  note run = s'(1) [unfolded eq] and I = s'(2) [unfolded eq]
  obtain v where "used_iovs (buffers sb) (16 * (iov_max + 3)) iov_max = Some v" "length v = min (iov_max + 3) iov_max"
    using used_iovs_16 [of "buffers sb" "iov_max + 3" iov_max] I by (auto simp: sixteens_def)
  with I show "fst (StreamBuffer_getUsedIOVecWithTooManyBuffers_Test (sb_empty, h)) = Ok ()"
    by (simp add: StreamBuffer_getUsedIOVecWithTooManyBuffers_Test_def run seq_run bnd_run getUsedIOVec_def allocateIOVecArray_def
        sixteens_def Let_def expect_run)
qed

lemma allocate_16:
  assumes "sixteens k 0 s" and "k < 2000"
  shows "\<exists>s'. sb_allocate (k * 16 + 16) s = (Ok (), s') \<and> sixteens (Suc k) 0 s'"
  using assms by (cases s) (auto simp: sixteens_def sb_allocate_def getFreeSize_def new_buffer_16 size_t_max_def)

lemma StreamBuffer_getFreeIOVecWithTooManyBuffers_Test_passes: "passes1 StreamBuffer_getFreeIOVecWithTooManyBuffers_Test"
  unfolding passes1_def
proof (intro allI impI)
  fix h assume h: "fresh_heap h"
  then have start: "sixteens 0 0 (sb_empty, h)" by (auto simp: sixteens_def sb_empty_def fresh_heap_def)
  have step: "\<exists>s'. sb_allocate (k * 16 + 16) s = (Ok (), s') \<and> sixteens (Suc k) 0 s'"
    if "k < iov_max + 3" "sixteens k 0 s" for k s
    by (rule allocate_16 [OF that(2)]) (use that(1) in \<open>simp add: iov_max_def\<close>)
  have "\<exists>s'. steps (map (\<lambda>i. sb_allocate (i * 16 + 16)) [0..<iov_max + 3]) (sb_empty, h) = (Ok (), s') \<and> sixteens (iov_max + 3) 0 s'"
    by (rule steps_iterate [where I = "\<lambda>k. sixteens k 0", OF step start])
  then obtain s' where s': "steps (map (\<lambda>i. sb_allocate (i * 16 + 16)) [0..<iov_max + 3]) (sb_empty, h) = (Ok (), s')" "sixteens (iov_max + 3) 0 s'" by blast
  obtain sb h' where eq: "s' = (sb, h')" by (cases s')
  note run = s'(1) [unfolded eq] and I = s'(2) [unfolded eq]
  have "buffers (allocateIOVecArray sb) = buffers sb" "usedSize (allocateIOVecArray sb) = usedSize sb"
    by (simp_all add: allocateIOVecArray_def)
  then have "\<exists>v s2. getFreeIOVec (sb, h') = (Ok v, s2) \<and> length v = iov_max"
    using I by (auto simp: getFreeIOVec_def sixteens_def Let_def findFirstUnused_def iov_max_def)
  then obtain v s2 where "getFreeIOVec (sb, h') = (Ok v, s2)" "length v = iov_max" by blast
  then show "fst (StreamBuffer_getFreeIOVecWithTooManyBuffers_Test (sb_empty, h)) = Ok ()"
    by (simp add: StreamBuffer_getFreeIOVecWithTooManyBuffers_Test_def run seq_run bnd_run expect_run)
qed

end
