(* ===== verification/ClassDumps.thy ===== *)
theory ClassDumps
  imports Dump EchoServer SeqPacketSocket ChildProcess
begin

text \<open>
  Model of the \<open>dump\<close> functions of the library's classes and of the \<open>DUMP_\<close> macros of
  \<open>include/EventLoop/DumpUtils.hpp\<close> they are written with. A \<open>dump\<close> takes the stream and gives it back;
  it is a program, since some dumps ask the system for the time, the signal mask or the names of a
  socket. What the model of a class has no value for is an argument: the demangled type and the
  address of the object (\<open>self\<close>), the addresses of other objects, the order in which an
  \<open>unordered_map\<close> is visited, and the texts of \<open>boost\<close>'s durations and thread ids.
\<close>

section \<open>The macros\<close>

type_synonym obj_id = "string \<times> nat"
type_synonym 's dumper = "ostream \<Rightarrow> ('s, ostream) prog"

definition writes :: "(ostream \<Rightarrow> ostream) \<Rightarrow> 's dumper" where
  "writes f = (\<lambda>os. ret (f os))"

primrec dump_seq :: "'s dumper list \<Rightarrow> 's dumper" where
  "dump_seq [] = writes id"
| "dump_seq (d # ds) = (\<lambda>os. bnd (d os) (dump_seq ds))"

definition DUMP_BEGIN :: "obj_id \<Rightarrow> 's dumper" where
  "DUMP_BEGIN self = writes (\<lambda>os. put [LF] (put_ptr (snd self) (put (fst self @ [LF, CHR ''{'', LF] @ ''this: '') os)))"

definition DUMP_END :: "'s dumper" where
  "DUMP_END = writes (put [CHR ''}'', LF])"

definition DUMP_BLOCK :: "string \<Rightarrow> 's dumper list \<Rightarrow> 's dumper" where
  "DUMP_BLOCK title ds = dump_seq (writes (put (title @ '':'' @ [LF, CHR ''{'', LF])) # ds @ [writes (put [CHR ''}'', LF])])"

definition dump_object :: "obj_id \<Rightarrow> 's dumper list \<Rightarrow> 's dumper" where
  "dump_object self ds = dump_seq (DUMP_BEGIN self # ds @ [DUMP_END])"

definition DUMP_VALUE_OF :: "string \<Rightarrow> dvalue \<Rightarrow> 's dumper" where
  "DUMP_VALUE_OF name v = writes (outputNameAndValue (CName (Some name)) v)"

definition DUMP_ADDRESS_OF :: "string \<Rightarrow> nat \<Rightarrow> 's dumper" where
  "DUMP_ADDRESS_OF name p = DUMP_VALUE_OF name (DPtr p)"

definition DUMP_CONTAINER :: "string \<Rightarrow> dvalue list \<Rightarrow> 's dumper" where
  "DUMP_CONTAINER name vs = writes (outputContainer name vs)"

definition DUMP_PAIR_CONTAINER :: "string \<Rightarrow> (dname \<times> dvalue) list \<Rightarrow> 's dumper" where
  "DUMP_PAIR_CONTAINER name kvs = writes (outputPairContainer name kvs)"

text \<open>A member that is an object: its own \<open>dump\<close> writes to a stream of its own, with the same flags. The
  element of a container of objects likewise.\<close>

definition dump_text :: "'s dumper \<Rightarrow> ostream \<Rightarrow> ('s, string) prog" where
  "dump_text d os = bnd (d (copy_flags os new_ostringstream)) (\<lambda>tmp. ret (os_text tmp))"

definition DUMP_OBJECT_OF :: "string \<Rightarrow> 's dumper \<Rightarrow> 's dumper" where
  "DUMP_OBJECT_OF name d = (\<lambda>os. bnd (dump_text d os) (\<lambda>t. DUMP_VALUE_OF name (DDumpable t) os))"

definition DUMP_OBJECTS :: "string \<Rightarrow> 's dumper list \<Rightarrow> 's dumper" where
  "DUMP_OBJECTS name ds = DUMP_BLOCK (c_str name)
     (map (\<lambda>d os. bnd (dump_text d os) (\<lambda>t. ret (outputNamelessValue (DDumpable t) os))) ds)"

definition DUMP_OBJECT_POINTED_BY :: "string \<Rightarrow> 's dumper option \<Rightarrow> 's dumper" where
  "DUMP_OBJECT_POINTED_BY name p = (case p of None \<Rightarrow> DUMP_VALUE_OF name DNull | Some d \<Rightarrow> DUMP_OBJECT_OF name d)"

text \<open>\<open>ex\<close> gives the name of the type and \<open>what()\<close> of an exception; a \<open>catch\<close> for \<open>std::exception\<close> takes
  all of them.\<close>

definition DUMP_RESULT_OF :: "(exn \<Rightarrow> string \<times> string) \<Rightarrow> string \<Rightarrow> ('s, dvalue) prog \<Rightarrow> 's dumper" where
  "DUMP_RESULT_OF ex func m = (\<lambda>os s. case m s of
       (Ok v, s') \<Rightarrow> DUMP_VALUE_OF func v os s'
     | (Throw e, s') \<Rightarrow> DUMP_VALUE_OF func (DException (fst (ex e)) (snd (ex e))) os s'
     | (r, s') \<Rightarrow> (fail_as r, s'))"

definition DUMP_AS :: "'s dumper \<Rightarrow> 's dumper" where
  "DUMP_AS parent_dump = DUMP_BLOCK ''parent'' [parent_dump]"

section \<open>Small classes\<close>

definition FDListener_dump :: "obj_id \<Rightarrow> 's dumper" where
  "FDListener_dump self = dump_object self []"

definition Callee_dump :: "obj_id \<Rightarrow> nat \<Rightarrow> nat \<Rightarrow> 's dumper" where
  "Callee_dump self life uses = dump_object self [DUMP_VALUE_OF ''life'' (DShared life uses)]"

definition FDMonitor_dump :: "obj_id \<Rightarrow> ('l, 'w, 'z) monitored_scheme \<Rightarrow> 's dumper" where
  "FDMonitor_dump self m = dump_object self
     [DUMP_VALUE_OF ''monitoring'' (DBool (monitoring m)),
      DUMP_CONTAINER ''set'' (map DInt (sorted_list_of_set (deletedFds m)))]"

text \<open>A descriptor is printed as its number.\<close>

definition Epoll_dump :: "obj_id \<Rightarrow> ('l, 'w, 'z) reg_scheme \<Rightarrow> 's dumper" where
  "Epoll_dump self e = dump_object self
     [DUMP_VALUE_OF ''epfd'' (DInt (epfd e)), DUMP_VALUE_OF ''addCount'' (DNat (addCount e))]"

definition CallbackQueue_dump :: "obj_id \<Rightarrow> 'c callback_queue \<Rightarrow> 's dumper" where
  "CallbackQueue_dump self q = dump_object self
     [DUMP_CONTAINER ''queue'' (map (\<lambda>_. DFunction True) (queue q)),
      DUMP_VALUE_OF ''wakeUp'' (DFunction (wakeUp_set q))]"

text \<open>\<open>position\<close> is an iterator, which has no \<open>operator <<\<close>: its 8 bytes are the address of the node.\<close>

definition Timer_dump :: "obj_id \<Rightarrow> nat \<Rightarrow> (nat option \<Rightarrow> nat) \<Rightarrow> 'c timer \<Rightarrow> 's dumper" where
  "Timer_dump self tq_addr node_addr t = dump_object self
     [DUMP_ADDRESS_OF ''tq'' tq_addr,
      DUMP_VALUE_OF ''position'' (DBytes (le_bytes 8 (node_addr (position t)))),
      DUMP_VALUE_OF ''cb'' (DFunction (timer_cb t \<noteq> None))]"

definition TimerQueue_dump :: "obj_id \<Rightarrow> (exn \<Rightarrow> string \<times> string) \<Rightarrow> nat \<Rightarrow> (duration \<Rightarrow> string) \<Rightarrow> (nat \<Rightarrow> nat) \<Rightarrow>
    ('s, duration) prog \<Rightarrow> 'c timer_queue \<Rightarrow> 's dumper" where
  "TimerQueue_dump self ex system_addr show_duration timer_addr clock q = dump_object self
     [DUMP_ADDRESS_OF ''system'' system_addr,
      DUMP_RESULT_OF ex ''system.getMonotonicClock()'' (bnd clock (\<lambda>d. ret (DShown (show_duration d)))),
      DUMP_PAIR_CONTAINER ''queue''
        (map (\<lambda>e. (VName (DShown (show_duration (tte e))), DPtr (timer_addr (owner e)))) (entries q))]"

text \<open>The loop over the map: \<open>fds\<close> are its keys in the order they are visited, \<open>listener_dump\<close> the
  \<open>dump\<close> of the listeners.\<close>

definition dump_entry :: "('l \<Rightarrow> 's dumper) \<Rightarrow> rawfd \<Rightarrow> 'l \<times> event_mask \<Rightarrow> 's dumper" where
  "dump_entry listener_dump fd e = dump_seq
     [writes (\<lambda>os. copy_flags os (put_nat (unat (snd e))
        ((put '' events: 0x'' (put_int fd (put ''fd: '' os)))\<lparr>os_hex := True\<rparr>))),
      writes (put [LF]),
      listener_dump (fst e)]"

definition FDListenerMap_dump :: "obj_id \<Rightarrow> bool \<times> bool \<times> bool \<Rightarrow> ('l \<Rightarrow> 's dumper) \<Rightarrow> rawfd list \<Rightarrow>
    ('l, 'z) fdl_map_scheme \<Rightarrow> 's dumper" where
  "FDListenerMap_dump self callbacks listener_dump fds m = dump_object self
     [DUMP_VALUE_OF ''addCallback'' (DFunction (fst callbacks)),
      DUMP_VALUE_OF ''modifyCallback'' (DFunction (fst (snd callbacks))),
      DUMP_VALUE_OF ''delCallback'' (DFunction (snd (snd callbacks))),
      DUMP_BLOCK ''map'' (map (\<lambda>fd. case listeners m fd of
          None \<Rightarrow> writes id
        | Some e \<Rightarrow> dump_entry listener_dump fd e) fds)]"

section \<open>Buffers and sockets\<close>

definition dump_buffer :: "heap \<Rightarrow> buffer \<Rightarrow> 's dumper" where
  "dump_buffer h b = dump_seq
     [writes (\<lambda>os. put [LF] (put_ptr (base_addr h (buf_base b)) (put ''base: '' os))),
      writes (\<lambda>os. put [LF] (put_ptr (machine_address h (buf_data b)) (put ''data: '' os))),
      writes (\<lambda>os. put [LF] (put_nat (buf_size b) (put ''size: '' os)))]"

definition dump_iovec :: "heap \<Rightarrow> iovec \<Rightarrow> 's dumper" where
  "dump_iovec h v = dump_seq
     [writes (\<lambda>os. put [LF] (put_ptr (case iov_base v of None \<Rightarrow> 0 | Some a \<Rightarrow> machine_address h a) (put ''iov_base: '' os))),
      writes (\<lambda>os. put [LF] (put_nat (iov_len v) (put ''iov_len: '' os)))]"

definition StreamBuffer_dump :: "obj_id \<Rightarrow> heap \<Rightarrow> stream_buffer \<Rightarrow> 's dumper" where
  "StreamBuffer_dump self h sb = dump_object self
     [DUMP_BLOCK ''buffers'' (map (dump_buffer h) (buffers sb)),
      DUMP_VALUE_OF ''usedSize'' (DNat (stream_buffer.usedSize sb)),
      DUMP_VALUE_OF ''totalSize'' (DNat (totalSize sb)),
      DUMP_BLOCK ''iovecArray'' (map (dump_iovec h) (iovecArray sb)),
      DUMP_VALUE_OF ''iovecArraySize'' (DNat (length (iovecArray sb)))]"

text \<open>The name of a socket, printed with \<open>operator <<\<close> of \<open>SocketAddress\<close>.\<close>

definition show_name :: "netdb \<Rightarrow> ('s, byte list) prog \<Rightarrow> ('s, dvalue) prog" where
  "show_name N m = bnd m (\<lambda>bs s. case print_address N (filled_with bs) of
       Ok t \<Rightarrow> (Ok (DShown t), s) | r \<Rightarrow> (fail_as r, s))"

text \<open>The addresses a socket dumps: of the system, the runner, the input and the output.\<close>

record dump_addrs =
  da_system :: nat
  da_runner :: nat
  da_in :: obj_id
  da_out :: obj_id
  da_parent :: obj_id

definition StreamSocket_dump :: "obj_id \<Rightarrow> netdb \<Rightarrow> (exn \<Rightarrow> string \<times> string) \<Rightarrow> dump_addrs \<Rightarrow> 'w system \<Rightarrow>
    'w ss_callbacks \<Rightarrow> 'w stream_socket \<Rightarrow> 'w stream_socket dumper" where
  "StreamSocket_dump self N ex a S cbs s = dump_object self
     [DUMP_ADDRESS_OF ''system'' (da_system a),
      DUMP_ADDRESS_OF ''runner'' (da_runner a),
      DUMP_VALUE_OF ''fd'' (DInt (ss_fd s)),
      DUMP_VALUE_OF ''connecting'' (DBool (connecting s)),
      DUMP_VALUE_OF ''sending'' (DBool (sending s)),
      DUMP_OBJECT_OF ''input'' (StreamBuffer_dump (da_in a) (ss_heap s) (ss_input s)),
      DUMP_OBJECT_OF ''output'' (StreamBuffer_dump (da_out a) (ss_heap s) (ss_output s)),
      DUMP_VALUE_OF ''connectionEstablishedCb'' (DFunction (connectionEstablishedCb cbs \<noteq> None)),
      DUMP_VALUE_OF ''connectionClosedCb'' (DFunction True),
      DUMP_VALUE_OF ''dataReceivedCb'' (DFunction True),
      DUMP_VALUE_OF ''allDataSentCb'' (DFunction (allDataSentCb cbs \<noteq> None)),
      DUMP_RESULT_OF ex ''getName()'' (show_name N (ss_getName S)),
      DUMP_RESULT_OF ex ''getPeer()'' (show_name N (ss_getPeer S)),
      DUMP_AS (FDListener_dump (da_parent a))]"

text \<open>
  \<open>buffer->data()\<close> is a \<open>char *\<close>, which \<open>operator <<\<close> takes as a C string: it is read up to the first
  zero byte, which need not be in the packet. Of an empty packet it may be a null pointer.
\<close>

definition show_chars :: "byte list \<Rightarrow> ('s, dvalue) prog" where
  "show_chars data = (if 0 \<in> set data then ret (DShown (c_str (map chr data))) else undef)"

definition Data_dump :: "obj_id \<Rightarrow> (exn \<Rightarrow> string \<times> string) \<Rightarrow> nat \<Rightarrow> packet \<Rightarrow> 's dumper" where
  "Data_dump self ex cm_addr p = dump_object self
     [DUMP_RESULT_OF ex ''buffer->data()'' (show_chars (fst p)),
      DUMP_RESULT_OF ex ''buffer->size()'' (ret (DNat (length (fst p)))),
      DUMP_RESULT_OF ex ''cm->data()'' (ret (DPtr cm_addr)),
      DUMP_RESULT_OF ex ''cm->size()'' (ret (DNat (cm_used (snd p))))]"

definition SeqPacketSocket_dump :: "obj_id \<Rightarrow> netdb \<Rightarrow> (exn \<Rightarrow> string \<times> string) \<Rightarrow> dump_addrs \<Rightarrow> (nat \<Rightarrow> obj_id \<times> nat) \<Rightarrow>
    'w system \<Rightarrow> 'w sq_callbacks \<Rightarrow> 'w seq_packet_socket \<Rightarrow> 'w seq_packet_socket dumper" where
  "SeqPacketSocket_dump self N ex a packet_addr S cbs s = dump_object self
     [DUMP_ADDRESS_OF ''system'' (da_system a),
      DUMP_ADDRESS_OF ''runner'' (da_runner a),
      DUMP_VALUE_OF ''fd'' (DInt (sq_fd s)),
      DUMP_VALUE_OF ''maxSize'' (DNat (maxSize s)),
      DUMP_VALUE_OF ''connecting'' (DBool (sq_connecting s)),
      DUMP_VALUE_OF ''sending'' (DBool (sq_sending s)),
      DUMP_RESULT_OF ex ''buffer.size()'' (ret (DNat (length (sq_buffer s)))),
      DUMP_RESULT_OF ex ''cm.capacity()'' (ret (DNat (capacity (sq_cm s)))),
      DUMP_OBJECTS ''outputQueue'' (map (\<lambda>(i, p). Data_dump (fst (packet_addr i)) ex (snd (packet_addr i)) p)
        (enumerate 0 (outputQueue s))),
      DUMP_VALUE_OF ''connectionEstablishedCb'' (DFunction (sqc_established cbs \<noteq> None)),
      DUMP_VALUE_OF ''connectionClosedCb'' (DFunction True),
      DUMP_VALUE_OF ''dataReceivedCb'' (DFunction True),
      DUMP_VALUE_OF ''allDataSentCb'' (DFunction (sqc_sent cbs \<noteq> None)),
      DUMP_RESULT_OF ex ''getName()'' (show_name N (sq_getName S)),
      DUMP_RESULT_OF ex ''getPeer()'' (show_name N (sq_getPeer S)),
      DUMP_AS (FDListener_dump (da_parent a))]"

definition ListeningSocket_dump :: "obj_id \<Rightarrow> netdb \<Rightarrow> (exn \<Rightarrow> string \<times> string) \<Rightarrow> dump_addrs \<Rightarrow> 'w system \<Rightarrow>
    'w ls_callbacks \<Rightarrow> 'w listening_socket \<Rightarrow> 'w listening_socket dumper" where
  "ListeningSocket_dump self N ex a S cbs s = dump_object self
     [DUMP_ADDRESS_OF ''system'' (da_system a),
      DUMP_ADDRESS_OF ''runner'' (da_runner a),
      DUMP_VALUE_OF ''fd'' (DInt (ls_fd s)),
      DUMP_VALUE_OF ''newAcceptedSocketCb'' (DFunction True),
      DUMP_VALUE_OF ''handleExceptionCb'' (DFunction (handleExceptionCb cbs \<noteq> None)),
      DUMP_RESULT_OF ex ''getName()'' (show_name N (ls_getName S)),
      DUMP_AS (FDListener_dump (da_parent a))]"

definition ChildProcess_dump :: "obj_id \<Rightarrow> dump_addrs \<Rightarrow> nat \<Rightarrow> nat \<Rightarrow> nat \<Rightarrow> 'w cp_callbacks \<Rightarrow> 'w child_process \<Rightarrow>
    's dumper" where
  "ChildProcess_dump self a is_addr os_addr es_addr cbs s = dump_object self
     [DUMP_ADDRESS_OF ''system'' (da_system a),
      DUMP_ADDRESS_OF ''runner'' (da_runner a),
      DUMP_VALUE_OF ''in.fd'' (DInt (cp_in s)),
      DUMP_ADDRESS_OF ''in.is'' is_addr,
      DUMP_VALUE_OF ''out.fd'' (DInt (cp_out s)),
      DUMP_ADDRESS_OF ''out.os'' os_addr,
      DUMP_VALUE_OF ''err.fd'' (DInt (cp_err s)),
      DUMP_ADDRESS_OF ''err.os'' es_addr,
      DUMP_VALUE_OF ''pid'' (DInt (cp_pid s)),
      DUMP_VALUE_OF ''successCb'' (DFunction (successCb cbs \<noteq> None)),
      DUMP_VALUE_OF ''errorCb'' (DFunction (errorCb cbs \<noteq> None)),
      DUMP_VALUE_OF ''signalCb'' (DFunction (signalCb cbs \<noteq> None)),
      DUMP_AS (FDListener_dump (da_parent a))]"

section \<open>Runners\<close>

definition EventPipe_dump :: "obj_id \<Rightarrow> nat \<Rightarrow> nat \<Rightarrow> ('u, 'c, 'w, 'z) epoll_runner_scheme \<Rightarrow> 's dumper" where
  "EventPipe_dump self system_addr map_addr r = dump_object self
     [DUMP_ADDRESS_OF ''system'' system_addr,
      DUMP_ADDRESS_OF ''fdListenerMap'' map_addr,
      DUMP_VALUE_OF ''readFD'' (DInt (readFD r)),
      DUMP_VALUE_OF ''writeFD'' (DInt (writeFD r))]"

text \<open>The dump of a \<open>SignalFD\<close> asks the system for the signals that are blocked now.\<close>

definition SignalFD_dump :: "obj_id \<Rightarrow> nat \<Rightarrow> nat \<Rightarrow> 'w system \<Rightarrow> signal_fd \<Rightarrow> ('u, 'c, 'w, 'z) epoll_runner_scheme dumper" where
  "SignalFD_dump self system_addr runner_addr S f = dump_object self
     [DUMP_ADDRESS_OF ''system'' system_addr,
      DUMP_ADDRESS_OF ''runner'' runner_addr,
      DUMP_VALUE_OF ''fd'' (DInt (sigfd f)),
      DUMP_VALUE_OF ''handledSignals'' (DShown (sset_print (handledSignals f))),
      DUMP_VALUE_OF ''originallyBlockedSignals'' (DShown (sset_print (originallyBlockedSignals f))),
      \<lambda>os. bnd (on_world (sys_sigMask S SigBlock None)) (\<lambda>current.
        DUMP_VALUE_OF ''currentlyBlockedSignals'' (DShown (sset_print current)) os),
      DUMP_VALUE_OF ''signalHandler'' (DFunction True)]"

definition TimerFD_dump :: "obj_id \<Rightarrow> nat \<Rightarrow> nat \<Rightarrow> 's dumper" where
  "TimerFD_dump self system_addr map_addr = dump_object self
     [DUMP_ADDRESS_OF ''system'' system_addr, DUMP_ADDRESS_OF ''fdListenerMap'' map_addr]"

text \<open>What the dumps of the runners need to know of their parts.\<close>

record ('s, 'u) runner_view =
  rv_cbq :: obj_id
  rv_tq :: obj_id
  rv_map :: obj_id
  rv_epoll :: obj_id
  rv_base :: obj_id
  rv_monitor :: obj_id
  rv_system :: nat
  rv_listener :: "'u run_listener \<Rightarrow> 's dumper"
  rv_fds :: "rawfd list"
  rv_duration :: "duration \<Rightarrow> string"
  rv_timer :: "nat \<Rightarrow> nat"
  rv_pipe :: nat
  rv_signalFD :: nat
  rv_timerFD :: nat
  rv_thread :: string

definition BaseEpollRunner_dump :: "(exn \<Rightarrow> string \<times> string) \<Rightarrow> (('u, 'c, 'w, 'z) base_runner_scheme, 'u) runner_view \<Rightarrow> 'w system \<Rightarrow>
    ('u, 'c, 'w, 'z) base_runner_scheme \<Rightarrow> ('u, 'c, 'w, 'z) base_runner_scheme dumper" where
  "BaseEpollRunner_dump ex v S r = dump_object (rv_base v)
     [DUMP_OBJECT_OF ''cbq'' (CallbackQueue_dump (rv_cbq v) (cbq r)),
      DUMP_OBJECT_OF ''tq'' (TimerQueue_dump (rv_tq v) ex (rv_system v) (rv_duration v) (rv_timer v) (clock_now S) (tq r)),
      DUMP_OBJECT_OF ''fdListenerMap'' (FDListenerMap_dump (rv_map v) (True, True, True) (rv_listener v) (rv_fds v) r),
      DUMP_OBJECT_OF ''epoll'' (Epoll_dump (rv_epoll v) r)]"

definition EpollRunner_dump :: "obj_id \<Rightarrow> (exn \<Rightarrow> string \<times> string) \<Rightarrow> (('u, 'c, 'w, 'z) epoll_runner_scheme, 'u) runner_view \<Rightarrow>
    'w system \<Rightarrow> ('u, 'c, 'w, 'z) epoll_runner_scheme \<Rightarrow> ('u, 'c, 'w, 'z) epoll_runner_scheme dumper" where
  "EpollRunner_dump self ex v S r = dump_object self
     [DUMP_ADDRESS_OF ''system'' (rv_system v),
      DUMP_OBJECT_POINTED_BY ''fdsDeletedWhileHandlingEvents'' (Some (FDMonitor_dump (rv_monitor v) r)),
      DUMP_OBJECT_POINTED_BY ''baseEpollRunner'' (Some (BaseEpollRunner_dump ex v S r)),
      DUMP_VALUE_OF ''eventPipe'' (DUnique (rv_pipe v)),
      DUMP_VALUE_OF ''signalFD'' (DUnique (case the_signalFD r of None \<Rightarrow> 0 | Some _ \<Rightarrow> rv_signalFD v)),
      DUMP_VALUE_OF ''runnerThreadId'' (DShown (rv_thread v))]"

definition AsyncRunner_dump :: "obj_id \<Rightarrow> (exn \<Rightarrow> string \<times> string) \<Rightarrow> (('u, 'c, 'w, 'z) async_runner_scheme, 'u) runner_view \<Rightarrow>
    'w system \<Rightarrow> ('u, 'c, 'w, 'z) async_runner_scheme \<Rightarrow> ('u, 'c, 'w, 'z) async_runner_scheme dumper" where
  "AsyncRunner_dump self ex v S r = dump_object self
     [DUMP_OBJECT_POINTED_BY ''fdsDeletedWhileHandlingEvents'' (Some (FDMonitor_dump (rv_monitor v) r)),
      DUMP_OBJECT_POINTED_BY ''baseEpollRunner'' (Some (BaseEpollRunner_dump ex v S r)),
      DUMP_ADDRESS_OF ''timerFD'' (rv_timerFD v)]"

definition MockableRunner_dump :: "'s dumper" where
  "MockableRunner_dump = writes id"

end
