(* ===== verification/ClassDumpsProps.thy ===== *)
theory ClassDumpsProps
  imports ClassDumps DumpProps SocketAddressProps
begin

text \<open>
  What every \<open>dump\<close> of the library writes: a text that passes the check the unit tests make
  (\<open>EXPECT_VALID_DUMP\<close> in \<open>src/tst/DumpTest.cpp\<close>), whatever the state of the object, if the texts it is
  given have no braces. And where that fails: a socket with a brace in its name, and a queued packet.
\<close>

section \<open>Valid dumps\<close>

text \<open>\<open>checkNotEmpty\<close>, \<open>checkEvenBraces\<close> and \<open>checkNewLineAtTheEnd\<close>.\<close>

fun open_braces :: "int \<Rightarrow> string \<Rightarrow> int option" where
  "open_braces n [] = Some n"
| "open_braces n (c # s) = (if c = CHR ''{'' then open_braces (n + 1) s
     else if c = CHR ''}'' then (if 0 < n then open_braces (n - 1) s else None)
     else open_braces n s)"

definition checkEvenBraces :: "string \<Rightarrow> bool" where
  "checkEvenBraces dump \<longleftrightarrow> open_braces 0 dump = Some 0"

definition EXPECT_VALID_DUMP :: "string \<Rightarrow> bool" where
  "EXPECT_VALID_DUMP dump \<longleftrightarrow> dump \<noteq> [] \<and> checkEvenBraces dump \<and> last dump = LF"

lemma checkEvenBraces_balanced: "checkEvenBraces s \<longleftrightarrow> balanced s"
proof -
  have "0 \<le> n \<Longrightarrow> open_braces n s = scan n s" for n
    by (induction s arbitrary: n) (auto simp: brace_def)
  then show ?thesis by (simp add: checkEvenBraces_def balanced_def)
qed

section \<open>Dumps that append balanced texts\<close>

text \<open>\<open>clean d\<close>: whenever \<open>d\<close> returns, it has appended a balanced text.\<close>

definition clean :: "'s dumper \<Rightarrow> bool" where
  "clean d \<longleftrightarrow> (\<forall>os s os' s'. d os s = (Ok os', s') \<longrightarrow> appends os os')"

named_theorems clean_intros \<open>rules for \<open>clean\<close>\<close>

lemma cleanD: "clean d \<Longrightarrow> d os s = (Ok os', s') \<Longrightarrow> appends os os'"
  unfolding clean_def by blast

lemma clean_writes: "(\<And>os. appends os (f os)) \<Longrightarrow> clean (writes f)"
  by (auto simp: clean_def writes_def)

lemma clean_id [clean_intros]: "clean (writes id)"
  by (rule clean_writes) (simp add: appends_refl)

lemma clean_seq [clean_intros]: "(\<And>d. d \<in> set ds \<Longrightarrow> clean d) \<Longrightarrow> clean (dump_seq ds)"
proof (induction ds)
  case Nil
  show ?case by (simp add: clean_id)
next
  case (Cons d ds)
  then have d: "clean d" and ds: "clean (dump_seq ds)" by simp_all
  show ?case
    unfolding clean_def
  proof (intro allI impI)
    fix os s os' s' assume "dump_seq (d # ds) os s = (Ok os', s')"
    then obtain os1 s1 where "d os s = (Ok os1, s1)" "dump_seq ds os1 s1 = (Ok os', s')" by (auto elim: bnd_OkE)
    then show "appends os os'" using appends_trans cleanD [OF d] cleanD [OF ds] by blast
  qed
qed

text \<open>The text a dumper appends to a stream of its own.\<close>

lemma dump_text_Ok:
  assumes "dump_text d os s = (Ok t, s')"
  obtains tmp where "d (copy_flags os new_ostringstream) s = (Ok tmp, s')" "t = os_text tmp"
  using assms unfolding dump_text_def by (auto elim!: bnd_OkE)

lemma dump_text_balanced:
  assumes "clean d" and "dump_text d os s = (Ok t, s')"
  shows "balanced t"
  using assms(2)
proof (rule dump_text_Ok)
  fix tmp assume "d (copy_flags os new_ostringstream) s = (Ok tmp, s')" "t = os_text tmp"
  then have "appends (copy_flags os new_ostringstream) tmp" using cleanD [OF assms(1)] by blast
  with \<open>t = os_text tmp\<close> show "balanced t" by (auto simp: appends_def new_ostringstream_def)
qed

text \<open>A text between two braces. \<open>dump_seq\<close> writes it in pieces.\<close>

lemma dump_seq_append: "dump_seq (ds @ es) os = bnd (dump_seq ds os) (dump_seq es)"
proof (induction ds arbitrary: os)
  case Nil
  show ?case by (simp add: writes_def bnd_def ret_def)
next
  case (Cons d ds)
  then show ?case by (auto simp: bnd_def fun_eq_iff split: prod.split outcome.split)
qed

lemma braces_written:
  assumes "\<And>d. d \<in> set ds \<Longrightarrow> clean d" and "no_braces a"
    and "dump_seq (writes (put (a @ CHR ''{'' # b)) # ds @ [writes (put [CHR ''}'', LF])]) os s = (Ok os', s')"
    and "no_braces b"
  shows "\<exists>t. os_text os' = os_text os @ a @ CHR ''{'' # b @ t @ [CHR ''}'', LF] \<and> balanced t"
proof -
  let ?os = "put (a @ CHR ''{'' # b) os"
  have "bnd (dump_seq ds ?os) (dump_seq [writes (put [CHR ''}'', LF])]) s = (Ok os', s')"
    using assms(3) by (simp add: dump_seq_append writes_def bnd_run)
  then obtain os1 s1 where "dump_seq ds ?os s = (Ok os1, s1)" and "dump_seq [writes (put [CHR ''}'', LF])] os1 s1 = (Ok os', s')"
    by (rule bnd_OkE)
  then have run: "dump_seq ds ?os s = (Ok os1, s1)" and os': "os' = put [CHR ''}'', LF] os1"
    by (simp_all add: writes_def bnd_run)
  have "appends ?os os1" by (rule cleanD [OF clean_seq [OF assms(1)] run])
  then obtain t where "os_text os1 = os_text ?os @ t" "balanced t" unfolding appends_def by blast
  then show ?thesis by (intro exI [of _ t]) (simp add: os' put_def)
qed

lemma balanced_braces:
  assumes "no_braces a" and "no_braces b" and "balanced t"
  shows "balanced (a @ CHR ''{'' # b @ t @ [CHR ''}'', LF])"
proof -
  have "balanced (b @ t)" using assms(2,3) by (simp add: balanced_append no_braces_balanced)
  then have "balanced (CHR ''{'' # (b @ t) @ [CHR ''}''])" by (rule balanced_block)
  then have "balanced ((CHR ''{'' # (b @ t) @ [CHR ''}'']) @ [LF])"
    by (intro balanced_append) (simp add: balanced_separators(1))+
  with assms(1) show ?thesis using balanced_append [OF no_braces_balanced] by fastforce
qed

lemma clean_block [clean_intros]:
  assumes "no_braces title" and "\<And>d. d \<in> set ds \<Longrightarrow> clean d"
  shows "clean (DUMP_BLOCK title ds)"
  unfolding clean_def
proof (intro allI impI)
  fix os s os' s' assume "DUMP_BLOCK title ds os s = (Ok os', s')"
  then have "dump_seq (writes (put ((title @ '':'' @ [LF]) @ CHR ''{'' # [LF])) # ds @ [writes (put [CHR ''}'', LF])]) os s = (Ok os', s')"
    by (simp add: DUMP_BLOCK_def)
  from braces_written [OF assms(2) _ this] assms(1)
  obtain t where "os_text os' = os_text os @ (title @ '':'' @ [LF]) @ CHR ''{'' # [LF] @ t @ [CHR ''}'', LF]" "balanced t"
    by (auto simp: no_braces_simps brace_def)
  moreover have "balanced ((title @ '':'' @ [LF]) @ CHR ''{'' # [LF] @ t @ [CHR ''}'', LF])"
    by (rule balanced_braces) (use assms(1) \<open>balanced t\<close> in \<open>simp_all add: no_braces_simps brace_def\<close>)
  ultimately show "appends os os'" unfolding appends_def by blast
qed

text \<open>\<open>valid d\<close>: whenever \<open>d\<close> returns, the text it has appended is a valid dump.\<close>

definition valid :: "'s dumper \<Rightarrow> bool" where
  "valid d \<longleftrightarrow> (\<forall>os s os' s'. d os s = (Ok os', s') \<longrightarrow>
     (\<exists>t. os_text os' = os_text os @ t \<and> EXPECT_VALID_DUMP t))"

lemma valid_clean: "valid d \<Longrightarrow> clean d"
  unfolding valid_def clean_def appends_def EXPECT_VALID_DUMP_def checkEvenBraces_balanced by blast

lemma valid_object:
  fixes ds :: "'s dumper list"
  assumes "no_braces (fst self)" and "\<And>d. d \<in> set ds \<Longrightarrow> clean d"
  shows "valid (dump_object self ds)"
  unfolding valid_def
proof (intro allI impI)
  fix os s os' s' assume run: "dump_object self ds os s = (Ok os', s')"
  let ?hd = "[LF] @ ''this: '' @ (if snd self = 0 then ''0'' else ''0x'' @ hexadecimal False (snd self)) @ [LF]"
  have "put [LF] (put_ptr (snd self) (put (fst self @ [LF, CHR ''{'', LF] @ ''this: '') os))
      = put ((fst self @ [LF]) @ CHR ''{'' # ?hd) os" for os
    by (simp add: put_ptr_def put_def)
  then have "(DUMP_BEGIN self :: 's dumper) = writes (put ((fst self @ [LF]) @ CHR ''{'' # ?hd))"
    by (simp add: DUMP_BEGIN_def)
  then have "dump_seq (writes (put ((fst self @ [LF]) @ CHR ''{'' # ?hd)) # ds @ [writes (put [CHR ''}'', LF])]) os s = (Ok os', s')"
    using run by (simp only: dump_object_def DUMP_END_def)
  moreover have nb: "no_braces (fst self @ [LF])" "no_braces ?hd"
    using assms(1) by (simp_all add: no_braces_simps brace_def)
  ultimately obtain t where t: "os_text os' = os_text os @ (fst self @ [LF]) @ CHR ''{'' # ?hd @ t @ [CHR ''}'', LF]" "balanced t"
    using braces_written [OF assms(2)] by blast
  let ?t = "(fst self @ [LF]) @ CHR ''{'' # ?hd @ t @ [CHR ''}'', LF]"
  have "EXPECT_VALID_DUMP ?t"
    unfolding EXPECT_VALID_DUMP_def checkEvenBraces_balanced using balanced_braces [OF nb t(2)] by simp
  with t(1) show "\<exists>t. os_text os' = os_text os @ t \<and> EXPECT_VALID_DUMP t" by blast
qed

lemma clean_value_of [clean_intros]: "no_braces name \<Longrightarrow> clean_value v \<Longrightarrow> clean (DUMP_VALUE_OF name v)"
  unfolding DUMP_VALUE_OF_def by (intro clean_writes appends_name_value) (simp_all add: clean_name_def)

lemma clean_address_of [clean_intros]: "no_braces name \<Longrightarrow> clean (DUMP_ADDRESS_OF name p)"
  unfolding DUMP_ADDRESS_OF_def by (rule clean_value_of) simp_all

lemma clean_container [clean_intros]: "no_braces name \<Longrightarrow> list_all clean_value vs \<Longrightarrow> clean (DUMP_CONTAINER name vs)"
  unfolding DUMP_CONTAINER_def outputContainer_def
  by (intro clean_writes appends_block) (auto simp: list_all_iff appends_nameless)

lemma clean_pair_container [clean_intros]:
  "no_braces name \<Longrightarrow> list_all (\<lambda>(k, v). clean_name k \<and> clean_value v) kvs \<Longrightarrow> clean (DUMP_PAIR_CONTAINER name kvs)"
  unfolding DUMP_PAIR_CONTAINER_def outputPairContainer_def
  by (intro clean_writes appends_block) (auto simp: list_all_iff intro!: appends_name_value split: prod.splits)

lemma clean_object_of [clean_intros]:
  assumes "no_braces name" and "clean d"
  shows "clean (DUMP_OBJECT_OF name d)"
  unfolding clean_def
proof (intro allI impI)
  fix os s os' s' assume "DUMP_OBJECT_OF name d os s = (Ok os', s')"
  then obtain t s1 where "dump_text d os s = (Ok t, s1)" "DUMP_VALUE_OF name (DDumpable t) os s1 = (Ok os', s')"
    unfolding DUMP_OBJECT_OF_def by (auto elim: bnd_OkE)
  moreover from this have "clean_value (DDumpable t)" using dump_text_balanced [OF assms(2)] by simp
  ultimately show "appends os os'" by (intro cleanD [OF clean_value_of [OF assms(1)]])
qed

lemma clean_pointed_by [clean_intros]:
  "no_braces name \<Longrightarrow> pred_option clean p \<Longrightarrow> clean (DUMP_OBJECT_POINTED_BY name p)"
  by (cases p) (simp_all add: DUMP_OBJECT_POINTED_BY_def clean_value_of clean_object_of)

lemma clean_objects [clean_intros]:
  assumes "no_braces name" and "\<And>d. d \<in> set ds \<Longrightarrow> clean d"
  shows "clean (DUMP_OBJECTS name ds)"
proof -
  have "clean (\<lambda>os. bnd (dump_text d os) (\<lambda>t. ret (outputNamelessValue (DDumpable t) os)))" if "d \<in> set ds" for d
    unfolding clean_def
  proof (intro allI impI)
    fix os s os' s' assume "bnd (dump_text d os) (\<lambda>t. ret (outputNamelessValue (DDumpable t) os)) s = (Ok os', s')"
    then obtain t s1 where "dump_text d os s = (Ok t, s1)" "os' = outputNamelessValue (DDumpable t) os" by (auto elim: bnd_OkE)
    then show "appends os os'" using dump_text_balanced [OF assms(2) [OF that]] by (simp add: appends_nameless)
  qed
  then show ?thesis
    unfolding DUMP_OBJECTS_def by (intro clean_block) (auto simp: no_braces_c_str assms(1))
qed

text \<open>Texts from outside: those of exceptions have no braces, and neither have the results shown.\<close>

definition clean_exn :: "(exn \<Rightarrow> string \<times> string) \<Rightarrow> bool" where
  "clean_exn ex \<longleftrightarrow> (\<forall>e. no_braces (fst (ex e)) \<and> no_braces (snd (ex e)))"

definition clean_result :: "('s, dvalue) prog \<Rightarrow> bool" where
  "clean_result m \<longleftrightarrow> (\<forall>s v s'. m s = (Ok v, s') \<longrightarrow> clean_value v)"

lemma clean_result_of [clean_intros]:
  assumes "no_braces name" and "clean_exn ex" and "clean_result m"
  shows "clean (DUMP_RESULT_OF ex name m)"
  unfolding clean_def
proof (intro allI impI)
  fix os s os' s' assume run: "DUMP_RESULT_OF ex name m os s = (Ok os', s')"
  obtain r s1 where m: "m s = (r, s1)" by (cases "m s")
  obtain v where v: "DUMP_VALUE_OF name v os s1 = (Ok os', s')" "clean_value v"
  proof (cases r)
    case (Ok v)
    then show ?thesis using run m assms(3) that [of v] by (auto simp: DUMP_RESULT_OF_def clean_result_def)
  next
    case (Throw e)
    then show ?thesis using run m assms(2) that [of "DException (fst (ex e)) (snd (ex e))"]
      by (simp add: DUMP_RESULT_OF_def clean_exn_def)
  qed (use run m in \<open>simp_all add: DUMP_RESULT_OF_def\<close>)
  show "appends os os'" by (rule cleanD [OF clean_value_of [OF assms(1) v(2)] v(1)])
qed

lemma clean_result_ret [clean_intros]: "clean_value v \<Longrightarrow> clean_result (ret v)"
  by (auto simp: clean_result_def)

lemma clean_as [clean_intros]: "clean d \<Longrightarrow> clean (DUMP_AS d)"
  unfolding DUMP_AS_def by (rule clean_block) (simp_all add: no_braces_simps brace_def)

section \<open>The classes\<close>

lemmas dump_rules = clean_intros no_braces_simps brace_def

lemma valid_FDListener: "no_braces (fst self) \<Longrightarrow> valid (FDListener_dump self)"
  unfolding FDListener_dump_def by (rule valid_object) simp_all

lemma valid_FDMonitor: "no_braces (fst self) \<Longrightarrow> valid (FDMonitor_dump self m)"
  unfolding FDMonitor_dump_def
  by (rule valid_object) (auto simp: no_braces_simps brace_def list_all_iff intro!: clean_intros)

lemma valid_Epoll: "no_braces (fst self) \<Longrightarrow> valid (Epoll_dump self e)"
  unfolding Epoll_dump_def by (rule valid_object) (auto simp: no_braces_simps brace_def intro!: clean_intros)

lemma valid_CallbackQueue: "no_braces (fst self) \<Longrightarrow> valid (CallbackQueue_dump self q)"
  unfolding CallbackQueue_dump_def
  by (rule valid_object) (auto simp: no_braces_simps brace_def list_all_iff intro!: clean_intros)

lemma valid_Timer: "no_braces (fst self) \<Longrightarrow> valid (Timer_dump self tq_addr node_addr t)"
  unfolding Timer_dump_def by (rule valid_object) (auto simp: no_braces_simps brace_def intro!: clean_intros)

lemma valid_TimerQueue:
  assumes "no_braces (fst self)" and "clean_exn ex" and "\<And>d. no_braces (show_duration d)"
  shows "valid (TimerQueue_dump self ex system_addr show_duration timer_addr clock q)"
proof -
  have "clean_result (bnd clock (\<lambda>d. ret (DShown (show_duration d))))"
    unfolding clean_result_def using assms(3) by (auto elim!: bnd_OkE)
  then show ?thesis
    unfolding TimerQueue_dump_def using assms
    by (intro valid_object) (auto simp: no_braces_simps brace_def list_all_iff clean_name_def intro!: clean_intros)
qed

lemma valid_FDListenerMap:
  assumes "no_braces (fst self)" and "\<And>l. clean (listener_dump l)"
  shows "valid (FDListenerMap_dump self callbacks listener_dump fds m)"
proof -
  have "appends os (copy_flags os (put_nat n ((put '' events: 0x'' (put_int fd (put ''fd: '' os)))\<lparr>os_hex := True\<rparr>)))"
    for os n fd
  proof -
    have "appends os (put '' events: 0x'' (put_int fd (put ''fd: '' os)))"
      by (intro appends_trans [OF appends_trans [OF appends_plain appends_numbers(2)] appends_plain])
        (simp_all add: no_braces_simps brace_def)
    then have "appends os ((put '' events: 0x'' (put_int fd (put ''fd: '' os)))\<lparr>os_hex := True\<rparr>)" by (rule appends_text) simp
    then show ?thesis using appends_numbers(1) appends_trans appends_text copy_flags_text by blast
  qed
  then have "clean (dump_entry listener_dump fd e)" for fd e
    unfolding dump_entry_def using assms(2)
    by (intro clean_seq) (auto intro!: clean_writes appends_put balanced_separators(1))
  then show ?thesis
    unfolding FDListenerMap_dump_def using assms
    by (intro valid_object) (auto simp: no_braces_simps brace_def intro!: clean_intros split: option.split)
qed

lemma clean_line:
  assumes "no_braces name" and "\<And>os. appends os (f os)"
  shows "clean (writes (\<lambda>os. put [LF] (f (put name os))))"
  by (rule clean_writes) (meson appends_plain appends_put appends_trans assms balanced_separators(1))

lemma valid_StreamBuffer: "no_braces (fst self) \<Longrightarrow> valid (StreamBuffer_dump self h sb)"
proof -
  assume self: "no_braces (fst self)"
  have "clean (dump_buffer h b)" for b
    unfolding dump_buffer_def by (intro clean_seq) (auto simp: no_braces_simps brace_def intro!: clean_line appends_numbers)
  moreover have "clean (dump_iovec h v)" for v
    unfolding dump_iovec_def by (intro clean_seq) (auto simp: no_braces_simps brace_def intro!: clean_line appends_numbers)
  ultimately show ?thesis
    unfolding StreamBuffer_dump_def using self
    by (intro valid_object) (auto simp: no_braces_simps brace_def intro!: clean_intros)
qed

definition clean_addrs :: "dump_addrs \<Rightarrow> bool" where
  "clean_addrs a \<longleftrightarrow> no_braces (fst (da_in a)) \<and> no_braces (fst (da_out a)) \<and> no_braces (fst (da_parent a))"

lemmas parts_clean = valid_StreamBuffer [THEN valid_clean] valid_FDListener [THEN valid_clean]
  valid_FDMonitor [THEN valid_clean] valid_Epoll [THEN valid_clean] valid_CallbackQueue [THEN valid_clean]
  valid_TimerQueue [THEN valid_clean] valid_FDListenerMap [THEN valid_clean]

lemma valid_StreamSocket:
  assumes "no_braces (fst self)" and "clean_addrs a" and "clean_exn ex"
    and "clean_result (show_name N (ss_getName S))" and "clean_result (show_name N (ss_getPeer S))"
  shows "valid (StreamSocket_dump self N ex a S cbs s)"
  unfolding StreamSocket_dump_def using assms
  by (intro valid_object) (auto simp: no_braces_simps brace_def clean_addrs_def intro!: clean_intros parts_clean)

lemma valid_ListeningSocket:
  assumes "no_braces (fst self)" and "clean_addrs a" and "clean_exn ex" and "clean_result (show_name N (ls_getName S))"
  shows "valid (ListeningSocket_dump self N ex a S cbs s)"
  unfolding ListeningSocket_dump_def using assms
  by (intro valid_object) (auto simp: no_braces_simps brace_def clean_addrs_def intro!: clean_intros parts_clean)

lemma valid_ChildProcess:
  assumes "no_braces (fst self)" and "clean_addrs a"
  shows "valid (ChildProcess_dump self a is_addr os_addr es_addr cbs s)"
  unfolding ChildProcess_dump_def using assms
  by (intro valid_object) (auto simp: no_braces_simps brace_def clean_addrs_def intro!: clean_intros parts_clean)

lemma clean_show_chars: "no_braces (map chr data) \<Longrightarrow> clean_result (show_chars data)"
  by (auto simp: clean_result_def show_chars_def undef_def no_braces_c_str)

lemma valid_Data:
  assumes "no_braces (fst self)" and "clean_exn ex" and "no_braces (map chr (fst p))"
  shows "valid (Data_dump self ex cm_addr p)"
  unfolding Data_dump_def using assms
  by (intro valid_object) (auto simp: no_braces_simps brace_def intro!: clean_intros clean_show_chars)

lemma valid_SeqPacketSocket:
  assumes "no_braces (fst self)" and "clean_addrs a" and "clean_exn ex"
    and "\<And>i. no_braces (fst (fst (packet_addr i)))" and "\<And>p. p \<in> set (outputQueue s) \<Longrightarrow> no_braces (map chr (fst p))"
    and "clean_result (show_name N (sq_getName S))" and "clean_result (show_name N (sq_getPeer S))"
  shows "valid (SeqPacketSocket_dump self N ex a packet_addr S cbs s)"
proof -
  have "clean (Data_dump (fst (packet_addr i)) ex (snd (packet_addr i)) p)" if "(i, p) \<in> set (enumerate 0 (outputQueue s))" for i p
  proof -
    have "p \<in> set (outputQueue s)" using that by (auto simp: in_set_enumerate_eq)
    then show ?thesis by (intro valid_clean valid_Data assms)
  qed
  then show ?thesis
    unfolding SeqPacketSocket_dump_def using assms(1-3,6,7)
    by (intro valid_object) (auto simp: no_braces_simps brace_def clean_addrs_def intro!: clean_intros parts_clean)
qed

definition clean_view :: "('s, 'u) runner_view \<Rightarrow> bool" where
  "clean_view v \<longleftrightarrow> list_all (\<lambda>i. no_braces (fst i)) [rv_cbq v, rv_tq v, rv_map v, rv_epoll v, rv_base v, rv_monitor v]
     \<and> (\<forall>l. clean (rv_listener v l)) \<and> (\<forall>d. no_braces (rv_duration v d)) \<and> no_braces (rv_thread v)"

lemma valid_BaseEpollRunner:
  "clean_exn ex \<Longrightarrow> clean_view v \<Longrightarrow> valid (BaseEpollRunner_dump ex v S r)"
  unfolding BaseEpollRunner_dump_def
  by (rule valid_object) (auto simp: no_braces_simps brace_def clean_view_def intro!: clean_intros parts_clean)

lemma valid_EpollRunner:
  assumes "no_braces (fst self)" and "clean_exn ex" and "clean_view v"
  shows "valid (EpollRunner_dump self ex v S r)"
proof -
  have "clean (BaseEpollRunner_dump ex v S r)" using valid_clean valid_BaseEpollRunner assms by blast
  then show ?thesis
    unfolding EpollRunner_dump_def using assms
    by (intro valid_object) (auto simp: no_braces_simps brace_def clean_view_def intro!: clean_intros parts_clean)
qed

lemma valid_AsyncRunner:
  assumes "no_braces (fst self)" and "clean_exn ex" and "clean_view v"
  shows "valid (AsyncRunner_dump self ex v S r)"
proof -
  have "clean (BaseEpollRunner_dump ex v S r)" using valid_clean valid_BaseEpollRunner assms by blast
  then show ?thesis
    unfolding AsyncRunner_dump_def using assms
    by (intro valid_object) (auto simp: no_braces_simps brace_def clean_view_def intro!: clean_intros parts_clean)
qed

text \<open>The listeners of the library.\<close>

lemma valid_EventPipe: "no_braces (fst self) \<Longrightarrow> valid (EventPipe_dump self system_addr map_addr r)"
  unfolding EventPipe_dump_def by (rule valid_object) (auto simp: no_braces_simps brace_def intro!: clean_intros)

lemma valid_TimerFD: "no_braces (fst self) \<Longrightarrow> valid (TimerFD_dump self system_addr map_addr)"
  unfolding TimerFD_dump_def by (rule valid_object) (auto simp: no_braces_simps brace_def intro!: clean_intros)

lemma no_braces_signals: "no_braces (sset_print s)"
proof -
  have "no_braces (signalToString i)" for i
    by (auto simp: signalToString_def signalNameMap_def no_braces_simps brace_def)
  then have "no_braces (print_signals first is)" for first "is"
    by (induction first "is" rule: print_signals.induct) (simp_all add: no_braces_simps brace_def)
  then show ?thesis by (simp add: sset_print_def)
qed

lemma valid_SignalFD: "no_braces (fst self) \<Longrightarrow> valid (SignalFD_dump self system_addr runner_addr S f)"
proof -
  assume self: "no_braces (fst self)"
  have "clean (\<lambda>os. bnd (on_world (sys_sigMask S SigBlock None)) (\<lambda>current.
      DUMP_VALUE_OF ''currentlyBlockedSignals'' (DShown (sset_print current)) os))"
    unfolding clean_def
  proof (intro allI impI, erule bnd_OkE)
    fix os s os' s' x s1
    assume "DUMP_VALUE_OF ''currentlyBlockedSignals'' (DShown (sset_print x)) os s1 = (Ok os', s')"
    then show "appends os os'"
      by (rule cleanD [OF clean_value_of, rotated 2]) (simp_all add: no_braces_signals no_braces_simps brace_def)
  qed
  then show ?thesis
    unfolding SignalFD_dump_def using self
    by (intro valid_object) (auto simp: no_braces_simps brace_def no_braces_signals intro!: clean_intros)
qed

section \<open>Dumps that always return\<close>

definition always_returns :: "'s dumper \<Rightarrow> bool" where
  "always_returns d \<longleftrightarrow> (\<forall>os s. \<exists>os' s'. d os s = (Ok os', s'))"

definition returns_or_throws :: "('s, 'a) prog \<Rightarrow> bool" where
  "returns_or_throws m \<longleftrightarrow> (\<forall>s. (\<exists>v s'. m s = (Ok v, s')) \<or> (\<exists>e s'. m s = (Throw e, s')))"

named_theorems returns_intros \<open>rules for \<open>always_returns\<close>\<close>

lemma returns_writes [returns_intros]: "always_returns (writes f)"
  by (simp add: always_returns_def writes_def)

lemma returns_seq [returns_intros]: "(\<And>d. d \<in> set ds \<Longrightarrow> always_returns d) \<Longrightarrow> always_returns (dump_seq ds)"
proof (induction ds)
  case (Cons d ds)
  then have "always_returns d" "always_returns (dump_seq ds)" by simp_all
  show ?case
    unfolding always_returns_def
  proof (intro allI)
    fix os s
    obtain os1 s1 where "d os s = (Ok os1, s1)" using \<open>always_returns d\<close> unfolding always_returns_def by blast
    moreover obtain os2 s2 where "dump_seq ds os1 s1 = (Ok os2, s2)"
      using \<open>always_returns (dump_seq ds)\<close> unfolding always_returns_def by blast
    ultimately show "\<exists>os' s'. dump_seq (d # ds) os s = (Ok os', s')" by (simp add: bnd_run)
  qed
qed (simp add: returns_writes)

lemma returns_parts [returns_intros]:
  "always_returns (DUMP_BEGIN self)" "always_returns DUMP_END" "always_returns (DUMP_VALUE_OF name v)" "always_returns (DUMP_ADDRESS_OF name p)"
  "always_returns (DUMP_CONTAINER name vs)" "always_returns (DUMP_PAIR_CONTAINER name kvs)"
  by (simp_all add: DUMP_BEGIN_def DUMP_END_def DUMP_VALUE_OF_def DUMP_ADDRESS_OF_def DUMP_CONTAINER_def
      DUMP_PAIR_CONTAINER_def returns_writes)

lemma returns_object: "(\<And>d. d \<in> set ds \<Longrightarrow> always_returns d) \<Longrightarrow> always_returns (dump_object self ds)"
  unfolding dump_object_def by (rule returns_seq) (auto intro: returns_intros)

lemma returns_block [returns_intros]: "(\<And>d. d \<in> set ds \<Longrightarrow> always_returns d) \<Longrightarrow> always_returns (DUMP_BLOCK title ds)"
  unfolding DUMP_BLOCK_def by (rule returns_seq) (auto intro: returns_intros)

lemma returns_text:
  assumes "always_returns d"
  shows "always_returns (\<lambda>os. bnd (dump_text d os) (\<lambda>t. ret (f t os)))"
  unfolding always_returns_def
proof (intro allI)
  fix os s
  obtain tmp s' where "d (copy_flags os new_ostringstream) s = (Ok tmp, s')" using assms unfolding always_returns_def by blast
  then show "\<exists>os' s'. bnd (dump_text d os) (\<lambda>t. ret (f t os)) s = (Ok os', s')"
    by (simp add: dump_text_def bnd_run)
qed

lemma returns_object_of [returns_intros]: "always_returns d \<Longrightarrow> always_returns (DUMP_OBJECT_OF name d)"
  unfolding DUMP_OBJECT_OF_def DUMP_VALUE_OF_def writes_def by (rule returns_text)

lemma returns_pointed_by [returns_intros]: "pred_option always_returns p \<Longrightarrow> always_returns (DUMP_OBJECT_POINTED_BY name p)"
  by (cases p) (simp_all add: DUMP_OBJECT_POINTED_BY_def returns_intros)

lemma returns_as [returns_intros]: "always_returns d \<Longrightarrow> always_returns (DUMP_AS d)"
  unfolding DUMP_AS_def by (rule returns_block) simp

lemma returns_result_of [returns_intros]: "returns_or_throws m \<Longrightarrow> always_returns (DUMP_RESULT_OF ex name m)"
  unfolding always_returns_def
proof (intro allI)
  fix os s assume m: "returns_or_throws m"
  show "\<exists>os' s'. DUMP_RESULT_OF ex name m os s = (Ok os', s')"
  proof (cases "\<exists>v s'. m s = (Ok v, s')")
    case True
    then show ?thesis by (auto simp: DUMP_RESULT_OF_def DUMP_VALUE_OF_def writes_def)
  next
    case False
    then obtain e s' where "m s = (Throw e, s')" using m unfolding returns_or_throws_def by blast
    then show ?thesis by (auto simp: DUMP_RESULT_OF_def DUMP_VALUE_OF_def writes_def)
  qed
qed

lemma returns_StreamBuffer: "always_returns (StreamBuffer_dump self h sb)"
  unfolding StreamBuffer_dump_def dump_buffer_def dump_iovec_def
  by (rule returns_object) (auto intro!: returns_intros simp del: dump_seq.simps)

lemma returns_StreamSocket:
  "returns_or_throws (show_name N (ss_getName S)) \<Longrightarrow> returns_or_throws (show_name N (ss_getPeer S)) \<Longrightarrow>
     always_returns (StreamSocket_dump self N ex a S cbs s)"
  unfolding StreamSocket_dump_def FDListener_dump_def
  by (rule returns_object) (auto intro!: returns_intros returns_StreamBuffer intro: returns_object)

lemma returns_BaseEpollRunner:
  assumes "returns_or_throws (clock_now S :: (('u, 'c, 'w, 'z) base_runner_scheme, duration) prog)" and "\<And>l. always_returns (rv_listener v l)"
  shows "always_returns (BaseEpollRunner_dump ex v S (r :: ('u, 'c, 'w, 'z) base_runner_scheme))"
proof -
  have "returns_or_throws (bnd (clock_now S :: (('u, 'c, 'w, 'z) base_runner_scheme, duration) prog)
      (\<lambda>d. ret (DShown (rv_duration v d))))"
    unfolding returns_or_throws_def
  proof
    fix s :: "('u, 'c, 'w, 'z) base_runner_scheme"
    from assms(1) have "(\<exists>x s'. clock_now S s = (Ok x, s')) \<or> (\<exists>e s'. clock_now S s = (Throw e, s'))"
      unfolding returns_or_throws_def by blast
    then show "(\<exists>x s'. bnd (clock_now S) (\<lambda>d. ret (DShown (rv_duration v d))) s = (Ok x, s'))
        \<or> (\<exists>e s'. bnd (clock_now S) (\<lambda>d. ret (DShown (rv_duration v d))) s = (Throw e, s'))"
      by (auto simp: bnd_run)
  qed
  then show ?thesis
    unfolding BaseEpollRunner_dump_def CallbackQueue_dump_def TimerQueue_dump_def FDListenerMap_dump_def Epoll_dump_def dump_entry_def
    using assms(2) by (intro returns_object) (auto intro!: returns_intros returns_object simp del: dump_seq.simps split: option.split)
qed

section \<open>Properties\<close>

lemma returns_EpollRunner:
  assumes "returns_or_throws (clock_now S :: (('u, 'c, 'w, 'z) epoll_runner_scheme, duration) prog)"
    and "\<And>l. always_returns (rv_listener v l)"
  shows "always_returns (EpollRunner_dump self ex v S (r :: ('u, 'c, 'w, 'z) epoll_runner_scheme))"
proof -
  have "always_returns (BaseEpollRunner_dump ex v S r)" using returns_BaseEpollRunner assms by blast
  then show ?thesis
    unfolding EpollRunner_dump_def FDMonitor_dump_def
    by (intro returns_object) (auto intro!: returns_intros returns_object simp del: dump_seq.simps)
qed

lemma valid_dump_written:
  assumes "valid d" and "always_returns d"
  shows "\<exists>os' s' t. d os s = (Ok os', s') \<and> os_text os' = os_text os @ t \<and> EXPECT_VALID_DUMP t"
proof -
  obtain os' s' where "d os s = (Ok os', s')" using assms(2) unfolding always_returns_def by blast
  with assms(1) show ?thesis unfolding valid_def by blast
qed

text \<open>
  The dump of an \<open>EpollRunner\<close>, which contains the dumps of its callback and timer queues, its
  descriptor map with every listener, its epoll and its monitor, always returns, even when the clock
  fails, and is a valid dump in the sense of the unit tests: not empty, every brace closed that was
  opened and none before, a newline at the end. So is the dump of a \<open>StreamSocket\<close>, with its two stream
  buffers, in any state, closed or open, whether or not its names can be had. The texts that come
  from outside (names of types, exceptions, thread and socket names) must have no braces.
\<close>

theorem class_dumps_valid:
  assumes "no_braces (fst self)" and "clean_exn ex" and "clean_view v" and "clean_addrs a"
    and "returns_or_throws (clock_now S :: (('u, 'c, 'w) epoll_runner, duration) prog)"
    and "\<And>l. always_returns (rv_listener v l)"
    and "returns_or_throws (show_name N (ss_getName S'))" "returns_or_throws (show_name N (ss_getPeer S'))"
    and "clean_result (show_name N (ss_getName S'))" "clean_result (show_name N (ss_getPeer S'))"
  shows "\<exists>os1 r1 t1 os2 k1 t2.
     EpollRunner_dump self ex v S (r :: ('u, 'c, 'w) epoll_runner) os r0 = (Ok os1, r1)
     \<and> os_text os1 = os_text os @ t1 \<and> EXPECT_VALID_DUMP t1
     \<and> StreamSocket_dump self N ex a S' cbs k os k0 = (Ok os2, k1)
     \<and> os_text os2 = os_text os @ t2 \<and> EXPECT_VALID_DUMP t2"
  using valid_dump_written [OF valid_EpollRunner [OF assms(1-3)] returns_EpollRunner [OF assms(5,6)], of r os r0]
    valid_dump_written [OF valid_StreamSocket [OF assms(1,4,2,9,10)] returns_StreamSocket [OF assms(7,8)], of cbs k os k0]
  by blast

text \<open>A runner and a socket that has no descriptor, so that its names cannot be had.\<close>

definition plain_view :: "((unit, unit, unit) epoll_runner, unit) runner_view" where
  "plain_view = \<lparr>rv_cbq = (''CallbackQueue'', 1), rv_tq = (''TimerQueue'', 2), rv_map = (''FDListenerMap'', 3),
     rv_epoll = (''Epoll'', 4), rv_base = (''BaseEpollRunner'', 5), rv_monitor = (''FDMonitor'', 6), rv_system = 7,
     rv_listener = (\<lambda>_. FDListener_dump (''FDListener'', 8)), rv_fds = [], rv_duration = (\<lambda>_. ''0 nanoseconds''),
     rv_timer = id, rv_pipe = 9, rv_signalFD = 10, rv_timerFD = 11, rv_thread = ''1''\<rparr>"

definition plain_runner :: "(unit, unit, unit) epoll_runner" where
  "plain_runner = \<lparr>listeners = Map.empty, epfd = 3, addCount = 0, eventArray = [], world = (),
     monitoring = False, deletedFds = {}, cbq = cbq_empty, tq = tq_empty, runnerThreadId = Some 1,
     readFD = 4, writeFD = 5, the_signalFD = None\<rparr>"

theorem class_dumps_valid_witness:
  fixes ex :: "exn \<Rightarrow> string \<times> string" and cbs :: "unit ss_callbacks" and N :: netdb
  defines "ex \<equiv> \<lambda>_. (''EventLoop::Exception'', ''failed'')"
  shows "\<exists>os1 r1 t1 os2 k1 t2.
     EpollRunner_dump (''EpollRunner'', 12) ex plain_view idle_system plain_runner new_ostringstream plain_runner = (Ok os1, r1)
     \<and> os_text os1 = os_text new_ostringstream @ t1 \<and> EXPECT_VALID_DUMP t1
     \<and> StreamSocket_dump (''EpollRunner'', 12) N ex \<lparr>da_system = 7, da_runner = 12, da_in = (''StreamBuffer'', 13),
          da_out = (''StreamBuffer'', 14), da_parent = (''FDListener'', 15)\<rparr> idle_system cbs (ss_blank heap0 ())
          new_ostringstream (ss_blank heap0 ()) = (Ok os2, k1)
     \<and> os_text os2 = os_text new_ostringstream @ t2 \<and> EXPECT_VALID_DUMP t2"
proof -
  let ?a = "\<lparr>da_system = 7, da_runner = 12, da_in = (''StreamBuffer'', 13),
    da_out = (''StreamBuffer'', 14), da_parent = (''FDListener'', 15)\<rparr>"
  have 1: "no_braces (fst (''EpollRunner'', 12 :: nat))" "clean_exn ex" "clean_addrs ?a"
    by (simp_all add: clean_exn_def clean_addrs_def no_braces_simps brace_def ex_def)
  have 2: "clean_view plain_view"
    by (auto simp: clean_view_def plain_view_def no_braces_simps brace_def intro!: valid_clean valid_FDListener)
  have 3: "always_returns (rv_listener plain_view l)" for l
    unfolding plain_view_def FDListener_dump_def by simp (rule returns_object, simp)
  have 4: "returns_or_throws (clock_now idle_system :: ((unit, unit, unit) epoll_runner, duration) prog)"
    by (simp add: returns_or_throws_def clock_now_def on_world_def zoom_def idle_system_def the_system_def
        getMonotonicClock_def idle_kernel_def bnd_run)
  have names: "sys_getSockName idle_system fd w = (Ok [], w)" "sys_getPeerName idle_system fd w = (Ok [], w)" for fd and w :: unit
    by (simp_all add: idle_system_def the_system_def idle_kernel_def bnd_run throw_nonzero_def
        getSockName_def getPeerName_def tempFailureRetry.simps)
  have "filled_with [] = \<lparr>sa_bytes = 0 # 0 # replicate 110 0, usedSize = 0\<rparr>"
    by (simp add: filled_with_def new_address_def poke_def sizeof_SAUnion_def replicate_peel [of 112] replicate_peel [of 111])
  moreover from this have "getFamily (filled_with []) = 0" using getFamily_Cons [of _ 0 0] by simp
  ultimately have "print_address N (filled_with []) = Ok ''unspecified''"
    by (simp add: print_address_def AF_UNIX_def AF_INET_def AF_INET6_def)
  then have "show_name N (ss_getName idle_system) s = ((if ss_fd s < 0 then Throw InvalidFD else Ok (DShown ''unspecified'')), s)"
    "show_name N (ss_getPeer idle_system) s = ((if ss_fd s < 0 then Throw InvalidFD else Ok (DShown ''unspecified'')), s)"
    for s :: "unit stream_socket"
    by (simp_all add: show_name_def ss_getName_def ss_getPeer_def with_fd_def ss_do_def zoom_def bnd_run names)
  then have 5: "returns_or_throws (show_name N (ss_getName idle_system) :: (unit stream_socket, dvalue) prog)"
    "returns_or_throws (show_name N (ss_getPeer idle_system) :: (unit stream_socket, dvalue) prog)"
    "clean_result (show_name N (ss_getName idle_system) :: (unit stream_socket, dvalue) prog)"
    "clean_result (show_name N (ss_getPeer idle_system) :: (unit stream_socket, dvalue) prog)"
    by (auto simp: returns_or_throws_def clean_result_def no_braces_simps brace_def)
  show ?thesis by (rule class_dumps_valid [OF 1(1,2) 2 1(3) 4 3 5])
qed

subsection \<open>A queued packet\<close>

definition ends_undef :: "'s dumper \<Rightarrow> bool" where
  "ends_undef d \<longleftrightarrow> (\<forall>os s. fst (d os s) = Undef)"

lemma undef_bnd: "fst (m s) = Undef \<Longrightarrow> fst (bnd m k s) = Undef"
  by (cases "m s") (simp add: bnd_run)

lemma undef_here: "ends_undef d \<Longrightarrow> ends_undef (dump_seq (d # ds))"
  by (simp add: ends_undef_def undef_bnd)

lemma undef_later:
  assumes "always_returns d" and "ends_undef (dump_seq ds)"
  shows "ends_undef (dump_seq (d # ds))"
  unfolding ends_undef_def
proof (intro allI)
  fix os s
  obtain os1 s1 where "d os s = (Ok os1, s1)" using assms(1) unfolding always_returns_def by blast
  then show "fst (dump_seq (d # ds) os s) = Undef" using assms(2) by (simp add: bnd_run ends_undef_def)
qed

lemma undef_text: "ends_undef d \<Longrightarrow> ends_undef (\<lambda>os. bnd (dump_text d os) (\<lambda>t. ret (f t os)))"
  by (simp add: ends_undef_def dump_text_def undef_bnd)

lemma undef_member:
  assumes "d \<in> set ds" and "ends_undef d" and "\<And>x. x \<in> set ds \<Longrightarrow> always_returns x \<or> ends_undef x"
  shows "ends_undef (dump_seq (ds @ es))"
  using assms
proof (induction ds)
  case (Cons x ds)
  show ?case
  proof (cases "ends_undef x")
    case True
    then show ?thesis by (simp only: append.simps undef_here)
  next
    case False
    then have "always_returns x" and "d \<in> set ds" using Cons.prems by auto
    then show ?thesis using Cons by (simp only: append.simps) (rule undef_later; simp)
  qed
qed simp

lemma Data_dump_undef:
  assumes "0 \<notin> set (fst p)"
  shows "ends_undef (Data_dump self ex cm_addr p)"
proof -
  have "ends_undef (DUMP_RESULT_OF ex ''buffer->data()'' (show_chars (fst p)))"
    using assms by (simp add: ends_undef_def DUMP_RESULT_OF_def show_chars_def undef_def)
  then show ?thesis
    unfolding Data_dump_def dump_object_def append.simps by (intro undef_later returns_parts undef_here)
qed

lemma Data_dump_returns: "0 \<in> set (fst p) \<Longrightarrow> always_returns (Data_dump self ex cm_addr p)"
  unfolding Data_dump_def
  by (rule returns_object) (auto simp: returns_or_throws_def show_chars_def intro!: returns_intros)

text \<open>
  A queued packet need not be a C string, but its dump prints it as one: when the data of a packet
  has no zero byte, dumping it, and dumping any socket with such a packet in its queue, reads past
  the end of the packet (undefined behaviour), whatever else the socket holds.
\<close>

theorem queued_packet_dump_undefined:
  assumes "p \<in> set (outputQueue s)" and "0 \<notin> set (fst p)"
  shows "fst (SeqPacketSocket_dump self N ex a packet_addr S cbs s os s0) = Undef"
proof -
  let ?f = "\<lambda>(i, p). Data_dump (fst (packet_addr i)) ex (snd (packet_addr i)) p"
  let ?el = "\<lambda>d os. bnd (dump_text d os) (\<lambda>t. ret (outputNamelessValue (DDumpable t) os))"
  have "p \<in> snd ` set (enumerate 0 (outputQueue s))" using assms(1) by (simp flip: set_map)
  then obtain i where i: "(i, p) \<in> set (enumerate 0 (outputQueue s))" by auto
  have el: "always_returns (?el (?f x)) \<or> ends_undef (?el (?f x))" for x
  proof (cases "0 \<in> set (fst (snd x))")
    case True
    then have "always_returns (?f x)" by (cases x) (simp add: Data_dump_returns)
    then have "always_returns (?el (?f x))" by (rule returns_text)
    then show ?thesis ..
  next
    case False
    then have "ends_undef (?f x)" by (cases x) (simp add: Data_dump_undef)
    then have "ends_undef (?el (?f x))" by (rule undef_text)
    then show ?thesis ..
  qed
  have p: "ends_undef (?el (?f (i, p)))" using undef_text [OF Data_dump_undef [OF assms(2)]] by simp
  have "ends_undef (dump_seq (map ?el (map ?f (enumerate 0 (outputQueue s))) @ [writes (put [CHR ''}'', LF])]))"
    by (rule undef_member [of "?el (?f (i, p))"]) (simp only: set_map, intro imageI i, rule p, use el in auto)
  then have "ends_undef (DUMP_OBJECTS ''outputQueue'' (map ?f (enumerate 0 (outputQueue s))))"
    unfolding DUMP_OBJECTS_def DUMP_BLOCK_def by (intro undef_later returns_writes)
  moreover have "always_returns (DUMP_RESULT_OF ex name (ret v) :: 'a seq_packet_socket dumper)" for name v
    by (rule returns_result_of) (simp add: returns_or_throws_def)
  ultimately have "ends_undef (SeqPacketSocket_dump self N ex a packet_addr S cbs s)"
    unfolding SeqPacketSocket_dump_def dump_object_def append.simps by (intro undef_later returns_parts undef_here)
  then show ?thesis by (simp add: ends_undef_def)
qed

theorem queued_packet_dump_undefined_witness:
  fixes cbs :: "unit sq_callbacks"
  shows "fst (SeqPacketSocket_dump (''SeqPacketSocket'', 1) N (\<lambda>_. (''E'', ''e'')) a (\<lambda>i. ((''Data'', i), 2)) idle_system cbs
     \<lparr>sq_fd = 7, maxSize = 10, sq_connecting = False, sq_sending = True, sq_buffer = [], sq_cm = cm_empty,
        outputQueue = [([1, 2], cm_empty)], sq_world = ()\<rparr> new_ostringstream s0) = Undef"
  by (rule queued_packet_dump_undefined [of "([1, 2], cm_empty)"]) simp_all

subsection \<open>A brace in a name\<close>

text \<open>\<open>adds s s' k d\<close>: from \<open>s\<close>, \<open>d\<close> returns in \<open>s'\<close> and has appended a text that opens \<open>k\<close> more braces than
  it closes.\<close>

definition adds :: "'s \<Rightarrow> 's \<Rightarrow> int \<Rightarrow> 's dumper \<Rightarrow> bool" where
  "adds s s' k d \<longleftrightarrow> (\<forall>os. \<exists>os'. d os s = (Ok os', s') \<and> depth (os_text os') = depth (os_text os) + k)"

lemma depth_append [simp]: "depth (s @ t) = depth s + depth t"
  by (simp add: depth_def)

lemma no_braces_depth: "no_braces s \<Longrightarrow> depth s = 0"
  using no_braces_balanced scan_depth unfolding balanced_def by fastforce

lemma adds_clean:
  assumes "clean d" and "\<And>os. \<exists>os'. d os s = (Ok os', s')"
  shows "adds s s' 0 d"
  unfolding adds_def
proof
  fix os
  obtain os' where run: "d os s = (Ok os', s')" using assms(2) by blast
  then obtain t where "os_text os' = os_text os @ t" "balanced t" using assms(1) unfolding clean_def appends_def by blast
  with run show "\<exists>os'. d os s = (Ok os', s') \<and> depth (os_text os') = depth (os_text os) + 0"
    using scan_depth [of 0 t 0] by (simp add: balanced_def)
qed

lemma adds_Nil: "adds s s 0 (dump_seq [])"
  by (simp add: adds_def writes_def)

lemma adds_Cons:
  assumes "adds s s1 j d" and "adds s1 s2 k (dump_seq ds)"
  shows "adds s s2 (j + k) (dump_seq (d # ds))"
  unfolding adds_def
proof
  fix os
  obtain os1 where 1: "d os s = (Ok os1, s1)" "depth (os_text os1) = depth (os_text os) + j"
    using assms(1) unfolding adds_def by blast
  obtain os2 where 2: "dump_seq ds os1 s1 = (Ok os2, s2)" "depth (os_text os2) = depth (os_text os1) + k"
    using assms(2) unfolding adds_def by blast
  from 1 2 show "\<exists>os'. dump_seq (d # ds) os s = (Ok os', s2) \<and> depth (os_text os') = depth (os_text os) + (j + k)"
    by (simp add: bnd_run)
qed

lemma adds_begin: "no_braces (fst self) \<Longrightarrow> adds s s 1 (DUMP_BEGIN self)"
proof -
  assume "no_braces (fst self)"
  then have "depth (fst self) = 0" "depth (hexadecimal False n) = 0" for n
    by (simp_all add: no_braces_depth hexadecimal_no_braces)
  then have "depth (os_text (put [LF] (put_ptr (snd self) (put (fst self @ [LF, CHR ''{'', LF] @ ''this: '') os))))
      = depth (os_text os) + 1" for os
    by (simp add: put_def put_ptr_def) (simp add: depth_def brace_def)
  then show ?thesis by (simp add: adds_def DUMP_BEGIN_def writes_def)
qed

lemma adds_end: "adds s s (- 1) DUMP_END"
  by (auto simp: adds_def DUMP_END_def writes_def put_def depth_def brace_def)

lemma adds_value: "no_braces name \<Longrightarrow> clean_value v \<Longrightarrow> adds s s 0 (DUMP_VALUE_OF name v)"
  by (rule adds_clean [OF clean_value_of]) (simp_all add: DUMP_VALUE_OF_def writes_def)

lemma adds_address: "no_braces name \<Longrightarrow> adds s s 0 (DUMP_ADDRESS_OF name p)"
  unfolding DUMP_ADDRESS_OF_def by (rule adds_value) simp_all

lemma adds_shown:
  assumes "no_braces name" and "m s = (Ok (DShown t), s')"
  shows "adds s s' (depth t) (DUMP_RESULT_OF ex name m)"
proof -
  have "DUMP_RESULT_OF ex name m os s = (Ok (put ('': '' @ t @ [LF]) (outputName (CName (Some name)) os)), s')" for os
    using assms(2) by (simp add: DUMP_RESULT_OF_def DUMP_VALUE_OF_def writes_def outputNameAndValue_def put_def
        copy_flags_def new_ostringstream_def)
  moreover have "depth (os_text (put ('': '' @ t @ [LF]) (outputName (CName (Some name)) os))) = depth (os_text os) + depth t" for os
    using no_braces_depth [OF no_braces_c_str [OF assms(1)]]
    by (simp add: put_def outputName_def) (simp add: depth_def brace_def)
  ultimately show ?thesis by (simp add: adds_def)
qed

lemma adds_parent: "no_braces (fst self) \<Longrightarrow> adds s s 0 (DUMP_AS (FDListener_dump self))"
  by (rule adds_clean [OF clean_as [OF valid_FDListener [THEN valid_clean]]])
    (simp_all add: DUMP_AS_def DUMP_BLOCK_def FDListener_dump_def dump_object_def DUMP_BEGIN_def DUMP_END_def writes_def bnd_run)

text \<open>
  A path with a brace in it breaks the dump. When the name of a listening socket prints with more
  opening than closing braces, as that of a socket bound to the path \<open>{\<close> does, its dump returns but fails the
  check of the unit tests whatever else it holds, and the indentation of everything dumped after it
  is off.
\<close>

theorem brace_in_name_breaks_dump:
  assumes "show_name N (ls_getName S) s0 = (Ok (DShown t), s1)" and "depth t \<noteq> 0"
    and "no_braces (fst self)" and "no_braces (fst (da_parent a))"
  shows "\<exists>os'. ListeningSocket_dump self N ex a S cbs s new_ostringstream s0 = (Ok os', s1)
     \<and> \<not> EXPECT_VALID_DUMP (os_text os')"
proof -
  have nb: "list_all no_braces [''system'', ''runner'', ''fd'', ''newAcceptedSocketCb'', ''handleExceptionCb'', ''getName()'']"
    by (simp add: no_braces_simps brace_def)
  have shown: "adds s0 s1 (depth t) (DUMP_RESULT_OF ex ''getName()'' (show_name N (ls_getName S)))"
    by (rule adds_shown) (use nb in simp, fact assms(1))
  have "adds s0 s1 (1 + (0 + (0 + (0 + (0 + (0 + (depth t + (0 + (- 1 + 0)))))))))
      (ListeningSocket_dump self N ex a S cbs s)"
    unfolding ListeningSocket_dump_def dump_object_def append.simps
    by (rule adds_Cons adds_Nil adds_end adds_begin [OF assms(3)] adds_parent [OF assms(4)] shown
        adds_value adds_address | use nb in simp)+
  then obtain os' where run: "ListeningSocket_dump self N ex a S cbs s new_ostringstream s0 = (Ok os', s1)"
    and d: "depth (os_text os') = depth (os_text new_ostringstream) + depth t"
    unfolding adds_def by fastforce
  have "depth (os_text new_ostringstream) = 0" by (simp add: new_ostringstream_def depth_def)
  then have "\<not> balanced (os_text os')" using d assms(2) scan_depth [of 0 "os_text os'" 0] by (auto simp: balanced_def)
  with run show ?thesis by (auto simp: EXPECT_VALID_DUMP_def checkEvenBraces_balanced)
qed

theorem brace_in_name_breaks_dump_witness:
  fixes cbs :: "unit ls_callbacks"
  defines "S \<equiv> idle_system\<lparr>sys_getSockName := (\<lambda>_ w. (Ok [1, 0, 123, 0], w))\<rparr> :: unit system"
    and "s \<equiv> \<lparr>ls_fd = 7, ls_accepted = - 1, ls_world = ()\<rparr>"
  shows "\<exists>os'. ListeningSocket_dump (''ListeningSocket'', 1) N (\<lambda>_. (''E'', ''e''))
      \<lparr>da_system = 7, da_runner = 12, da_in = ([], 0), da_out = ([], 0), da_parent = (''FDListener'', 15)\<rparr>
      S cbs s new_ostringstream s = (Ok os', s) \<and> \<not> EXPECT_VALID_DUMP (os_text os')"
proof -
  have a: "filled_with [1, 0, 123, 0] = \<lparr>sa_bytes = [1, 0] @ 123 # replicate 109 0, usedSize = of_nat 4\<rparr>"
    by (simp add: filled_with_def new_address_def poke_def sizeof_SAUnion_def replicate_peel [of 109])
  have "print_address N (filled_with [1, 0, 123, 0]) = Ok ''unix:{''"
    unfolding a by (subst print_unix) (simp_all add: outputUnix_def outputUnix_loop.simps and_then_def chr_def char_of_def bit_iff_odd char.expand)
  then have "show_name N (ls_getName S) s = (Ok (DShown ''unix:{''), s)"
    by (simp add: show_name_def ls_getName_def ls_with_fd_def ls_do_def zoom_def bnd_run S_def s_def)
  then show ?thesis
    by (rule brace_in_name_breaks_dump) (simp_all add: depth_def no_braces_simps brace_def)
qed

end
