(* ===== verification/SeqPacketEchoServer.thy ===== *)
theory SeqPacketEchoServer
  imports EchoServer SeqPacketSocket
begin

text \<open>
  Model of \<open>src/examples/SeqPacketEchoServer/main.cpp\<close>, the echo server over packets: the same classes as in
  \<open>EchoServer\<close>, in a namespace of their own, with a \<open>SeqPacketSocket\<close> for each connection. The state is that of
  \<open>EchoServer\<close> with packet sockets in the list of accepted sockets.
\<close>

type_synonym 'k packet_server = "(unit seq_packet_socket, 'k) echo_server"

section \<open>AcceptedSocket\<close>

definition sqe_TIMEOUT :: duration where
  "sqe_TIMEOUT = Micros 10000000"

definition sqe_remove :: "'k system \<Rightarrow> nat \<Rightarrow> nat \<Rightarrow> (('a, 'k) echo_server, unit) prog" where
  "sqe_remove S self i = addCallback (wakeUp S self) (Some (CbRemoveAccepted i))"

definition sqe_resetTimeout :: "'k system \<Rightarrow> nat \<Rightarrow> (('a, 'k) echo_server, unit) prog" where
  "sqe_resetTimeout S i = schedule_timer S i sqe_TIMEOUT (Some (CbRemove i))"

definition sqe_connectionClosedCb :: "netdb \<Rightarrow> 'k system \<Rightarrow> nat \<Rightarrow> nat \<Rightarrow> int \<Rightarrow>
    (('a, 'k) echo_server seq_packet_socket, unit) prog" where
  "sqe_connectionClosedCb N S self i error = seq
     (sq_do (if error \<noteq> 0 then print_err (''Error in accepted connection: '' @ strerror N error @ NL)
        else print_out (''Accepted socket closed'' @ NL)))
     (sq_do (sqe_remove S self i))"

definition sqe_members :: "netdb \<Rightarrow> 'k system \<Rightarrow> nat \<Rightarrow> nat \<Rightarrow>
    (byte list \<Rightarrow> control_message \<Rightarrow> (('a, 'k) echo_server seq_packet_socket, unit) prog) \<Rightarrow>
    ('a, 'k) echo_server sq_callbacks" where
  "sqe_members N S self i received = \<lparr>sqc_established = None, sqc_closed = sqe_connectionClosedCb N S self i,
     sqc_received = received, sqc_sent = None\<rparr>"

text \<open>The callback takes the data; \<open>std::bind\<close> drops the control message. \<open>send\<close> never calls \<open>dataReceivedCb\<close>.\<close>

definition sqe_dataReceivedCb :: "netdb \<Rightarrow> 'k system \<Rightarrow> nat \<Rightarrow> nat \<Rightarrow> byte list \<Rightarrow> (('a, 'k) echo_server seq_packet_socket, unit) prog" where
  "sqe_dataReceivedCb N S self i data = seq (sq_do (sqe_resetTimeout S i))
     (sq_send_plain (server_system S) (server_runner S (AsObj i)) (sqe_members N S self i (\<lambda>_ _. undef)) data)"

definition sqe_callbacks :: "netdb \<Rightarrow> 'k system \<Rightarrow> nat \<Rightarrow> nat \<Rightarrow> ('a, 'k) echo_server sq_callbacks" where
  "sqe_callbacks N S self i = sqe_members N S self i (\<lambda>data _. sqe_dataReceivedCb N S self i data)"

text \<open>The destructor: its body, then the members \<open>timeout\<close> and \<open>ss\<close>.\<close>

definition sq_with_world :: "'v \<Rightarrow> 'w seq_packet_socket \<Rightarrow> 'v seq_packet_socket" where
  "sq_with_world w s = \<lparr>sq_fd = sq_fd s, maxSize = maxSize s, sq_connecting = sq_connecting s, sq_sending = sq_sending s,
     sq_buffer = sq_buffer s, sq_cm = sq_cm s, outputQueue = outputQueue s, sq_world = w\<rparr>"

definition sqe_destroy_ss :: "'k system \<Rightarrow> nat \<Rightarrow> unit seq_packet_socket \<Rightarrow> ('k packet_server, unit) prog" where
  "sqe_destroy_ss S i a = (\<lambda>s. case sq_destroy (server_system S) (server_runner S (AsObj i)) (sq_with_world s a) of
     (r, t) \<Rightarrow> (r, sq_world t))"

definition sqe_destroy :: "'k system \<Rightarrow> nat \<Rightarrow> unit seq_packet_socket \<Rightarrow> ('k packet_server, unit) prog" where
  "sqe_destroy S i a = seq (print_out (''Deleting accepted socket'' @ NL))
     (seq (noexcept (on_tq (timer_destroy i))) (sqe_destroy_ss S i a))"

text \<open>The constructor. When it throws, the members are destroyed.\<close>

definition sqe_create :: "'k system \<Rightarrow> nat \<Rightarrow> rawfd \<Rightarrow> ('k packet_server, unit seq_packet_socket) prog" where
  "sqe_create S i fd = (\<lambda>s. case sq_adopt (server_system S) (server_runner S (AsObj i)) fd (sq_blank 1024 s) of
       (Ok _, t) \<Rightarrow> (let a = sq_with_world () t in
         on_unwind
           (seq (modify_st (\<lambda>s. s\<lparr>tq := timer_create i (tq s)\<rparr>))
             (seq (print_out (''New accepted socket'' @ NL))
               (seq (on_unwind (sqe_resetTimeout S i) (on_tq (timer_destroy i))) (ret a))))
           (sqe_destroy_ss S i a) (sq_world t))
     | (r, t) \<Rightarrow> (fail_as r, sq_world t))"

section \<open>Server\<close>

definition sqe_newAcceptedSocket :: "'k system \<Rightarrow> rawfd \<Rightarrow> ('k packet_server, unit) prog" where
  "sqe_newAcceptedSocket S fd = (\<lambda>s. let i = next_obj s in
     bnd (sqe_create S i fd) (\<lambda>a. modify_st (\<lambda>s. s\<lparr>ass := ass s @ [(i, a)]\<rparr>)) (s\<lparr>next_obj := Suc i\<rparr>))"

text \<open>The loop over the list: the object found and the list without it.\<close>

fun sqe_find_release :: "nat \<Rightarrow> (nat \<times> 'a) list \<Rightarrow> ('a \<times> (nat \<times> 'a) list) option" where
  "sqe_find_release i [] = None"
| "sqe_find_release i ((j, a) # xs) = (if j = i then Some (a, xs)
     else map_option (\<lambda>(b, ys). (b, (j, a) # ys)) (sqe_find_release i xs))"

definition sqe_removeAcceptedSocket :: "'k system \<Rightarrow> nat \<Rightarrow> ('k packet_server, unit) prog" where
  "sqe_removeAcceptedSocket S i = (\<lambda>s. case sqe_find_release i (ass s) of
       None \<Rightarrow> (Ok (), s)
     | Some (a, rest) \<Rightarrow> sqe_destroy S i a (s\<lparr>ass := rest\<rparr>))"

section \<open>ListeningSocket\<close>

definition sqe_newAcceptedSocketCb :: "netdb \<Rightarrow> 'k system \<Rightarrow> rawfd \<Rightarrow> byte list \<Rightarrow> ('k packet_server listening_socket, unit) prog" where
  "sqe_newAcceptedSocketCb N S fd sa =
     seq (ls_do (seq (print_out ''New accepted connection from '')
            (seq (print_addr N (filled_with sa)) (print_out NL))))
       (seq (modify_st (\<lambda>l. l\<lparr>ls_accepted := - 1\<rparr>)) (ls_do (sqe_newAcceptedSocket S fd)))"

definition sqe_handleExceptionCb :: "(exn \<Rightarrow> string) \<Rightarrow> exn \<Rightarrow> (('a, 'k) echo_server listening_socket, unit) prog" where
  "sqe_handleExceptionCb what e = ls_do (print_err (''Error while accepting new connection: '' @ what e @ NL))"

definition sqe_ls_callbacks :: "netdb \<Rightarrow> (exn \<Rightarrow> string) \<Rightarrow> 'k system \<Rightarrow> 'k packet_server ls_callbacks" where
  "sqe_ls_callbacks N what S = \<lparr>newAcceptedSocketCb = sqe_newAcceptedSocketCb N S,
     handleExceptionCb = Some (sqe_handleExceptionCb what)\<rparr>"

text \<open>\<open>SOCK_SEQPACKET\<close> is 5.\<close>

definition sqe_ListeningSocket_create :: "netdb \<Rightarrow> 'k system \<Rightarrow> nat \<Rightarrow> socket_address \<Rightarrow> ('k packet_server, rawfd) prog" where
  "sqe_ListeningSocket_create N S i sa = (\<lambda>s. let R = server_runner S (LsObj i) in
     case ls_listen (server_system S) R 5 0 (getFamily sa, address_bytes sa)
            \<lparr>ls_fd = - 1, ls_accepted = - 1, ls_world = s\<rparr> of
       (Ok _, l) \<Rightarrow> seq
          (on_unwind (seq (print_out ''Listening '') (seq (print_addr N sa) (print_out NL)))
            (\<lambda>s. case ls_destroy (server_system S) R (l\<lparr>ls_world := s\<rparr>) of (r, l) \<Rightarrow> (r, ls_world l)))
          (ret (ls_fd l)) (ls_world l)
     | (r, l) \<Rightarrow> (fail_as r, ls_world l))"

definition sqe_newListeningSocket :: "netdb \<Rightarrow> 'k system \<Rightarrow> socket_address \<Rightarrow> ('k packet_server, unit) prog" where
  "sqe_newListeningSocket N S sa = (\<lambda>s. let i = next_obj s in
     bnd (sqe_ListeningSocket_create N S i sa) (\<lambda>fd. modify_st (\<lambda>s. s\<lparr>lss := lss s @ [(i, fd)]\<rparr>)) (s\<lparr>next_obj := Suc i\<rparr>))"

section \<open>Events, callbacks and the program\<close>

definition put_packet_socket :: "nat \<Rightarrow> 'k packet_server seq_packet_socket \<Rightarrow> 'k packet_server" where
  "put_packet_socket i t = (sq_world t)\<lparr>ass := map (\<lambda>(j, b). (j, if j = i then sq_with_world () t else b)) (ass (sq_world t))\<rparr>"

definition sqe_on_accepted :: "nat \<Rightarrow> ('k packet_server seq_packet_socket, unit) prog \<Rightarrow> ('k packet_server, unit) prog" where
  "sqe_on_accepted i m = (\<lambda>s. case map_of (ass s) i of
       None \<Rightarrow> (Undef, s)
     | Some a \<Rightarrow> (case m (sq_with_world s a) of (r, t) \<Rightarrow> (r, put_packet_socket i t)))"

definition sqe_dispatch :: "nat \<Rightarrow> netdb \<Rightarrow> (exn \<Rightarrow> string) \<Rightarrow> 'k system \<Rightarrow> nat \<Rightarrow>
    echo_obj run_listener \<Rightarrow> rawfd \<Rightarrow> event_mask \<Rightarrow> ('k packet_server, unit) prog" where
  "sqe_dispatch n N what S self fl fd ev = (case fl of
       EventPipe \<Rightarrow> (\<lambda>s. read_all n S (readFD s) 32 s)
     | SignalListener \<Rightarrow> signalfd_handle n S (wakeUp S self) CbSignal
     | TimerListener \<Rightarrow> undef
     | User (LsObj i) \<Rightarrow> on_listening i (ls_handleEventsCb n (server_system S) (sqe_ls_callbacks N what S))
     | User (AsObj i) \<Rightarrow> sqe_on_accepted i
         (sq_handleEventsCb (server_system S) (server_runner S (AsObj i)) (sqe_callbacks N S self i) ev))"

definition sqe_call :: "'k system \<Rightarrow> nat \<Rightarrow> echo_cb \<Rightarrow> ('k packet_server, unit) prog" where
  "sqe_call S self cb = (case cb of
       CbRemoveAccepted i \<Rightarrow> sqe_removeAcceptedSocket S i
     | CbRemove i \<Rightarrow> sqe_remove S self i
     | CbSignal sig \<Rightarrow> modify_st (\<lambda>s. if sig = 2 then s\<lparr>doContinue := False\<rparr> else s))"

fun sqe_listen_all :: "(string \<Rightarrow> socket_address option) \<Rightarrow> netdb \<Rightarrow> 'k system \<Rightarrow> string list \<Rightarrow> ('k packet_server, unit) prog" where
  "sqe_listen_all lexical_cast N S [] = ret ()"
| "sqe_listen_all lexical_cast N S (arg # args) = (case lexical_cast arg of
       None \<Rightarrow> abort
     | Some sa \<Rightarrow> seq (sqe_newListeningSocket N S sa) (sqe_listen_all lexical_cast N S args))"

fun sqe_destroy_accepted :: "'k system \<Rightarrow> (nat \<times> unit seq_packet_socket) list \<Rightarrow> ('k packet_server, unit) prog" where
  "sqe_destroy_accepted S [] = ret ()"
| "sqe_destroy_accepted S ((i, a) # as) = seq (sqe_destroy S i a) (sqe_destroy_accepted S as)"

definition sqe_server_destroy :: "'k system \<Rightarrow> ('k packet_server, unit) prog" where
  "sqe_server_destroy S = (\<lambda>s. seq (sqe_destroy_accepted S (ass s)) (seq (modify_st (\<lambda>s. s\<lparr>ass := []\<rparr>))
     (seq (destroy_listening S (lss s)) (modify_st (\<lambda>s. s\<lparr>lss := []\<rparr>)))) s)"

definition sqe_main :: "nat \<Rightarrow> (string \<Rightarrow> socket_address option) \<Rightarrow> netdb \<Rightarrow> (exn \<Rightarrow> string) \<Rightarrow> 'k system \<Rightarrow> nat \<Rightarrow>
    string list \<Rightarrow> ('k packet_server, int) prog" where
  "sqe_main n lexical_cast N what S self args = noexcept
     (seq (epoll_runner_create S (Some {2}))
       (seq (sqe_listen_all lexical_cast N S args)
         (seq (modify_st (\<lambda>s. s\<lparr>runnerThreadId := Some self\<rparr>))
           (seq (scope_exit (runImpl n S (sqe_call S self) (sqe_dispatch n N what S self) (get_st doContinue))
                  (\<lambda>s. s\<lparr>runnerThreadId := None\<rparr>))
             (seq (print_out (''Done'' @ NL))
               (seq (sqe_server_destroy S) (seq (epoll_runner_destroy S) (ret 0))))))))"

end
