(* ===== verification/SeqPacketEchoProps.thy ===== *)
theory SeqPacketEchoProps
  imports SeqPacketEchoServer EchoServerProps
begin

text \<open>
  What the packet echo server promises to one peer: every packet it sends back is one it has received,
  whole and in order, and as long as the connection is open none is lost. Empty packets are the
  exception: they are echoed again and again.
\<close>

section \<open>One connection\<close>

text \<open>\<open>sent\<close> and \<open>recvd\<close> are the packets the kernel has taken from the descriptor and given to it.\<close>

definition packet_connection :: "('k \<Rightarrow> byte list list) \<Rightarrow> ('k \<Rightarrow> byte list list) \<Rightarrow> rawfd \<Rightarrow> 'k system \<Rightarrow> bool" where
  "packet_connection sent recvd fd S \<longleftrightarrow>
     (\<forall>bs cm w r w'. sys_sendmsg S fd bs cm w = (r, w') \<longrightarrow> recvd w' = recvd w \<and> (case r of
        Ok n \<Rightarrow> if 0 \<le> n then n = int (length bs) \<and> sent w' = sent w @ [bs] else sent w' = sent w
      | _ \<Rightarrow> sent w' = sent w)) \<and>
     (\<forall>room croom w r w'. sys_recvmsg S fd room croom w = (r, w') \<longrightarrow> sent w' = sent w \<and> (case r of
        Ok (n, bs, c) \<Rightarrow> if 0 \<le> n then length bs = nat n \<and> length bs \<le> room \<and> recvd w' = recvd w @ [bs] else recvd w' = recvd w
      | _ \<Rightarrow> recvd w' = recvd w)) \<and>
     leaves (wires sent recvd) S"

definition payload :: "byte list list \<Rightarrow> byte list list" where
  "payload ps = filter (\<lambda>p. p \<noteq> []) ps"

lemma payload_simps [simp]:
  "payload [] = []" "payload (ps @ qs) = payload ps @ payload qs" "payload (p # ps) = (if p = [] then payload ps else p # payload ps)"
  by (simp_all add: payload_def)

text \<open>The packets that were sent back or are queued to be.\<close>

definition returned :: "('k \<Rightarrow> byte list list) \<Rightarrow> ('a, 'k) echo_server seq_packet_socket \<Rightarrow> byte list list" where
  "returned sent s = payload (sent (world (sq_world s)) @ map fst (outputQueue s))"

definition arrived :: "('k \<Rightarrow> byte list list) \<Rightarrow> ('a, 'k) echo_server seq_packet_socket \<Rightarrow> byte list list" where
  "arrived recvd s = payload (recvd (world (sq_world s)))"

text \<open>What holds even after a failure; and what holds while the connection is open, when the packets \<open>ps\<close> are yet
  to be given to \<open>send\<close>.\<close>

definition in_order :: "('k \<Rightarrow> byte list list) \<Rightarrow> ('k \<Rightarrow> byte list list) \<Rightarrow> ('a, 'k) echo_server seq_packet_socket \<Rightarrow> bool" where
  "in_order sent recvd s \<longleftrightarrow> prefix (returned sent s) (arrived recvd s)"

definition lags :: "('k \<Rightarrow> byte list list) \<Rightarrow> ('k \<Rightarrow> byte list list) \<Rightarrow> rawfd \<Rightarrow> byte list list \<Rightarrow>
    ('a, 'k) echo_server seq_packet_socket \<Rightarrow> bool" where
  "lags sent recvd fd ps s \<longleftrightarrow> in_order sent recvd s \<and> (0 \<le> sq_fd s \<longrightarrow> sq_fd s = fd
     \<and> returned sent s @ payload ps = arrived recvd s \<and> (outputQueue s \<noteq> [] \<longrightarrow> sq_sending s))"

lemma lags_in_order: "lags sent recvd fd ps s \<Longrightarrow> in_order sent recvd s"
  by (simp add: lags_def)

lemma lags_closed: "in_order sent recvd s \<Longrightarrow> sq_fd s < 0 \<Longrightarrow> lags sent recvd fd ps s"
  by (simp add: lags_def)

lemma same_order:
  assumes "wires sent recvd (world (sq_world t)) = wires sent recvd (world (sq_world s))" and "outputQueue t = outputQueue s"
  shows "returned sent t = returned sent s" "arrived recvd t = arrived recvd s" "in_order sent recvd t = in_order sent recvd s"
  using assms by (simp_all add: returned_def arrived_def in_order_def wires_def)

lemma lags_same:
  assumes "lags sent recvd fd ps s" and "wires sent recvd (world (sq_world t)) = wires sent recvd (world (sq_world s))"
    and "outputQueue t = outputQueue s" and "sq_fd t = sq_fd s \<or> sq_fd t < 0" and "sq_sending s \<longrightarrow> sq_sending t"
  shows "lags sent recvd fd ps t"
  using assms(1,3-5) same_order [OF assms(2,3)] by (auto simp: lags_def)

section \<open>What keeps the order\<close>

abbreviation keeps_order :: "('k \<Rightarrow> byte list list) \<Rightarrow> ('k \<Rightarrow> byte list list) \<Rightarrow> rawfd \<Rightarrow> byte list list \<Rightarrow>
    (('a, 'k) echo_server seq_packet_socket, 'b) prog \<Rightarrow> byte list list \<Rightarrow> bool" where
  "keeps_order sent recvd fd ps m qs \<equiv> triple (lags sent recvd fd ps) m (\<lambda>_. lags sent recvd fd qs) (in_order sent recvd)"

lemma order_ret: "keeps_order sent recvd fd ps (ret x) ps" "keeps_order sent recvd fd ps (throw e) ps"
  "keeps_order sent recvd fd ps abort ps" "keeps_order sent recvd fd ps undef ps"
  by (simp_all add: triple_def lags_in_order)

lemma order_do:
  fixes m :: "(('a, 'k) echo_server, 'b) prog"
  assumes "unchanged (\<lambda>s. wires sent recvd (world s)) m" shows "keeps_order sent recvd fd ps (sq_do m) ps"
proof (rule tripleI)
  fix s :: "('a, 'k) echo_server seq_packet_socket" and r t
  assume s: "lags sent recvd fd ps s" and run: "sq_do m s = (r, t)"
  have "lags sent recvd fd ps t"
    by (rule lags_same [OF s]) (use run unchangedD [OF assms, of "sq_world s"] in \<open>auto simp: sq_do_run split: prod.splits\<close>)
  then show "(\<forall>x. r = Ok x \<longrightarrow> lags sent recvd fd ps t) \<and> ((\<forall>x. r \<noteq> Ok x) \<longrightarrow> in_order sent recvd t)"
    by (simp add: lags_in_order)
qed

lemma order_fields:
  "keeps_order sent recvd fd ps (modify_st (\<lambda>s. s\<lparr>sq_connecting := b\<rparr>)) ps"
  "keeps_order sent recvd fd ps (modify_st (\<lambda>s. s\<lparr>sq_fd := - 1\<rparr>)) ps"
  by (auto simp: triple_def intro: lags_same)

lemma order_with_fd: "(\<And>d. keeps_order sent recvd fd ps (f d) qs) \<Longrightarrow> keeps_order sent recvd fd ps (sq_with_fd f) qs"
  by (simp add: triple_def sq_with_fd_def lags_in_order)

lemma order_when: "keeps_order sent recvd fd ps m ps \<Longrightarrow> keeps_order sent recvd fd ps (when_st b m) ps"
  by (rule triple_when) (auto intro: triple_weaken)

lemma order_if:
  "keeps_order sent recvd fd ps m qs \<Longrightarrow> keeps_order sent recvd fd ps k qs \<Longrightarrow> keeps_order sent recvd fd ps (if b then m else k) qs"
  by simp

lemma order_seq:
  "keeps_order sent recvd fd ps m ps \<Longrightarrow> keeps_order sent recvd fd ps k qs \<Longrightarrow> keeps_order sent recvd fd ps (seq m k) qs"
  by (rule triple_seq)

text \<open>Programs that only act on the server.\<close>

lemma preserves_order_do:
  fixes m :: "(('a, 'k) echo_server, 'b) prog"
  assumes "unchanged (\<lambda>s. wires sent recvd (world s)) m" shows "preserves (in_order sent recvd) (sq_do m)"
  unfolding preserves_def
proof (intro allI impI)
  fix s :: "('a, 'k) echo_server seq_packet_socket" assume s: "in_order sent recvd s"
  have "in_order sent recvd (snd (sq_do m s)) = in_order sent recvd s"
    by (rule same_order(3)) (use unchangedD [OF assms, of "sq_world s"] in \<open>simp_all add: sq_do_run split_beta\<close>)
  with s show "in_order sent recvd (snd (sq_do m s))" by simp
qed

lemma preserves_sq_with_fd: "(\<And>d. preserves I (f d)) \<Longrightarrow> preserves I (sq_with_fd f)"
  by (simp add: preserves_def sq_with_fd_def)

section \<open>Closing\<close>

lemma sqe_remove_unchanged: "leaves f S \<Longrightarrow> unchanged (\<lambda>s. f (world s)) (sqe_remove S self i)"
  unfolding sqe_remove_def by (rule addCallback_unchanged)

lemma sqe_closedCb_order:
  assumes "leaves (wires sent recvd) S"
  shows "preserves (in_order sent recvd) (sqe_connectionClosedCb N S self i e)"
  unfolding sqe_connectionClosedCb_def print_out_def print_err_def
  by (intro preserves_intros preserves_order_do unchanged_if unchanged_modify sqe_remove_unchanged [OF assms]) simp_all

lemma sqe_closedCb_fd: "unchanged sq_fd (sqe_connectionClosedCb N S self i e)"
  unfolding sqe_connectionClosedCb_def by (intro unchanged_seq) (simp_all add: unchanged_def sq_do_run split_beta)

text \<open>When \<open>close\<close> returns, the socket has no descriptor.\<close>

lemma sqe_close_order:
  fixes S :: "'k system"
  assumes "leaves (wires sent recvd) S"
  shows "triple (in_order sent recvd)
    (sq_close (server_system S) (server_runner S obj) (sqe_members N S self i received) e)
    (\<lambda>_ (s :: ('a, 'k) echo_server seq_packet_socket). in_order sent recvd s \<and> sq_fd s < 0) (in_order sent recvd)" (is "triple ?I ?close _ _")
proof (rule tripleI)
  fix s r and t :: "('a, 'k) echo_server seq_packet_socket" assume s: "?I s" and run: "?close s = (r, t)"
  have "preserves ?I ?close"
    unfolding sq_close_def
    by (intro preserves_intros preserves_sq_with_fd preserves_order_do)
      (simp_all add: server_runner_def server_system_run sqe_members_def sqe_closedCb_order [OF assms]
        del_unchanged [OF assms] unchanged_on_world leaves_unchanged [OF assms] in_order_def returned_def arrived_def)
  then have t: "?I t" using preservesD s run by fastforce
  moreover have "sq_fd t < 0" if ok: "r = Ok x" for x
  proof (cases "sq_fd s < 0")
    case True
    then show ?thesis using run by (simp add: sq_close_def when_run)
  next
    case False
    then obtain s1 where "sqe_connectionClosedCb N S self i e (s1\<lparr>sq_fd := - 1\<rparr>) = (Ok x, t)"
      using run ok by (auto simp: sq_close_def when_run sqe_members_def elim!: seq_OkE)
    then show ?thesis using unchangedD [OF sqe_closedCb_fd, of N S self i e "s1\<lparr>sq_fd := - 1\<rparr>"] by simp
  qed
  ultimately show "(\<forall>x. r = Ok x \<longrightarrow> ?I t \<and> sq_fd t < 0) \<and> ((\<forall>x. r \<noteq> Ok x) \<longrightarrow> ?I t)" by blast
qed

lemma sqe_close_lags:
  assumes "leaves (wires sent recvd) S"
  shows "triple (in_order sent recvd)
    (sq_close (server_system S) (server_runner S obj) (sqe_members N S self i received) e)
    (\<lambda>_. lags sent recvd fd ps) (in_order sent recvd)"
  by (rule triple_weaken [OF sqe_close_order [OF assms]]) (auto intro: lags_closed)

section \<open>Sending\<close>

lemma packet_sent:
  assumes "packet_connection sent recvd fd S" and "sys_sendmsg (server_system S) fd bs cm s = (r, t)"
  shows "recvd (world t) = recvd (world s) \<and> (case r of
      Ok n \<Rightarrow> if 0 \<le> n then n = int (length bs) \<and> sent (world t) = sent (world s) @ [bs] else sent (world t) = sent (world s)
    | _ \<Rightarrow> sent (world t) = sent (world s))"
proof -
  obtain r' w where w: "sys_sendmsg S fd bs cm (world s) = (r', w)" by (metis surj_pair)
  then have "r' = r" "world t = w" using assms(2) by (auto simp: server_system_run on_world_def zoom_run)
  then show ?thesis using assms(1) w by (simp add: packet_connection_def)
qed

lemma packet_leaves: "packet_connection sent recvd fd S \<Longrightarrow> leaves (wires sent recvd) S"
  by (simp add: packet_connection_def)

text \<open>\<open>trySendFast\<close>: the packet is on the wire; or it is not, and the socket is as before or closed; or an exception
  leaves it.\<close>

lemma try_send:
  fixes S :: "'k system" and s :: "('a, 'k) echo_server seq_packet_socket"
  assumes con: "packet_connection sent recvd fd S" and s: "lags sent recvd fd ps s"
    and run: "trySendFast (server_system S) (server_runner S obj) (sqe_members N S self i received) d s = (r, t)"
  obtains (left) w where "r = Ok True" "fst d \<noteq> []" "0 \<le> sq_fd s" "t = s\<lparr>sq_world := w\<rparr>"
      "sent (world w) = sent (world (sq_world s)) @ [fst d]" "recvd (world w) = recvd (world (sq_world s))"
  | (unsent) "r = Ok False" "lags sent recvd fd ps t"
      "0 \<le> sq_fd t \<longrightarrow> outputQueue t = outputQueue s \<and> sq_sending t = sq_sending s"
  | (failed) "\<And>b. r \<noteq> Ok b" "in_order sent recvd t"
proof (cases "sq_fd s < 0")
  case True
  then have "r = Throw InvalidFD" "t = s"
    using run by (simp_all add: trySendFast_def try_catch_run sendFast_def bnd_run sq_with_fd_def)
  then show ?thesis using s by (intro failed) (simp_all add: lags_in_order)
next
  case False
  let ?close = "sq_close (server_system S) (server_runner S obj) (sqe_members N S self i received)"
  obtain q w where send: "sys_sendmsg (server_system S) (sq_fd s) (fst d) (cm_data (snd d)) (sq_world s) = (q, w)"
    by (metis surj_pair)
  have fd: "sq_fd s = fd" using s False by (simp add: lags_def)
  note w = packet_sent [OF con send [unfolded fd]]
  let ?t = "s\<lparr>sq_world := w\<rparr>"
  have fast: "sendFast (server_system S) d s = (case q of Ok n \<Rightarrow> (Ok (n > 0), ?t) | _ \<Rightarrow> (fail_as q, ?t))"
    using False send by (cases q) (simp_all add: sendFast_def bnd_run sq_with_fd_def sq_do_run)
  show ?thesis
  proof (cases "\<exists>n. q = Ok n \<and> 0 < n")
    case True
    then show ?thesis using w fast False run
      by (intro left [of w]) (auto simp: trySendFast_def try_catch_run)
  next
    case not_sent: False
    have same: "returned sent ?t = returned sent s" "arrived recvd ?t = arrived recvd s"
      using w not_sent by (cases q; auto simp: returned_def arrived_def split: if_splits)+
    then have lags: "lags sent recvd fd ps ?t" using s by (simp add: lags_def in_order_def)
    show ?thesis
    proof (cases "\<exists>f err. q = Throw (SystemException f err)")
      case True
      then obtain f err where q: "q = Throw (SystemException f err)" by blast
      then have cl: "seq (?close err) (ret False) ?t = (r, t)"
        using fast run by (simp add: trySendFast_def try_catch_run)
      obtain r1 t1 where c: "?close err ?t = (r1, t1)" by (metis surj_pair)
      note closed = tripleD [OF sqe_close_order [OF packet_leaves [OF con]] lags_in_order [OF lags] c]
      show ?thesis
      proof (cases r1)
        case (Ok x)
        then have "r = Ok False" "t = t1" using cl c by (simp_all add: seq_run)
        moreover have "in_order sent recvd t1" "sq_fd t1 < 0" using closed(1) [OF Ok] by auto
        ultimately show ?thesis by (intro unsent) (auto intro: lags_closed)
      qed (use cl c closed(2) in \<open>auto simp: seq_run intro!: failed\<close>)
    next
      case other: False
      show ?thesis
      proof (cases q)
        case (Ok n)
        then have "r = Ok False" "t = ?t" using fast run not_sent by (auto simp: trySendFast_def try_catch_run)
        then show ?thesis using lags by (intro unsent) simp_all
      next
        case (Throw e)
        then have "r = Throw e" "t = ?t" using fast run other
          by (auto simp: trySendFast_def try_catch_run split: exn.splits option.splits)
        then show ?thesis using lags by (intro failed) (auto simp: lags_in_order)
      qed (use fast run lags in \<open>auto simp: trySendFast_def try_catch_run lags_in_order intro!: failed\<close>)
    qed
  qed
qed

text \<open>\<open>queue\<close> takes the packet that was yet to be sent.\<close>

lemma queue_order:
  fixes S :: "'k system"
  assumes "leaves (wires sent recvd) S"
  shows "triple (\<lambda>s. lags sent recvd fd [fst d] s \<and> 0 \<le> sq_fd s) (sq_queue (server_runner S obj) d)
    (\<lambda>_ (s :: ('a, 'k) echo_server seq_packet_socket). lags sent recvd fd [] s) (in_order sent recvd)"
proof -
  let ?q = "\<lambda>s. s\<lparr>sq_sending := True, outputQueue := outputQueue s @ [d]\<rparr>"
  have run: "sq_queue (server_runner S obj) d s = sq_with_fd (\<lambda>fd. sq_do (ri_modifyFDListener (server_runner S obj) fd (or EVENT_IN EVENT_OUT))) (?q s)"
    for s :: "('a, 'k) echo_server seq_packet_socket"
    by (simp add: sq_queue_def seq_run)
  have q: "lags sent recvd fd [] (?q s)" if "lags sent recvd fd [fst d] s" "0 \<le> sq_fd s" for s :: "('a, 'k) echo_server seq_packet_socket"
    using that by (auto simp: lags_def in_order_def returned_def arrived_def)
  have m: "keeps_order sent recvd fd []
      (sq_with_fd (\<lambda>fd. sq_do (ri_modifyFDListener (server_runner S obj) fd (or EVENT_IN EVENT_OUT)))) []"
    by (rule order_with_fd, rule order_do, simp add: server_runner_def, rule modify_unchanged [OF assms])
  show ?thesis
    unfolding triple_def run by (intro allI impI m [unfolded triple_def, rule_format] q) simp_all
qed

lemma queue_or_drop:
  fixes S :: "'k system" and s :: "('a, 'k) echo_server seq_packet_socket"
  assumes "leaves (wires sent recvd) S" and s: "lags sent recvd fd [fst d] s"
  shows "case when_st (\<lambda>s. sq_fd s \<ge> 0) (sq_queue (server_runner S obj) d) s of
    (Ok x, t) \<Rightarrow> lags sent recvd fd [] t | (_, t) \<Rightarrow> in_order sent recvd t"
  using queue_order [OF assms(1), of fd d obj] s
  by (auto simp: triple_def when_run intro: lags_closed lags_in_order)

lemma send_order:
  fixes S :: "'k system"
  assumes con: "packet_connection sent recvd fd S"
  shows "triple (lags sent recvd fd [fst d])
    (sq_send (server_system S) (server_runner S obj) (sqe_members N S self i received) d)
    (\<lambda>_ (s :: ('a, 'k) echo_server seq_packet_socket). lags sent recvd fd [] s) (in_order sent recvd)" (is "triple ?P ?send ?Q ?R")
  unfolding triple_def
proof (intro allI impI)
  fix s :: "('a, 'k) echo_server seq_packet_socket" assume s: "?P s"
  note queued = queue_or_drop [OF packet_leaves [OF con], of fd d _ obj]
  show "case ?send s of (Ok x, t) \<Rightarrow> ?Q x t | (_, t) \<Rightarrow> ?R t"
  proof (cases "sq_sending s \<or> sq_connecting s")
    case True
    then show ?thesis using queued [OF s] by (simp add: sq_send_def bnd_run branch_run)
  next
    case False
    obtain r t where run: "trySendFast (server_system S) (server_runner S obj) (sqe_members N S self i received) d s = (r, t)"
      by (metis surj_pair)
    from con s run show ?thesis
    proof (cases rule: try_send)
      case (left w)
      have "outputQueue s = []" using s False left by (auto simp: lags_def)
      then have "lags sent recvd fd [] t" using s left by (auto simp: lags_def in_order_def returned_def arrived_def)
      then show ?thesis using run False left(1)
        by (simp add: sq_send_def bnd_run branch_run sqe_members_def opt_cb_def)
    next
      case unsent
      then show ?thesis using run False queued [OF unsent(2)] by (simp add: sq_send_def bnd_run branch_run)
    next
      case failed
      then have "r = fail_as r" by (cases r) auto
      then show ?thesis using run False failed by (cases r) (auto simp: sq_send_def bnd_run branch_run)
    qed
  qed
qed

lemma modifyFD_order:
  "leaves (wires sent recvd) S \<Longrightarrow>
    keeps_order sent recvd fd ps (sq_with_fd (\<lambda>fd. sq_do (ri_modifyFDListener (server_runner S obj) fd ev))) ps"
  by (rule order_with_fd, rule order_do) (simp add: server_runner_def modify_unchanged)

lemma sendSlow_loop_order:
  fixes S :: "'k system"
  assumes con: "packet_connection sent recvd fd S"
  shows "triple (lags sent recvd fd [])
    (sendSlow_loop n (server_system S) (server_runner S obj) (sqe_members N S self i received))
    (\<lambda>emptied (s :: ('a, 'k) echo_server seq_packet_socket). lags sent recvd fd [] s \<and> (emptied \<longrightarrow> outputQueue s = []))
    (in_order sent recvd)"
proof (induction n)
  case 0
  show ?case by (simp add: triple_def lags_in_order)
next
  case (Suc n)
  let ?Q = "\<lambda>emptied (s :: ('a, 'k) echo_server seq_packet_socket). lags sent recvd fd [] s \<and> (emptied \<longrightarrow> outputQueue s = [])"
  let ?loop = "\<lambda>n. sendSlow_loop n (server_system S) (server_runner S obj) (sqe_members N S self i received)"
  show ?case
    unfolding triple_def
  proof (intro allI impI)
    fix s :: "('a, 'k) echo_server seq_packet_socket" assume s: "lags sent recvd fd [] s"
    show "case ?loop (Suc n) s of (Ok x, t) \<Rightarrow> ?Q x t | (_, t) \<Rightarrow> in_order sent recvd t"
    proof (cases "outputQueue s")
      case Nil
      then show ?thesis using s by simp
    next
      case (Cons d ds)
      obtain r t where run: "trySendFast (server_system S) (server_runner S obj) (sqe_members N S self i received) d s = (r, t)"
        by (metis surj_pair)
      from con s run show ?thesis
      proof (cases rule: try_send)
        case (left w)
        let ?t = "t\<lparr>outputQueue := tl (outputQueue t)\<rparr>"
        have "lags sent recvd fd [] ?t" using s left Cons by (auto simp: lags_def in_order_def returned_def arrived_def)
        then show ?thesis using run Cons left(1) Suc.IH [unfolded triple_def, rule_format, of ?t]
          by (simp add: bnd_run seq_run)
      next
        case unsent
        then show ?thesis using run Cons by (simp add: bnd_run)
      next
        case failed
        then have "r = fail_as r" by (cases r) auto
        then show ?thesis using run Cons failed by (cases r) (auto simp: bnd_run)
      qed
    qed
  qed
qed

lemma sendSlow_order:
  fixes S :: "'k system"
  assumes con: "packet_connection sent recvd fd S"
  shows "triple (lags sent recvd fd [])
    (sendSlow (server_system S) (server_runner S obj) (sqe_members N S self i received))
    (\<lambda>_ (s :: ('a, 'k) echo_server seq_packet_socket). lags sent recvd fd [] s) (in_order sent recvd)" (is "triple ?P _ ?Q ?R")
proof -
  let ?idle = "modify_st (\<lambda>s. s\<lparr>sq_sending := False\<rparr>) :: (('a, 'k) echo_server seq_packet_socket, unit) prog"
  have "triple (\<lambda>s. ?P s \<and> outputQueue s = []) ?idle ?Q ?R"
    by (auto simp: triple_def lags_def in_order_def returned_def arrived_def)
  then have "triple (\<lambda>s. ?P s \<and> (e \<longrightarrow> outputQueue s = []))
      (if e then seq ?idle (seq (sq_with_fd (\<lambda>fd. sq_do (ri_modifyFDListener (server_runner S obj) fd EVENT_IN)))
          (opt_cb (sqc_sent (sqe_members N S self i received)))) else ret ()) ?Q ?R" for e
    by (cases e) (auto simp: sqe_members_def opt_cb_def order_ret
        intro!: triple_seq modifyFD_order [OF packet_leaves [OF con]])
  then have "triple ?P (bnd (sendSlow_loop n (server_system S) (server_runner S obj) (sqe_members N S self i received))
      (\<lambda>e. if e then seq ?idle (seq (sq_with_fd (\<lambda>fd. sq_do (ri_modifyFDListener (server_runner S obj) fd EVENT_IN)))
          (opt_cb (sqc_sent (sqe_members N S self i received)))) else ret ())) ?Q ?R" for n
    by (rule triple_bnd [OF sendSlow_loop_order [OF con]])
  then show ?thesis by (auto simp: triple_def sendSlow_def)
qed

section \<open>Receiving\<close>

lemma packet_received:
  assumes "packet_connection sent recvd fd S" and "sys_recvmsg (server_system S) fd room croom s = (r, t)"
  shows "sent (world t) = sent (world s) \<and> (case r of
      Ok (n, bs, c) \<Rightarrow> if 0 \<le> n then length bs = nat n \<and> length bs \<le> room \<and> recvd (world t) = recvd (world s) @ [bs]
        else recvd (world t) = recvd (world s)
    | _ \<Rightarrow> recvd (world t) = recvd (world s))"
proof -
  obtain r' w where w: "sys_recvmsg S fd room croom (world s) = (r', w)" by (metis surj_pair)
  then have "r' = r" "world t = w" using assms(2) by (auto simp: server_system_run on_world_def zoom_run)
  then show ?thesis using assms(1) w by (simp add: packet_connection_def)
qed

lemma sqe_received_order:
  assumes con: "packet_connection sent recvd fd S"
  shows "keeps_order sent recvd fd [data] (sqe_dataReceivedCb N S self i data) []"
proof -
  have "keeps_order sent recvd fd [data] (sq_do (sqe_resetTimeout S i)) [data]"
    unfolding sqe_resetTimeout_def by (intro order_do schedule_unchanged packet_leaves [OF con])
  moreover have "keeps_order sent recvd fd [data]
      (sq_send_plain (server_system S) (server_runner S (AsObj i)) (sqe_members N S self i (\<lambda>_ _. undef)) data) []"
    using send_order [OF con, of "(data, cm_empty)"] by (simp add: sq_send_plain_def)
  ultimately show ?thesis unfolding sqe_dataReceivedCb_def by (rule triple_seq)
qed

lemma take_overwrite: "length bs \<le> length xs \<Longrightarrow> take (length bs) (overwrite 0 bs xs) = bs"
  by (simp add: overwrite_def)

text \<open>What \<open>receive\<close> does with the packet.\<close>

lemma deliver_order:
  fixes S :: "'k system" and s :: "('a, 'k) echo_server seq_packet_socket"
  assumes con: "packet_connection sent recvd fd S" and s: "lags sent recvd fd ps s"
    and ps: "ps = (if 0 \<le> n then [bs] else [])" and len: "0 \<le> n \<longrightarrow> length bs = nat n \<and> length bs \<le> length (sq_buffer s)"
  shows "case seq (modify_st (\<lambda>s. s\<lparr>sq_buffer := overwrite 0 bs (sq_buffer s),
            sq_cm := (sq_cm s)\<lparr>cm_buffer := overwrite 0 control (cm_buffer (sq_cm s))\<rparr>\<rparr>))
         (if n \<ge> 0
          then seq (zoom sq_cm (\<lambda>c. sq_cm_update (\<lambda>_. c)) (markUsed (length control)))
            (\<lambda>s. sqc_received (sqe_callbacks N S self i) (take (nat n) (sq_buffer s)) (sq_cm s) s)
          else ret ()) s of
       (Ok x, t) \<Rightarrow> lags sent recvd fd [] t | (_, t) \<Rightarrow> in_order sent recvd t"
proof -
  let ?t = "s\<lparr>sq_buffer := overwrite 0 bs (sq_buffer s), sq_cm := (sq_cm s)\<lparr>cm_buffer := overwrite 0 control (cm_buffer (sq_cm s))\<rparr>\<rparr>"
  have t: "lags sent recvd fd ps ?t" by (rule lags_same [OF s]) simp_all
  show ?thesis
  proof (cases "0 \<le> n")
    case False
    then show ?thesis using t ps by (simp add: seq_run)
  next
    case True
    obtain r c where mark: "markUsed (length control) (sq_cm ?t) = (r, c)" by (metis surj_pair)
    have u: "lags sent recvd fd [bs] (?t\<lparr>sq_cm := c\<rparr>)" by (rule lags_same [OF t [unfolded ps if_P [OF True]]]) simp_all
    note data = sqe_received_order [OF con, of bs N self i, unfolded triple_def, rule_format, OF u]
    have "take (nat n) (sq_buffer (?t\<lparr>sq_cm := c\<rparr>)) = bs" using len True take_overwrite [of bs "sq_buffer s"] by simp
    then show ?thesis using True mark data lags_in_order [OF u]
      by (cases r) (simp_all add: seq_run zoom_run sqe_callbacks_def sqe_members_def)
  qed
qed

lemma receive_order:
  fixes S :: "'k system"
  assumes con: "packet_connection sent recvd fd S"
  shows "triple (lags sent recvd fd []) (sq_receive (server_system S) (sqe_callbacks N S self i))
    (\<lambda>_ (s :: ('a, 'k) echo_server seq_packet_socket). lags sent recvd fd [] s) (in_order sent recvd)" (is "triple ?P ?m ?Q ?R")
  unfolding triple_def
proof (intro allI impI)
  fix s :: "('a, 'k) echo_server seq_packet_socket" assume s: "?P s"
  let ?s = "allocateReceiveBuffers s"
  have alloc: "?P ?s" by (rule lags_same [OF s]) (simp_all add: allocateReceiveBuffers_def)
  show "case ?m s of (Ok x, t) \<Rightarrow> ?Q x t | (_, t) \<Rightarrow> ?R t"
  proof (cases "sq_fd ?s < 0")
    case True
    then show ?thesis using lags_in_order [OF alloc] by (simp add: sq_receive_def seq_run bnd_run sq_with_fd_def)
  next
    case False
    then have fd: "sq_fd ?s = fd" using alloc by (simp add: lags_def)
    obtain r w where recv: "sys_recvmsg (server_system S) (sq_fd ?s) (length (sq_buffer ?s)) (capacity (sq_cm ?s)) (sq_world ?s) = (r, w)"
      by (metis surj_pair)
    note got = packet_received [OF con recv [unfolded fd]]
    let ?t = "?s\<lparr>sq_world := w\<rparr>"
    show ?thesis
    proof (cases r)
      case (Ok v)
      obtain n bs c where v: "v = (n, bs, c)" by (cases v)
      have "lags sent recvd fd (if 0 \<le> n then [bs] else []) ?t"
        using alloc got Ok v by (auto simp: lags_def in_order_def returned_def arrived_def prefix_def)
      from deliver_order [OF con this refl, of c N self i] show ?thesis
        using False recv Ok v got by (simp add: sq_receive_def seq_run bnd_run sq_with_fd_def sq_do_run split: if_splits)
    qed (use False recv got lags_in_order [OF alloc] in
        \<open>simp_all add: sq_receive_def seq_run bnd_run sq_with_fd_def sq_do_run in_order_def returned_def arrived_def\<close>)
  qed
qed

section \<open>Events\<close>

lemma sqe_handle_order:
  assumes con: "packet_connection sent recvd fd S"
  shows "keeps_order sent recvd fd []
    (sq_handleEventsCb (server_system S) (server_runner S (AsObj i)) (sqe_callbacks N S self i) ev) []"
proof -
  let ?S = "server_system S" and ?R = "server_runner S (AsObj i)" and ?C = "sqe_callbacks N S self i"
  note leaves = packet_leaves [OF con]
  have C: "?C = sqe_members N S self i (\<lambda>data _. sqe_dataReceivedCb N S self i data)" by (simp add: sqe_callbacks_def)
  have close: "triple (in_order sent recvd) (sq_close ?S ?R ?C e) (\<lambda>_. lags sent recvd fd []) (in_order sent recvd)" for e
    unfolding C by (rule sqe_close_lags [OF leaves])
  have "keeps_order sent recvd fd [] (sq_checkConnectionEstablished ?R ?C ev) []"
    unfolding sq_checkConnectionEstablished_def
    by (intro order_when order_seq modifyFD_order [OF leaves] order_fields) (simp add: C sqe_members_def opt_cb_def order_ret)
  moreover have "keeps_order sent recvd fd [] (sq_checkIncomingData ?S ?R ?C ev) []"
    unfolding sq_checkIncomingData_def
  proof (rule triple_try)
    show "keeps_order sent recvd fd [] (if has_event ev EVENT_IN then sq_receive ?S ?C else ret ()) []"
      by (intro order_if receive_order [OF con] order_ret)
    fix e k assume "(case e of SystemException _ err \<Rightarrow> Some (sq_close ?S ?R ?C err) | _ \<Rightarrow> None) = Some k"
    then show "triple (in_order sent recvd) k (\<lambda>_. lags sent recvd fd []) (in_order sent recvd)"
      using close by (auto split: exn.splits)
  qed
  moreover have "keeps_order sent recvd fd [] (sq_checkOutgoingData ?S ?R ?C ev) []"
    unfolding sq_checkOutgoingData_def C by (intro order_when sendSlow_order [OF con])
  moreover have "keeps_order sent recvd fd [] (sq_checkConnectionClosed ?S ?R ?C ev) []"
    unfolding sq_checkConnectionClosed_def
  proof (intro order_when triple_bnd [where M = "\<lambda>_. lags sent recvd fd []"])
    have "unchanged (\<lambda>s. wires sent recvd (world s)) (sys_getSocketError ?S d)" for d
      by (simp add: server_system_run unchanged_on_world leaves_unchanged [OF leaves])
    then show "keeps_order sent recvd fd []
        (if has_event ev EVENT_ERR then sq_with_fd (\<lambda>fd. sq_do (sys_getSocketError ?S fd)) else ret 0) []"
      by (intro order_if order_with_fd order_do order_ret)
    show "keeps_order sent recvd fd [] (sq_close ?S ?R ?C e) []" for e
      by (rule triple_weaken [OF close]) (simp_all add: lags_in_order)
  qed
  ultimately show ?thesis unfolding sq_handleEventsCb_def by (intro order_seq)
qed

text \<open>The events of the socket with anything else that happens in the server in between. An exception that
  leaves a handler ends the run.\<close>

fun packet_history :: "netdb \<Rightarrow> 'k system \<Rightarrow> nat \<Rightarrow> nat \<Rightarrow> ('a, 'k) echo_event list \<Rightarrow>
    (('a, 'k) echo_server seq_packet_socket, unit) prog" where
  "packet_history N S self i [] = ret ()"
| "packet_history N S self i (SocketEvents ev # es) = seq
     (sq_handleEventsCb (server_system S) (server_runner S (AsObj i)) (sqe_callbacks N S self i) ev) (packet_history N S self i es)"
| "packet_history N S self i (Elsewhere f # es) = seq (modify_st (\<lambda>s. s\<lparr>sq_world := f (sq_world s)\<rparr>)) (packet_history N S self i es)"

lemma packet_history_order:
  fixes es :: "('a, 'k) echo_event list"
  assumes con: "packet_connection sent recvd fd S"
    and "\<And>f w. Elsewhere f \<in> set es \<Longrightarrow> wires sent recvd (world (f w)) = wires sent recvd (world w)"
  shows "keeps_order sent recvd fd [] (packet_history N S self i es) []"
  using assms(2)
proof (induction es)
  case (Cons e es)
  then have IH: "keeps_order sent recvd fd [] (packet_history N S self i es) []" by simp
  show ?case
  proof (cases e)
    case (SocketEvents ev)
    then show ?thesis using triple_seq [OF sqe_handle_order [OF con] IH] by simp
  next
    case (Elsewhere f)
    have "keeps_order sent recvd fd [] (modify_st (\<lambda>s. s\<lparr>sq_world := f (sq_world s)\<rparr>)) []"
      unfolding triple_def modify_st_run outcome.case prod.case
    proof (intro allI impI)
      fix s :: "('a, 'k) echo_server seq_packet_socket" assume "lags sent recvd fd [] s"
      then show "lags sent recvd fd [] (s\<lparr>sq_world := f (sq_world s)\<rparr>)"
        by (rule lags_same) (use Cons.prems [of f "sq_world s"] Elsewhere in simp_all)
    qed
    then show ?thesis unfolding Elsewhere packet_history.simps using IH by (rule triple_seq)
  qed
qed (simp add: order_ret)

section \<open>Properties\<close>

text \<open>
  C40: the packet echo server gives every peer its own packets back, whole and in order. From a fresh
  connection, after any events on its socket with whatever the kernel delivers and accepts, with failing
  calls, closing, and anything that does not touch this connection in between, the non-empty
  packets sent back are a prefix of the non-empty ones received; and while the connection is open
  those that were not sent yet are all in the queue.
\<close>

theorem packets_echoed_in_order:
  assumes "packet_connection sent recvd fd S"
    and "\<And>f w. Elsewhere f \<in> set es \<Longrightarrow> wires sent recvd (world (f w)) = wires sent recvd (world w)"
    and "sent (world w) = []" and "recvd (world w) = []"
    and "packet_history N S self i es ((sq_blank 1024 w)\<lparr>sq_fd := fd\<rparr>) = (r, t)"
  shows "prefix (payload (sent (world (sq_world t)))) (payload (recvd (world (sq_world t))))
    \<and> (r = Ok () \<and> 0 \<le> sq_fd t \<longrightarrow>
       payload (sent (world (sq_world t))) @ payload (map fst (outputQueue t)) = payload (recvd (world (sq_world t))))"
proof -
  let ?s = "(sq_blank 1024 w)\<lparr>sq_fd := fd\<rparr>"
  have start: "lags sent recvd fd [] ?s"
    using assms(3,4) by (simp add: lags_def in_order_def returned_def arrived_def sq_blank_def)
  have keeps: "keeps_order sent recvd fd [] (packet_history N S self i es) []"
    by (rule packet_history_order [OF assms(1)]) (erule assms(2))
  note end_state = tripleD [OF keeps start assms(5)]
  then have "in_order sent recvd t" by (cases r) (auto simp: lags_in_order)
  then have "prefix (payload (sent (world (sq_world t)))) (payload (recvd (world (sq_world t))))"
    unfolding in_order_def returned_def arrived_def by (simp add: append_prefixD)
  moreover have "lags sent recvd fd [] t" if "r = Ok ()" using end_state(1) that .
  ultimately show ?thesis by (auto simp: lags_def returned_def arrived_def)
qed

text \<open>A kernel with one connection: the packets that are still to come, the packets sent and the packets received,
  and the number of packets it takes.\<close>

definition packet_peer :: "(byte list list \<times> byte list list \<times> byte list list \<times> nat) system" where
  "packet_peer = idle_system\<lparr>
     sys_recvmsg := (\<lambda>fd room c (todo, s, r, n). case todo of [] \<Rightarrow> (Ok (- 1, [], []), (todo, s, r, n))
       | p # ps \<Rightarrow> (Ok (int (length (take room p)), take room p, []), (ps, s, r @ [take room p], n))),
     sys_sendmsg := (\<lambda>fd bs c (todo, s, r, n). if n = 0 then (Ok (- 1), (todo, s, r, n))
       else (Ok (int (length bs)), (todo, s @ [bs], r, n - 1)))\<rparr>"

lemma packet_peer_connection: "packet_connection (\<lambda>(_, s, _). s) (\<lambda>(_, _, r, _). r) 7 packet_peer"
proof -
  have "sys_getMonotonicClock packet_peer = sys_getMonotonicClock idle_system" "sys_epollCtl packet_peer = sys_epollCtl idle_system"
    "sys_write packet_peer = sys_write idle_system" "sys_getSocketError packet_peer = sys_getSocketError idle_system"
    "sys_close packet_peer = sys_close idle_system"
    by (simp_all add: packet_peer_def)
  then have "leaves f packet_peer" for f :: "_ \<Rightarrow> 'b" using idle_leaves [of f] by (simp add: leaves_def)
  then show ?thesis
    by (auto simp: packet_connection_def packet_peer_def split: if_splits list.splits)
qed

definition packet_peer_server :: "(unit, byte list list \<times> byte list list \<times> byte list list \<times> nat) echo_server" where
  "packet_peer_server = \<lparr>listeners = [7 \<mapsto> (User (AsObj 0), EVENT_IN)], epfd = 3, addCount = 1, eventArray = [],
     world = ([[1, 2], [3]], [], [], 1), monitoring = False, deletedFds = {}, cbq = cbq_empty,
     tq = timer_create 0 tq_empty, runnerThreadId = Some 1, readFD = 4, writeFD = 5, the_signalFD = None, lss = [],
     ass = [], next_obj = 1, cout = [], cerr = [], doContinue = True\<rparr>"

theorem packets_echoed_in_order_witness:
  "let t = snd (packet_history loopback_netdb packet_peer 1 0
       [SocketEvents EVENT_IN, Elsewhere (\<lambda>w. w\<lparr>cout := []\<rparr>), SocketEvents EVENT_IN]
       ((sq_blank 1024 packet_peer_server)\<lparr>sq_fd := 7\<rparr>)); (todo, sent, recvd, n) = world (sq_world t)
   in prefix (payload sent) (payload recvd)"
proof -
  let ?es = "[SocketEvents EVENT_IN, Elsewhere (\<lambda>w. w\<lparr>cout := []\<rparr>), SocketEvents EVENT_IN]"
  obtain r t where run: "packet_history loopback_netdb packet_peer 1 0 ?es ((sq_blank 1024 packet_peer_server)\<lparr>sq_fd := 7\<rparr>) = (r, t)"
    by (metis surj_pair)
  from packets_echoed_in_order [OF packet_peer_connection _ _ _ run]
  have "prefix (payload (fst (snd (world (sq_world t))))) (payload (fst (snd (snd (world (sq_world t))))))"
    by (simp add: packet_peer_server_def wires_def split_beta)
  then show ?thesis unfolding run Let_def snd_conv by (simp add: split_beta)
qed

subsection \<open>A peer that has closed its end\<close>

text \<open>The kernel of a socket whose peer has shut down its sending side: always readable, and every \<open>recvmsg\<close>
  returns 0. Its world is the time in milliseconds.\<close>

definition half_closed :: "int system" where
  "half_closed = idle_system\<lparr>sys_getMonotonicClock := (\<lambda>w. (Ok w, w)), sys_recvmsg := (\<lambda>_ _ _ w. (Ok (0, [], []), w))\<rparr>"

lemma half_closed_run:
  "sys_getMonotonicClock half_closed w = (Ok w, w)" "sys_recvmsg half_closed fd n c w = (Ok (0, [], []), w)"
  "sys_sendmsg half_closed fd bs cm w = (Ok 0, w)" "sys_epollCtl half_closed ep op fd ev w = (Ok (), w)"
  by (simp_all add: half_closed_def)
    (cases op; simp add: idle_system_def the_system_def idle_kernel_def bnd_run sys_sendmsg_impl_def throw_unless_def
      epollCtl_def tempFailureRetry.simps)+

text \<open>The socket after \<open>n\<close> readable events.\<close>

definition half_open :: "rawfd \<Rightarrow> nat \<Rightarrow> nat \<Rightarrow> ('a, int) echo_server seq_packet_socket \<Rightarrow> bool" where
  "half_open fd i n s \<longleftrightarrow> sq_fd s = fd \<and> 0 \<le> fd \<and> \<not> sq_connecting s \<and> outputQueue s = replicate n ([], cm_empty)
     \<and> (0 < n \<longrightarrow> sq_sending s) \<and> listeners (sq_world s) fd \<noteq> None \<and> 0 \<le> epfd (sq_world s)
     \<and> tq_inv (tq (sq_world s)) \<and> timers (tq (sq_world s)) i \<noteq> None"

definition removal_at :: "nat \<Rightarrow> duration \<Rightarrow> ('a, int) echo_server \<Rightarrow> bool" where
  "removal_at i d w \<longleftrightarrow> (\<exists>e\<in>set (entries (tq w)). owner e = i) \<and> (\<forall>e\<in>set (entries (tq w)). owner e = i \<longrightarrow> tte e = d)"

lemma half_closed_reset:
  fixes w :: "('a, int) echo_server"
  assumes "tq_inv (tq w)" and "timers (tq w) i \<noteq> None"
  obtains q where "sqe_resetTimeout half_closed i w = (Ok (), w\<lparr>tq := q\<rparr>)" "tq_inv q" "timers q i \<noteq> None"
    "removal_at i (dur_add (milliseconds (world w)) sqe_TIMEOUT) (w\<lparr>tq := q\<rparr>)"
proof -
  from assms(2) obtain tm where tm: "timers (tq w) i = Some tm" by blast
  show ?thesis
  proof (rule timer_schedule_spec [OF assms(1) tm, of "milliseconds (world w)" sqe_TIMEOUT "CbRemove i"], goal_cases)
    case (1 q)
    then show ?thesis
      by (intro that [of q])
        (auto simp: sqe_resetTimeout_def schedule_timer_def clock_now_def on_world_def on_tq_def zoom_run bnd_run
          half_closed_run removal_at_def)
  qed
qed

lemma half_closed_modify:
  fixes w :: "('a, int) echo_server"
  assumes "listeners w fd \<noteq> None" and "0 \<le> epfd w"
  obtains l where "ri_modifyFDListener (server_runner half_closed obj) fd ev w = (Ok (), w\<lparr>listeners := l\<rparr>)" "l fd \<noteq> None"
proof -
  from assms(1) obtain u old where l: "listeners w fd = Some (u, old)" by fastforce
  have "ri_modifyFDListener (server_runner half_closed obj) fd ev w
      = (Ok (), w\<lparr>listeners := if old = ev then listeners w else (listeners w)(fd \<mapsto> (u, ev))\<rparr>)"
    using l assms(2) by (simp add: server_runner_def base_modify_def flm_modify_def flm_find_def epoll_modify_def epfd_int_def
        bnd_run seq_run on_world_def zoom_run half_closed_run)
  then show ?thesis by (rule that) (simp add: l)
qed

lemma half_closed_send:
  fixes s :: "('a, int) echo_server seq_packet_socket"
  assumes "half_open fd i n s"
  obtains l where "sq_send_plain (server_system half_closed) (server_runner half_closed (AsObj i))
      (sqe_members N half_closed self i received) [] s
    = (Ok (), s\<lparr>sq_sending := True, outputQueue := replicate (Suc n) ([], cm_empty), sq_world := (sq_world s)\<lparr>listeners := l\<rparr>\<rparr>)"
    "l fd \<noteq> None"
proof -
  let ?R = "server_runner half_closed (AsObj i)"
  have s: "sq_fd s = fd" "0 \<le> fd" "outputQueue s = replicate n ([], cm_empty)" "listeners (sq_world s) fd \<noteq> None"
    "0 \<le> epfd (sq_world s)"
    using assms by (simp_all add: half_open_def)
  obtain l where l: "ri_modifyFDListener ?R fd (or EVENT_IN EVENT_OUT) (sq_world s) = (Ok (), (sq_world s)\<lparr>listeners := l\<rparr>)" "l fd \<noteq> None"
    by (rule half_closed_modify [OF s(4,5)])
  have "trySendFast (server_system half_closed) ?R (sqe_members N half_closed self i received) ([], cm_empty) s = (Ok False, s)"
    using s(1,2) by (simp add: trySendFast_def try_catch_run sendFast_def bnd_run sq_with_fd_def sq_do_run server_system_run
        on_world_def zoom_run half_closed_run)
  then have "sq_send_plain (server_system half_closed) ?R (sqe_members N half_closed self i received) [] s = sq_queue ?R ([], cm_empty) s"
    using s(1,2) by (simp add: sq_send_plain_def sq_send_def bnd_run branch_run when_run)
  also have "\<dots> = (Ok (), s\<lparr>sq_sending := True, outputQueue := replicate (Suc n) ([], cm_empty), sq_world := (sq_world s)\<lparr>listeners := l\<rparr>\<rparr>)"
    using s l(1) by (simp add: sq_queue_def seq_run sq_with_fd_def sq_do_run replicate_append_same flip: replicate_Suc)
  finally show ?thesis using l(2) by (rule that)
qed

lemma half_closed_receive:
  fixes s :: "('a, int) echo_server seq_packet_socket"
  assumes "half_open fd i n s"
  shows "\<exists>t. sq_receive (server_system half_closed) (sqe_callbacks N half_closed self i) s = (Ok (), t) \<and> half_open fd i (Suc n) t
    \<and> removal_at i (dur_add (milliseconds (world (sq_world s))) sqe_TIMEOUT) (sq_world t)"
proof -
  let ?b = "allocateReceiveBuffers s"
  let ?cm = "(sq_cm ?b)\<lparr>cm_used := 0\<rparr>"
  obtain q where q: "sqe_resetTimeout half_closed i (sq_world s) = (Ok (), (sq_world s)\<lparr>tq := q\<rparr>)" "tq_inv q" "timers q i \<noteq> None"
    "removal_at i (dur_add (milliseconds (world (sq_world s))) sqe_TIMEOUT) ((sq_world s)\<lparr>tq := q\<rparr>)"
    using assms half_closed_reset [of "sq_world s" i] unfolding half_open_def by blast
  let ?u = "?b\<lparr>sq_cm := ?cm, sq_world := (sq_world s)\<lparr>tq := q\<rparr>\<rparr>"
  have u: "half_open fd i n ?u" using assms q by (simp add: half_open_def allocateReceiveBuffers_def)
  obtain l where l: "sq_send_plain (server_system half_closed) (server_runner half_closed (AsObj i))
      (sqe_members N half_closed self i (\<lambda>_ _. undef)) [] ?u
    = (Ok (), ?u\<lparr>sq_sending := True, outputQueue := replicate (Suc n) ([], cm_empty), sq_world := (sq_world ?u)\<lparr>listeners := l\<rparr>\<rparr>)"
    "l fd \<noteq> None"
    by (rule half_closed_send [OF u])
  let ?t = "?u\<lparr>sq_sending := True, outputQueue := replicate (Suc n) ([], cm_empty), sq_world := (sq_world ?u)\<lparr>listeners := l\<rparr>\<rparr>"
  have w: "sq_world ?b = sq_world s" "\<not> sq_fd ?b < 0" using assms by (simp_all add: allocateReceiveBuffers_def half_open_def)
  have "sq_receive (server_system half_closed) (sqe_callbacks N half_closed self i) s = sqe_dataReceivedCb N half_closed self i [] (?b\<lparr>sq_world := sq_world s, sq_cm := ?cm\<rparr>)"
    using w by (simp add: sq_receive_def seq_run bnd_run sq_with_fd_def sq_do_run server_system_run on_world_def zoom_run
        half_closed_run overwrite_def markUsed_def sqe_callbacks_def sqe_members_def)
  also have "\<dots> = (Ok (), ?t)"
    using q(1) l(1) w by (simp add: sqe_dataReceivedCb_def seq_run sq_do_run del: replicate_Suc)
  finally have "sq_receive (server_system half_closed) (sqe_callbacks N half_closed self i) s = (Ok (), ?t)" .
  moreover have "half_open fd i (Suc n) ?t" using u l(2) by (simp add: half_open_def)
  moreover have "removal_at i (dur_add (milliseconds (world (sq_world s))) sqe_TIMEOUT) (sq_world ?t)"
    using q(4) by (simp add: removal_at_def)
  ultimately show ?thesis by blast
qed

lemma half_closed_event:
  fixes s :: "('a, int) echo_server seq_packet_socket"
  assumes "half_open fd i n s"
  shows "\<exists>t. sq_handleEventsCb (server_system half_closed) (server_runner half_closed (AsObj i))
      (sqe_callbacks N half_closed self i) EVENT_IN s = (Ok (), t) \<and> half_open fd i (Suc n) t
    \<and> removal_at i (dur_add (milliseconds (world (sq_world s))) sqe_TIMEOUT) (sq_world t)"
proof -
  obtain t where t: "sq_receive (server_system half_closed) (sqe_callbacks N half_closed self i) s = (Ok (), t)" "half_open fd i (Suc n) t"
    "removal_at i (dur_add (milliseconds (world (sq_world s))) sqe_TIMEOUT) (sq_world t)"
    using half_closed_receive [OF assms] by blast
  have ev: "has_event EVENT_IN EVENT_IN" "\<not> has_event EVENT_IN EVENT_OUT" "\<not> has_event EVENT_IN (or EVENT_HUP EVENT_ERR)"
    by (simp_all add: has_event_def event_masks)
  have "\<not> sq_connecting s" using assms by (simp add: half_open_def)
  then show ?thesis using t ev
    by (simp add: sq_handleEventsCb_def sq_checkConnectionEstablished_def sq_checkIncomingData_def sq_checkOutgoingData_def
        sq_checkConnectionClosed_def seq_run when_run try_catch_run)
qed

text \<open>
  A half-closed peer is never disconnected. When the peer has shut down its sending side, each
  readable event is taken for an empty packet: at whatever times the events come, the timeout
  that would remove the connection is put off again to ten seconds after the last of them,
  and one more empty packet is queued, none of which ever leaves the queue.
\<close>

theorem half_closed_never_removed:
  fixes w :: "('a, int) echo_server"
  assumes "0 \<le> fd" and "listeners w fd \<noteq> None" and "0 \<le> epfd w" and "tq_inv (tq w)" and "timers (tq w) i \<noteq> None"
    and "ts \<noteq> []"
  shows "\<exists>t. packet_history N half_closed self i
      (concat (map (\<lambda>time. [Elsewhere (\<lambda>w. w\<lparr>world := time\<rparr>), SocketEvents EVENT_IN]) ts)) ((sq_blank 1024 w)\<lparr>sq_fd := fd\<rparr>)
      = (Ok (), t) \<and> sq_fd t = fd \<and> outputQueue t = replicate (length ts) ([], cm_empty)
    \<and> removal_at i (dur_add (milliseconds (last ts)) sqe_TIMEOUT) (sq_world t)"
proof -
  let ?run = "\<lambda>ts. packet_history N half_closed self i
    (concat (map (\<lambda>time. [Elsewhere (\<lambda>w. w\<lparr>world := time\<rparr>), SocketEvents EVENT_IN]) ts))"
  have "ts \<noteq> [] \<Longrightarrow> half_open fd i n s \<Longrightarrow> \<exists>t. ?run ts s = (Ok (), t) \<and> half_open fd i (n + length ts) t
      \<and> removal_at i (dur_add (milliseconds (last ts)) sqe_TIMEOUT) (sq_world t)" for n s
  proof (induction ts arbitrary: n s)
    case (Cons time ts)
    let ?s = "s\<lparr>sq_world := (sq_world s)\<lparr>world := time\<rparr>\<rparr>"
    have "half_open fd i n ?s" using Cons.prems by (simp add: half_open_def)
    from half_closed_event [OF this] obtain u where
      u: "sq_handleEventsCb (server_system half_closed) (server_runner half_closed (AsObj i))
        (sqe_callbacks N half_closed self i) EVENT_IN ?s = (Ok (), u)" "half_open fd i (Suc n) u"
        "removal_at i (dur_add (milliseconds time) sqe_TIMEOUT) (sq_world u)" by auto
    show ?case
    proof (cases "ts = []")
      case True
      then show ?thesis using u by (simp add: seq_run)
    next
      case False
      from Cons.IH [OF False u(2)] False show ?thesis using u by (simp add: seq_run)
    qed
  qed simp
  from this [OF assms(6), of 0 "(sq_blank 1024 w)\<lparr>sq_fd := fd\<rparr>"] show ?thesis
    using assms by (auto simp: half_open_def sq_blank_def)
qed

definition half_closed_server :: "(unit, int) echo_server" where
  "half_closed_server = \<lparr>listeners = [7 \<mapsto> (User (AsObj 0), EVENT_IN)], epfd = 3, addCount = 1, eventArray = [],
     world = 0, monitoring = False, deletedFds = {}, cbq = cbq_empty, tq = timer_create 0 tq_empty,
     runnerThreadId = Some 1, readFD = 4, writeFD = 5, the_signalFD = None, lss = [], ass = [], next_obj = 1,
     cout = [], cerr = [], doContinue = True\<rparr>"

theorem half_closed_never_removed_witness:
  "\<exists>t. packet_history loopback_netdb half_closed 1 0
      (concat (map (\<lambda>time. [Elsewhere (\<lambda>w. w\<lparr>world := time\<rparr>), SocketEvents EVENT_IN]) [5, 9005]))
      ((sq_blank 1024 half_closed_server)\<lparr>sq_fd := 7\<rparr>)
      = (Ok (), t) \<and> sq_fd t = 7 \<and> outputQueue t = replicate (length [5, 9005 :: int]) ([], cm_empty)
    \<and> removal_at 0 (dur_add (milliseconds (last [5, 9005])) sqe_TIMEOUT) (sq_world t)"
  by (rule half_closed_never_removed)
    (use timer_create_inv [OF tq_empty_inv, of 0] in \<open>simp_all add: half_closed_server_def timer_create_def tq_empty_def\<close>)

end
