(* ===== verification/EchoClient.thy ===== *)
theory EchoClient
  imports SeqPacketEchoServer
begin

text \<open>
  Model of the two clients, \<open>src/examples/EchoClient/main.cpp\<close> and \<open>src/examples/SeqPacketEchoClient/main.cpp\<close>, and of
  \<open>src/examples/EchoServer2/main.cpp\<close>, the echo server on an \<open>AsyncRunner\<close>. A client sends what it reads from its
  standard input and prints what it receives. It reads and writes with functions of the C library that do
  not go through \<open>System\<close>; they are arguments. The references of the closures to local variables of
  \<open>main\<close> are fields of the state.
\<close>

section \<open>State\<close>

datatype client_obj = SocketObj | InputObj

record ('a, 'k) echo_client = "(client_obj, unit, 'k) epoll_runner" +
  ec_ss :: "'a option"
  ec_doContinue :: bool
  ec_ret :: int
  ec_cout :: string
  ec_cerr :: string

text \<open>\<open>read\<close> and \<open>readv\<close> with the room in the buffer, \<open>write\<close> and \<open>writev\<close> with the bytes; the result is negative when
  they fail.\<close>

record 'k stdio =
  std_read :: "nat \<Rightarrow> 'k \<Rightarrow> (int \<times> byte list) \<times> 'k"
  std_write :: "byte list \<Rightarrow> 'k \<Rightarrow> int \<times> 'k"

definition libc :: "('k \<Rightarrow> 'r \<times> 'k) \<Rightarrow> (('a, 'k) echo_client, 'r) prog" where
  "libc f = on_world (\<lambda>k. case f k of (r, k') \<Rightarrow> (Ok r, k'))"

definition client_print :: "string \<Rightarrow> (('a, 'k) echo_client, unit) prog" where
  "client_print t = modify_st (\<lambda>s. s\<lparr>ec_cout := ec_cout s @ t\<rparr>)"

definition stop_client :: "(('a, 'k) echo_client, unit) prog" where
  "stop_client = modify_st (\<lambda>s. s\<lparr>ec_doContinue := False\<rparr>)"

text \<open>The conversion of the result of \<open>writev\<close>, a \<open>ssize_t\<close>, to \<open>size_t\<close>.\<close>

definition to_size_t :: "int \<Rightarrow> nat" where
  "to_size_t n = nat (n mod 2 ^ 64)"

section \<open>The stream client\<close>

definition ec_established :: "(('a, 'k) echo_client stream_socket, unit) prog" where
  "ec_established = ss_do (client_print (''connection established'' @ NL))"

definition ec_closed :: "netdb \<Rightarrow> int \<Rightarrow> (('a, 'k) echo_client stream_socket, unit) prog" where
  "ec_closed N error = ss_do (seq
     (if error \<noteq> 0 then modify_st (\<lambda>s. s\<lparr>ec_cerr := ec_cerr s @ strerror N error @ NL, ec_ret := 1\<rparr>) else ret ())
     stop_client)"

definition ec_received :: "'k stdio \<Rightarrow> (('a, 'k) echo_client stream_socket, unit) prog" where
  "ec_received K = bnd (on_input getUsedIOVec) (\<lambda>v.
     bnd (\<lambda>s. ss_do (libc (std_write K (iov_bytes (ss_heap s) v))) s) (\<lambda>ssize.
       on_input (cutHead (to_size_t ssize))))"

definition ec_callbacks :: "netdb \<Rightarrow> 'k stdio \<Rightarrow> ('a, 'k) echo_client ss_callbacks" where
  "ec_callbacks N K = \<lparr>connectionEstablishedCb = Some ec_established, connectionClosedCb = ec_closed N,
     dataReceivedCb = ec_received K, allDataSentCb = None\<rparr>"

text \<open>\<open>Input::handleEventsCb\<close>, which uses the output of the socket.\<close>

definition input_read :: "netdb \<Rightarrow> 'k stdio \<Rightarrow> 'k system \<Rightarrow> (('a, 'k) echo_client stream_socket, unit) prog" where
  "input_read N K S = seq (on_output (sb_allocate 1024)) (bnd (on_output getFreeIOVec) (\<lambda>v.
     bnd (ss_do (libc (std_read K (length (iov_addrs v))))) (\<lambda>(ssize, bs).
       seq (modify_st (\<lambda>s. s\<lparr>ss_heap := scatter v bs (ss_heap s)\<rparr>))
         (if ssize > 0
          then seq (on_output (increaseUsed (nat ssize)))
            (startSending (server_system S) (server_runner S SocketObj) (ec_callbacks N K))
          else ss_do stop_client))))"

definition input_handle :: "netdb \<Rightarrow> 'k stdio \<Rightarrow> 'k system \<Rightarrow> event_mask \<Rightarrow> (('a, 'k) echo_client stream_socket, unit) prog" where
  "input_handle N K S events = (if has_event events EVENT_IN then input_read N K S
     else if has_event events EVENT_HUP then ss_do stop_client else ret ())"

text \<open>The socket is made with \<open>new\<close> and belongs to the \<open>unique_ptr\<close> \<open>ss\<close>; its world is the rest of the state.\<close>

type_synonym 'k stream_client = "(unit stream_socket, 'k) echo_client"

definition on_client_socket :: "('k stream_client stream_socket, unit) prog \<Rightarrow> ('k stream_client, unit) prog" where
  "on_client_socket m = (\<lambda>s. case ec_ss s of
       None \<Rightarrow> (Undef, s)
     | Some a \<Rightarrow> (case m (with_world s a) of (r, t) \<Rightarrow> (r, (ss_world t)\<lparr>ec_ss := Some (with_world () t)\<rparr>)))"

definition client_dispatch :: "nat \<Rightarrow> netdb \<Rightarrow> 'k stdio \<Rightarrow> 'k system \<Rightarrow> client_obj run_listener \<Rightarrow> rawfd \<Rightarrow> event_mask \<Rightarrow>
    ('k stream_client, unit) prog" where
  "client_dispatch n N K S fl fd ev = (case fl of
       EventPipe \<Rightarrow> (\<lambda>s. read_all n S (readFD s) 32 s)
     | User SocketObj \<Rightarrow> on_client_socket
         (ss_handleEventsCb (server_system S) (server_runner S SocketObj) (ec_callbacks N K) ev)
     | User InputObj \<Rightarrow> on_client_socket (input_handle N K S ev)
     | _ \<Rightarrow> undef)"

text \<open>The constructor of the socket; when it throws, \<open>ss\<close> stays empty.\<close>

definition client_connect :: "'k system \<Rightarrow> heap \<Rightarrow> socket_address \<Rightarrow> ('k stream_client, unit) prog" where
  "client_connect S h sa = (\<lambda>s. case ss_connect (server_system S) (server_runner S SocketObj) 0 None
       (getFamily sa, address_bytes sa) (ss_blank h s) of
       (Ok _, t) \<Rightarrow> (Ok (), (ss_world t)\<lparr>ec_ss := Some (with_world () t)\<rparr>)
     | (r, t) \<Rightarrow> (fail_as r, ss_world t))"

definition client_destroy_ss :: "'k system \<Rightarrow> ('k stream_client, unit) prog" where
  "client_destroy_ss S = (\<lambda>s. case ec_ss s of
       None \<Rightarrow> (Ok (), s)
     | Some a \<Rightarrow> (case ss_destroy (server_system S) (server_runner S SocketObj) (with_world s a) of
         (r, t) \<Rightarrow> (r, (ss_world t)\<lparr>ec_ss := None\<rparr>)))"

text \<open>\<open>main\<close>; \<open>STDIN_FILENO\<close> is 0. The locals are destroyed in reverse order: \<open>input\<close>, \<open>ss\<close>, \<open>runner\<close>.\<close>

definition client_main :: "nat \<Rightarrow> (string \<Rightarrow> socket_address option) \<Rightarrow> netdb \<Rightarrow> 'k stdio \<Rightarrow> 'k system \<Rightarrow> heap \<Rightarrow> nat \<Rightarrow>
    string list \<Rightarrow> ('k stream_client, int) prog" where
  "client_main n lexical_cast N K S h self args = noexcept (case args of
       [arg] \<Rightarrow> seq (epoll_runner_create S None)
         (case lexical_cast arg of None \<Rightarrow> abort | Some sa \<Rightarrow>
           seq (client_connect S h sa)
             (seq (base_add S (User InputObj) 0 EVENT_IN)
               (seq (modify_st (\<lambda>s. s\<lparr>runnerThreadId := Some self\<rparr>))
                 (seq (scope_exit (runImpl n S (\<lambda>_. undef) (client_dispatch n N K S) (get_st ec_doContinue))
                        (\<lambda>s. s\<lparr>runnerThreadId := None\<rparr>))
                   (seq (noexcept (delFDListener S 0))
                     (seq (client_destroy_ss S)
                       (seq (epoll_runner_destroy S) (get_st ec_ret))))))))
     | _ \<Rightarrow> seq (modify_st (\<lambda>s. s\<lparr>ec_cerr := ec_cerr s @ ''Usage: EchoClient ADDRESS'' @ NL\<rparr>)) (ret 1))"

section \<open>The packet client\<close>

definition pc_established :: "(('a, 'k) echo_client seq_packet_socket, unit) prog" where
  "pc_established = sq_do (client_print (''connection established'' @ NL))"

definition pc_closed :: "netdb \<Rightarrow> int \<Rightarrow> (('a, 'k) echo_client seq_packet_socket, unit) prog" where
  "pc_closed N error = sq_do (seq
     (if error \<noteq> 0 then modify_st (\<lambda>s. s\<lparr>ec_cerr := ec_cerr s @ strerror N error @ NL, ec_ret := 1\<rparr>) else ret ())
     stop_client)"

definition pc_received :: "'k stdio \<Rightarrow> byte list \<Rightarrow> control_message \<Rightarrow> (('a, 'k) echo_client seq_packet_socket, unit) prog" where
  "pc_received K data cm = bnd (sq_do (libc (std_write K data))) (\<lambda>_. ret ())"

definition pc_callbacks :: "netdb \<Rightarrow> 'k stdio \<Rightarrow> ('a, 'k) echo_client sq_callbacks" where
  "pc_callbacks N K = \<lparr>sqc_established = Some pc_established, sqc_closed = pc_closed N,
     sqc_received = pc_received K, sqc_sent = None\<rparr>"

definition packet_input_handle :: "netdb \<Rightarrow> 'k stdio \<Rightarrow> 'k system \<Rightarrow> event_mask \<Rightarrow> (('a, 'k) echo_client seq_packet_socket, unit) prog" where
  "packet_input_handle N K S events = (if has_event events EVENT_IN
     then bnd (sq_do (libc (std_read K 1024))) (\<lambda>(ssize, bs). if ssize > 0
       then sq_send_plain (server_system S) (server_runner S SocketObj) (pc_callbacks N K) (take (nat ssize) bs)
       else sq_do stop_client)
     else if has_event events EVENT_HUP then sq_do stop_client else ret ())"

type_synonym 'k packet_client = "(unit seq_packet_socket, 'k) echo_client"

definition on_packet_socket :: "('k packet_client seq_packet_socket, unit) prog \<Rightarrow> ('k packet_client, unit) prog" where
  "on_packet_socket m = (\<lambda>s. case ec_ss s of
       None \<Rightarrow> (Undef, s)
     | Some a \<Rightarrow> (case m (sq_with_world s a) of (r, t) \<Rightarrow> (r, (sq_world t)\<lparr>ec_ss := Some (sq_with_world () t)\<rparr>)))"

definition packet_client_dispatch :: "nat \<Rightarrow> netdb \<Rightarrow> 'k stdio \<Rightarrow> 'k system \<Rightarrow> client_obj run_listener \<Rightarrow> rawfd \<Rightarrow> event_mask \<Rightarrow>
    ('k packet_client, unit) prog" where
  "packet_client_dispatch n N K S fl fd ev = (case fl of
       EventPipe \<Rightarrow> (\<lambda>s. read_all n S (readFD s) 32 s)
     | User SocketObj \<Rightarrow> on_packet_socket
         (sq_handleEventsCb (server_system S) (server_runner S SocketObj) (pc_callbacks N K) ev)
     | User InputObj \<Rightarrow> on_packet_socket (packet_input_handle N K S ev)
     | _ \<Rightarrow> undef)"

definition packet_client_connect :: "'k system \<Rightarrow> socket_address \<Rightarrow> ('k packet_client, unit) prog" where
  "packet_client_connect S sa = (\<lambda>s. case sq_connect (server_system S) (server_runner S SocketObj) 0 None
       (getFamily sa, address_bytes sa) (sq_blank 1024 s) of
       (Ok _, t) \<Rightarrow> (Ok (), (sq_world t)\<lparr>ec_ss := Some (sq_with_world () t)\<rparr>)
     | (r, t) \<Rightarrow> (fail_as r, sq_world t))"

definition packet_client_destroy_ss :: "'k system \<Rightarrow> ('k packet_client, unit) prog" where
  "packet_client_destroy_ss S = (\<lambda>s. case ec_ss s of
       None \<Rightarrow> (Ok (), s)
     | Some a \<Rightarrow> (case sq_destroy (server_system S) (server_runner S SocketObj) (sq_with_world s a) of
         (r, t) \<Rightarrow> (r, (sq_world t)\<lparr>ec_ss := None\<rparr>)))"

definition packet_client_main :: "nat \<Rightarrow> (string \<Rightarrow> socket_address option) \<Rightarrow> netdb \<Rightarrow> 'k stdio \<Rightarrow> 'k system \<Rightarrow> nat \<Rightarrow>
    string list \<Rightarrow> ('k packet_client, int) prog" where
  "packet_client_main n lexical_cast N K S self args = noexcept (case args of
       [arg] \<Rightarrow> seq (epoll_runner_create S None)
         (case lexical_cast arg of None \<Rightarrow> abort | Some sa \<Rightarrow>
           seq (packet_client_connect S sa)
             (seq (base_add S (User InputObj) 0 EVENT_IN)
               (seq (modify_st (\<lambda>s. s\<lparr>runnerThreadId := Some self\<rparr>))
                 (seq (scope_exit (runImpl n S (\<lambda>_. undef) (packet_client_dispatch n N K S) (get_st ec_doContinue))
                        (\<lambda>s. s\<lparr>runnerThreadId := None\<rparr>))
                   (seq (noexcept (delFDListener S 0))
                     (seq (packet_client_destroy_ss S)
                       (seq (epoll_runner_destroy S) (get_st ec_ret))))))))
     | _ \<Rightarrow> seq (modify_st (\<lambda>s. s\<lparr>ec_cerr := ec_cerr s @ ''Usage: EchoClient ADDRESS'' @ NL\<rparr>)) (ret 1))"

section \<open>The server on an \<open>AsyncRunner\<close>\<close>

text \<open>The loop of \<open>EchoServer2\<close>: \<open>poll\<close> (an argument: a negative result, or a number of descriptors) waits for the event
  descriptor, and each time it returns the runner makes a step. A failing \<open>poll\<close>, interrupted by a
  signal or not, ends the program with an exception.\<close>

fun poll_loop :: "nat \<Rightarrow> ('s \<Rightarrow> (int \<times> int) \<times> 's) \<Rightarrow> ('s, unit) prog \<Rightarrow> ('s, unit) prog" where
  "poll_loop 0 poll step s = (NoFuel, s)"
| "poll_loop (Suc n) poll step s = (case poll s of ((status, errno), s') \<Rightarrow>
     if status < 0 then (Throw (SystemException ''poll'' errno), s')
     else seq step (poll_loop n poll step) s')"

end
