(* ===== verification/EchoClientProps.thy ===== *)
theory EchoClientProps
  imports EchoClient EchoServerProps
begin

text \<open>
  What the stream client does with the bytes it receives: it prints them in order, and none twice; but a
  write that fails ends the process, and so does a line typed after the connection was closed.
\<close>

section \<open>Printing\<close>

text \<open>The standard output: \<open>printed\<close> is what it has taken. A failing \<open>write\<close> gives \<open>-1\<close>.\<close>

definition stdout_contract :: "('k \<Rightarrow> byte list) \<Rightarrow> 'k stdio \<Rightarrow> bool" where
  "stdout_contract printed K \<longleftrightarrow> (\<forall>bs k. case std_write K bs k of (n, k') \<Rightarrow>
     n = - 1 \<and> printed k' = printed k
   \<or> 0 \<le> n \<and> n \<le> int (length bs) \<and> printed k' = printed k @ take (nat n) bs)"

lemma printed_some:
  assumes "stdout_contract printed K" and "libc (std_write K bs) s = (r, t)"
  obtains (failed) "r = Ok (- 1)" "printed (world t) = printed (world s)"
  | (printed) n where "r = Ok n" "0 \<le> n" "n \<le> int (length bs)" "printed (world t) = printed (world s) @ take (nat n) bs"
proof -
  obtain n k where w: "std_write K bs (world s) = (n, k)" by (metis surj_pair)
  then have "r = Ok n" "world t = k" using assms(2) by (auto simp: libc_def on_world_def zoom_run)
  then show ?thesis using assms(1)[unfolded stdout_contract_def, rule_format, where bs = bs and k = "world s"] w that by auto
qed

text \<open>
  The client prints what it receives. \<open>writev\<close> may take less than it is given: what it has taken leaves the input,
  the rest stays, so printed and waiting bytes together are the same as before. When the write
  fails, its \<open>-1\<close> becomes the largest \<open>size_t\<close> and the call throws \<open>BufferUnderflow\<close>.
\<close>

theorem client_prints_received:
  fixes s :: "('a, 'k) echo_client stream_socket"
  assumes out: "stdout_contract printed K" and inv: "sb_inv (ss_heap s) (ss_input s)"
    and size: "totalSize (ss_input s) < 2 ^ 63" and run: "ec_received K s = (r, t)"
  shows "printed (world (ss_world t)) @ ss_in t = printed (world (ss_world s)) @ ss_in s \<and> sb_inv (ss_heap t) (ss_input t)
    \<and> (r = Ok () \<or> r = Throw BufferUnderflow \<and> printed (world (ss_world t)) = printed (world (ss_world s)))"
proof (cases rule: getUsedIOVec_cases [OF inv])
  case A: (1 v m b)
  let ?s = "s\<lparr>ss_input := b\<rparr>"
  obtain q w where out': "libc (std_write K (iov_bytes (ss_heap s) v)) (ss_world s) = (q, w)" by (metis surj_pair)
  have bytes: "iov_bytes (ss_heap s) v = take m (ss_in s)"
    using A(3) by (simp add: iov_bytes_def ss_in_def content_def take_map)
  have inv': "sb_inv (ss_heap s) b" by (rule sb_inv_other_fields [OF inv A(5-7)])
  have same: "content (ss_heap s) b = ss_in s" by (simp add: content_def used_addrs_def ss_in_def A(5,6))
  have start: "ec_received K s = (case q of Ok n \<Rightarrow> on_input (cutHead (to_size_t n)) (?s\<lparr>ss_world := w\<rparr>)
      | _ \<Rightarrow> (fail_as q, ?s\<lparr>ss_world := w\<rparr>))"
    using A(1) out' by (cases q) (simp_all add: ec_received_def bnd_run on_input_def zoom_run ss_do_run)
  from out out' show ?thesis
  proof (cases rule: printed_some)
    case failed
    have "totalSize b < to_size_t (- 1)" using size A(7) by (simp add: to_size_t_def)
    then have "r = Throw BufferUnderflow" "t = ?s\<lparr>ss_world := w\<rparr>"
      using run start failed(1) by (auto simp: on_input_def zoom_run cutHead_def)
    then show ?thesis using failed(2) inv' same by (simp add: ss_in_def)
  next
    case (printed n)
    have le: "nat n \<le> length (ss_in s)" using printed(2,3) bytes by simp
    also have "\<dots> \<le> totalSize b"
      using inv A(7) by (simp add: ss_in_def content_def length_used_addrs sb_inv_def sb_sizes_def)
    finally have n: "nat n \<le> totalSize b" .
    then have "to_size_t n = nat n" using printed(2) size A(7) by (simp add: to_size_t_def)
    moreover obtain c where "cutHead (nat n) (b, ss_heap s) = (Ok (), (c, ss_heap s))" "sb_inv (ss_heap s) c"
      "content (ss_heap s) c = drop (nat n) (content (ss_heap s) b)"
      by (rule cutHead_spec [OF inv' n])
    ultimately have t: "r = Ok ()" "t = s\<lparr>ss_input := c, ss_world := w\<rparr>" "ss_in t = drop (nat n) (ss_in s)" "sb_inv (ss_heap t) (ss_input t)"
      using run start printed(1) same by (auto simp: on_input_def zoom_run ss_in_def)
    have "take (nat n) (take m (ss_in s)) = take (nat n) (ss_in s)" using printed(2,3) bytes by simp
    then show ?thesis using t printed(4) bytes by simp
  qed
qed

text \<open>\<open>BufferUnderflow\<close> is none of the exceptions \<open>StreamSocket\<close> handles: it leaves the handler of the event, and with
  it \<open>run\<close> and \<open>main\<close>.\<close>

theorem failed_write_escapes:
  fixes s :: "('a, 'k) echo_client stream_socket"
  assumes fails: "\<And>bs k. fst (std_write K bs k) = - 1" and inv: "sb_inv (ss_heap s) (ss_input s)"
    and size: "totalSize (ss_input s) < 2 ^ 63"
  shows "\<exists>t. try_catch (dataReceivedCb (ec_callbacks N K)) (close_on_error S R (ec_callbacks N K)) s = (Throw BufferUnderflow, t)"
proof -
  let ?printed = "\<lambda>_ :: 'k. [] :: byte list"
  have out: "stdout_contract ?printed K"
    unfolding stdout_contract_def
  proof (intro allI)
    fix bs k
    show "case std_write K bs k of (n, k') \<Rightarrow> n = - 1 \<and> ([] :: byte list) = []
      \<or> 0 \<le> n \<and> n \<le> int (length bs) \<and> ([] :: byte list) = [] @ take (nat n) bs"
      using fails [of bs k] by (cases "std_write K bs k") simp
  qed
  obtain r t where run: "ec_received K s = (r, t)" by (metis surj_pair)
  have "r \<noteq> Ok ()"
  proof (cases rule: getUsedIOVec_cases [OF inv])
    case (1 v m b)
    obtain k where "libc (std_write K (iov_bytes (ss_heap s) v)) (ss_world s) = (Ok (- 1), k)"
      using fails [of "iov_bytes (ss_heap s) v" "world (ss_world s)"]
      by (cases "std_write K (iov_bytes (ss_heap s) v) (world (ss_world s))") (simp add: libc_def on_world_def zoom_run)
    moreover have "totalSize b < to_size_t (- 1)" using size 1(7) by (simp add: to_size_t_def)
    ultimately show ?thesis using run 1(1)
      by (auto simp: ec_received_def bnd_run on_input_def zoom_run ss_do_run cutHead_def)
  qed
  then have "r = Throw BufferUnderflow" using client_prints_received [OF out inv size run] by simp
  then show ?thesis using run by (simp add: try_catch_run ec_callbacks_def close_on_error_def)
qed

section \<open>Typing\<close>

lemma startSending_closed:
  assumes inv: "sb_inv (ss_heap s) (ss_output s)" and "ss_fd s < 0" "\<not> sending s" "\<not> connecting s" "0 < StreamBuffer.usedSize (ss_output s)"
  shows "\<exists>t. startSending S R C s = (Throw InvalidFD, t)"
proof (cases rule: getUsedIOVec_cases [OF inv])
  case (1 v m b)
  then show ?thesis using assms(2-)
    by (simp add: startSending_def when_run trySend_def try_catch_run ss_send_def bnd_run on_output_def zoom_run with_fd_def
        close_on_error_def getUsedSize_def)
qed

text \<open>
  A line that is read from the standard input after the connection was closed, as happens when both are
  events of one batch, ends the process: the bytes are appended to the output of the closed socket,
  \<open>startSending\<close> uses its descriptor, and \<open>InvalidFD\<close> is not handled.
\<close>

theorem typed_after_close_escapes:
  fixes s :: "('a, 'k) echo_client stream_socket"
  assumes inv: "sb_inv (ss_heap s) (ss_output s)" and closed: "ss_fd s < 0" "\<not> sending s" "\<not> connecting s"
    and room: "totalSize (ss_output s) + 1032 \<le> size_t_max" "length (buffers (ss_output s)) < iov_max"
    and "typed": "\<And>n. 1024 \<le> n \<Longrightarrow> std_read K n (world (ss_world s)) = ((int (length (bs n)), bs n), k n) \<and> 0 < length (bs n) \<and> length (bs n) \<le> n"
  shows "\<exists>t. input_handle N K S EVENT_IN s = (Throw InvalidFD, t) \<or> input_handle N K S EVENT_IN s = (Throw BadAlloc, s)"
proof -
  have ev: "has_event EVENT_IN EVENT_IN" by (simp add: has_event_def event_masks)
  have space: "totalSize (ss_output s) + 1024 + 8 \<le> size_t_max" using room(1) by simp
  show ?thesis
  proof (cases rule: sb_allocate_cases [OF inv space])
    case A: (1 b ns)
    let ?h = "(ss_heap s)\<lparr>blocks := blocks (ss_heap s) @ ns\<rparr>"
    show ?thesis
    proof (cases rule: getFreeIOVec_cases [OF A(2)])
      case F: (1 v m c)
      have len: "length (buffers b) \<le> iov_max"
        using A(1) room(2) by (auto simp: sb_allocate_def split: if_splits prod.splits outcome.splits)
      let ?n = "length (iov_addrs v)" and ?w = "(ss_world s)\<lparr>world := k (length (iov_addrs v))\<rparr>"
      have v: "iov_addrs v = free_addrs b" "1024 \<le> ?n" using F(4) [OF len] A(5) by simp_all
      note read = typed [OF v(2)]
      let ?h2 = "scatter v (bs ?n) ?h" and ?c = "c\<lparr>StreamBuffer.usedSize := StreamBuffer.usedSize c + length (bs ?n)\<rparr>"
      have "sb_inv ?h2 c"
        using sb_inv_other_fields [OF A(2) F(5-7)] by (simp add: scatter_def sb_inv_def buf_valid_def)
      moreover have "length (bs ?n) \<le> length (free_addrs c)" using read v(1) F(5,6) by (simp add: free_addrs_def)
      ultimately have inc: "increaseUsed (length (bs ?n)) (c, ?h2) = (Ok (), (?c, ?h2))" "sb_inv ?h2 ?c"
        by (rule increaseUsed_ok)+
      let ?t = "s\<lparr>ss_world := ?w, ss_output := ?c, ss_heap := ?h2\<rparr>"
      have "\<exists>t. startSending (server_system S) (server_runner S SocketObj) (ec_callbacks N K) ?t = (Throw InvalidFD, t)"
        by (rule startSending_closed) (use inc(2) closed read in auto)
      moreover have "input_handle N K S EVENT_IN s = startSending (server_system S) (server_runner S SocketObj) (ec_callbacks N K) ?t"
        using ev A(1) F(1) read inc(1)
        by (simp add: input_handle_def input_read_def seq_run bnd_run on_output_def zoom_run ss_do_run libc_def on_world_def)
      ultimately show ?thesis by auto
    qed
  next
    case 2
    then have "input_handle N K S EVENT_IN s = (Throw BadAlloc, s)"
      using ev by (simp add: input_handle_def input_read_def seq_run on_output_def zoom_run)
    then show ?thesis by blast
  qed
qed

section \<open>The loop of the second server\<close>

text \<open>The loop of \<open>EchoServer2\<close> makes one step for each \<open>poll\<close> that returns, and a signal that interrupts \<open>poll\<close> ends
  it, although nothing has failed.\<close>

lemma poll_loop_steps:
  assumes "poll s = ((status, e), s')" and "0 \<le> status"
  shows "poll_loop (Suc n) poll step s = seq step (poll_loop n poll step) s'"
  using assms by simp

theorem interrupted_poll_ends_server:
  assumes "poll s = ((- 1, EINTR), s')"
  shows "poll_loop (Suc n) poll step s = (Throw (SystemException ''poll'' EINTR), s')"
  using assms by simp

end
