(* ===== verification/DumpTests.thy ===== *)
theory DumpTests
  imports ClassDumps DumpProps UnitTest
begin

text \<open>
  The unit tests of the dump facility on the model: \<open>src/tst/DumpUtilsTest.cpp\<close>, \<open>DumpTest.cpp\<close>,
  \<open>DumpFormatterTest.cpp\<close> and \<open>DumpCreatorTest.cpp\<close>, one definition per \<open>TEST\<close> with the name the macro
  gives its class, and the theorem that it passes. The state of a test is its \<open>ostringstream\<close>. What the
  run of a test gets from outside is an argument: the addresses of its objects, for which the tests
  build their expectation at run time or match a regular expression.
\<close>

section \<open>Helpers\<close>

definition text_lines :: "string list \<Rightarrow> string" where
  "text_lines ls = concat (map (\<lambda>l. l @ [LF]) ls)"

definition EXPECT_STR :: "string \<Rightarrow> (ostream, unit) prog" where
  "EXPECT_STR s = expect (\<lambda>os. os_text os = s)"

definition expected :: "(ostream \<Rightarrow> ostream) list \<Rightarrow> string" where
  "expected fs = os_text (fold (\<lambda>f. f) fs new_ostringstream)"

text \<open>A dump that needs nothing but its stream, on the stream of the test or on another one.\<close>

definition dump_into :: "unit dumper \<Rightarrow> ostream \<Rightarrow> ('s, ostream) prog" where
  "dump_into d os = (\<lambda>s. (fst (d os ()), s))"

definition dumps :: "unit dumper \<Rightarrow> (ostream, unit) prog" where
  "dumps d = bnd (get_st id) (\<lambda>os. bnd (dump_into d os) (\<lambda>os'. modify_st (\<lambda>_. os')))"

text \<open>The regular expressions \<open>"<before>0x[[:xdigit:]]+<after>"\<close>, where \<open>after\<close> begins with no digit.\<close>

definition isxdigit :: "char \<Rightarrow> bool" where
  "isxdigit c \<longleftrightarrow> c \<in> set ''0123456789abcdefABCDEF''"

definition matches_address :: "string \<Rightarrow> string \<Rightarrow> string \<Rightarrow> bool" where
  "matches_address before after s = (let rest = drop (length before + 2) s; h = takeWhile isxdigit rest in
     take (length before + 2) s = before @ ''0x'' \<and> h \<noteq> [] \<and> drop (length h) rest = after)"

definition passes_os :: "(ostream, unit) prog \<Rightarrow> bool" where
  "passes_os p \<longleftrightarrow> fst (p new_ostringstream) = Ok ()"

text \<open>The members of the fixture, and \<open>DumpTestHelper\<close>. \<open>C::x\<close> is in network order. The class \<open>D\<close> prints
  the same as \<open>DAO\<close> but for its name; for both \<open>dump\<close> goes before \<open>operator <<\<close>.\<close>

definition fixture_o :: dvalue where
  "fixture_o = DShown (decimal 222)"

definition fixture_c :: dvalue where
  "fixture_c = DBytes [0x01, 0x02, 0xAA, 0xBB]"

definition fixture_d :: dvalue where
  "fixture_d = DDumpable (text_lines [''D'', ''{'', ''this: 1'', ''foo: '' @ decimal 123, ''}''])"

definition fixture_dao :: dvalue where
  "fixture_dao = DDumpable (text_lines [''DAO'', ''{'', ''this: 1'', ''foo: '' @ decimal 123, ''}''])"

definition DumpTestHelper_dump :: "nat \<Rightarrow> 's dumper" where
  "DumpTestHelper_dump this = dump_object (''EventLoop::SomeNamespace::DumpTestHelper'', this)
     [writes (put (''blaa'' @ [LF]))]"

definition DumpTestHelper_head :: string where
  "DumpTestHelper_head = ''EventLoop::SomeNamespace::DumpTestHelper'' @ [LF, CHR ''{'', LF] @ ''this: ''"

text \<open>\<open>exn\<close> has no value for a plain \<open>Exception\<close>, so \<open>doThrow\<close> throws any value of \<open>exn\<close>, and
  \<open>test_exception\<close> gives the type and the text of the one the test throws.\<close>

definition noThrow :: "('s, dvalue) prog" where
  "noThrow = ret (DInt 42)"

definition doThrow :: "exn \<Rightarrow> ('s, dvalue) prog" where
  "doThrow e = throw e"

definition test_exception :: "exn \<Rightarrow> string \<times> string" where
  "test_exception e = (''EventLoop::Exception'', ''test exception'')"

lemma hexadecimal_xdigits: "c \<in> set (hexadecimal up n) \<Longrightarrow> isxdigit c"
proof (induction up n rule: hexadecimal.induct)
  case (1 up n)
  have dig: "k < 16 \<Longrightarrow> isxdigit (hex_digit up k)" for k
    by (auto simp: isxdigit_def hex_digit_def nth_Cons' split: if_splits)
  then show ?case using 1 by (subst (asm) hexadecimal.simps) (auto split: if_splits)
qed

lemma hexadecimal_not_Nil [simp]: "hexadecimal up n \<noteq> []"
  by (subst hexadecimal.simps) simp

lemma matches_address_ptr:
  assumes "s = before @ ''0x'' @ hexadecimal up n @ after" and "after = c # cs" and "\<not> isxdigit c"
  shows "matches_address before after s"
proof -
  have "takeWhile isxdigit (hexadecimal up n @ after) = hexadecimal up n"
    using assms(2,3) hexadecimal_xdigits by (simp add: takeWhile_append2)
  then show ?thesis using assms(1) by (simp add: matches_address_def Let_def)
qed

lemma dumps_run: "dumps d os = (case fst (d os ()) of Ok os' \<Rightarrow> (Ok (), os') | r \<Rightarrow> (fail_as r, os))"
  by (simp add: dumps_def dump_into_def bnd_def get_st_def modify_st_def split: outcome.split)

section \<open>The tests of the functions behind the macros\<close>

definition DumpUtilsTest_dumpValueOfFundamental_Test :: "(ostream, unit) prog" where
  "DumpUtilsTest_dumpValueOfFundamental_Test = steps [
     dumps (DUMP_VALUE_OF ''i'' (DInt 111)),
     EXPECT_STR (text_lines [''i: 111''])]"

definition DumpUtilsTest_dumpValueOfOutputable_Test :: "(ostream, unit) prog" where
  "DumpUtilsTest_dumpValueOfOutputable_Test = steps [
     dumps (DUMP_VALUE_OF ''o'' fixture_o),
     EXPECT_STR (text_lines [''o: 222''])]"

definition DumpUtilsTest_dumpValueOfNonOutputable_Test :: "(ostream, unit) prog" where
  "DumpUtilsTest_dumpValueOfNonOutputable_Test = steps [
     dumps (DUMP_VALUE_OF ''c'' fixture_c),
     EXPECT_STR (text_lines [''c: 0102aabb''])]"

definition DumpUtilsTest_dumpValueOfCppString_Test :: "(ostream, unit) prog" where
  "DumpUtilsTest_dumpValueOfCppString_Test = steps [
     dumps (DUMP_VALUE_OF ''cppstr'' (DString ''foo'')),
     EXPECT_STR (''cppstr: '' @ [CHR 0x22] @ ''foo'' @ [CHR 0x22, LF])]"

definition DumpUtilsTest_dumpValueOfCString_Test :: "(ostream, unit) prog" where
  "DumpUtilsTest_dumpValueOfCString_Test = steps [
     dumps (DUMP_VALUE_OF ''cstr'' (DCString (Some ''bar''))),
     EXPECT_STR (''cstr: '' @ [CHR 0x22] @ ''bar'' @ [CHR 0x22, LF])]"

definition DumpUtilsTest_dumpAddressOfChar_Test :: "nat \<Rightarrow> (ostream, unit) prog" where
  "DumpUtilsTest_dumpAddressOfChar_Test ch_addr = steps [
     dumps (DUMP_ADDRESS_OF ''ch'' ch_addr),
     expect (\<lambda>os. matches_address ''ch: '' [LF] (os_text os))]"

definition DumpUtilsTest_dumpHexValueOfFundamental_Test :: "(ostream, unit) prog" where
  "DumpUtilsTest_dumpHexValueOfFundamental_Test = steps [
     dumps (writes (outputNameAndHexValue (CName (Some ''i'')) (DInt 0x6f))),
     EXPECT_STR (text_lines [''i: 0x6f''])]"

definition DumpUtilsTest_dumpValueOfDumpable_Test :: "(ostream, unit) prog" where
  "DumpUtilsTest_dumpValueOfDumpable_Test = steps [
     dumps (DUMP_VALUE_OF ''d'' fixture_d),
     EXPECT_STR (text_lines [''d:'', ''{'', ''D'', ''{'', ''this: 1'', ''foo: 123'', ''}'', ''}''])]"

definition DumpUtilsTest_dumpValueOfDumpableAndOutputable_Test :: "(ostream, unit) prog" where
  "DumpUtilsTest_dumpValueOfDumpableAndOutputable_Test = steps [
     dumps (DUMP_VALUE_OF ''dao'' fixture_dao),
     EXPECT_STR (text_lines [''dao:'', ''{'', ''DAO'', ''{'', ''this: 1'', ''foo: 123'', ''}'', ''}''])]"

definition DumpUtilsTest_dumpAddressOf_Test :: "nat \<Rightarrow> (ostream, unit) prog" where
  "DumpUtilsTest_dumpAddressOf_Test i_addr = steps [
     dumps (DUMP_ADDRESS_OF ''i'' i_addr),
     EXPECT_STR (expected [put ''i: '', put_ptr i_addr, put [LF]])]"

definition DumpUtilsTest_dumpValuePointedByPtr_Test :: "(ostream, unit) prog" where
  "DumpUtilsTest_dumpValuePointedByPtr_Test = steps [
     dumps (writes (outputNameAndValuePointedBy (CName (Some ''optr'')) (Some fixture_o))),
     EXPECT_STR (text_lines [''optr: 222''])]"

definition DumpUtilsTest_dumpValuePointedBySharedPtr_Test :: "(ostream, unit) prog" where
  "DumpUtilsTest_dumpValuePointedBySharedPtr_Test = steps [
     dumps (writes (outputNameAndValueSharedBy (CName (Some ''sptr'')) (Some (DInt 10, 1)))),
     EXPECT_STR (text_lines [''sptr: 10''])]"

definition DumpUtilsTest_dumpValuePointedByWeakPtr_Test :: "(ostream, unit) prog" where
  "DumpUtilsTest_dumpValuePointedByWeakPtr_Test = steps [
     dumps (writes (outputNameAndValueSharedBy (CName (Some ''wptr'')) (Some (DInt 10, 2)))),
     EXPECT_STR (text_lines [''wptr: 10''])]"

definition DumpUtilsTest_dumpValuePointedByDanlingWeakPtr_Test :: "(ostream, unit) prog" where
  "DumpUtilsTest_dumpValuePointedByDanlingWeakPtr_Test = steps [
     dumps (writes (outputNameAndValueSharedBy (CName (Some ''wptr'')) None)),
     EXPECT_STR (text_lines [''wptr: null''])]"

definition DumpUtilsTest_dumpValuePointedByUniquePtr_Test :: "(ostream, unit) prog" where
  "DumpUtilsTest_dumpValuePointedByUniquePtr_Test = steps [
     dumps (writes (outputNameAndValuePointedBy (CName (Some ''uptr'')) (Some (DInt 10)))),
     EXPECT_STR (text_lines [''uptr: 10''])]"

definition DumpUtilsTest_dumpValuePointedByNullPtr_Test :: "(ostream, unit) prog" where
  "DumpUtilsTest_dumpValuePointedByNullPtr_Test = steps [
     dumps (writes (outputNameAndValuePointedBy (CName (Some ''dptr'')) None)),
     EXPECT_STR (text_lines [''dptr: null''])]"

definition DumpUtilsTest_dumpStdFunction_Test :: "(ostream, unit) prog" where
  "DumpUtilsTest_dumpStdFunction_Test = steps [
     dumps (DUMP_VALUE_OF ''func'' (DFunction True)),
     EXPECT_STR (text_lines [''func: 1''])]"

definition DumpUtilsTest_dumpValueOfSharedPtr_Test :: "nat \<Rightarrow> (ostream, unit) prog" where
  "DumpUtilsTest_dumpValueOfSharedPtr_Test p = steps [
     dumps (DUMP_VALUE_OF ''sptr'' (DShared p 1)),
     EXPECT_STR (expected [put ''sptr: '', put_ptr p, put '' (use count: 1)'', put [LF]])]"

definition DumpUtilsTest_dumpValueOfWeakPtr_Test :: "nat \<Rightarrow> (ostream, unit) prog" where
  "DumpUtilsTest_dumpValueOfWeakPtr_Test p = steps [
     dumps (DUMP_VALUE_OF ''wptr'' (DWeak p 2)),
     EXPECT_STR (expected [put ''wptr: '', put_ptr p, put '' (use count: 2)'', put [LF]])]"

definition DumpUtilsTest_dumpValueOfDanglingWeakPtr_Test :: "(ostream, unit) prog" where
  "DumpUtilsTest_dumpValueOfDanglingWeakPtr_Test = steps [
     dumps (DUMP_VALUE_OF ''wptr'' (DWeak 0 0)),
     EXPECT_STR (expected [put ''wptr: 0 (use count: 0)'', put [LF]])]"

definition DumpUtilsTest_dumpValueOfUniquePtr_Test :: "nat \<Rightarrow> (ostream, unit) prog" where
  "DumpUtilsTest_dumpValueOfUniquePtr_Test p = steps [
     dumps (DUMP_VALUE_OF ''uptr'' (DUnique p)),
     EXPECT_STR (expected [put ''uptr: '', put_ptr p, put [LF]])]"

definition DumpUtilsTest_dumpContainerOfFundamentals_Test :: "(ostream, unit) prog" where
  "DumpUtilsTest_dumpContainerOfFundamentals_Test = steps [
     dumps (DUMP_CONTAINER ''iList'' [DInt 100, DInt 200]),
     EXPECT_STR (text_lines [''iList:'', ''{'', ''100'', ''200'', ''}''])]"

definition DumpUtilsTest_dumpContainerOfDumpables_Test :: "(ostream, unit) prog" where
  "DumpUtilsTest_dumpContainerOfDumpables_Test = steps [
     dumps (DUMP_CONTAINER ''dList'' [fixture_d, fixture_d]),
     EXPECT_STR (text_lines [''dList:'', ''{'', ''D'', ''{'', ''this: 1'', ''foo: 123'', ''}'', ''D'', ''{'', ''this: 1'', ''foo: 123'', ''}'', ''}''])]"

definition DumpUtilsTest_dumpContainerOfNonOutputable_Test :: "(ostream, unit) prog" where
  "DumpUtilsTest_dumpContainerOfNonOutputable_Test = steps [
     dumps (DUMP_CONTAINER ''cList'' [fixture_c, fixture_c]),
     EXPECT_STR (text_lines [''cList:'', ''{'', ''0102aabb'', ''0102aabb'', ''}''])]"

definition DumpUtilsTest_dumpContainerOfPtrs_Test :: "(ostream, unit) prog" where
  "DumpUtilsTest_dumpContainerOfPtrs_Test = steps [
     dumps (writes (outputPtrContainer ''ptrList'' [Some (DInt 1), Some (DInt 2), None])),
     EXPECT_STR (text_lines [''ptrList:'', ''{'', ''1'', ''2'', ''null'', ''}''])]"

definition DumpUtilsTest_dumpPairContainer_Test :: "(ostream, unit) prog" where
  "DumpUtilsTest_dumpPairContainer_Test = steps [
     dumps (DUMP_PAIR_CONTAINER ''iMap'' [(VName (DInt 1), DInt 100), (VName (DInt 2), DInt 200)]),
     EXPECT_STR (text_lines [''iMap:'', ''{'', ''1: 100'', ''2: 200'', ''}''])]"

definition DumpUtilsTest_dumpPairContainerOfDumpable_Test :: "(ostream, unit) prog" where
  "DumpUtilsTest_dumpPairContainerOfDumpable_Test = steps [
     dumps (DUMP_PAIR_CONTAINER ''dMap'' [(VName (DInt 1), fixture_d), (VName (DInt 2), fixture_d)]),
     EXPECT_STR (text_lines [''dMap:'', ''{'', ''1:'', ''{'', ''D'', ''{'', ''this: 1'', ''foo: 123'', ''}'', ''}'', ''2:'', ''{'', ''D'', ''{'', ''this: 1'', ''foo: 123'', ''}'', ''}'', ''}''])]"

definition DumpUtilsTest_dumpPtrPairContainer_Test :: "(ostream, unit) prog" where
  "DumpUtilsTest_dumpPtrPairContainer_Test = steps [
     dumps (writes (outputPtrPairContainer ''ptrMap''
       [(VName (DInt 1), Some (DInt 1)), (VName (DInt 2), Some (DInt 2)), (VName (DInt 3), None)])),
     EXPECT_STR (text_lines [''ptrMap:'', ''{'', ''1: 1'', ''2: 2'', ''3: null'', ''}''])]"

definition DumpUtilsTest_dumpSetBoostOptional_Test :: "(ostream, unit) prog" where
  "DumpUtilsTest_dumpSetBoostOptional_Test = steps [
     dumps (DUMP_VALUE_OF ''bo'' (DOptional (Some (DInt 333)))),
     EXPECT_STR (text_lines [''bo: 333''])]"

definition DumpUtilsTest_dumpUnsetBoostOptional_Test :: "(ostream, unit) prog" where
  "DumpUtilsTest_dumpUnsetBoostOptional_Test = steps [
     dumps (DUMP_VALUE_OF ''bo'' (DOptional None)),
     EXPECT_STR (text_lines [''bo: <none>''])]"

definition DumpUtilsTest_dumpSetBoostOptionalDumpable_Test :: "(ostream, unit) prog" where
  "DumpUtilsTest_dumpSetBoostOptionalDumpable_Test = steps [
     dumps (DUMP_VALUE_OF ''boD'' (DOptional (Some fixture_d))),
     EXPECT_STR (text_lines [''boD:'', ''{'', ''D'', ''{'', ''this: 1'', ''foo: 123'', ''}'', ''}''])]"

definition DumpUtilsTest_dumpTuple_Test :: "(ostream, unit) prog" where
  "DumpUtilsTest_dumpTuple_Test = steps [
     dumps (DUMP_VALUE_OF ''t1'' (DTuple [DInt 1])),
     dumps (DUMP_VALUE_OF ''t2'' (DTuple [DInt 1, DInt 2])),
     dumps (DUMP_VALUE_OF ''t3'' (DTuple [DString ''foo'', DString ''bar'', DInt 3])),
     dumps (DUMP_VALUE_OF ''t4'' (DTuple [DInt 1, DInt 2, DInt 3, DInt 4])),
     dumps (DUMP_VALUE_OF ''t5'' (DTuple [DInt 1, DInt 2, DInt 3, DInt 4, DInt 5])),
     EXPECT_STR (text_lines [''t1: (1)'', ''t2: (1, 2)'',
       ''t3: ('' @ [CHR 0x22] @ ''foo'' @ [CHR 0x22] @ '', '' @ [CHR 0x22] @ ''bar'' @ [CHR 0x22] @ '', 3)'',
       ''t4: (1, 2, 3, 4)'', ''t5: (1, 2, 3, 4, 5)''])]"

definition DumpUtilsTest_dumpEnumWithoutOutputOperator_Test :: "(ostream, unit) prog" where
  "DumpUtilsTest_dumpEnumWithoutOutputOperator_Test = steps [
     dumps (DUMP_VALUE_OF ''e'' (DEnum 2)),
     EXPECT_STR (text_lines [''e: 2''])]"

definition DumpUtilsTest_dumpEnumWithOutputOperator_Test :: "(ostream, unit) prog" where
  "DumpUtilsTest_dumpEnumWithOutputOperator_Test = steps [
     dumps (DUMP_VALUE_OF ''eo'' (DShownEnum ''three'' 3)),
     EXPECT_STR (text_lines [''eo: three (3)''])]"

definition DumpUtilsTest_dumpMaintainsStreamFlags_Test :: "(ostream, unit) prog" where
  "DumpUtilsTest_dumpMaintainsStreamFlags_Test = steps [
     dumps (writes (\<lambda>os. os\<lparr>os_boolalpha := True\<rparr>)),
     dumps (DUMP_VALUE_OF ''b'' (DBool False)),
     dumps (DUMP_CONTAINER ''v'' [DBool False]),
     EXPECT_STR (text_lines [''b: false'', ''v:'', ''{'', ''false'', ''}''])]"

definition DumpUtilsTest_valuePointedBySharedPtrIncludesUseCount_Test :: "nat \<Rightarrow> (ostream, unit) prog" where
  "DumpUtilsTest_valuePointedBySharedPtrIncludesUseCount_Test p = steps [
     (\<lambda>os. bnd (dump_into (DumpTestHelper_dump p) new_ostringstream)
       (\<lambda>t. dumps (writes (outputNameAndValueSharedBy (CName (Some ''p'')) (Some (DDumpable (os_text t), 1))))) os),
     expect (\<lambda>os. matches_address (''p:'' @ [LF, CHR ''{'', LF] @ DumpTestHelper_head)
       (text_lines ['''', ''blaa'', ''}'', ''use count: 1'', ''}'']) (os_text os))]"

definition DumpUtilsTest_dumpResultOfWithOutException_Test :: "(ostream, unit) prog" where
  "DumpUtilsTest_dumpResultOfWithOutException_Test = steps [
     dumps (DUMP_RESULT_OF test_exception ''noThrow()'' noThrow),
     EXPECT_STR (text_lines [''noThrow(): 42''])]"

definition DumpUtilsTest_dumpResultOfWithException_Test :: "exn \<Rightarrow> (ostream, unit) prog" where
  "DumpUtilsTest_dumpResultOfWithException_Test e = steps [
     dumps (DUMP_RESULT_OF test_exception ''doThrow()'' (doThrow e)),
     EXPECT_STR (text_lines [''doThrow(): EventLoop::Exception: test exception''])]"

definition DumpUtilsTest_outputEmptyString_Test :: "(ostream, unit) prog" where
  "DumpUtilsTest_outputEmptyString_Test = steps [
     dumps (writes (outputCString (Some []))),
     EXPECT_STR [CHR 0x22, CHR 0x22]]"

definition DumpUtilsTest_outputPlainText_Test :: "(ostream, unit) prog" where
  "DumpUtilsTest_outputPlainText_Test = steps [
     dumps (writes (outputCString (Some ''testing 123''))),
     EXPECT_STR ([CHR 0x22] @ ''testing 123'' @ [CHR 0x22])]"

definition DumpUtilsTest_outputNilCharacter_Test :: "(ostream, unit) prog" where
  "DumpUtilsTest_outputNilCharacter_Test = steps [
     dumps (writes (outputString ([CHR ''a'', CHR 0x00, CHR ''b'']))),
     EXPECT_STR [CHR 0x22, CHR ''a'', CHR 0x5C, CHR ''0'', CHR ''b'', CHR 0x22]]"

definition DumpUtilsTest_outputSpecialCharacters_Test :: "(ostream, unit) prog" where
  "DumpUtilsTest_outputSpecialCharacters_Test = steps [
     dumps (writes (outputCString (Some [CHR '' '', CHR 0x0C, CHR '' '', LF, CHR '' '', CHR 0x0D, CHR '' '', CHR 0x09, CHR '' '',
         CHR 0x0B, CHR '' '', CHR 0x27, CHR '' '', CHR 0x22, CHR '' '', CHR 0x5C, CHR '' '']))),
     EXPECT_STR [CHR 0x22, CHR '' '', CHR 0x5C, CHR ''f'', CHR '' '', CHR 0x5C, CHR ''n'', CHR '' '', CHR 0x5C,
         CHR ''r'', CHR '' '', CHR 0x5C, CHR ''t'', CHR '' '', CHR 0x5C, CHR ''v'', CHR '' '', CHR 0x5C,
         CHR 0x27, CHR '' '', CHR 0x5C, CHR 0x22, CHR '' '', CHR 0x5C, CHR 0x5C, CHR '' '', CHR 0x22]]"

definition DumpUtilsTest_outputNonPrintableCharacter_Test :: "(ostream, unit) prog" where
  "DumpUtilsTest_outputNonPrintableCharacter_Test = steps [
     dumps (writes (outputCString (Some [CHR 0x0E, CHR '' '', CHR 0xFF]))),
     EXPECT_STR ([CHR 0x22, CHR 0x5C] @ ''xE '' @ [CHR 0x5C] @ ''xFF'' @ [CHR 0x22])]"

definition DumpUtilsTest_outputCppString_Test :: "(ostream, unit) prog" where
  "DumpUtilsTest_outputCppString_Test = steps [
     dumps (writes (outputString (''hello world'' @ [LF]))),
     EXPECT_STR ([CHR 0x22] @ ''hello world'' @ [CHR 0x5C, CHR ''n'', CHR 0x22])]"

definition DumpUtilsTest_outputCString_Test :: "(ostream, unit) prog" where
  "DumpUtilsTest_outputCString_Test = steps [
     dumps (writes (outputCString (Some (''hello world'' @ [LF])))),
     EXPECT_STR ([CHR 0x22] @ ''hello world'' @ [CHR 0x5C, CHR ''n'', CHR 0x22])]"

definition DumpUtilsTest_outputNullCString_Test :: "(ostream, unit) prog" where
  "DumpUtilsTest_outputNullCString_Test = steps [
     dumps (writes (outputCString None)),
     EXPECT_STR ''null'']"

section \<open>The other tests of dumps\<close>

definition Dump_dumpBeginAndEnd_Test :: "nat \<Rightarrow> (ostream, unit) prog" where
  "Dump_dumpBeginAndEnd_Test p = steps [
     dumps (DumpTestHelper_dump p),
     expect (\<lambda>os. matches_address DumpTestHelper_head (text_lines [[], ''blaa'', ''}'']) (os_text os))]"

definition Dump_dumpBlockBeginAndEnd_Test :: "(ostream, unit) prog" where
  "Dump_dumpBlockBeginAndEnd_Test = steps [
     dumps (DUMP_BLOCK ''TEST'' [writes (put (''blaa'' @ [LF]))]),
     EXPECT_STR (text_lines [''TEST:'', ''{'', ''blaa'', ''}''])]"

text \<open>The state of the tests of \<open>DumpFormatter\<close> is the formatter. The last of them writes a \<open>bool\<close>, which
  the stream over the formatter turns into text with the flags copied from the target.\<close>

definition passes_df :: "ostream \<Rightarrow> (formatter, unit) prog \<Rightarrow> bool" where
  "passes_df target p \<longleftrightarrow> fst (p (df_new (os_text target))) = Ok ()"

definition df_puts :: "string \<Rightarrow> (formatter, unit) prog" where
  "df_puts s = modify_st (df_write s)"

definition EXPECT_TARGET :: "string \<Rightarrow> (formatter, unit) prog" where
  "EXPECT_TARGET s = expect (\<lambda>f. df_target f = s)"

definition DumpFormatter_simpleOutputIsNotFormatted_Test :: "(formatter, unit) prog" where
  "DumpFormatter_simpleOutputIsNotFormatted_Test = steps [df_puts ''testing'', EXPECT_TARGET ''testing'']"

definition DumpFormatter_indentationIncreasesWithOpenBraceAndDecreasesWithCloseBrace_Test :: "(formatter, unit) prog" where
  "DumpFormatter_indentationIncreasesWithOpenBraceAndDecreasesWithCloseBrace_Test = steps [
     df_puts (text_lines [''{'', ''indent me'', ''{'', ''indent me more'', ''}'', ''}'', ''but not me'']),
     EXPECT_TARGET (text_lines [''{'', ''    indent me'', ''    {'', ''        indent me more'', ''    }'', ''}'', ''but not me''])]"

definition DumpFormatter_emptyLinesAreNotIndented_Test :: "(formatter, unit) prog" where
  "DumpFormatter_emptyLinesAreNotIndented_Test = steps [
     df_puts (text_lines [''{'', [], ''}'']), EXPECT_TARGET (text_lines [''{'', [], ''}''])]"

definition DumpFormatter_formatterUsesFlagsFromTheOriginalTarget_Test :: "ostream \<Rightarrow> (formatter, unit) prog" where
  "DumpFormatter_formatterUsesFlagsFromTheOriginalTarget_Test target = steps [
     df_puts (os_text (put_bool True (copy_flags target new_ostringstream))), EXPECT_TARGET ''true'']"

text \<open>The process id and the text of the time are arguments, so that the whole text is compared where
  the test matches a regular expression.\<close>

definition DumpableMock_dump :: string where
  "DumpableMock_dump = text_lines [''DumpMock'']"

definition DumpCreator_dumpToStreamWritesTimestampAndDumpsAllGivenPointers_Test :: "nat \<Rightarrow> string \<Rightarrow> (ostream, unit) prog" where
  "DumpCreator_dumpToStreamWritesTimestampAndDumpsAllGivenPointers_Test pid time = steps [
     modify_st (dumpToStream pid time [Some DumpableMock_dump, Some DumpableMock_dump, None]),
     EXPECT_STR (text_lines [''Pid: '' @ decimal pid, ''Time: '' @ time, ''BEGIN'', ''DumpMock'', ''DumpMock'', ''null'', ''END''])]"

definition DumpCreator_dumpToFileReturnsTrueOnSuccess_Test :: "nat \<Rightarrow> string \<Rightarrow> (ostream, unit) prog" where
  "DumpCreator_dumpToFileReturnsTrueOnSuccess_Test pid time = expect (\<lambda>_. snd (dumpToFile pid time [] True))"

definition DumpCreator_dumpToFileReturnsFalseOnFailure_Test :: "nat \<Rightarrow> string \<Rightarrow> (ostream, unit) prog" where
  "DumpCreator_dumpToFileReturnsFalseOnFailure_Test pid time = expect (\<lambda>_. \<not> snd (dumpToFile pid time [] False))"

section \<open>They pass\<close>

lemmas dump_run = passes_os_def passes_df_def EXPECT_STR_def EXPECT_TARGET_def expected_def dumps_run expect_run seq_run bnd_run
  writes_def ret_def throw_def text_lines_def df_puts_def modify_st_def
  DUMP_VALUE_OF_def DUMP_ADDRESS_OF_def DUMP_CONTAINER_def DUMP_PAIR_CONTAINER_def DUMP_RESULT_OF_def DUMP_BLOCK_def
  outputNameAndValue_def outputNamelessValue_def outputNameAndHexValue_def outputNameAndValuePointedBy_def
  outputNameAndValueSharedBy_def outputContainer_def outputPtrContainer_def outputPairContainer_def outputPtrPairContainer_def
  outputName_def outputNull_def outputString_def outputCString_def outputAsCharLiteral_def outputAsHexEscapeSequence_def
  byteOutput_def put_byte_def put_def put_nat_def put_int_def put_bool_def put_ptr_def copy_flags_def new_ostringstream_def
  isprint_def decimal.simps digit_def c_str_def
  fixture_o_def fixture_c_def fixture_d_def fixture_dao_def noThrow_def doThrow_def test_exception_def

lemmas hex_run = hexadecimal.simps hex_digit_def

lemma DumpTestHelper_run: "DumpTestHelper_dump p os u = (Ok (os\<lparr>os_text := os_text os @
    DumpTestHelper_head @ os_text (put_ptr p new_ostringstream) @ [LF] @ ''blaa'' @ [LF, CHR ''}'', LF]\<rparr>), u)"
  by (simp add: DumpTestHelper_dump_def dump_object_def DUMP_BEGIN_def DUMP_END_def DumpTestHelper_head_def
      writes_def ret_def bnd_run put_def put_ptr_def new_ostringstream_def)

lemma hexadecimal_1: "hexadecimal up (Suc 0) = ''1''" "decimal (Suc 0) = ''1''"
  by (simp_all add: hexadecimal.simps hex_digit_def decimal.simps digit_def)

lemma DumpUtilsTest_dumpValueOfFundamental_passes: "passes_os DumpUtilsTest_dumpValueOfFundamental_Test"
  by (simp add: DumpUtilsTest_dumpValueOfFundamental_Test_def dump_run)

lemma DumpUtilsTest_dumpValueOfOutputable_passes: "passes_os DumpUtilsTest_dumpValueOfOutputable_Test"
  by (simp add: DumpUtilsTest_dumpValueOfOutputable_Test_def dump_run)

lemma DumpUtilsTest_dumpValueOfNonOutputable_passes: "passes_os DumpUtilsTest_dumpValueOfNonOutputable_Test"
  by (simp add: DumpUtilsTest_dumpValueOfNonOutputable_Test_def dump_run hex_run)

lemma DumpUtilsTest_dumpValueOfCppString_passes: "passes_os DumpUtilsTest_dumpValueOfCppString_Test"
  by (simp add: DumpUtilsTest_dumpValueOfCppString_Test_def dump_run)

lemma DumpUtilsTest_dumpValueOfCString_passes: "passes_os DumpUtilsTest_dumpValueOfCString_Test"
  by (simp add: DumpUtilsTest_dumpValueOfCString_Test_def dump_run)

lemma DumpUtilsTest_dumpAddressOfChar_passes: "0 < ch_addr \<Longrightarrow> passes_os (DumpUtilsTest_dumpAddressOfChar_Test ch_addr)"
  by (simp add: DumpUtilsTest_dumpAddressOfChar_Test_def DUMP_ADDRESS_OF_def DUMP_VALUE_OF_def outputNameAndValue_def
      passes_os_def dumps_run seq_run expect_run ret_def writes_def put_ptr_def put_def copy_flags_def
      new_ostringstream_def text_lines_def isxdigit_def c_str_def outputName_def matches_address_ptr)

lemma DumpUtilsTest_dumpHexValueOfFundamental_passes: "passes_os DumpUtilsTest_dumpHexValueOfFundamental_Test"
  by (simp add: DumpUtilsTest_dumpHexValueOfFundamental_Test_def dump_run hex_run)

lemma DumpUtilsTest_dumpValueOfDumpable_passes: "passes_os DumpUtilsTest_dumpValueOfDumpable_Test"
  by (simp add: DumpUtilsTest_dumpValueOfDumpable_Test_def dump_run)

lemma DumpUtilsTest_dumpValueOfDumpableAndOutputable_passes: "passes_os DumpUtilsTest_dumpValueOfDumpableAndOutputable_Test"
  by (simp add: DumpUtilsTest_dumpValueOfDumpableAndOutputable_Test_def dump_run)

lemma DumpUtilsTest_dumpAddressOf_passes: "passes_os (DumpUtilsTest_dumpAddressOf_Test i_addr)"
  by (simp add: DumpUtilsTest_dumpAddressOf_Test_def dump_run)

lemma DumpUtilsTest_dumpValuePointedByPtr_passes: "passes_os DumpUtilsTest_dumpValuePointedByPtr_Test"
  by (simp add: DumpUtilsTest_dumpValuePointedByPtr_Test_def dump_run)

lemma DumpUtilsTest_dumpValuePointedBySharedPtr_passes: "passes_os DumpUtilsTest_dumpValuePointedBySharedPtr_Test"
  by (simp add: DumpUtilsTest_dumpValuePointedBySharedPtr_Test_def dump_run)

lemma DumpUtilsTest_dumpValuePointedByWeakPtr_passes: "passes_os DumpUtilsTest_dumpValuePointedByWeakPtr_Test"
  by (simp add: DumpUtilsTest_dumpValuePointedByWeakPtr_Test_def dump_run)

lemma DumpUtilsTest_dumpValuePointedByDanlingWeakPtr_passes: "passes_os DumpUtilsTest_dumpValuePointedByDanlingWeakPtr_Test"
  by (simp add: DumpUtilsTest_dumpValuePointedByDanlingWeakPtr_Test_def dump_run)

lemma DumpUtilsTest_dumpValuePointedByUniquePtr_passes: "passes_os DumpUtilsTest_dumpValuePointedByUniquePtr_Test"
  by (simp add: DumpUtilsTest_dumpValuePointedByUniquePtr_Test_def dump_run)

lemma DumpUtilsTest_dumpValuePointedByNullPtr_passes: "passes_os DumpUtilsTest_dumpValuePointedByNullPtr_Test"
  by (simp add: DumpUtilsTest_dumpValuePointedByNullPtr_Test_def dump_run)

lemma DumpUtilsTest_dumpStdFunction_passes: "passes_os DumpUtilsTest_dumpStdFunction_Test"
  by (simp add: DumpUtilsTest_dumpStdFunction_Test_def dump_run)

lemma DumpUtilsTest_dumpValueOfSharedPtr_passes: "passes_os (DumpUtilsTest_dumpValueOfSharedPtr_Test p)"
  by (simp add: DumpUtilsTest_dumpValueOfSharedPtr_Test_def dump_run)

lemma DumpUtilsTest_dumpValueOfWeakPtr_passes: "passes_os (DumpUtilsTest_dumpValueOfWeakPtr_Test p)"
  by (simp add: DumpUtilsTest_dumpValueOfWeakPtr_Test_def dump_run)

lemma DumpUtilsTest_dumpValueOfDanglingWeakPtr_passes: "passes_os DumpUtilsTest_dumpValueOfDanglingWeakPtr_Test"
  by (simp add: DumpUtilsTest_dumpValueOfDanglingWeakPtr_Test_def dump_run)

lemma DumpUtilsTest_dumpValueOfUniquePtr_passes: "passes_os (DumpUtilsTest_dumpValueOfUniquePtr_Test p)"
  by (simp add: DumpUtilsTest_dumpValueOfUniquePtr_Test_def dump_run)

lemma DumpUtilsTest_dumpContainerOfFundamentals_passes: "passes_os DumpUtilsTest_dumpContainerOfFundamentals_Test"
  by (simp add: DumpUtilsTest_dumpContainerOfFundamentals_Test_def dump_run)

lemma DumpUtilsTest_dumpContainerOfDumpables_passes: "passes_os DumpUtilsTest_dumpContainerOfDumpables_Test"
  by (simp add: DumpUtilsTest_dumpContainerOfDumpables_Test_def dump_run)

lemma DumpUtilsTest_dumpContainerOfNonOutputable_passes: "passes_os DumpUtilsTest_dumpContainerOfNonOutputable_Test"
  by (simp add: DumpUtilsTest_dumpContainerOfNonOutputable_Test_def dump_run hex_run)

lemma DumpUtilsTest_dumpContainerOfPtrs_passes: "passes_os DumpUtilsTest_dumpContainerOfPtrs_Test"
  by (simp add: DumpUtilsTest_dumpContainerOfPtrs_Test_def dump_run)

lemma DumpUtilsTest_dumpPairContainer_passes: "passes_os DumpUtilsTest_dumpPairContainer_Test"
  by (simp add: DumpUtilsTest_dumpPairContainer_Test_def dump_run)

lemma DumpUtilsTest_dumpPairContainerOfDumpable_passes: "passes_os DumpUtilsTest_dumpPairContainerOfDumpable_Test"
  by (simp add: DumpUtilsTest_dumpPairContainerOfDumpable_Test_def dump_run)

lemma DumpUtilsTest_dumpPtrPairContainer_passes: "passes_os DumpUtilsTest_dumpPtrPairContainer_Test"
  by (simp add: DumpUtilsTest_dumpPtrPairContainer_Test_def dump_run)

lemma DumpUtilsTest_dumpSetBoostOptional_passes: "passes_os DumpUtilsTest_dumpSetBoostOptional_Test"
  by (simp add: DumpUtilsTest_dumpSetBoostOptional_Test_def dump_run)

lemma DumpUtilsTest_dumpUnsetBoostOptional_passes: "passes_os DumpUtilsTest_dumpUnsetBoostOptional_Test"
  by (simp add: DumpUtilsTest_dumpUnsetBoostOptional_Test_def dump_run)

lemma DumpUtilsTest_dumpSetBoostOptionalDumpable_passes: "passes_os DumpUtilsTest_dumpSetBoostOptionalDumpable_Test"
  by (simp add: DumpUtilsTest_dumpSetBoostOptionalDumpable_Test_def dump_run)

lemma dump_tuple: "os_hex os = False \<Longrightarrow> dumps (DUMP_VALUE_OF n (DTuple vs)) os = (Ok (), os\<lparr>os_text := os_text os @ c_str n @ '': ''
    @ os_text (fst (outputValue (DTuple vs) (copy_flags os new_ostringstream))) @ [LF]\<rparr>)"
  by (simp add: dumps_run DUMP_VALUE_OF_def writes_def ret_def outputNameAndValue_def outputName_def put_def)

lemma DumpUtilsTest_dumpTuple_passes: "passes_os DumpUtilsTest_dumpTuple_Test"
  unfolding DumpUtilsTest_dumpTuple_Test_def passes_os_def steps.simps
  by (simp add: dump_tuple seq_run new_ostringstream_def copy_flags_def EXPECT_STR_def expect_run ret_def text_lines_def c_str_def
      put_def put_int_def decimal.simps digit_def outputString_def outputAsCharLiteral_def isprint_def)

lemma DumpUtilsTest_dumpEnumWithoutOutputOperator_passes: "passes_os DumpUtilsTest_dumpEnumWithoutOutputOperator_Test"
  by (simp add: DumpUtilsTest_dumpEnumWithoutOutputOperator_Test_def dump_run)

lemma DumpUtilsTest_dumpEnumWithOutputOperator_passes: "passes_os DumpUtilsTest_dumpEnumWithOutputOperator_Test"
  by (simp add: DumpUtilsTest_dumpEnumWithOutputOperator_Test_def dump_run)

lemma DumpUtilsTest_dumpMaintainsStreamFlags_passes: "passes_os DumpUtilsTest_dumpMaintainsStreamFlags_Test"
  by (simp add: DumpUtilsTest_dumpMaintainsStreamFlags_Test_def dump_run)

lemma DumpUtilsTest_valuePointedBySharedPtrIncludesUseCount_passes: "0 < p \<Longrightarrow> passes_os (DumpUtilsTest_valuePointedBySharedPtrIncludesUseCount_Test p)"
  by (simp add: DumpUtilsTest_valuePointedBySharedPtrIncludesUseCount_Test_def outputNameAndValueSharedBy_def put_nat_def
      bnd_run dump_into_def DumpTestHelper_run hexadecimal_1
      passes_os_def dumps_run seq_run expect_run ret_def writes_def put_ptr_def put_def copy_flags_def
      new_ostringstream_def text_lines_def isxdigit_def c_str_def outputName_def matches_address_ptr)

lemma DumpUtilsTest_dumpResultOfWithOutException_passes: "passes_os DumpUtilsTest_dumpResultOfWithOutException_Test"
  by (simp add: DumpUtilsTest_dumpResultOfWithOutException_Test_def dump_run)

lemma DumpUtilsTest_dumpResultOfWithException_passes: "passes_os (DumpUtilsTest_dumpResultOfWithException_Test e)"
  by (simp add: DumpUtilsTest_dumpResultOfWithException_Test_def dump_run)

lemma DumpUtilsTest_outputEmptyString_passes: "passes_os DumpUtilsTest_outputEmptyString_Test"
  by (simp add: DumpUtilsTest_outputEmptyString_Test_def dump_run)

lemma DumpUtilsTest_outputPlainText_passes: "passes_os DumpUtilsTest_outputPlainText_Test"
  by (simp add: DumpUtilsTest_outputPlainText_Test_def dump_run)

lemma DumpUtilsTest_outputNilCharacter_passes: "passes_os DumpUtilsTest_outputNilCharacter_Test"
  by (simp add: DumpUtilsTest_outputNilCharacter_Test_def dump_run)

lemma DumpUtilsTest_outputSpecialCharacters_passes: "passes_os DumpUtilsTest_outputSpecialCharacters_Test"
  by (simp add: DumpUtilsTest_outputSpecialCharacters_Test_def dump_run)

lemma DumpUtilsTest_outputNonPrintableCharacter_passes: "passes_os DumpUtilsTest_outputNonPrintableCharacter_Test"
  by (simp add: DumpUtilsTest_outputNonPrintableCharacter_Test_def dump_run hex_run)

lemma DumpUtilsTest_outputCppString_passes: "passes_os DumpUtilsTest_outputCppString_Test"
  by (simp add: DumpUtilsTest_outputCppString_Test_def dump_run)

lemma DumpUtilsTest_outputCString_passes: "passes_os DumpUtilsTest_outputCString_Test"
  by (simp add: DumpUtilsTest_outputCString_Test_def dump_run)

lemma DumpUtilsTest_outputNullCString_passes: "passes_os DumpUtilsTest_outputNullCString_Test"
  by (simp add: DumpUtilsTest_outputNullCString_Test_def dump_run)

lemma Dump_dumpBeginAndEnd_passes: "0 < p \<Longrightarrow> passes_os (Dump_dumpBeginAndEnd_Test p)"
  by (simp add: Dump_dumpBeginAndEnd_Test_def passes_os_def dumps_run seq_run DumpTestHelper_run put_ptr_def put_def
      expect_run new_ostringstream_def text_lines_def isxdigit_def ret_def matches_address_ptr)

lemma Dump_dumpBlockBeginAndEnd_passes: "passes_os Dump_dumpBlockBeginAndEnd_Test"
  by (simp add: Dump_dumpBlockBeginAndEnd_Test_def dump_run)

lemma text_lines_Cons: "text_lines (l # ls) = l @ LF # text_lines ls"
  by (simp add: text_lines_def)

lemma df_write_text_lines:
  assumes "LF \<notin> set l"
  shows "df_write (text_lines (l # ls)) f = df_write (text_lines ls) (f\<lparr>df_level := df_level f + depth l, df_indentNext := True,
     df_target := df_target f @ (if df_indentNext f then indent_line (df_level f) l else l) @ [LF]\<rparr>)"
  using assms
  by (cases "df_indentNext f") (simp_all add: text_lines_Cons df_write_append df_write_first_line df_write_line df_char_def df_put_def)

lemma text_lines_Nil: "text_lines [] = []"
  by (simp add: text_lines_def)

lemmas df_run = passes_df_def seq_run ret_def df_puts_def modify_st_def EXPECT_TARGET_def expect_run new_ostringstream_def
  df_new_def text_lines_Nil df_write_text_lines indent_line_def depth_def brace_def

lemma DumpFormatter_simpleOutputIsNotFormatted_passes: "passes_df new_ostringstream DumpFormatter_simpleOutputIsNotFormatted_Test"
  by (simp add: DumpFormatter_simpleOutputIsNotFormatted_Test_def df_run df_write_line del: df_write.simps)

lemma DumpFormatter_indentationIncreasesWithOpenBraceAndDecreasesWithCloseBrace_passes:
  "passes_df new_ostringstream DumpFormatter_indentationIncreasesWithOpenBraceAndDecreasesWithCloseBrace_Test"
  by (simp add: DumpFormatter_indentationIncreasesWithOpenBraceAndDecreasesWithCloseBrace_Test_def df_run) (simp add: text_lines_def numeral_eq_Suc)

lemma DumpFormatter_emptyLinesAreNotIndented_passes: "passes_df new_ostringstream DumpFormatter_emptyLinesAreNotIndented_Test"
  by (simp add: DumpFormatter_emptyLinesAreNotIndented_Test_def df_run) (simp add: text_lines_def numeral_eq_Suc)

lemma DumpFormatter_formatterUsesFlagsFromTheOriginalTarget_passes:
  "target = new_ostringstream\<lparr>os_boolalpha := True\<rparr> \<Longrightarrow>
     passes_df target (DumpFormatter_formatterUsesFlagsFromTheOriginalTarget_Test target)"
  by (simp add: DumpFormatter_formatterUsesFlagsFromTheOriginalTarget_Test_def dump_run df_new_def df_char_def df_put_def indentIfNeeded_def)

lemma DumpCreator_dumpToStreamWritesTimestampAndDumpsAllGivenPointers_passes:
  "passes_os (DumpCreator_dumpToStreamWritesTimestampAndDumpsAllGivenPointers_Test pid time)"
  by (simp add: DumpCreator_dumpToStreamWritesTimestampAndDumpsAllGivenPointers_Test_def passes_os_def seq_run ret_def
      modify_st_def EXPECT_STR_def expect_run dumpToStream_def DumpableMock_dump_def text_lines_def df_new_def df_char_def
      df_put_def indentIfNeeded_def put_def put_nat_def new_ostringstream_def Let_def)

lemma DumpCreator_dumpToFileReturnsTrueOnSuccess_passes: "passes_os (DumpCreator_dumpToFileReturnsTrueOnSuccess_Test pid time)"
  by (simp add: DumpCreator_dumpToFileReturnsTrueOnSuccess_Test_def passes_os_def expect_run dumpToFile_def)

lemma DumpCreator_dumpToFileReturnsFalseOnFailure_passes: "passes_os (DumpCreator_dumpToFileReturnsFalseOnFailure_Test pid time)"
  by (simp add: DumpCreator_dumpToFileReturnsFalseOnFailure_Test_def passes_os_def expect_run dumpToFile_def)

end
