(* ===== verification/SocketAddressTest.thy ===== *)
theory SocketAddressTest
  imports SocketAddressProps UnitTest
begin

text \<open>
  The unit tests of \<open>src/tst/SocketAddressTest.cpp\<close> on the model: one definition per \<open>TEST\<close>, with the
  name the macro gives its class, and the theorem that it passes. Nothing in them changes an object
  a later line depends on but the one it is called on, so a test is the conjunction of its
  expectations; an exception where none is expected fails it. The tests rely on the resolver of the
  machine they run on. What they expect of it is \<open>test_host\<close>: numeric addresses and ports are taken as
  they are, \<open>ssh\<close> is port 22, \<open>localhost\<close> is the loopback address, and the invalid names are not found.
  \<open>test_host_exists\<close> gives a resolver of that kind.
\<close>

section \<open>Helpers\<close>

definition maxPath :: string where
  "maxPath = concat (replicate 10 ''1234567890'') @ ''1234567''"

definition tooLongPath :: string where
  "tooLongPath = concat (replicate 10 ''1234567890'') @ ''12345678''"

definition with_Ok :: "'a outcome \<Rightarrow> ('a \<Rightarrow> bool) \<Rightarrow> bool" where
  "with_Ok r f = (case r of Ok x \<Rightarrow> f x | _ \<Rightarrow> False)"

definition throws_translation :: "'a outcome \<Rightarrow> bool" where
  "throws_translation r = (case r of Throw (TranslationError _) \<Rightarrow> True | _ \<Rightarrow> False)"

text \<open>The accessors of the union.\<close>

definition getUnixAddress :: "socket_address \<Rightarrow> byte list" where
  "getUnixAddress a = field a 0 sizeof_sockaddr_un"

definition getIPv4Address :: "socket_address \<Rightarrow> byte list" where
  "getIPv4Address a = field a 0 sizeof_sockaddr_in"

definition getIPv6Address :: "socket_address \<Rightarrow> byte list" where
  "getIPv6Address a = field a 0 sizeof_sockaddr_in6"

definition sun_path_from :: "nat \<Rightarrow> socket_address \<Rightarrow> string" where
  "sun_path_from i a = c_str (map chr (field a (offsetof_sun_path + i) (sizeof_sun_path - i)))"

definition sun_path :: "socket_address \<Rightarrow> string" where
  "sun_path a = sun_path_from 0 a"

definition sin_addr :: "socket_address \<Rightarrow> byte list" where
  "sin_addr a = field a 4 4"

definition sin6_addr :: "socket_address \<Rightarrow> byte list" where
  "sin6_addr a = field a 8 16"

definition sin6_flowinfo :: "socket_address \<Rightarrow> nat" where
  "sin6_flowinfo a = le_nat (field a 4 4)"

definition sin6_scope_id :: "socket_address \<Rightarrow> 32 word" where
  "sin6_scope_id a = of_nat (le_nat (field a 24 4))"

definition EXPECT_EQ_SA :: "socket_address \<Rightarrow> socket_address \<Rightarrow> bool" where
  "EXPECT_EQ_SA sa1 sa2 \<longleftrightarrow> getFamily sa1 = getFamily sa2 \<and> usedSize sa1 = usedSize sa2
     \<and> getAvailableSize sa1 = getAvailableSize sa2
     \<and> memcmp (take (unat (getAvailableSize sa1)) (sa_bytes sa1)) (take (unat (getAvailableSize sa1)) (sa_bytes sa2)) = 0"

text \<open>The tests read and print through \<open>boost::lexical_cast\<close>, which uses the stream operators; it throws
  \<open>bad_lexical_cast\<close> (here \<open>None\<close>) when the stream failed or something is left in it.\<close>

definition lexical_cast_address :: "netdb \<Rightarrow> string \<Rightarrow> socket_address option outcome" where
  "lexical_cast_address N s = (case read_address N (stream_of s, new_address) of
       (Ok _, (i, sa)) \<Rightarrow> Ok (if in_fail i \<or> in_rest i \<noteq> [] then None else Some sa)
     | (r, _) \<Rightarrow> fail_as r)"

definition with_address :: "socket_address option outcome \<Rightarrow> (socket_address \<Rightarrow> bool) \<Rightarrow> bool" where
  "with_address r f = (case r of Ok (Some sa) \<Rightarrow> f sa | _ \<Rightarrow> False)"

subsection \<open>The host\<close>

definition test_addr6 :: "byte list" where
  "test_addr6 = [0x20, 0, 0, 0, 0, 0, 0, 0, 0, 0, 0, 0, 0, 0, 0, 1]"

definition link_addr6 :: "byte list" where
  "link_addr6 = [0xFE, 0x80, 0, 0, 0, 0, 0, 0, 0x50, 0x54, 0, 0xFF, 0xFE, 0x12, 0x34, 0x56]"

text \<open>What \<open>getaddrinfo\<close> writes: the structures, with the port in network order.\<close>

definition be_port :: "nat \<Rightarrow> byte list" where
  "be_port p = [of_nat (p div 256), of_nat p]"

definition sin_bytes :: "byte list \<Rightarrow> nat \<Rightarrow> byte list" where
  "sin_bytes a p = [2, 0] @ be_port p @ a @ replicate 8 0"

definition sin6_bytes :: "byte list \<Rightarrow> nat \<Rightarrow> nat \<Rightarrow> byte list" where
  "sin6_bytes a scope p = [10, 0] @ be_port p @ [0, 0, 0, 0] @ a @ le_bytes 4 scope"

definition hosts4 :: "(string \<times> byte list) list" where
  "hosts4 = [(''127.0.0.1'', [127, 0, 0, 1]), (''10.0.0.1'', [10, 0, 0, 1]), (''10.0.0.20'', [10, 0, 0, 20]),
     (''20.0.0.10'', [20, 0, 0, 10]), (''0.0.0.0'', [0, 0, 0, 0]), (''0.0.0.1'', [0, 0, 0, 1])]"

definition hosts6 :: "nat \<Rightarrow> (string \<times> byte list \<times> nat) list" where
  "hosts6 lo = [(''2000::1'', test_addr6, 0), (''::1'', replicate 15 0 @ [1], 0), (''::'', replicate 16 0, 0),
     (''fe80::5054:ff:fe12:3456%10'', link_addr6, 10), (''fe80::5054:ff:fe12:3456%lo'', link_addr6, lo),
     (''fe80::1%1'', [0xFE, 0x80] @ replicate 13 0 @ [1], 1), (''fe80::11%1'', [0xFE, 0x80] @ replicate 13 0 @ [0x11], 1),
     (''2001::123'', [0x20, 1] @ replicate 12 0 @ [1, 0x23], 0),
     (''10::20'', [0, 0x10] @ replicate 13 0 @ [0x20], 0), (''20::10'', [0, 0x20] @ replicate 13 0 @ [0x10], 0),
     (''1:0:0:0:0:0:0:0'', [0, 1] @ replicate 14 0, 0), (''0:1:0:0:0:0:0:0'', replicate 3 0 @ 1 # replicate 12 0, 0),
     (''0:0:1:0:0:0:0:0'', replicate 5 0 @ 1 # replicate 10 0, 0), (''0:0:0:1:0:0:0:0'', replicate 7 0 @ 1 # replicate 8 0, 0),
     (''0:0:0:0:1:0:0:0'', replicate 9 0 @ 1 # replicate 6 0, 0), (''0:0:0:0:0:1:0:0'', replicate 11 0 @ 1 # replicate 4 0, 0),
     (''0:0:0:0:0:0:1:0'', replicate 13 0 @ 1 # replicate 2 0, 0), (''0:0:0:0:0:0:0:1'', replicate 15 0 @ [1], 0)]"

definition services :: "(string \<times> nat) list" where
  "services = [(''ssh'', 22), (''22'', 22), (''450'', 450), (''9000'', 9000), (''0'', 0)]"

definition unknown_names :: "(int \<times> string \<times> string) list" where
  "unknown_names = [(AF_INET, ''nosuchname.invalid'', ''nosuchservice''), (AF_INET6, ''nosuchname.invalid'', ''nosuchservice''),
     (AF_INET, ''localhost'', ''nosuchprotocol''), (AF_INET6, ''localhost'', ''nosuchprotocol''),
     (AF_INET6, ''::1'', ''nosuchprotocol''), (AF_INET6, ''[]'', ''1'')]"

definition finds_hosts :: "netdb \<Rightarrow> nat \<Rightarrow> bool" where
  "finds_hosts N lo \<longleftrightarrow>
     (\<forall>h a s p f. map_of hosts4 h = Some a \<longrightarrow> map_of services s = Some p \<longrightarrow> f \<in> {AF_INET, AF_UNSPEC} \<longrightarrow>
        getaddrinfo N 0 f h s = Inr (sin_bytes a p))
   \<and> (\<forall>h a p f. map_of hosts4 h = Some a \<longrightarrow> p < 2 ^ 16 \<longrightarrow> f \<in> {AF_INET, AF_UNSPEC} \<longrightarrow>
        getaddrinfo N AI_NUMERICSERV f h (decimal p) = Inr (sin_bytes a p))
   \<and> (\<forall>h a sc s p f. map_of (hosts6 lo) h = Some (a, sc) \<longrightarrow> map_of services s = Some p \<longrightarrow> f \<in> {AF_INET6, AF_UNSPEC} \<longrightarrow>
        getaddrinfo N 0 f h s = Inr (sin6_bytes a sc p))
   \<and> (\<forall>h a sc p f. map_of (hosts6 lo) h = Some (a, sc) \<longrightarrow> p < 2 ^ 16 \<longrightarrow> f \<in> {AF_INET6, AF_UNSPEC} \<longrightarrow>
        getaddrinfo N AI_NUMERICSERV f h (decimal p) = Inr (sin6_bytes a sc p))
   \<and> getaddrinfo N 0 AF_INET ''localhost'' ''ssh'' = Inr (sin_bytes [127, 0, 0, 1] 22)
   \<and> getaddrinfo N 0 AF_INET6 ''ip6-localhost'' ''ssh'' = Inr (sin6_bytes (replicate 15 0 @ [1]) 0 22)"

definition rejects_names :: "netdb \<Rightarrow> bool" where
  "rejects_names N \<longleftrightarrow> list_all (\<lambda>(f, h, s). isl (getaddrinfo N 0 f h s)) unknown_names"

definition finds_services :: "netdb \<Rightarrow> bool" where
  "finds_services N \<longleftrightarrow> lexical_cast_uint16 N ''ssh'' = None \<and> lexical_cast_uint16 N ''nosuchservice'' = None
     \<and> lexical_cast_uint16 N ''9000'' = Some 9000
     \<and> getservbyname N ''ssh'' = (0, Some (htons 22)) \<and> getservbyname N ''nosuchservice'' = (0, None)"

definition prints_hosts :: "netdb \<Rightarrow> bool" where
  "prints_hosts N \<longleftrightarrow> (\<forall>p. lexical_cast_string N p = decimal (unat p))
     \<and> inet_ntop N AF_INET [10, 0, 0, 1] = Some ''10.0.0.1''
     \<and> inet_ntop N AF_INET6 ([0x20, 1] @ replicate 12 0 @ [1, 0x23]) = Some ''2001::123''
     \<and> inet_ntop N AF_INET6 link_addr6 = Some ''fe80::5054:ff:fe12:3456''"

definition test_host :: "netdb \<Rightarrow> nat \<Rightarrow> bool" where
  "test_host N lo \<longleftrightarrow> 0 < lo \<and> lo < 2 ^ 32 \<and> finds_hosts N lo \<and> rejects_names N \<and> finds_services N \<and> prints_hosts N"

subsection \<open>Evaluation\<close>

definition ip4 :: "byte list \<Rightarrow> nat \<Rightarrow> socket_address" where
  "ip4 a p = \<lparr>sa_bytes = [2, 0] @ be_port p @ a @ replicate 104 0, usedSize = 16\<rparr>"

definition ip6 :: "byte list \<Rightarrow> nat \<Rightarrow> nat \<Rightarrow> socket_address" where
  "ip6 a scope p = \<lparr>sa_bytes = [10, 0] @ be_port p @ [0, 0, 0, 0] @ a @ le_bytes 4 scope @ replicate 84 0, usedSize = 28\<rparr>"

lemma filled4: "length a = 4 \<Longrightarrow> filled_with (sin_bytes a p) = ip4 a p"
  using poke_zeros [where pre = "[]" and k = 0 and bs = "sin_bytes a p" and n = sizeof_SAUnion and u = 0]
  by (simp add: filled_with_def new_address_def sin_bytes_def ip4_def sizeof_SAUnion_def be_port_def replicate_add [of 8 96, symmetric])

lemma filled6: "length a = 16 \<Longrightarrow> filled_with (sin6_bytes a sc p) = ip6 a sc p"
  using poke_zeros [where pre = "[]" and k = 0 and bs = "sin6_bytes a sc p" and n = sizeof_SAUnion and u = 0]
  by (simp add: filled_with_def new_address_def sin6_bytes_def ip6_def sizeof_SAUnion_def be_port_def)

lemma hosts4_length: "map_of hosts4 h = Some a \<Longrightarrow> length a = 4"
  by (auto simp: hosts4_def split: if_splits)

lemma hosts6_length: "map_of (hosts6 lo) h = Some (a, sc) \<Longrightarrow> length a = 16"
  by (auto simp: hosts6_def test_addr6_def link_addr6_def split: if_splits)

lemma services_plain: "map_of services s = Some p \<Longrightarrow> c_str s = s"
  by (auto simp: services_def split: if_splits)

lemma hosts4_plain: "map_of hosts4 h = Some a \<Longrightarrow> c_str h = h"
  by (auto simp: hosts4_def split: if_splits)

lemma hosts6_plain: "map_of (hosts6 lo) h = Some a \<Longrightarrow> c_str h = h"
  by (auto simp: hosts6_def split: if_splits)

lemmas host_plain = services_plain hosts4_plain hosts6_plain decimal_plain(3)

lemma unat_ntohs: "unat (ntohs p) < 2 ^ 16"
  using unsigned_less [of "ntohs p", where ?'a = nat] by simp

lemmas resolve_simps = test_host_def finds_hosts_def prints_hosts_def getAddrInfoWithService_def getAddrInfoWithPort_def
  getAddrInfoImpl_def and_then_def filled4 filled6 unat_ntohs

lemma found4:
  assumes "test_host N lo" and "map_of hosts4 h = Some a"
  shows "map_of services s = Some p \<Longrightarrow> createIPv4 N h s = Ok (ip4 a p)"
    "map_of services s = Some p \<Longrightarrow> createIPv4OrIPv6 N h s = Ok (ip4 a p)"
    "createIPv4_port N h port = Ok (ip4 a (unat (ntohs port)))"
    "createIPv4OrIPv6_port N h port = Ok (ip4 a (unat (ntohs port)))"
  using assms hosts4_length [OF assms(2)] hosts4_plain [OF assms(2)] services_plain [of s p] decimal_plain(3) unat_ntohs [of port]
  by (simp_all add: resolve_simps createIPv4_def createIPv4_port_def createIPv4OrIPv6_def createIPv4OrIPv6_port_def)

lemma found6:
  assumes "test_host N lo" and "map_of (hosts6 lo) h = Some (a, sc)"
  shows "map_of services s = Some p \<Longrightarrow> createIPv6 N h s = Ok (ip6 a sc p)"
    "map_of services s = Some p \<Longrightarrow> createIPv4OrIPv6 N h s = Ok (ip6 a sc p)"
    "createIPv6_port N h port = Ok (ip6 a sc (unat (ntohs port)))"
    "createIPv4OrIPv6_port N h port = Ok (ip6 a sc (unat (ntohs port)))"
  using assms hosts6_length [OF assms(2)] hosts6_plain [OF assms(2)] services_plain [of s p] decimal_plain(3) unat_ntohs [of port]
  by (simp_all add: resolve_simps createIPv6_def createIPv6_port_def createIPv4OrIPv6_def createIPv4OrIPv6_port_def)

lemma found_names:
  assumes "test_host N lo"
  shows "createIPv4 N ''localhost'' ''ssh'' = Ok (ip4 [127, 0, 0, 1] 22)"
    "createIPv6 N ''ip6-localhost'' ''ssh'' = Ok (ip6 (replicate 15 0 @ [1]) 0 22)"
    "getServByName N ''ssh'' = Ok (htons 22)" "getServByName N ''9000'' = Ok (htons 9000)"
    "throws_translation (getServByName N ''nosuchservice'')"
  using assms by (simp_all add: resolve_simps createIPv4_def createIPv6_def finds_services_def getServByName_def throws_translation_def)

lemma unknown:
  assumes "test_host N lo"
  shows "(AF_INET, h, s) \<in> set unknown_names \<Longrightarrow> \<exists>e. createIPv4 N h s = Throw (TranslationError e)"
    "(AF_INET6, h, s) \<in> set unknown_names \<Longrightarrow> \<exists>e. createIPv6 N h s = Throw (TranslationError e)"
proof -
  have plain: "c_str h = h \<and> c_str s = s" if "(f, h, s) \<in> set unknown_names" for f
    using that by (auto simp: unknown_names_def)
  have lost: "isl (getaddrinfo N 0 f h s)" if "(f, h, s) \<in> set unknown_names" for f
    using that assms by (auto simp: test_host_def rejects_names_def list_all_iff)
  show "\<exists>e. createIPv4 N h s = Throw (TranslationError e)" if u: "(AF_INET, h, s) \<in> set unknown_names"
    using lost [OF u] plain [OF u] by (auto simp: resolve_simps createIPv4_def isl_def)
  show "\<exists>e. createIPv6 N h s = Throw (TranslationError e)" if u: "(AF_INET6, h, s) \<in> set unknown_names"
    using lost [OF u] plain [OF u] by (auto simp: resolve_simps createIPv6_def isl_def)
qed

lemma unknown_throws:
  assumes "test_host N lo"
  shows "(AF_INET, h, s) \<in> set unknown_names \<Longrightarrow> throws_translation (createIPv4 N h s)"
    "(AF_INET6, h, s) \<in> set unknown_names \<Longrightarrow> throws_translation (createIPv6 N h s)"
  using unknown [OF assms, of h s] by (auto simp: throws_translation_def)

definition caught :: "'a option outcome \<Rightarrow> 'a option outcome" where
  "caught r = (case r of Throw (TranslationError _) \<Rightarrow> Ok None | _ \<Rightarrow> r)"

lemma lexical_cast_word:
  assumes "w \<noteq> []" and "list_all (\<lambda>c. \<not> is_space c) w"
  shows "lexical_cast_address N w = caught (input_address N w)"
proof -
  have "read_word (stream_of w) = (w, \<lparr>in_rest = [], in_eof = True, in_fail = False, in_bad = False\<rparr>)"
    using assms read_word_next [of w "[]"] by (simp add: list_all_iff)
  then have read: "read_address N (stream_of w, new_address) = (let i' = \<lparr>in_rest = [], in_eof = True, in_fail = False, in_bad = False\<rparr>
      in case input_address N w of Ok (Some a) \<Rightarrow> (Ok (), (i', a)) | Ok None \<Rightarrow> (Ok (), (clear_failbit i', new_address))
       | Throw (TranslationError _) \<Rightarrow> (Ok (), (clear_failbit i', new_address)) | r \<Rightarrow> (fail_as r, (i', new_address)))"
    by (simp add: read_address_def Let_def)
  show ?thesis
  proof (cases "input_address N w")
    case (Ok a)
    then show ?thesis by (cases a) (simp_all add: caught_def lexical_cast_address_def read clear_failbit_def)
  next
    case (Throw e)
    then show ?thesis by (cases e) (simp_all add: caught_def lexical_cast_address_def read clear_failbit_def)
  qed (simp_all add: caught_def lexical_cast_address_def read)
qed

lemma memcmp_same [simp]: "memcmp xs xs = 0"
  by (induction xs) simp_all

lemma EXPECT_EQ_SA_same [simp]: "EXPECT_EQ_SA a a"
  by (simp add: EXPECT_EQ_SA_def)

lemma field_eq: "sa_bytes a = xs @ ys @ zs \<Longrightarrow> length xs = i \<Longrightarrow> length ys = n \<Longrightarrow> field a i n = ys"
  by (simp add: field_def)

lemma ip4_field:
  assumes "length a = 4"
  shows "field (ip4 a p) 0 2 = [2, 0]" "field (ip4 a p) 2 2 = be_port p" "field (ip4 a p) 4 4 = a"
proof -
  show "field (ip4 a p) 0 2 = [2, 0]"
    by (rule field_eq [where xs = "[]" and zs = "be_port p @ a @ replicate 104 0"]) (simp_all add: ip4_def)
  show "field (ip4 a p) 2 2 = be_port p"
    by (rule field_eq [where xs = "[2, 0]" and zs = "a @ replicate 104 0"]) (simp_all add: ip4_def be_port_def)
  show "field (ip4 a p) 4 4 = a"
    by (rule field_eq [where xs = "[2, 0] @ be_port p" and zs = "replicate 104 0"]) (simp_all add: ip4_def be_port_def assms)
qed

lemma ip6_field:
  assumes "length a = 16"
  shows "field (ip6 a sc p) 0 2 = [10, 0]" "field (ip6 a sc p) 2 2 = be_port p" "field (ip6 a sc p) 4 4 = [0, 0, 0, 0]"
    "field (ip6 a sc p) 8 16 = a" "field (ip6 a sc p) 24 4 = le_bytes 4 sc"
proof -
  let ?s = "le_bytes 4 sc @ replicate 84 0"
  show "field (ip6 a sc p) 0 2 = [10, 0]"
    by (rule field_eq [where xs = "[]" and zs = "be_port p @ [0, 0, 0, 0] @ a @ ?s"]) (simp_all add: ip6_def)
  show "field (ip6 a sc p) 2 2 = be_port p"
    by (rule field_eq [where xs = "[10, 0]" and zs = "[0, 0, 0, 0] @ a @ ?s"]) (simp_all add: ip6_def be_port_def)
  show "field (ip6 a sc p) 4 4 = [0, 0, 0, 0]"
    by (rule field_eq [where xs = "[10, 0] @ be_port p" and zs = "a @ ?s"]) (simp_all add: ip6_def be_port_def)
  show "field (ip6 a sc p) 8 16 = a"
    by (rule field_eq [where xs = "[10, 0] @ be_port p @ [0, 0, 0, 0]" and zs = ?s]) (simp_all add: ip6_def be_port_def assms)
  show "field (ip6 a sc p) 24 4 = le_bytes 4 sc"
    by (rule field_eq [where xs = "[10, 0] @ be_port p @ [0, 0, 0, 0] @ a" and zs = "replicate 84 0"])
      (simp_all add: ip6_def be_port_def assms)
qed

lemma ip4_fields:
  assumes "length a = 4"
  shows "getFamily (ip4 a p) = AF_INET" "usedSize (ip4 a p) = 16" "sin_addr (ip4 a p) = a"
    "getIPPort (ip4 a p) = of_nat (le_nat (be_port p))"
  using ip4_field [OF assms, of p]
  by (simp_all add: getFamily_def AF_INET_def sin_addr_def getIPPort_def) (simp add: ip4_def)

lemma ip6_fields:
  assumes "length a = 16"
  shows "getFamily (ip6 a sc p) = AF_INET6" "usedSize (ip6 a sc p) = 28" "sin6_addr (ip6 a sc p) = a"
    "getIPPort (ip6 a sc p) = of_nat (le_nat (be_port p))" "sin6_flowinfo (ip6 a sc p) = 0"
    "sc < 2 ^ 32 \<Longrightarrow> sin6_scope_id (ip6 a sc p) = of_nat sc"
  using ip6_field [OF assms, of sc p]
  by (simp_all add: getFamily_def AF_INET6_def sin6_addr_def getIPPort_def sin6_flowinfo_def sin6_scope_id_def le_nat_le_bytes)
    (simp add: ip6_def)

lemma unat_16: "n < 2 ^ 16 \<Longrightarrow> unat (of_nat n :: 16 word) = n"
  by (simp add: unat_of_nat)

lemma byte_mod: "n mod 256 = m mod 256 \<Longrightarrow> (of_nat n :: byte) = of_nat m"
  by (simp add: word_unat_eq_iff unat_of_nat)

lemma le_nat_be_port: "p < 2 ^ 16 \<Longrightarrow> le_nat (be_port p) = p div 256 + 256 * (p mod 256)"
  by (simp add: be_port_def unat_of_nat)

lemma swapped_bytes:
  fixes p n :: nat
  assumes "p < 2 ^ 16" and "n = p div 256 + 256 * (p mod 256)"
  shows "n < 2 ^ 16" "n mod 256 = p div 256" "n div 256 = p mod 256" "p div 256 < 256"
    "(of_nat n :: byte) = of_nat (p div 256)" "(of_nat (n div 256) :: byte) = of_nat p"
proof -
  show d: "p div 256 < 256" using assms(1) by (simp add: less_mult_imp_div_less)
  have "p mod 256 < 256" by simp
  moreover have "(2::nat) ^ 16 = 65536" by simp
  ultimately show "n < 2 ^ 16" using d assms(2) by linarith
  show "n mod 256 = p div 256" "n div 256 = p mod 256" using d assms(2) by simp_all
  then show "(of_nat n :: byte) = of_nat (p div 256)" "(of_nat (n div 256) :: byte) = of_nat p"
    using d by (intro byte_mod; simp)+
qed

lemma le_bytes_be_port:
  assumes "p < 2 ^ 16"
  shows "le_bytes 2 (unat (of_nat (le_nat (be_port p)) :: 16 word)) = be_port p"
proof -
  obtain n where n: "n = p div 256 + 256 * (p mod 256)" by simp
  note s = swapped_bytes [OF assms n]
  have "unat (of_nat (le_nat (be_port p)) :: 16 word) = n"
    using unat_16 [OF s(1)] n le_nat_be_port [OF assms] by metis
  then show ?thesis using s(5,6) by (simp only: le_bytes_2 be_port_def)
qed

lemma ntohs_swap: "ntohs p = of_nat (unat p div 256 + 256 * (unat p mod 256))"
  by (simp add: ntohs_def mult.commute add.commute)

lemma unat_word16: "unat (p :: 16 word) < 2 ^ 16"
  using unsigned_less [of p, where ?'a = nat] by simp

lemma htons_be_port: "p < 2 ^ 16 \<Longrightarrow> of_nat (le_nat (be_port p)) = htons (of_nat p)"
  by (simp only: le_nat_be_port htons_def ntohs_swap unat_16)

lemma be_port_ntohs: "be_port (unat (ntohs p)) = le_bytes 2 (unat p)"
proof -
  obtain n where n: "n = unat p div 256 + 256 * (unat p mod 256)" by simp
  note s = swapped_bytes [OF unat_word16 n]
  have "unat (ntohs p) = n" using unat_16 [OF s(1)] n ntohs_swap by metis
  then show ?thesis using s by (simp only: be_port_def le_bytes_2)
qed

lemma ip4_of_in_addr:
  assumes "length a = 4" and "p < 2 ^ 16"
  shows "of_in_addr a (of_nat (le_nat (be_port p))) = ip4 a p"
  using assms by (simp add: of_in_addr_eq le_bytes_be_port ip4_def)

lemma ip6_of_in6_addr:
  assumes "length a = 16" and "p < 2 ^ 16" and "sc < 2 ^ 32"
  shows "of_in6_addr_scope a (of_nat sc) (of_nat (le_nat (be_port p))) = ip6 a sc p"
  using assms by (simp add: of_in6_addr_scope_eq le_bytes_be_port ip6_def)

lemma ntohs_ntohs [simp]: "ntohs (ntohs p) = p" "ntohs (htons p) = p"
proof -
  obtain n where n: "n = unat p div 256 + 256 * (unat p mod 256)" by simp
  note s = swapped_bytes [OF unat_word16 n]
  have "unat (ntohs p) = n" using unat_16 [OF s(1)] n ntohs_swap by metis
  then have "ntohs (ntohs p) = of_nat (unat p mod 256 + 256 * (unat p div 256))"
    using s ntohs_swap [of "ntohs p"] by simp
  also have "unat p mod 256 + 256 * (unat p div 256) = unat p" by simp
  finally show "ntohs (ntohs p) = p" "ntohs (htons p) = p" by (simp_all add: htons_def)
qed

text \<open>Rules for the addresses of the tests; \<open>found4\<close> and the like in a form the simplifier can use.\<close>

lemma host4_run:
  assumes "test_host N lo"
  shows "map_of hosts4 h \<noteq> None \<Longrightarrow> map_of services s \<noteq> None \<Longrightarrow> createIPv4 N h s = Ok (ip4 (the (map_of hosts4 h)) (the (map_of services s)))"
    "map_of hosts4 h \<noteq> None \<Longrightarrow> map_of services s \<noteq> None \<Longrightarrow> createIPv4OrIPv6 N h s = Ok (ip4 (the (map_of hosts4 h)) (the (map_of services s)))"
    "map_of hosts4 h \<noteq> None \<Longrightarrow> createIPv4_port N h port = Ok (ip4 (the (map_of hosts4 h)) (unat (ntohs port)))"
    "map_of hosts4 h \<noteq> None \<Longrightarrow> createIPv4OrIPv6_port N h port = Ok (ip4 (the (map_of hosts4 h)) (unat (ntohs port)))"
  using found4 [OF assms] by auto

lemma host6_run:
  assumes "test_host N lo"
  shows "map_of (hosts6 lo) h \<noteq> None \<Longrightarrow> map_of services s \<noteq> None \<Longrightarrow> createIPv6 N h s
      = Ok (ip6 (fst (the (map_of (hosts6 lo) h))) (snd (the (map_of (hosts6 lo) h))) (the (map_of services s)))"
    "map_of (hosts6 lo) h \<noteq> None \<Longrightarrow> map_of services s \<noteq> None \<Longrightarrow> createIPv4OrIPv6 N h s
      = Ok (ip6 (fst (the (map_of (hosts6 lo) h))) (snd (the (map_of (hosts6 lo) h))) (the (map_of services s)))"
    "map_of (hosts6 lo) h \<noteq> None \<Longrightarrow> createIPv6_port N h port
      = Ok (ip6 (fst (the (map_of (hosts6 lo) h))) (snd (the (map_of (hosts6 lo) h))) (unat (ntohs port)))"
    "map_of (hosts6 lo) h \<noteq> None \<Longrightarrow> createIPv4OrIPv6_port N h port
      = Ok (ip6 (fst (the (map_of (hosts6 lo) h))) (snd (the (map_of (hosts6 lo) h))) (unat (ntohs port)))"
  using found6 [OF assms] by auto

lemma unknown_caught:
  assumes "test_host N lo"
  shows "(AF_INET, h, s) \<in> set unknown_names \<Longrightarrow> caught (and_then (createIPv4 N h s) f) = Ok None"
    "(AF_INET6, h, s) \<in> set unknown_names \<Longrightarrow> caught (and_then (createIPv6 N h s) f) = Ok None"
  using unknown [OF assms, of h s] by (auto simp: caught_def and_then_def)

lemma nosuchservice:
  assumes "test_host N lo"
  shows "throws_translation (and_then (getServByName N ''nosuchservice'') f)"
  using found_names(5) [OF assms]
  by (cases "getServByName N ''nosuchservice''") (auto simp: throws_translation_def and_then_def split: exn.splits)

lemma port_of_service:
  "length a = 4 \<Longrightarrow> getIPPort (ip4 a (numeral k)) = (if (numeral k :: nat) < 65536 then htons (numeral k) else of_nat (le_nat (be_port (numeral k))))"
  "length b = 16 \<Longrightarrow> getIPPort (ip6 b sc (numeral k)) = (if (numeral k :: nat) < 65536 then htons (numeral k) else of_nat (le_nat (be_port (numeral k))))"
  using htons_be_port [of "numeral k"] by (simp_all add: ip4_fields ip6_fields)

lemma port_of_number:
  "length a = 4 \<Longrightarrow> getIPPort (ip4 a (unat (ntohs p))) = p"
  "length b = 16 \<Longrightarrow> getIPPort (ip6 b sc (unat (ntohs p))) = p"
proof -
  have "(of_nat (unat p mod 65536) :: 16 word) = p" using unat_word16 [of p] by simp
  then show "length a = 4 \<Longrightarrow> getIPPort (ip4 a (unat (ntohs p))) = p" "length b = 16 \<Longrightarrow> getIPPort (ip6 b sc (unat (ntohs p))) = p"
    by (simp_all add: ip4_fields ip6_fields be_port_ntohs le_nat_le_bytes)
qed

lemma of_parts:
  "length a = 4 \<Longrightarrow> of_in_addr a q = ip4 a (unat (ntohs q))"
  "length b = 16 \<Longrightarrow> of_in6_addr_scope b sc q = ip6 b (unat sc) (unat (ntohs q))"
  by (simp_all add: of_in_addr_eq of_in6_addr_scope_eq ip4_def ip6_def be_port_ntohs)

lemma of_structs:
  "length a = 4 \<Longrightarrow> of_sockaddr_in (getIPv4Address (ip4 a p)) = ip4 a p"
  "length b = 16 \<Longrightarrow> of_sockaddr_in6 (getIPv6Address (ip6 b sc p)) = ip6 b sc p"
proof -
  show "of_sockaddr_in (getIPv4Address (ip4 a p)) = ip4 a p" if l: "length a = 4"
  proof -
    have "getIPv4Address (ip4 a p) = [2, 0] @ be_port p @ a @ replicate 8 0"
      unfolding getIPv4Address_def
      by (rule field_eq [where xs = "[]" and zs = "replicate 96 0"])
        (simp_all add: ip4_def be_port_def l sizeof_sockaddr_in_def flip: replicate_add)
    then show ?thesis
      using l by (simp add: of_sockaddr_in_def memCopy_def address_sizes ip4_def be_port_def Let_def flip: replicate_add)
  qed
  show "of_sockaddr_in6 (getIPv6Address (ip6 b sc p)) = ip6 b sc p" if l: "length b = 16"
  proof -
    have "getIPv6Address (ip6 b sc p) = [10, 0] @ be_port p @ [0, 0, 0, 0] @ b @ le_bytes 4 sc"
      unfolding getIPv6Address_def
      by (rule field_eq [where xs = "[]" and zs = "replicate 84 0"])
        (simp_all add: ip6_def be_port_def l sizeof_sockaddr_in6_def)
    then show ?thesis
      using l by (simp add: of_sockaddr_in6_def memCopy_def address_sizes ip6_def be_port_def Let_def)
  qed
qed

lemma available:
  "length a = 4 \<Longrightarrow> getAvailableSize (ip4 a p) = 16" "length b = 16 \<Longrightarrow> getAvailableSize (ip6 b sc p) = 28"
  by (simp_all add: getAvailableSize_def ip4_fields ip6_fields address_families address_sizes)

lemma is_any:
  "length a = 4 \<Longrightarrow> isAny (ip4 a p) \<longleftrightarrow> le_nat (be_port p) = 0 \<and> le_nat a = 0"
  by (simp add: isAny_def ip4_fields ip4_field address_families)

lemma ip6_word:
  assumes "length b = 16" and "i + n \<le> 16"
  shows "field (ip6 b sc p) (8 + i) n = take n (drop i b)"
proof (rule field_eq [where xs = "[10, 0] @ be_port p @ [0, 0, 0, 0] @ take i b" and zs = "drop n (drop i b) @ le_bytes 4 sc @ replicate 84 0"])
  have "b = take i b @ take n (drop i b) @ drop n (drop i b)" by (metis append_take_drop_id)
  then show "sa_bytes (ip6 b sc p) = ([10, 0] @ be_port p @ [0, 0, 0, 0] @ take i b) @ take n (drop i b)
      @ drop n (drop i b) @ le_bytes 4 sc @ replicate 84 0"
    unfolding ip6_def by (metis append.assoc socket_address.select_convs(1))
qed (use assms in \<open>simp_all add: be_port_def\<close>)

lemma is_any6:
  assumes "length b = 16"
  shows "isAny (ip6 b sc p) \<longleftrightarrow> le_nat (be_port p) = 0 \<and> le_nat (take 4 b) = 0 \<and> le_nat (take 4 (drop 4 b)) = 0
    \<and> le_nat (take 4 (drop 8 b)) = 0 \<and> le_nat (take 4 (drop 12 b)) = 0"
  using ip6_word [OF assms, of 0 4 sc p] ip6_word [OF assms, of 4 4 sc p] ip6_word [OF assms, of 8 4 sc p] ip6_word [OF assms, of 12 4 sc p]
  by (simp add: isAny_def ip6_fields ip6_field address_families assms)

lemma print_ip:
  "length a = 4 \<Longrightarrow> print_address N (ip4 a p) = Ok (''ipv4:'' @ output_ip N AF_INET a @ '':'' @ decimal (unat (ntohs (getIPPort (ip4 a p)))))"
  "length b = 16 \<Longrightarrow> sc < 2 ^ 32 \<Longrightarrow> print_address N (ip6 b sc p) = Ok (''ipv6:['' @ output_ip N AF_INET6 b
     @ (if sc \<noteq> 0 then CHR ''%'' # decimal sc else []) @ '']:'' @ decimal (unat (ntohs (getIPPort (ip6 b sc p)))))"
  by (simp_all add: print_address_def ip4_fields ip6_fields ip4_field ip6_field address_families outputIPv4_def outputIPv6_def le_nat_le_bytes)

lemma with_Ok_print:
  "p \<noteq> [] \<Longrightarrow> NUL \<notin> set p \<Longrightarrow> length p < 108 \<Longrightarrow> with_Ok (createUnix p) (\<lambda>sa. print_address N sa = Ok (''unix:'' @ p))"
  "p \<noteq> [] \<Longrightarrow> NUL \<notin> set p \<Longrightarrow> length p < 108 \<Longrightarrow> with_Ok (createAbstractUnix p) (\<lambda>sa. print_address N sa = Ok (''unix:@'' @ p))"
  using print_createUnix [of p N] print_createAbstractUnix [of p N] by (auto simp: with_Ok_def)

lemma path_facts: "maxPath \<noteq> []" "NUL \<notin> set maxPath" "length maxPath = 107" "length tooLongPath = 108"
  by (simp_all add: maxPath_def tooLongPath_def numeral_eq_Suc)

lemma new_address_fields: "getFamily new_address = AF_UNSPEC" "usedSize new_address = 0"
  by (simp_all add: new_address_def sizeof_SAUnion_def replicate_peel [of 112] replicate_peel [of 111] AF_UNSPEC_def)

lemma any_addresses: "createIPv4Any = ip4 (replicate 4 0) 0" "createIPv6Any = ip6 (replicate 16 0) 0 0"
proof -
  have le: "le_bytes n 0 = replicate n 0" for n by (induction n) simp_all
  have z2: "be_port 0 = replicate 2 0" by (simp add: be_port_def numeral_2_eq_2)
  have z4: "[0, 0, 0, 0] = replicate 4 (0 :: byte)" by (simp add: numeral_eq_Suc)
  have f: "le_bytes 2 (nat AF_INET) = [2, 0]" "le_bytes 2 (nat AF_INET6) = [10, 0]"
    by (simp_all add: le_bytes_2 AF_INET_def AF_INET6_def)
  show "createIPv4Any = ip4 (replicate 4 0) 0"
    unfolding createIPv4Any_def ip4_def f z2
    by (simp add: of_sockaddr_in_def memCopy_def address_sizes Let_def flip: replicate_add)
  show "createIPv6Any = ip6 (replicate 16 0) 0 0"
    unfolding createIPv6Any_def ip6_def f z2 z4 le
    by (simp add: of_sockaddr_in6_def memCopy_def address_sizes Let_def flip: replicate_add)
qed

lemma unix_fields:
  "getFamily \<lparr>sa_bytes = 1 # 0 # bs, usedSize = n\<rparr> = AF_UNIX"
  "getAvailableSize \<lparr>sa_bytes = 1 # 0 # bs, usedSize = n\<rparr> = 110"
  by (simp_all add: AF_UNIX_def getAvailableSize_def AF_INET_def sizeof_sockaddr_un_def)

lemma sun_path_record: "sun_path_from i \<lparr>sa_bytes = x # y # bs, usedSize = n\<rparr> = c_str (map chr (take (108 - i) (drop i bs)))"
  by (simp add: sun_path_from_def field_def address_sizes)

lemma with_Ok_simps [simp]: "with_Ok (Ok x) f = f x" "with_address (Ok (Some a)) g = g a"
  by (simp_all add: with_Ok_def with_address_def)

lemma caught_simps [simp]: "caught (Ok x) = Ok x" "and_then (Ok y) f = f y"
  by (simp_all add: caught_def and_then_def)

lemma too_long: "createUnix tooLongPath = Throw TooLongUnixSocketPath" "createAbstractUnix tooLongPath = Throw TooLongUnixSocketPath"
  using path_facts by (simp_all add: createUnix_def createAbstractUnix_def sizeof_sun_path_def)

lemma port_zero: "length a = 4 \<Longrightarrow> getIPPort (ip4 a 0) = 0" "length b = 16 \<Longrightarrow> getIPPort (ip6 b sc 0) = 0"
  by (simp_all add: ip4_fields ip6_fields be_port_def)

lemma chr_0: "chr 0 = NUL"
  using chr_byte_of [of NUL] by simp

lemma is_any_unix: "isAny \<lparr>sa_bytes = 1 # 0 # bs, usedSize = n\<rparr> \<longleftrightarrow> unat n = 2"
  by (simp add: isAny_def unix_fields address_families offsetof_sun_path_def)

subsection \<open>A host for the tests\<close>

text \<open>\<open>test_host\<close> can hold: a resolver that knows the hosts and services of the tests and nothing else.\<close>

definition undecimal :: "string \<Rightarrow> nat" where
  "undecimal s = foldl (\<lambda>n c. 10 * n + (of_char c - 48)) 0 s"

lemma undecimal_decimal: "undecimal (decimal n) = n"
proof (induction n rule: decimal.induct)
  case (1 n)
  have dig: "k < 10 \<Longrightarrow> (of_char (digit k) :: nat) - 48 = k" for k
    by (auto simp: digit_def nth_Cons' numeral_eq_Suc less_Suc_eq)
  show ?case
  proof (cases "n < 10")
    case True
    then show ?thesis using dig by (subst decimal.simps) (simp add: undecimal_def)
  next
    case False
    then have "decimal n = decimal (n div 10) @ [digit (n mod 10)]" by (subst decimal.simps) simp
    moreover have "undecimal (decimal (n div 10)) = n div 10" using 1 False by simp
    ultimately show ?thesis using dig [of "n mod 10"] by (simp add: undecimal_def)
  qed
qed

definition table_getaddrinfo :: "int \<Rightarrow> int \<Rightarrow> string \<Rightarrow> string \<Rightarrow> int + byte list" where
  "table_getaddrinfo flags f h s =
    (case (if flags = 0 then map_of services s else Some (undecimal s)) of None \<Rightarrow> Inl (- 8) | Some p \<Rightarrow>
       if f = AF_INET \<and> h = ''localhost'' then Inr (sin_bytes [127, 0, 0, 1] p)
       else if f = AF_INET6 \<and> h = ''ip6-localhost'' then Inr (sin6_bytes (replicate 15 0 @ [1]) 0 p)
       else case map_of hosts4 h of
         Some a \<Rightarrow> if f = AF_INET \<or> f = AF_UNSPEC then Inr (sin_bytes a p) else Inl (- 9)
       | None \<Rightarrow> (case map_of (hosts6 1) h of
           Some (a, sc) \<Rightarrow> if f = AF_INET6 \<or> f = AF_UNSPEC then Inr (sin6_bytes a sc p) else Inl (- 9)
         | None \<Rightarrow> Inl (- 2)))"

definition table_netdb :: netdb where
  "table_netdb = \<lparr>getaddrinfo = table_getaddrinfo, gai_strerror = \<lambda>_. ''not known'', strerror = \<lambda>_. ''error'',
     getservbyname = \<lambda>s. (0, if s = ''ssh'' then Some (htons 22) else None),
     inet_ntop = \<lambda>f a. if f = AF_INET then Some ''10.0.0.1'' else if a = link_addr6 then Some ''fe80::5054:ff:fe12:3456'' else Some ''2001::123'',
     lexical_cast_uint16 = \<lambda>s. if s = ''9000'' then Some 9000 else None, lexical_cast_string = \<lambda>p. decimal (unat p)\<rparr>"

lemma host_names_differ:
  "map_of hosts4 h = Some a \<Longrightarrow> h \<noteq> ''localhost'' \<and> h \<noteq> ''ip6-localhost''"
  "map_of (hosts6 lo) h = Some b \<Longrightarrow> h \<noteq> ''localhost'' \<and> h \<noteq> ''ip6-localhost'' \<and> map_of hosts4 h = None"
  by (auto simp: hosts4_def hosts6_def split: if_splits)

theorem test_host_exists: "test_host table_netdb 1"
proof -
  have ssh: "map_of services ''ssh'' = Some 22" by (simp add: services_def)
  have numeric: "AI_NUMERICSERV \<noteq> 0" by (simp add: AI_NUMERICSERV_def)
  have r4: "getaddrinfo table_netdb 0 f h s = Inr (sin_bytes a p)"
    if "map_of hosts4 h = Some a" "map_of services s = Some p" "f \<in> {AF_INET, AF_UNSPEC}" for h a s p f
    using that host_names_differ(1) [OF that(1)] by (auto simp: table_netdb_def table_getaddrinfo_def)
  have n4: "getaddrinfo table_netdb AI_NUMERICSERV f h (decimal p) = Inr (sin_bytes a p)"
    if "map_of hosts4 h = Some a" "f \<in> {AF_INET, AF_UNSPEC}" for h a p f
    using that host_names_differ(1) [OF that(1)] numeric by (auto simp: table_netdb_def table_getaddrinfo_def undecimal_decimal)
  have r6: "getaddrinfo table_netdb 0 f h s = Inr (sin6_bytes a sc p)"
    if "map_of (hosts6 1) h = Some (a, sc)" "map_of services s = Some p" "f \<in> {AF_INET6, AF_UNSPEC}" for h a sc s p f
    using that host_names_differ(2) [OF that(1)] by (auto simp: table_netdb_def table_getaddrinfo_def)
  have n6: "getaddrinfo table_netdb AI_NUMERICSERV f h (decimal p) = Inr (sin6_bytes a sc p)"
    if "map_of (hosts6 1) h = Some (a, sc)" "f \<in> {AF_INET6, AF_UNSPEC}" for h a sc p f
    using that host_names_differ(2) [OF that(1)] numeric by (auto simp: table_netdb_def table_getaddrinfo_def undecimal_decimal)
  have lh: "getaddrinfo table_netdb 0 AF_INET ''localhost'' ''ssh'' = Inr (sin_bytes [127, 0, 0, 1] 22)"
      "getaddrinfo table_netdb 0 AF_INET6 ''ip6-localhost'' ''ssh'' = Inr (sin6_bytes (replicate 15 0 @ [1]) 0 22)"
    using ssh by (simp_all add: table_netdb_def table_getaddrinfo_def)
  have "finds_hosts table_netdb 1"
    unfolding finds_hosts_def by (intro conjI allI impI; (rule lh | (rule r4 n4 r6 n6; assumption)))
  moreover have "rejects_names table_netdb"
    by (simp add: rejects_names_def unknown_names_def table_netdb_def table_getaddrinfo_def services_def hosts4_def hosts6_def)
  moreover have "finds_services table_netdb" "prints_hosts table_netdb"
    by (simp_all add: finds_services_def prints_hosts_def table_netdb_def address_families link_addr6_def)
  ultimately show ?thesis by (simp add: test_host_def)
qed

section \<open>The tests\<close>

definition SocketAddress_defaultConstructorCreatesUnspecAddress_Test :: "bool" where
  "SocketAddress_defaultConstructorCreatesUnspecAddress_Test \<longleftrightarrow> getFamily new_address = AF_UNSPEC"

definition SocketAddress_createUnixAddress_Test :: "bool" where
  "SocketAddress_createUnixAddress_Test \<longleftrightarrow> with_Ok (createUnix ''foo'') (\<lambda>sa.
       getFamily sa = AF_UNIX
     \<and> sun_path sa = ''foo'')"

definition SocketAddress_tooLongUnixPathThrows_Test :: "bool" where
  "SocketAddress_tooLongUnixPathThrows_Test \<longleftrightarrow> with_Ok (createUnix maxPath) (\<lambda>_. True)
     \<and> createUnix tooLongPath = Throw TooLongUnixSocketPath"

definition SocketAddress_createUnixAddressAny_Test :: "bool" where
  "SocketAddress_createUnixAddressAny_Test \<longleftrightarrow> getFamily createUnixAny = AF_UNIX
     \<and> usedSize createUnixAny = 2"

definition SocketAddress_createAbstractUnixAddress_Test :: "bool" where
  "SocketAddress_createAbstractUnixAddress_Test \<longleftrightarrow> with_Ok (createAbstractUnix ''foo'') (\<lambda>sa.
       getFamily sa = AF_UNIX
     \<and> field sa 2 1 = [0]
     \<and> sun_path_from 1 sa = ''foo'')"

definition SocketAddress_tooLongAbstractUnixPathThrows_Test :: "bool" where
  "SocketAddress_tooLongAbstractUnixPathThrows_Test \<longleftrightarrow> with_Ok (createAbstractUnix maxPath) (\<lambda>_. True)
     \<and> createAbstractUnix tooLongPath = Throw TooLongUnixSocketPath"

definition SocketAddress_createIPv4AddressWithServiceName_Test :: "netdb \<Rightarrow> bool" where
  "SocketAddress_createIPv4AddressWithServiceName_Test N \<longleftrightarrow> with_Ok (createIPv4 N ''127.0.0.1'' ''ssh'') (\<lambda>sa.
       getFamily sa = AF_INET
     \<and> sin_addr sa = [127, 0, 0, 1]
     \<and> getIPPort sa = htons 22)"

definition SocketAddress_createIPv4AddressWithServiceNumber_Test :: "netdb \<Rightarrow> bool" where
  "SocketAddress_createIPv4AddressWithServiceNumber_Test N \<longleftrightarrow> with_Ok (createIPv4_port N ''127.0.0.1'' (htons 22)) (\<lambda>sa.
       getFamily sa = AF_INET
     \<and> getIPPort sa = htons 22)"

definition SocketAddress_createIPv4AddressWithBinaryAddressAndServiceName_Test :: "netdb \<Rightarrow> bool" where
  "SocketAddress_createIPv4AddressWithBinaryAddressAndServiceName_Test N \<longleftrightarrow> with_Ok (createIPv4 N ''127.0.0.1'' ''ssh'') (\<lambda>tmp.
       with_Ok (createIPv4_addr_service N (sin_addr tmp) ''ssh'') (EXPECT_EQ_SA tmp))"

definition SocketAddress_createIPv4AddressWithBinaryAddressAndServiceNumberAsString_Test :: "netdb \<Rightarrow> bool" where
  "SocketAddress_createIPv4AddressWithBinaryAddressAndServiceNumberAsString_Test N \<longleftrightarrow> with_Ok (createIPv4 N ''127.0.0.1'' ''9000'') (\<lambda>tmp.
       with_Ok (createIPv4_addr_service N (sin_addr tmp) ''9000'') (EXPECT_EQ_SA tmp))"

definition SocketAddress_createIPv4AddressWithBinaryAddressAndServiceNumber_Test :: "netdb \<Rightarrow> bool" where
  "SocketAddress_createIPv4AddressWithBinaryAddressAndServiceNumber_Test N \<longleftrightarrow> with_Ok (createIPv4 N ''127.0.0.1'' ''9000'') (\<lambda>tmp.
       EXPECT_EQ_SA tmp (createIPv4_addr (sin_addr tmp) (getIPPort tmp)))"

definition SocketAddress_createIPv4AddressWithNonExistingNameThrows_Test :: "netdb \<Rightarrow> bool" where
  "SocketAddress_createIPv4AddressWithNonExistingNameThrows_Test N \<longleftrightarrow> throws_translation (createIPv4 N ''nosuchname.invalid'' ''nosuchservice'')"

definition SocketAddress_createIPv4AddressWithNonExistingServiceThrows_Test :: "netdb \<Rightarrow> bool" where
  "SocketAddress_createIPv4AddressWithNonExistingServiceThrows_Test N \<longleftrightarrow> throws_translation (createIPv4_addr_service N [0, 0, 0, 0] ''nosuchservice'')"

definition SocketAddress_createIPv4AddressAny_Test :: "bool" where
  "SocketAddress_createIPv4AddressAny_Test \<longleftrightarrow> getFamily createIPv4Any = AF_INET
     \<and> sin_addr createIPv4Any = [0, 0, 0, 0]
     \<and> getIPPort createIPv4Any = 0"

definition SocketAddress_createIPv6AddressWithServiceName_Test :: "netdb \<Rightarrow> bool" where
  "SocketAddress_createIPv6AddressWithServiceName_Test N \<longleftrightarrow> with_Ok (createIPv6 N ''2000::1'' ''ssh'') (\<lambda>sa.
       getFamily sa = AF_INET6
     \<and> sin6_addr sa = test_addr6
     \<and> getIPPort sa = htons 22
     \<and> sin6_flowinfo sa = 0)"

definition SocketAddress_createIPv6AddressWithServiceNumber_Test :: "netdb \<Rightarrow> bool" where
  "SocketAddress_createIPv6AddressWithServiceNumber_Test N \<longleftrightarrow> with_Ok (createIPv6_port N ''::1'' (htons 22)) (\<lambda>sa.
       getFamily sa = AF_INET6
     \<and> getIPPort sa = htons 22
     \<and> sin6_flowinfo sa = 0)"

definition SocketAddress_createIPv6AddressWithScopeIdAsNumber_Test :: "netdb \<Rightarrow> bool" where
  "SocketAddress_createIPv6AddressWithScopeIdAsNumber_Test N \<longleftrightarrow> with_Ok (createIPv6_port N ''fe80::5054:ff:fe12:3456%10'' (htons 22)) (\<lambda>sa.
       getFamily sa = AF_INET6
     \<and> sin6_addr sa = link_addr6
     \<and> sin6_scope_id sa = 10
     \<and> getIPPort sa = htons 22
     \<and> sin6_flowinfo sa = 0)"

definition SocketAddress_createIPv6AddressWithScopeIdAsName_Test :: "netdb \<Rightarrow> bool" where
  "SocketAddress_createIPv6AddressWithScopeIdAsName_Test N \<longleftrightarrow> with_Ok (createIPv6_port N ''fe80::5054:ff:fe12:3456%lo'' (htons 22)) (\<lambda>sa.
       getFamily sa = AF_INET6
     \<and> sin6_addr sa = link_addr6
     \<and> sin6_scope_id sa \<noteq> 0
     \<and> getIPPort sa = htons 22
     \<and> sin6_flowinfo sa = 0)"

definition SocketAddress_createIPv6AddressWithBinaryAddressAndServiceName_Test :: "netdb \<Rightarrow> bool" where
  "SocketAddress_createIPv6AddressWithBinaryAddressAndServiceName_Test N \<longleftrightarrow> with_Ok (createIPv6 N ''::1'' ''ssh'') (\<lambda>tmp.
       with_Ok (createIPv6_addr_service N (sin6_addr tmp) ''ssh'') (EXPECT_EQ_SA tmp))"

definition SocketAddress_createIPv6AddressWithBinaryAddressAndServiceNumber_Test :: "netdb \<Rightarrow> bool" where
  "SocketAddress_createIPv6AddressWithBinaryAddressAndServiceNumber_Test N \<longleftrightarrow> with_Ok (createIPv6 N ''::1'' ''9000'') (\<lambda>tmp.
       EXPECT_EQ_SA tmp (createIPv6_addr (sin6_addr tmp) (getIPPort tmp)))"

definition SocketAddress_createIPv6AddressWithBinaryAddressAndScopeIdAndServiceName_Test :: "netdb \<Rightarrow> bool" where
  "SocketAddress_createIPv6AddressWithBinaryAddressAndScopeIdAndServiceName_Test N \<longleftrightarrow> with_Ok (createIPv6 N ''fe80::1%1'' ''ssh'') (\<lambda>tmp.
       with_Ok (createIPv6_addr_scope_service N (sin6_addr tmp) (sin6_scope_id tmp) ''ssh'') (EXPECT_EQ_SA tmp))"

definition SocketAddress_createIPv6AddressWithBinaryAddressAndScopeIdAndServiceNumber_Test :: "netdb \<Rightarrow> bool" where
  "SocketAddress_createIPv6AddressWithBinaryAddressAndScopeIdAndServiceNumber_Test N \<longleftrightarrow> with_Ok (createIPv6 N ''fe80::1%1'' ''9000'') (\<lambda>tmp.
       EXPECT_EQ_SA tmp (createIPv6_addr_scope (sin6_addr tmp) (sin6_scope_id tmp) (getIPPort tmp)))"

definition SocketAddress_createIPv6AddressWithNonExistingNameThrows_Test :: "netdb \<Rightarrow> bool" where
  "SocketAddress_createIPv6AddressWithNonExistingNameThrows_Test N \<longleftrightarrow> throws_translation (createIPv6 N ''nosuchname.invalid'' ''nosuchservice'')"

definition SocketAddress_createIPv6AddressAny_Test :: "bool" where
  "SocketAddress_createIPv6AddressAny_Test \<longleftrightarrow> getFamily createIPv6Any = AF_INET6
     \<and> sin6_addr createIPv6Any = replicate 16 0
     \<and> sin6_scope_id createIPv6Any = 0
     \<and> getIPPort createIPv6Any = 0
     \<and> sin6_flowinfo createIPv6Any = 0"

definition SocketAddress_createIPv4WithCreateIPv4OrIPv6AndServiceName_Test :: "netdb \<Rightarrow> bool" where
  "SocketAddress_createIPv4WithCreateIPv4OrIPv6AndServiceName_Test N \<longleftrightarrow> with_Ok (createIPv4OrIPv6 N ''127.0.0.1'' ''ssh'') (\<lambda>sa.
       getFamily sa = AF_INET
     \<and> sin_addr sa = [127, 0, 0, 1]
     \<and> getIPPort sa = htons 22)"

definition SocketAddress_createIPv4WithCreateIPv4OrIPv6AndServiceNumber_Test :: "netdb \<Rightarrow> bool" where
  "SocketAddress_createIPv4WithCreateIPv4OrIPv6AndServiceNumber_Test N \<longleftrightarrow> with_Ok (createIPv4OrIPv6_port N ''127.0.0.1'' (htons 22)) (\<lambda>sa.
       getFamily sa = AF_INET
     \<and> sin_addr sa = [127, 0, 0, 1]
     \<and> getIPPort sa = htons 22)"

definition SocketAddress_createIPv6WithCreateIPv4OrIPv6AndServiceName_Test :: "netdb \<Rightarrow> bool" where
  "SocketAddress_createIPv6WithCreateIPv4OrIPv6AndServiceName_Test N \<longleftrightarrow> with_Ok (createIPv4OrIPv6 N ''2000::1'' ''ssh'') (\<lambda>sa.
       getFamily sa = AF_INET6
     \<and> sin6_addr sa = test_addr6
     \<and> getIPPort sa = htons 22
     \<and> sin6_flowinfo sa = 0)"

definition SocketAddress_createIPv6WithCreateIPv4OrIPv6AndServiceNumber_Test :: "netdb \<Rightarrow> bool" where
  "SocketAddress_createIPv6WithCreateIPv4OrIPv6AndServiceNumber_Test N \<longleftrightarrow> with_Ok (createIPv4OrIPv6_port N ''2000::1'' (htons 22)) (\<lambda>sa.
       getFamily sa = AF_INET6
     \<and> sin6_addr sa = test_addr6
     \<and> getIPPort sa = htons 22
     \<and> sin6_flowinfo sa = 0)"

definition SocketAddress_createFromPointer_Test :: "bool" where
  "SocketAddress_createFromPointer_Test \<longleftrightarrow> with_Ok (createUnix ''foo'') (\<lambda>tmp.
       EXPECT_EQ_SA tmp (of_sockaddr (sa_bytes tmp) (usedSize tmp)))"

definition SocketAddress_createFromPointerWithTooBigSizeDoesntCrash_Test :: "bool" where
  "SocketAddress_createFromPointerWithTooBigSizeDoesntCrash_Test \<longleftrightarrow> with_Ok (createUnix maxPath) (\<lambda>tmp.
       memcmp (getUnixAddress tmp) (getUnixAddress (of_sockaddr (sa_bytes tmp) 1024)) = 0)"

definition SocketAddress_createFromUnix_Test :: "bool" where
  "SocketAddress_createFromUnix_Test \<longleftrightarrow> with_Ok (createUnix ''foo'') (\<lambda>tmp.
       EXPECT_EQ_SA tmp (of_sockaddr_un (getUnixAddress tmp) (usedSize tmp)))"

definition SocketAddress_createFromIPv4_Test :: "netdb \<Rightarrow> bool" where
  "SocketAddress_createFromIPv4_Test N \<longleftrightarrow> with_Ok (createIPv4 N ''127.0.0.1'' ''9000'') (\<lambda>tmp.
       EXPECT_EQ_SA tmp (of_sockaddr_in (getIPv4Address tmp)))"

definition SocketAddress_createFromIPv4AddressAndPort_Test :: "netdb \<Rightarrow> bool" where
  "SocketAddress_createFromIPv4AddressAndPort_Test N \<longleftrightarrow> with_Ok (createIPv4 N ''127.0.0.1'' ''9000'') (\<lambda>tmp.
       EXPECT_EQ_SA tmp (of_in_addr (sin_addr tmp) (getIPPort tmp)))"

definition SocketAddress_createFromIPv6_Test :: "netdb \<Rightarrow> bool" where
  "SocketAddress_createFromIPv6_Test N \<longleftrightarrow> with_Ok (createIPv6 N ''::1'' ''9000'') (\<lambda>tmp.
       EXPECT_EQ_SA tmp (of_sockaddr_in6 (getIPv6Address tmp)))"

definition SocketAddress_createFromIPv6AddressAndPort_Test :: "netdb \<Rightarrow> bool" where
  "SocketAddress_createFromIPv6AddressAndPort_Test N \<longleftrightarrow> with_Ok (createIPv6 N ''::1'' ''9000'') (\<lambda>tmp.
       EXPECT_EQ_SA tmp (of_in6_addr (sin6_addr tmp) (getIPPort tmp)))"

definition SocketAddress_createFromIPv6AddressScopeIdAndPort_Test :: "netdb \<Rightarrow> bool" where
  "SocketAddress_createFromIPv6AddressScopeIdAndPort_Test N \<longleftrightarrow> with_Ok (createIPv6 N ''fe80::11%1'' ''9000'') (\<lambda>tmp.
       EXPECT_EQ_SA tmp (of_in6_addr_scope (sin6_addr tmp) 1 (getIPPort tmp)))"

definition SocketAddress_getUnspecAddressUsedSize_Test :: "bool" where
  "SocketAddress_getUnspecAddressUsedSize_Test \<longleftrightarrow> usedSize new_address = 0"

definition SocketAddress_getUnspecAddressAvailableSize_Test :: "bool" where
  "SocketAddress_getUnspecAddressAvailableSize_Test \<longleftrightarrow> max (max 16 sizeof_sockaddr_un) (max sizeof_sockaddr_in sizeof_sockaddr_in6) \<le> unat (getAvailableSize new_address)"

definition SocketAddress_getUnixAddressUsedSize_Test :: "bool" where
  "SocketAddress_getUnixAddressUsedSize_Test \<longleftrightarrow> with_Ok (createUnix ''/var/run/socket'') (\<lambda>sa. unat (usedSize sa) = offsetof_sun_path + length ''/var/run/socket'' + 1)"

definition SocketAddress_getUnixAddressAvailableSize_Test :: "bool" where
  "SocketAddress_getUnixAddressAvailableSize_Test \<longleftrightarrow> with_Ok (createUnix ''/var/run/socket'') (\<lambda>sa. unat (getAvailableSize sa) = sizeof_sockaddr_un)"

definition SocketAddress_getAbstractUnixAddressUsedSize_Test :: "bool" where
  "SocketAddress_getAbstractUnixAddressUsedSize_Test \<longleftrightarrow> with_Ok (createAbstractUnix ''foo'') (\<lambda>sa. unat (usedSize sa) = 2 + length ''foo'' + 1)"

definition SocketAddress_getAbstractUnixAddressAvailableSize_Test :: "bool" where
  "SocketAddress_getAbstractUnixAddressAvailableSize_Test \<longleftrightarrow> with_Ok (createAbstractUnix ''foo'') (\<lambda>sa. unat (getAvailableSize sa) = sizeof_sockaddr_un)"

definition SocketAddress_getIPv4AddressUsedSize_Test :: "netdb \<Rightarrow> bool" where
  "SocketAddress_getIPv4AddressUsedSize_Test N \<longleftrightarrow> with_Ok (createIPv4 N ''127.0.0.1'' ''ssh'') (\<lambda>sa. unat (usedSize sa) = sizeof_sockaddr_in)"

definition SocketAddress_getIPv4AddressAvailableSize_Test :: "netdb \<Rightarrow> bool" where
  "SocketAddress_getIPv4AddressAvailableSize_Test N \<longleftrightarrow> with_Ok (createIPv4 N ''127.0.0.1'' ''ssh'') (\<lambda>sa. unat (getAvailableSize sa) = sizeof_sockaddr_in)"

definition SocketAddress_getIPv6AddressUsedSize_Test :: "netdb \<Rightarrow> bool" where
  "SocketAddress_getIPv6AddressUsedSize_Test N \<longleftrightarrow> with_Ok (createIPv6 N ''::1'' ''ssh'') (\<lambda>sa. unat (usedSize sa) = sizeof_sockaddr_in6)"

definition SocketAddress_getIPv6AddressAvailableSize_Test :: "netdb \<Rightarrow> bool" where
  "SocketAddress_getIPv6AddressAvailableSize_Test N \<longleftrightarrow> with_Ok (createIPv6 N ''::1'' ''ssh'') (\<lambda>sa. unat (getAvailableSize sa) = sizeof_sockaddr_in6)"

definition SocketAddress_setUsedSize_Test :: "netdb \<Rightarrow> bool" where
  "SocketAddress_setUsedSize_Test N \<longleftrightarrow> with_Ok (createUnix ''foo'') (\<lambda>foo. let sa = setUsedSize 4 foo in
       usedSize sa = 4
     \<and> print_address N sa = Ok ''unix:fo'')"

definition SocketAddress_outputUnspecified_Test :: "netdb \<Rightarrow> bool" where
  "SocketAddress_outputUnspecified_Test N \<longleftrightarrow> print_address N new_address = Ok ''unspecified''"

definition SocketAddress_outputUnix_Test :: "netdb \<Rightarrow> bool" where
  "SocketAddress_outputUnix_Test N \<longleftrightarrow> with_Ok (createUnix ''/var/run/socket'') (\<lambda>sa. print_address N sa = Ok (''unix:'' @ ''/var/run/socket''))
     \<and> with_Ok (createUnix maxPath) (\<lambda>sa. print_address N sa = Ok (''unix:'' @ maxPath))"

definition SocketAddress_outputUnixAny_Test :: "netdb \<Rightarrow> bool" where
  "SocketAddress_outputUnixAny_Test N \<longleftrightarrow> print_address N createUnixAny = Ok ''unix:''"

definition SocketAddress_outputUnixWithTooLongPath_Test :: "netdb \<Rightarrow> bool" where
  "SocketAddress_outputUnixWithTooLongPath_Test N \<longleftrightarrow> with_Ok (createUnix maxPath) (\<lambda>sa.
       print_address N (poke (offsetof_sun_path + length maxPath) [byte_of CHR ''a''] sa) = Ok (''unix:'' @ maxPath @ ''a''))"

definition SocketAddress_outputAbstractUnix_Test :: "netdb \<Rightarrow> bool" where
  "SocketAddress_outputAbstractUnix_Test N \<longleftrightarrow> with_Ok (createAbstractUnix ''NetworkManager'') (\<lambda>sa. print_address N sa = Ok (''unix:@'' @ ''NetworkManager''))
     \<and> with_Ok (createAbstractUnix maxPath) (\<lambda>sa. print_address N sa = Ok (''unix:@'' @ maxPath))"

definition SocketAddress_outputEmptyUnix_Test :: "netdb \<Rightarrow> bool" where
  "SocketAddress_outputEmptyUnix_Test N \<longleftrightarrow> with_Ok (createUnix []) (\<lambda>sa. print_address N sa = Ok (''unix:''))"

definition SocketAddress_outputIPv4_Test :: "netdb \<Rightarrow> bool" where
  "SocketAddress_outputIPv4_Test N \<longleftrightarrow> with_Ok (createIPv4 N ''10.0.0.1'' ''450'') (\<lambda>sa. print_address N sa = Ok (''ipv4:10.0.0.1:450''))"

definition SocketAddress_outputIPv6_Test :: "netdb \<Rightarrow> bool" where
  "SocketAddress_outputIPv6_Test N \<longleftrightarrow> with_Ok (createIPv6 N ''2001::123'' ''9000'') (\<lambda>sa. print_address N sa = Ok (''ipv6:[2001::123]:9000''))"

definition SocketAddress_outputIPv6WithScopeId_Test :: "netdb \<Rightarrow> bool" where
  "SocketAddress_outputIPv6WithScopeId_Test N \<longleftrightarrow> with_Ok (createIPv6 N ''fe80::5054:ff:fe12:3456%10'' ''9000'') (\<lambda>sa. print_address N sa = Ok (''ipv6:[fe80::5054:ff:fe12:3456%10]:9000''))"

definition SocketAddress_inputWithoutColonThrows_Test :: "netdb \<Rightarrow> bool" where
  "SocketAddress_inputWithoutColonThrows_Test N \<longleftrightarrow> lexical_cast_address N ''unix'' = Ok None"

definition SocketAddress_inputUnknownProtocolThrows_Test :: "netdb \<Rightarrow> bool" where
  "SocketAddress_inputUnknownProtocolThrows_Test N \<longleftrightarrow> lexical_cast_address N ''something:blaa'' = Ok None
     \<and> lexical_cast_address N ''something:blaa:foobar'' = Ok None"

definition SocketAddress_inputUnix_Test :: "netdb \<Rightarrow> bool" where
  "SocketAddress_inputUnix_Test N \<longleftrightarrow> with_address (lexical_cast_address N ''unix:/var/run/socket'') (\<lambda>sa.
       getFamily sa = AF_UNIX
     \<and> sun_path sa = ''/var/run/socket'')"

definition SocketAddress_inputAbstractUnix_Test :: "netdb \<Rightarrow> bool" where
  "SocketAddress_inputAbstractUnix_Test N \<longleftrightarrow> with_address (lexical_cast_address N ''unix:@NetworkManager'') (\<lambda>sa.
       getFamily sa = AF_UNIX
     \<and> field sa 2 1 = [0]
     \<and> sun_path_from 1 sa = ''NetworkManager'')"

definition SocketAddress_inputEmptyUnix_Test :: "netdb \<Rightarrow> bool" where
  "SocketAddress_inputEmptyUnix_Test N \<longleftrightarrow> with_address (lexical_cast_address N ''unix:'') (\<lambda>sa.
       getFamily sa = AF_UNIX
     \<and> sun_path sa = [])"

definition SocketAddress_inputIPv4Address_Test :: "netdb \<Rightarrow> bool" where
  "SocketAddress_inputIPv4Address_Test N \<longleftrightarrow> with_address (lexical_cast_address N ''ipv4:127.0.0.1:450'') (\<lambda>sa.
       getFamily sa = AF_INET
     \<and> sin_addr sa = [127, 0, 0, 1]
     \<and> getIPPort sa = htons 450)"

definition SocketAddress_inputIPv4Name_Test :: "netdb \<Rightarrow> bool" where
  "SocketAddress_inputIPv4Name_Test N \<longleftrightarrow> with_address (lexical_cast_address N ''ipv4:localhost:ssh'') (\<lambda>sa.
       getFamily sa = AF_INET
     \<and> sin_addr sa = [127, 0, 0, 1]
     \<and> getIPPort sa = htons 22)"

definition SocketAddress_inputInvalidIPv4NameThrows_Test :: "netdb \<Rightarrow> bool" where
  "SocketAddress_inputInvalidIPv4NameThrows_Test N \<longleftrightarrow> lexical_cast_address N ''ipv4:localhost:nosuchprotocol'' = Ok None"

definition SocketAddress_inputIPv4AddressWithoutPortThrows_Test :: "netdb \<Rightarrow> bool" where
  "SocketAddress_inputIPv4AddressWithoutPortThrows_Test N \<longleftrightarrow> lexical_cast_address N ''ipv4:127.0.0.1'' = Ok None"

definition SocketAddress_inputIPv6Address_Test :: "netdb \<Rightarrow> bool" where
  "SocketAddress_inputIPv6Address_Test N \<longleftrightarrow> with_address (lexical_cast_address N ''ipv6:[2000::1]:22'') (\<lambda>sa.
       getFamily sa = AF_INET6
     \<and> sin6_addr sa = test_addr6
     \<and> getIPPort sa = htons 22
     \<and> sin6_flowinfo sa = 0)"

definition SocketAddress_DISABLED_inputIPv6Name_Test :: "netdb \<Rightarrow> bool" where
  "SocketAddress_DISABLED_inputIPv6Name_Test N \<longleftrightarrow> with_address (lexical_cast_address N ''ipv6:ip6-localhost:ssh'') (\<lambda>sa.
       getFamily sa = AF_INET6
     \<and> sin6_addr sa = replicate 15 0 @ [1]
     \<and> getIPPort sa = htons 22
     \<and> sin6_flowinfo sa = 0)"

definition SocketAddress_inputInvalidIPv6NameThrows_Test :: "netdb \<Rightarrow> bool" where
  "SocketAddress_inputInvalidIPv6NameThrows_Test N \<longleftrightarrow> lexical_cast_address N ''ipv6:localhost:nosuchprotocol'' = Ok None"

definition SocketAddress_inputInvalidIPv6AddressThrows_Test :: "netdb \<Rightarrow> bool" where
  "SocketAddress_inputInvalidIPv6AddressThrows_Test N \<longleftrightarrow> lexical_cast_address N ''ipv6:[::1]:nosuchprotocol'' = Ok None"

definition SocketAddress_inputIPv6AddressWithoutPortThrows_Test :: "netdb \<Rightarrow> bool" where
  "SocketAddress_inputIPv6AddressWithoutPortThrows_Test N \<longleftrightarrow> lexical_cast_address N ''ipv6:[fe80::1]'' = Ok None"

definition SocketAddress_inputIPv6AddressWithoutSquareBracketsThrows_Test :: "netdb \<Rightarrow> bool" where
  "SocketAddress_inputIPv6AddressWithoutSquareBracketsThrows_Test N \<longleftrightarrow> lexical_cast_address N ''ipv6:fe80::1'' = Ok None
     \<and> lexical_cast_address N ''ipv6:fe80::1:1'' = Ok None"

definition SocketAddress_inputIPv6AddressWithoutAddressThrows_Test :: "netdb \<Rightarrow> bool" where
  "SocketAddress_inputIPv6AddressWithoutAddressThrows_Test N \<longleftrightarrow> lexical_cast_address N ''ipv6:[]:1'' = Ok None"

definition SocketAddress_isAny_Test :: "netdb \<Rightarrow> bool" where
  "SocketAddress_isAny_Test N \<longleftrightarrow> isAny new_address
     \<and> isAny createUnixAny
     \<and> with_Ok (createIPv4_port N ''0.0.0.0'' 0) isAny
     \<and> isAny createIPv4Any
     \<and> with_Ok (createIPv6_port N ''::'' 0) isAny
     \<and> isAny createIPv6Any
     \<and> with_address (lexical_cast_address N ''unix:'') isAny
     \<and> with_address (lexical_cast_address N ''ipv4:0.0.0.0:0'') isAny
     \<and> with_address (lexical_cast_address N ''ipv6:[::]:0'') isAny
     \<and> with_Ok (createIPv4_port N ''0.0.0.0'' 1) (\<lambda>sa. \<not> isAny sa)
     \<and> with_Ok (createIPv4_port N ''0.0.0.1'' 0) (\<lambda>sa. \<not> isAny sa)
     \<and> with_Ok (createIPv6_port N ''::'' 1) (\<lambda>sa. \<not> isAny sa)
     \<and> with_Ok (createIPv6_port N ''1:0:0:0:0:0:0:0'' 0) (\<lambda>sa. \<not> isAny sa)
     \<and> with_Ok (createIPv6_port N ''0:1:0:0:0:0:0:0'' 0) (\<lambda>sa. \<not> isAny sa)
     \<and> with_Ok (createIPv6_port N ''0:0:1:0:0:0:0:0'' 0) (\<lambda>sa. \<not> isAny sa)
     \<and> with_Ok (createIPv6_port N ''0:0:0:1:0:0:0:0'' 0) (\<lambda>sa. \<not> isAny sa)
     \<and> with_Ok (createIPv6_port N ''0:0:0:0:1:0:0:0'' 0) (\<lambda>sa. \<not> isAny sa)
     \<and> with_Ok (createIPv6_port N ''0:0:0:0:0:1:0:0'' 0) (\<lambda>sa. \<not> isAny sa)
     \<and> with_Ok (createIPv6_port N ''0:0:0:0:0:0:1:0'' 0) (\<lambda>sa. \<not> isAny sa)
     \<and> with_Ok (createIPv6_port N ''0:0:0:0:0:0:0:1'' 0) (\<lambda>sa. \<not> isAny sa)
     \<and> with_Ok (createUnix ''/var/run/socket'') (\<lambda>sa. \<not> isAny sa)
     \<and> with_Ok (createAbstractUnix ''path'') (\<lambda>sa. \<not> isAny sa)"

definition SocketAddress_getSizePointer_Test :: "bool" where
  "SocketAddress_getSizePointer_Test \<longleftrightarrow> (let sa = getSizePointer new_address in usedSize sa = getAvailableSize sa
     \<and> usedSize (setUsedSize 10 sa) = 10)"

definition SocketAddress_getIPv4Port_Test :: "netdb \<Rightarrow> bool" where
  "SocketAddress_getIPv4Port_Test N \<longleftrightarrow> with_Ok (createIPv4_port N ''127.0.0.1'' 6789) (\<lambda>sa. getIPPort sa = 6789)"

definition SocketAddress_getIPv6Port_Test :: "netdb \<Rightarrow> bool" where
  "SocketAddress_getIPv6Port_Test N \<longleftrightarrow> with_Ok (createIPv6_port N ''::1'' 6789) (\<lambda>sa. getIPPort sa = 6789)"

definition SocketAddress_equalOperator_Test :: "netdb \<Rightarrow> bool" where
  "SocketAddress_equalOperator_Test N \<longleftrightarrow> with_Ok (createUnix (''1235'' @ replicate 4 NUL)) (\<lambda>a. with_Ok (createUnix (''1235'' @ replicate 4 NUL)) (\<lambda>b. sa_eq a b))
     \<and> with_Ok (createUnix (''1235'' @ replicate 3 NUL)) (\<lambda>a. with_Ok (createUnix (''1235'' @ replicate 4 NUL)) (\<lambda>b. \<not> sa_eq a b))
     \<and> with_Ok (createIPv4_port N ''127.0.0.1'' 123) (\<lambda>a. with_Ok (createIPv4_port N ''127.0.0.1'' 123) (\<lambda>b. sa_eq a b))
     \<and> with_Ok (createIPv4_port N ''127.0.0.1'' 123) (\<lambda>a. with_Ok (createIPv4_port N ''127.0.0.1'' 333) (\<lambda>b. \<not> sa_eq a b))
     \<and> with_Ok (createIPv4_port N ''127.0.0.1'' 123) (\<lambda>a. with_Ok (createIPv6_port N ''::1'' 123) (\<lambda>b. \<not> sa_eq a b))"

definition SocketAddress_lessThanOperator_Test :: "netdb \<Rightarrow> bool" where
  "SocketAddress_lessThanOperator_Test N \<longleftrightarrow> (let none = new_address in 
     with_Ok (createAbstractUnix ''aa'') (\<lambda>aunix1.
     with_Ok (createAbstractUnix (''aa'' @ [NUL])) (\<lambda>aunix2.
     with_Ok (createUnix ''aaa'') (\<lambda>unix1.
     with_Ok (createUnix ''bbb'') (\<lambda>unix2.
     with_Ok (createIPv4_port N ''10.0.0.20'' (htons 1000)) (\<lambda>ipv41.
     with_Ok (createIPv4_port N ''20.0.0.10'' (htons 1000)) (\<lambda>ipv42.
     with_Ok (createIPv4_port N ''20.0.0.10'' (htons 1001)) (\<lambda>ipv43.
     with_Ok (createIPv6_port N ''10::20'' (htons 1000)) (\<lambda>ipv61.
     with_Ok (createIPv6_port N ''20::10'' (htons 1000)) (\<lambda>ipv62.
     with_Ok (createIPv6_port N ''20::10'' (htons 1001)) (\<lambda>ipv63.
       \<not> sa_less none none \<and> sa_less none aunix1 \<and> \<not> sa_less aunix1 none \<and> \<not> sa_less aunix1 aunix1
     \<and> sa_less aunix1 aunix2 \<and> \<not> sa_less aunix2 aunix1 \<and> sa_less aunix2 unix1 \<and> \<not> sa_less unix1 aunix2
     \<and> \<not> sa_less unix1 unix1 \<and> sa_less unix1 unix2 \<and> \<not> sa_less unix2 unix1 \<and> sa_less unix2 ipv41
     \<and> \<not> sa_less ipv41 unix2 \<and> \<not> sa_less ipv41 ipv41 \<and> sa_less ipv41 ipv42 \<and> \<not> sa_less ipv42 ipv41
     \<and> sa_less ipv42 ipv43 \<and> \<not> sa_less ipv43 ipv42 \<and> sa_less ipv43 ipv61 \<and> \<not> sa_less ipv61 ipv43
     \<and> \<not> sa_less ipv61 ipv61 \<and> sa_less ipv61 ipv62 \<and> \<not> sa_less ipv62 ipv61 \<and> sa_less ipv62 ipv63
     \<and> \<not> sa_less ipv63 ipv62)))))))))))"

section \<open>They pass\<close>

lemmas host_run = hosts4_def hosts6_def services_def unknown_names_def test_addr6_def link_addr6_def
  ip4_fields(1-3) ip6_fields(1-3,5,6) port_of_service port_of_number of_parts of_structs available address_sizes
  createIPv4_addr_service_def createIPv4_addr_def createIPv6_addr_service_def createIPv6_addr_def createIPv6_addr_scope_def
  createIPv6_addr_scope_service_def of_in6_addr_def

lemmas match_run = lexical_cast_word input_address_def match_abstract_unix_def match_unix_def match_ipv4_def
  match_ipv6_address_def match_ipv6_name_def is_space_def alnum_us_def

lemmas path_run = createUnix_Ok createAbstractUnix_Ok createUnixAny_eq path_facts new_address_fields
  any_addresses ip4_fields(1-3) ip6_fields(1-3,5,6) port_zero too_long unix_fields sun_path_def sun_path_record c_str_def chr_0
  field_def address_sizes AF_UNIX_def

lemma SocketAddress_defaultConstructorCreatesUnspecAddress_passes: "SocketAddress_defaultConstructorCreatesUnspecAddress_Test"
  by (simp add: SocketAddress_defaultConstructorCreatesUnspecAddress_Test_def path_run)

lemma SocketAddress_createUnixAddress_passes: "SocketAddress_createUnixAddress_Test"
  by (simp add: SocketAddress_createUnixAddress_Test_def path_run)

lemma SocketAddress_tooLongUnixPathThrows_passes: "SocketAddress_tooLongUnixPathThrows_Test"
  by (simp add: SocketAddress_tooLongUnixPathThrows_Test_def path_run)

lemma SocketAddress_createUnixAddressAny_passes: "SocketAddress_createUnixAddressAny_Test"
  by (simp add: SocketAddress_createUnixAddressAny_Test_def path_run)

lemma SocketAddress_createAbstractUnixAddress_passes: "SocketAddress_createAbstractUnixAddress_Test"
  by (simp add: SocketAddress_createAbstractUnixAddress_Test_def path_run)

lemma SocketAddress_tooLongAbstractUnixPathThrows_passes: "SocketAddress_tooLongAbstractUnixPathThrows_Test"
  by (simp add: SocketAddress_tooLongAbstractUnixPathThrows_Test_def path_run)

lemma SocketAddress_createIPv4AddressWithServiceName_passes:
  assumes "test_host N lo"
  shows "SocketAddress_createIPv4AddressWithServiceName_Test N"
  by (simp add: SocketAddress_createIPv4AddressWithServiceName_Test_def host4_run [OF assms] host_run)

lemma SocketAddress_createIPv4AddressWithServiceNumber_passes:
  assumes "test_host N lo"
  shows "SocketAddress_createIPv4AddressWithServiceNumber_Test N"
  by (simp add: SocketAddress_createIPv4AddressWithServiceNumber_Test_def host4_run [OF assms] host_run)

lemma SocketAddress_createIPv4AddressWithBinaryAddressAndServiceName_passes:
  assumes "test_host N lo"
  shows "SocketAddress_createIPv4AddressWithBinaryAddressAndServiceName_Test N"
  by (simp add: SocketAddress_createIPv4AddressWithBinaryAddressAndServiceName_Test_def host4_run [OF assms] found_names [OF assms] host_run)

lemma SocketAddress_createIPv4AddressWithBinaryAddressAndServiceNumberAsString_passes:
  assumes "test_host N lo"
  shows "SocketAddress_createIPv4AddressWithBinaryAddressAndServiceNumberAsString_Test N"
  by (simp add: SocketAddress_createIPv4AddressWithBinaryAddressAndServiceNumberAsString_Test_def host4_run [OF assms] found_names [OF assms] host_run)

lemma SocketAddress_createIPv4AddressWithBinaryAddressAndServiceNumber_passes:
  assumes "test_host N lo"
  shows "SocketAddress_createIPv4AddressWithBinaryAddressAndServiceNumber_Test N"
  by (simp add: SocketAddress_createIPv4AddressWithBinaryAddressAndServiceNumber_Test_def host4_run [OF assms] host_run)

lemma SocketAddress_createIPv4AddressWithNonExistingNameThrows_passes:
  assumes "test_host N lo"
  shows "SocketAddress_createIPv4AddressWithNonExistingNameThrows_Test N"
  by (simp add: SocketAddress_createIPv4AddressWithNonExistingNameThrows_Test_def host4_run [OF assms] unknown_throws [OF assms] unknown_caught [OF assms] nosuchservice [OF assms] host_run)

lemma SocketAddress_createIPv4AddressWithNonExistingServiceThrows_passes:
  assumes "test_host N lo"
  shows "SocketAddress_createIPv4AddressWithNonExistingServiceThrows_Test N"
  by (simp add: SocketAddress_createIPv4AddressWithNonExistingServiceThrows_Test_def host4_run [OF assms] found_names [OF assms] unknown_throws [OF assms] unknown_caught [OF assms] nosuchservice [OF assms] host_run)

lemma SocketAddress_createIPv4AddressAny_passes: "SocketAddress_createIPv4AddressAny_Test"
  by (simp add: SocketAddress_createIPv4AddressAny_Test_def path_run) (simp add: numeral_eq_Suc)

lemma SocketAddress_createIPv6AddressWithServiceName_passes:
  assumes "test_host N lo"
  shows "SocketAddress_createIPv6AddressWithServiceName_Test N"
  by (simp add: SocketAddress_createIPv6AddressWithServiceName_Test_def host6_run [OF assms] host_run)

lemma SocketAddress_createIPv6AddressWithServiceNumber_passes:
  assumes "test_host N lo"
  shows "SocketAddress_createIPv6AddressWithServiceNumber_Test N"
  by (simp add: SocketAddress_createIPv6AddressWithServiceNumber_Test_def host6_run [OF assms] host_run)

lemma SocketAddress_createIPv6AddressWithScopeIdAsNumber_passes:
  assumes "test_host N lo"
  shows "SocketAddress_createIPv6AddressWithScopeIdAsNumber_Test N"
  by (simp add: SocketAddress_createIPv6AddressWithScopeIdAsNumber_Test_def host6_run [OF assms] host_run)

lemma SocketAddress_createIPv6AddressWithScopeIdAsName_passes:
  assumes "test_host N lo"
  shows "SocketAddress_createIPv6AddressWithScopeIdAsName_Test N"
proof -
  have "0 < lo" "lo < 2 ^ 32" using assms by (simp_all add: test_host_def)
  then have "unat (of_nat lo :: 32 word) = lo" using unat_size [of lo] by simp
  with \<open>0 < lo\<close> have "(of_nat lo :: 32 word) \<noteq> 0" using unat_0 by (metis less_irrefl)
  with \<open>lo < 2 ^ 32\<close> show ?thesis
    by (simp add: SocketAddress_createIPv6AddressWithScopeIdAsName_Test_def host6_run [OF assms] host_run)
qed

lemma SocketAddress_createIPv6AddressWithBinaryAddressAndServiceName_passes:
  assumes "test_host N lo"
  shows "SocketAddress_createIPv6AddressWithBinaryAddressAndServiceName_Test N"
  by (simp add: SocketAddress_createIPv6AddressWithBinaryAddressAndServiceName_Test_def host6_run [OF assms] found_names [OF assms] host_run)

lemma SocketAddress_createIPv6AddressWithBinaryAddressAndServiceNumber_passes:
  assumes "test_host N lo"
  shows "SocketAddress_createIPv6AddressWithBinaryAddressAndServiceNumber_Test N"
  by (simp add: SocketAddress_createIPv6AddressWithBinaryAddressAndServiceNumber_Test_def host6_run [OF assms] host_run)

lemma SocketAddress_createIPv6AddressWithBinaryAddressAndScopeIdAndServiceName_passes:
  assumes "test_host N lo"
  shows "SocketAddress_createIPv6AddressWithBinaryAddressAndScopeIdAndServiceName_Test N"
  by (simp add: SocketAddress_createIPv6AddressWithBinaryAddressAndScopeIdAndServiceName_Test_def host6_run [OF assms] found_names [OF assms] host_run)

lemma SocketAddress_createIPv6AddressWithBinaryAddressAndScopeIdAndServiceNumber_passes:
  assumes "test_host N lo"
  shows "SocketAddress_createIPv6AddressWithBinaryAddressAndScopeIdAndServiceNumber_Test N"
  by (simp add: SocketAddress_createIPv6AddressWithBinaryAddressAndScopeIdAndServiceNumber_Test_def host6_run [OF assms] host_run)

lemma SocketAddress_createIPv6AddressWithNonExistingNameThrows_passes:
  assumes "test_host N lo"
  shows "SocketAddress_createIPv6AddressWithNonExistingNameThrows_Test N"
  by (simp add: SocketAddress_createIPv6AddressWithNonExistingNameThrows_Test_def host6_run [OF assms] unknown_throws [OF assms] unknown_caught [OF assms] nosuchservice [OF assms] host_run)

lemma SocketAddress_createIPv6AddressAny_passes: "SocketAddress_createIPv6AddressAny_Test"
  by (simp add: SocketAddress_createIPv6AddressAny_Test_def path_run)

lemma SocketAddress_createIPv4WithCreateIPv4OrIPv6AndServiceName_passes:
  assumes "test_host N lo"
  shows "SocketAddress_createIPv4WithCreateIPv4OrIPv6AndServiceName_Test N"
  by (simp add: SocketAddress_createIPv4WithCreateIPv4OrIPv6AndServiceName_Test_def host4_run [OF assms] host6_run [OF assms] host_run)

lemma SocketAddress_createIPv4WithCreateIPv4OrIPv6AndServiceNumber_passes:
  assumes "test_host N lo"
  shows "SocketAddress_createIPv4WithCreateIPv4OrIPv6AndServiceNumber_Test N"
  by (simp add: SocketAddress_createIPv4WithCreateIPv4OrIPv6AndServiceNumber_Test_def host4_run [OF assms] host6_run [OF assms] host_run)

lemma SocketAddress_createIPv6WithCreateIPv4OrIPv6AndServiceName_passes:
  assumes "test_host N lo"
  shows "SocketAddress_createIPv6WithCreateIPv4OrIPv6AndServiceName_Test N"
  by (simp add: SocketAddress_createIPv6WithCreateIPv4OrIPv6AndServiceName_Test_def host4_run [OF assms] host6_run [OF assms] host_run)

lemma SocketAddress_createIPv6WithCreateIPv4OrIPv6AndServiceNumber_passes:
  assumes "test_host N lo"
  shows "SocketAddress_createIPv6WithCreateIPv4OrIPv6AndServiceNumber_Test N"
  by (simp add: SocketAddress_createIPv6WithCreateIPv4OrIPv6AndServiceNumber_Test_def host4_run [OF assms] host6_run [OF assms] host_run)

lemma SocketAddress_createFromPointer_passes: "SocketAddress_createFromPointer_Test"
  by (simp add: SocketAddress_createFromPointer_Test_def path_run EXPECT_EQ_SA_def of_sockaddr_def of_sockaddr_un_def memCopy_def getUnixAddress_def
      replicate_peel [of 107])

lemma SocketAddress_createFromPointerWithTooBigSizeDoesntCrash_passes: "SocketAddress_createFromPointerWithTooBigSizeDoesntCrash_Test"
proof -
  have "length (map byte_of maxPath) = 107" by (simp add: path_facts)
  then show ?thesis
    by (simp add: SocketAddress_createFromPointerWithTooBigSizeDoesntCrash_Test_def createUnix_Ok path_facts of_sockaddr_def
        memCopy_def getUnixAddress_def field_def address_sizes Let_def)
qed

lemma SocketAddress_createFromUnix_passes: "SocketAddress_createFromUnix_Test"
  by (simp add: SocketAddress_createFromUnix_Test_def path_run EXPECT_EQ_SA_def of_sockaddr_def of_sockaddr_un_def memCopy_def getUnixAddress_def
      replicate_peel [of 107])

lemma SocketAddress_createFromIPv4_passes:
  assumes "test_host N lo"
  shows "SocketAddress_createFromIPv4_Test N"
  by (simp add: SocketAddress_createFromIPv4_Test_def host4_run [OF assms] host_run)

lemma SocketAddress_createFromIPv4AddressAndPort_passes:
  assumes "test_host N lo"
  shows "SocketAddress_createFromIPv4AddressAndPort_Test N"
  by (simp add: SocketAddress_createFromIPv4AddressAndPort_Test_def host4_run [OF assms] host_run)

lemma SocketAddress_createFromIPv6_passes:
  assumes "test_host N lo"
  shows "SocketAddress_createFromIPv6_Test N"
  by (simp add: SocketAddress_createFromIPv6_Test_def host6_run [OF assms] host_run)

lemma SocketAddress_createFromIPv6AddressAndPort_passes:
  assumes "test_host N lo"
  shows "SocketAddress_createFromIPv6AddressAndPort_Test N"
  by (simp add: SocketAddress_createFromIPv6AddressAndPort_Test_def host6_run [OF assms] host_run)

lemma SocketAddress_createFromIPv6AddressScopeIdAndPort_passes:
  assumes "test_host N lo"
  shows "SocketAddress_createFromIPv6AddressScopeIdAndPort_Test N"
  by (simp add: SocketAddress_createFromIPv6AddressScopeIdAndPort_Test_def host6_run [OF assms] host_run)

lemma SocketAddress_getUnspecAddressUsedSize_passes: "SocketAddress_getUnspecAddressUsedSize_Test"
  by (simp add: SocketAddress_getUnspecAddressUsedSize_Test_def path_run)

lemma SocketAddress_getUnspecAddressAvailableSize_passes: "SocketAddress_getUnspecAddressAvailableSize_Test"
  by (simp add: SocketAddress_getUnspecAddressAvailableSize_Test_def getAvailableSize_def new_address_fields address_families address_sizes)

lemma SocketAddress_getUnixAddressUsedSize_passes: "SocketAddress_getUnixAddressUsedSize_Test"
  by (simp add: SocketAddress_getUnixAddressUsedSize_Test_def path_run)

lemma SocketAddress_getUnixAddressAvailableSize_passes: "SocketAddress_getUnixAddressAvailableSize_Test"
  by (simp add: SocketAddress_getUnixAddressAvailableSize_Test_def path_run)

lemma SocketAddress_getAbstractUnixAddressUsedSize_passes: "SocketAddress_getAbstractUnixAddressUsedSize_Test"
  by (simp add: SocketAddress_getAbstractUnixAddressUsedSize_Test_def path_run)

lemma SocketAddress_getAbstractUnixAddressAvailableSize_passes: "SocketAddress_getAbstractUnixAddressAvailableSize_Test"
  by (simp add: SocketAddress_getAbstractUnixAddressAvailableSize_Test_def path_run)

lemma SocketAddress_getIPv4AddressUsedSize_passes:
  assumes "test_host N lo"
  shows "SocketAddress_getIPv4AddressUsedSize_Test N"
  by (simp add: SocketAddress_getIPv4AddressUsedSize_Test_def host4_run [OF assms] host_run)

lemma SocketAddress_getIPv4AddressAvailableSize_passes:
  assumes "test_host N lo"
  shows "SocketAddress_getIPv4AddressAvailableSize_Test N"
  by (simp add: SocketAddress_getIPv4AddressAvailableSize_Test_def host4_run [OF assms] host_run)

lemma SocketAddress_getIPv6AddressUsedSize_passes:
  assumes "test_host N lo"
  shows "SocketAddress_getIPv6AddressUsedSize_Test N"
  by (simp add: SocketAddress_getIPv6AddressUsedSize_Test_def host6_run [OF assms] host_run)

lemma SocketAddress_getIPv6AddressAvailableSize_passes:
  assumes "test_host N lo"
  shows "SocketAddress_getIPv6AddressAvailableSize_Test N"
  by (simp add: SocketAddress_getIPv6AddressAvailableSize_Test_def host6_run [OF assms] host_run)

lemma SocketAddress_setUsedSize_passes: "SocketAddress_setUsedSize_Test N"
  by (simp add: SocketAddress_setUsedSize_Test_def createUnix_Ok setUsedSize_def print_address_def address_families
      outputUnix_def outputUnix_loop.simps minus64_def address_sizes)

lemma SocketAddress_outputUnspecified_passes: "SocketAddress_outputUnspecified_Test N"
  by (simp add: SocketAddress_outputUnspecified_Test_def print_address_def new_address_fields address_families)

lemma SocketAddress_outputUnix_passes: "SocketAddress_outputUnix_Test N"
  using with_Ok_print(1) [of "''/var/run/socket''" N] with_Ok_print(1) [of maxPath N]
  by (simp add: SocketAddress_outputUnix_Test_def path_facts)

lemma SocketAddress_outputUnixAny_passes: "SocketAddress_outputUnixAny_Test N"
  by (simp add: SocketAddress_outputUnixAny_Test_def print_any)

lemma SocketAddress_outputUnixWithTooLongPath_passes: "SocketAddress_outputUnixWithTooLongPath_Test N"
proof -
  let ?p = "maxPath @ ''a''"
  have len: "length (map byte_of maxPath) = 107" by (simp add: path_facts)
  have poked: "poke (offsetof_sun_path + length maxPath) [byte_of CHR ''a''] \<lparr>sa_bytes = [1, 0] @ map byte_of maxPath @ replicate 3 0, usedSize = 110\<rparr>
      = \<lparr>sa_bytes = [1, 0] @ map byte_of ?p @ replicate 2 0, usedSize = of_nat 110\<rparr>"
    using len by (simp add: poke_def path_facts offsetof_sun_path_def replicate_peel [of 3])
  have "outputUnix_loop (map byte_of ?p @ [0, 0]) 108 0 = Ok ?p"
    using outputUnix_loop_path [of ?p "[]" 108 "[0]"] by (simp add: path_facts)
  moreover have "(map byte_of ?p @ [0, 0]) ! 0 \<noteq> 0"
    by (simp add: maxPath_def numeral_eq_Suc)
  ultimately have printed: "print_address N \<lparr>sa_bytes = [1, 0] @ map byte_of ?p @ replicate 2 0, usedSize = of_nat 110\<rparr> = Ok (''unix:'' @ ?p)"
    by (subst print_unix) (simp_all add: outputUnix_def replicate_peel [of 2])
  have made: "createUnix maxPath = Ok \<lparr>sa_bytes = [1, 0] @ map byte_of maxPath @ replicate 3 0, usedSize = 110\<rparr>"
    by (simp add: createUnix_Ok path_facts)
  show ?thesis
    unfolding SocketAddress_outputUnixWithTooLongPath_Test_def made with_Ok_simps poked by (rule printed)
qed

lemma SocketAddress_outputAbstractUnix_passes: "SocketAddress_outputAbstractUnix_Test N"
  using with_Ok_print(2) [of "''NetworkManager''" N] with_Ok_print(2) [of maxPath N]
  by (simp add: SocketAddress_outputAbstractUnix_Test_def path_facts)

lemma SocketAddress_outputEmptyUnix_passes: "SocketAddress_outputEmptyUnix_Test N"
  by (simp add: SocketAddress_outputEmptyUnix_Test_def createUnix_Ok print_address_def address_families address_sizes
      minus64_def outputUnix_def outputUnix_loop.simps)

lemma SocketAddress_outputIPv4_passes:
  assumes "test_host N lo"
  shows "SocketAddress_outputIPv4_Test N"
  using assms unfolding test_host_def prints_hosts_def
  by (simp add: SocketAddress_outputIPv4_Test_def host4_run [OF assms] host_run print_ip output_ip_def decimal.simps digit_def)

lemma SocketAddress_outputIPv6_passes:
  assumes "test_host N lo"
  shows "SocketAddress_outputIPv6_Test N"
  using assms unfolding test_host_def prints_hosts_def
  by (simp add: SocketAddress_outputIPv6_Test_def host6_run [OF assms] host_run print_ip output_ip_def decimal.simps digit_def)

lemma SocketAddress_outputIPv6WithScopeId_passes:
  assumes "test_host N lo"
  shows "SocketAddress_outputIPv6WithScopeId_Test N"
  using assms unfolding test_host_def prints_hosts_def
  by (simp add: SocketAddress_outputIPv6WithScopeId_Test_def host6_run [OF assms] host_run print_ip output_ip_def decimal.simps digit_def)

lemma SocketAddress_inputWithoutColonThrows_passes: "SocketAddress_inputWithoutColonThrows_Test N"
  by (simp add: SocketAddress_inputWithoutColonThrows_Test_def path_run match_run)

lemma SocketAddress_inputUnknownProtocolThrows_passes: "SocketAddress_inputUnknownProtocolThrows_Test N"
  by (simp add: SocketAddress_inputUnknownProtocolThrows_Test_def path_run match_run)

lemma SocketAddress_inputUnix_passes: "SocketAddress_inputUnix_Test N"
  by (simp add: SocketAddress_inputUnix_Test_def path_run match_run)

lemma SocketAddress_inputAbstractUnix_passes: "SocketAddress_inputAbstractUnix_Test N"
  by (simp add: SocketAddress_inputAbstractUnix_Test_def path_run match_run)

lemma SocketAddress_inputEmptyUnix_passes: "SocketAddress_inputEmptyUnix_Test N"
  by (simp add: SocketAddress_inputEmptyUnix_Test_def path_run match_run)

lemma SocketAddress_inputIPv4Address_passes:
  assumes "test_host N lo"
  shows "SocketAddress_inputIPv4Address_Test N"
  by (simp add: SocketAddress_inputIPv4Address_Test_def host4_run [OF assms] host_run match_run)

lemma SocketAddress_inputIPv4Name_passes:
  assumes "test_host N lo"
  shows "SocketAddress_inputIPv4Name_Test N"
  by (simp add: SocketAddress_inputIPv4Name_Test_def host4_run [OF assms] found_names [OF assms] host_run match_run)

lemma SocketAddress_inputInvalidIPv4NameThrows_passes:
  assumes "test_host N lo"
  shows "SocketAddress_inputInvalidIPv4NameThrows_Test N"
  by (simp add: SocketAddress_inputInvalidIPv4NameThrows_Test_def host4_run [OF assms] unknown_throws [OF assms] unknown_caught [OF assms] nosuchservice [OF assms] host_run match_run)

lemma SocketAddress_inputIPv4AddressWithoutPortThrows_passes: "SocketAddress_inputIPv4AddressWithoutPortThrows_Test N"
  by (simp add: SocketAddress_inputIPv4AddressWithoutPortThrows_Test_def path_run match_run)

lemma SocketAddress_inputIPv6Address_passes:
  assumes "test_host N lo"
  shows "SocketAddress_inputIPv6Address_Test N"
  by (simp add: SocketAddress_inputIPv6Address_Test_def host6_run [OF assms] host_run match_run)

lemma SocketAddress_DISABLED_inputIPv6Name_passes:
  assumes "test_host N lo"
  shows "SocketAddress_DISABLED_inputIPv6Name_Test N"
  by (simp add: SocketAddress_DISABLED_inputIPv6Name_Test_def host6_run [OF assms] found_names [OF assms] host_run match_run)

lemma SocketAddress_inputInvalidIPv6NameThrows_passes:
  assumes "test_host N lo"
  shows "SocketAddress_inputInvalidIPv6NameThrows_Test N"
  by (simp add: SocketAddress_inputInvalidIPv6NameThrows_Test_def host6_run [OF assms] unknown_throws [OF assms] unknown_caught [OF assms] nosuchservice [OF assms] host_run match_run)

lemma SocketAddress_inputInvalidIPv6AddressThrows_passes:
  assumes "test_host N lo"
  shows "SocketAddress_inputInvalidIPv6AddressThrows_Test N"
  by (simp add: SocketAddress_inputInvalidIPv6AddressThrows_Test_def host6_run [OF assms] unknown_throws [OF assms] unknown_caught [OF assms] nosuchservice [OF assms] host_run match_run)

lemma SocketAddress_inputIPv6AddressWithoutPortThrows_passes: "SocketAddress_inputIPv6AddressWithoutPortThrows_Test N"
  by (simp add: SocketAddress_inputIPv6AddressWithoutPortThrows_Test_def path_run match_run)

lemma SocketAddress_inputIPv6AddressWithoutSquareBracketsThrows_passes: "SocketAddress_inputIPv6AddressWithoutSquareBracketsThrows_Test N"
  by (simp add: SocketAddress_inputIPv6AddressWithoutSquareBracketsThrows_Test_def path_run match_run)

lemma SocketAddress_inputIPv6AddressWithoutAddressThrows_passes:
  assumes "test_host N lo"
  shows "SocketAddress_inputIPv6AddressWithoutAddressThrows_Test N"
  by (simp add: SocketAddress_inputIPv6AddressWithoutAddressThrows_Test_def host6_run [OF assms] unknown_throws [OF assms] unknown_caught [OF assms] nosuchservice [OF assms] host_run match_run)

lemma SocketAddress_isAny_passes:
  assumes "test_host N lo"
  shows "SocketAddress_isAny_Test N"
  by (simp add: SocketAddress_isAny_Test_def host4_run [OF assms] host6_run [OF assms] host_run match_run is_any is_any6
      any_addresses be_port_def isAny_def [of new_address] new_address_fields ntohs_def replicate_peel [of 3] replicate_peel [of 2] is_any_unix createUnix_Ok createAbstractUnix_Ok createUnixAny_eq)

lemma SocketAddress_getSizePointer_passes: "SocketAddress_getSizePointer_Test"
  by (simp add: SocketAddress_getSizePointer_Test_def getSizePointer_def setUsedSize_def getAvailableSize_def getFamily_def field_def)

lemma SocketAddress_getIPv4Port_passes:
  assumes "test_host N lo"
  shows "SocketAddress_getIPv4Port_Test N"
  by (simp add: SocketAddress_getIPv4Port_Test_def host4_run [OF assms] host_run)

lemma SocketAddress_getIPv6Port_passes:
  assumes "test_host N lo"
  shows "SocketAddress_getIPv6Port_Test N"
  by (simp add: SocketAddress_getIPv6Port_Test_def host6_run [OF assms] host_run)

lemma SocketAddress_equalOperator_passes:
  assumes "test_host N lo"
  shows "SocketAddress_equalOperator_Test N"
  by (simp add: SocketAddress_equalOperator_Test_def host4_run [OF assms] host6_run [OF assms] host_run createUnix_Ok sa_eq_def
      ip4_def ip6_def be_port_ntohs le_bytes_2)

lemma SocketAddress_lessThanOperator_passes:
  assumes "test_host N lo"
  shows "SocketAddress_lessThanOperator_Test N"
  by (simp add: SocketAddress_lessThanOperator_Test_def host4_run [OF assms] host6_run [OF assms] host_run createUnix_Ok createAbstractUnix_Ok sa_less_def
      ip4_def ip6_def be_port_def byte_of_def new_address_fields)

end
