(* ===== verification/LoopTests.thy ===== *)
theory LoopTests
  imports TimerQueue CallbackQueue FDRegistry Signals ControlMessage UnitTest
begin

text \<open>
  The unit tests of the parts the event loops are made of, on the model: \<open>src/tst/TimerQueueTest.cpp\<close>,
  \<open>TimerTest.cpp\<close>, \<open>CallbackQueueTest.cpp\<close>, \<open>WeakCallbackTest.cpp\<close>, \<open>FDMonitorTest.cpp\<close>,
  \<open>FDListenerMapTest.cpp\<close>, \<open>SignalSetTest.cpp\<close> and \<open>ControlMessageTest.cpp\<close>. One definition per \<open>TEST\<close>, with
  the name the macro gives its class, and the theorem that it passes. The state of a test is its
  fixture. \<open>exn\<close> has no value for an exception a test file declares itself, so a callback that throws
  one throws any value of \<open>exn\<close>. Left out are the tests of \<open>dump\<close>, whose check is proved for all
  objects in \<open>ClassDumpsProps\<close>, and those that pass \<open>-1\<close> as a signal, which is a natural number here.
\<close>

definition passes :: "'s \<Rightarrow> ('s, unit) prog \<Rightarrow> bool" where
  "passes s p \<longleftrightarrow> fst (p s) = Ok ()"

definition EXPECT_RESULT :: "('s, 'a) prog \<Rightarrow> ('a \<Rightarrow> bool) \<Rightarrow> ('s, unit) prog" where
  "EXPECT_RESULT m p = bnd m (\<lambda>r. expect (\<lambda>_. p r))"

section \<open>Timers\<close>

text \<open>The fixture: the queue of \<open>TimerQueueMock\<close>, the time the mock of the system gives, and the flag
  \<open>executed\<close>. The callbacks the tests schedule; \<open>Reschedule\<close> schedules \<open>Execute\<close> on the first timer.\<close>

datatype test_cb = Nothing | Execute | ThrowTest | Reschedule

record timer_test =
  tqm :: "test_cb timer_queue"
  clock :: duration
  executed :: bool

definition timer_fixture :: "int \<Rightarrow> timer_test" where
  "timer_fixture now = \<lparr>tqm = tq_empty, clock = milliseconds now, executed = False\<rparr>"

definition seconds :: "int \<Rightarrow> duration" where
  "seconds n = milliseconds (1000 * n)"

definition on_tqm :: "(test_cb timer_queue, 'a) prog \<Rightarrow> (timer_test, 'a) prog" where
  "on_tqm = zoom tqm (\<lambda>q s. s\<lparr>tqm := q\<rparr>)"

definition schedule :: "nat \<Rightarrow> duration \<Rightarrow> test_cb option \<Rightarrow> (timer_test, unit) prog" where
  "schedule t d cb = bnd (get_st clock) (\<lambda>now. on_tqm (timer_schedule now t d cb))"

definition cancel :: "nat \<Rightarrow> (timer_test, unit) prog" where
  "cancel t = on_tqm (timer_cancel t)"

definition call_test_cb :: "exn \<Rightarrow> test_cb \<Rightarrow> (timer_test, unit) prog" where
  "call_test_cb e cb = (case cb of Nothing \<Rightarrow> ret () | Execute \<Rightarrow> modify_st (executed_update (\<lambda>_. True))
     | ThrowTest \<Rightarrow> throw e | Reschedule \<Rightarrow> schedule 0 (seconds 1) (Some Execute))"

definition execute :: "exn \<Rightarrow> nat \<Rightarrow> (timer_test, unit) prog" where
  "execute e t = bnd (on_tqm (timer_execute t)) (call_test_cb e)"

definition EXPECT_bad_function_call :: "(timer_test, 'a) prog \<Rightarrow> (timer_test, unit) prog" where
  "EXPECT_bad_function_call m = (\<lambda>s. case m s of (Throw BadFunctionCall, s') \<Rightarrow> (Ok (), s') | (_, s') \<Rightarrow> (Abort, s'))"

text \<open>The life of the timers \<open>ts\<close> of a test.\<close>

definition with_timers :: "nat list \<Rightarrow> (timer_test, unit) prog list \<Rightarrow> (timer_test, unit) prog" where
  "with_timers ts body = steps (map (\<lambda>t. on_tqm (modify_st (timer_create t))) ts @ body
     @ map (\<lambda>t. on_tqm (timer_destroy t)) (rev ts))"

definition expect_pop :: "nat option \<Rightarrow> (timer_test, unit) prog" where
  "expect_pop r = EXPECT_RESULT (on_tqm popFirstTimerToExecute) (\<lambda>t. t = r)"

definition expect_timeout :: "duration \<Rightarrow> (timer_test, unit) prog" where
  "expect_timeout d = expect (\<lambda>s. getTimeout (clock s) (tqm s) = d)"

definition TimerQueueTest_popTimerFromEmptyQueueReturnsNull_Test :: "(timer_test, unit) prog" where
  "TimerQueueTest_popTimerFromEmptyQueueReturnsNull_Test = expect_pop None"

definition TimerQueueTest_getTimeoutFromEmptyQueueReturnsNoTimeout_Test :: "(timer_test, unit) prog" where
  "TimerQueueTest_getTimeoutFromEmptyQueueReturnsNoTimeout_Test = expect_timeout NO_TIMEOUT"

definition TimerQueueTest_timersAddedWithTheExactSameTimeToExecuteAreReturnedInAdditionOrder_Test :: "(timer_test, unit) prog" where
  "TimerQueueTest_timersAddedWithTheExactSameTimeToExecuteAreReturnedInAdditionOrder_Test = with_timers [0, 1]
     [schedule 0 (Micros 0) (Some Nothing), schedule 1 (Micros 0) (Some Nothing),
      expect_pop (Some 0), expect_pop (Some 1)]"

definition TimerTest_constructorDoesntSchedule_Test :: "(timer_test, unit) prog" where
  "TimerTest_constructorDoesntSchedule_Test = with_timers [0] [expect (\<lambda>s. \<not> isScheduled 0 (tqm s))]"

definition TimerTest_scheduleAddsIntoQueue_Test :: "(timer_test, unit) prog" where
  "TimerTest_scheduleAddsIntoQueue_Test = with_timers [0]
     [expect (\<lambda>s. \<not> isScheduled 0 (tqm s)),
      expect (\<lambda>s. isEmpty (tqm s)),
      schedule 0 (seconds 10) (Some Nothing),
      expect (\<lambda>s. isScheduled 0 (tqm s)),
      expect (\<lambda>s. \<not> isEmpty (tqm s))]"

definition TimerTest_destructorCancels_Test :: "(timer_test, unit) prog" where
  "TimerTest_destructorCancels_Test = steps
     [with_timers [0] [schedule 0 (seconds 10) (Some Nothing)],
      expect (\<lambda>s. isEmpty (tqm s))]"

definition TimerTest_scheduleKeepsTimersInCorrectOrder_Test :: "(timer_test, unit) prog" where
  "TimerTest_scheduleKeepsTimersInCorrectOrder_Test = with_timers [1, 2, 3]
     [schedule 2 (seconds 20) (Some Nothing),
      schedule 1 (seconds 10) (Some Nothing),
      schedule 3 (seconds 30) (Some Nothing),
      expect_pop (Some 1), expect_pop (Some 2), expect_pop (Some 3), expect_pop None]"

definition TimerTest_scheduleRemovesOldInstance_Test :: "(timer_test, unit) prog" where
  "TimerTest_scheduleRemovesOldInstance_Test = with_timers [0]
     [schedule 0 (seconds 20) (Some Nothing),
      schedule 0 (seconds 10) (Some Nothing),
      expect_timeout (seconds 10), expect_pop (Some 0), expect_pop None]"

definition TimerTest_scheduleNullCallbackThrows_Test :: "(timer_test, unit) prog" where
  "TimerTest_scheduleNullCallbackThrows_Test = with_timers [0] [EXPECT_THROW NullCallback (schedule 0 (seconds 20) None)]"

definition TimerTest_cancelRemovesOldInstance_Test :: "(timer_test, unit) prog" where
  "TimerTest_cancelRemovesOldInstance_Test = with_timers [0]
     [schedule 0 (seconds 10) (Some Nothing),
      cancel 0,
      expect (\<lambda>s. \<not> isScheduled 0 (tqm s)),
      expect (\<lambda>s. isEmpty (tqm s))]"

definition TimerTest_getTimeoutAfterSchedulingReturnsRealTimeout_Test :: "(timer_test, unit) prog" where
  "TimerTest_getTimeoutAfterSchedulingReturnsRealTimeout_Test = with_timers [0]
     [schedule 0 (seconds 20) (Some Nothing), expect_timeout (seconds 20)]"

definition TimerTest_getTimeoutWhenAlreadyLateReturnsZero_Test :: "(timer_test, unit) prog" where
  "TimerTest_getTimeoutWhenAlreadyLateReturnsZero_Test = with_timers [0]
     [schedule 0 (seconds 10) (Some Nothing),
      modify_st (clock_update (\<lambda>_. milliseconds (100 * 1000))),
      expect_timeout (seconds 0)]"

definition TimerTest_scheduleAndExecute_Test :: "exn \<Rightarrow> (timer_test, unit) prog" where
  "TimerTest_scheduleAndExecute_Test e = with_timers [0]
     [schedule 0 (seconds 1) (Some Execute), execute e 0, expect executed]"

text \<open>That what the callback holds is gone: the timer holds no callback any more.\<close>

definition TimerTest_cancelClearsCallback_Test :: "(timer_test, unit) prog" where
  "TimerTest_cancelClearsCallback_Test = with_timers [0]
     [schedule 0 (seconds 1) (Some Nothing),
      cancel 0,
      expect (\<lambda>s. map_option timer_cb (timers (tqm s) 0) = Some None)]"

definition TimerTest_executionClearsCallback_Test :: "exn \<Rightarrow> (timer_test, unit) prog" where
  "TimerTest_executionClearsCallback_Test e = with_timers [0]
     [schedule 0 (seconds 1) (Some Nothing), execute e 0, EXPECT_bad_function_call (execute e 0)]"

definition TimerTest_executionClearsCallbackEvenIfExecuteThrows_Test :: "exn \<Rightarrow> (timer_test, unit) prog" where
  "TimerTest_executionClearsCallbackEvenIfExecuteThrows_Test e = with_timers [0]
     [schedule 0 (seconds 1) (Some ThrowTest), EXPECT_THROW e (execute e 0), EXPECT_bad_function_call (execute e 0)]"

definition TimerTest_executionCanScheduleTheTimerAgain_Test :: "exn \<Rightarrow> (timer_test, unit) prog" where
  "TimerTest_executionCanScheduleTheTimerAgain_Test e = with_timers [0]
     [schedule 0 (seconds 1) (Some Reschedule), execute e 0, execute e 0, expect executed]"

subsection \<open>They pass\<close>

lemmas timer_run = passes_def timer_fixture_def with_timers_def seq_run bnd_run expect_run EXPECT_THROW_run EXPECT_RESULT_def
  EXPECT_bad_function_call_def on_tqm_def zoom_run modify_st_def get_st_def ret_def throw_def schedule_def cancel_def execute_def
  call_test_cb_def expect_pop_def expect_timeout_def seconds_def milliseconds_def timer_create_def timer_schedule_def
  timer_cancel_def timer_destroy_def timer_execute_def tq_schedule_def tq_cancel_def tq_insert_def tq_erase_def tq_empty_def
  set_position_def set_timer_cb_def popFirstTimerToExecute_def getTimeout_def isEmpty_def isScheduled_def NO_TIMEOUT_def
  dur_add_def dur_minus_def is_negative_def less_duration_def

lemma TimerQueueTest_popTimerFromEmptyQueueReturnsNull_passes:
  "passes (timer_fixture 123) TimerQueueTest_popTimerFromEmptyQueueReturnsNull_Test"
  by (simp add: TimerQueueTest_popTimerFromEmptyQueueReturnsNull_Test_def timer_run)

lemma TimerQueueTest_getTimeoutFromEmptyQueueReturnsNoTimeout_passes:
  "passes (timer_fixture 123) TimerQueueTest_getTimeoutFromEmptyQueueReturnsNoTimeout_Test"
  by (simp add: TimerQueueTest_getTimeoutFromEmptyQueueReturnsNoTimeout_Test_def timer_run)

lemma TimerQueueTest_timersAddedWithTheExactSameTimeToExecuteAreReturnedInAdditionOrder_passes:
  "passes (timer_fixture 123) TimerQueueTest_timersAddedWithTheExactSameTimeToExecuteAreReturnedInAdditionOrder_Test"
  by (simp add: TimerQueueTest_timersAddedWithTheExactSameTimeToExecuteAreReturnedInAdditionOrder_Test_def timer_run)

lemma TimerTest_constructorDoesntSchedule_passes:
  "passes (timer_fixture 0) TimerTest_constructorDoesntSchedule_Test"
  by (simp add: TimerTest_constructorDoesntSchedule_Test_def timer_run)

lemma TimerTest_scheduleAddsIntoQueue_passes:
  "passes (timer_fixture 0) TimerTest_scheduleAddsIntoQueue_Test"
  by (simp add: TimerTest_scheduleAddsIntoQueue_Test_def timer_run)

lemma TimerTest_destructorCancels_passes:
  "passes (timer_fixture 0) TimerTest_destructorCancels_Test"
  by (simp add: TimerTest_destructorCancels_Test_def timer_run)

lemma TimerTest_scheduleKeepsTimersInCorrectOrder_passes:
  "passes (timer_fixture 0) TimerTest_scheduleKeepsTimersInCorrectOrder_Test"
  by (simp add: TimerTest_scheduleKeepsTimersInCorrectOrder_Test_def timer_run)

lemma TimerTest_scheduleRemovesOldInstance_passes:
  "passes (timer_fixture 0) TimerTest_scheduleRemovesOldInstance_Test"
  by (simp add: TimerTest_scheduleRemovesOldInstance_Test_def timer_run)

lemma TimerTest_scheduleNullCallbackThrows_passes:
  "passes (timer_fixture 0) TimerTest_scheduleNullCallbackThrows_Test"
  by (simp add: TimerTest_scheduleNullCallbackThrows_Test_def timer_run)

lemma TimerTest_cancelRemovesOldInstance_passes:
  "passes (timer_fixture 0) TimerTest_cancelRemovesOldInstance_Test"
  by (simp add: TimerTest_cancelRemovesOldInstance_Test_def timer_run)

lemma TimerTest_getTimeoutAfterSchedulingReturnsRealTimeout_passes:
  "passes (timer_fixture 0) TimerTest_getTimeoutAfterSchedulingReturnsRealTimeout_Test"
  by (simp add: TimerTest_getTimeoutAfterSchedulingReturnsRealTimeout_Test_def timer_run)

lemma TimerTest_getTimeoutWhenAlreadyLateReturnsZero_passes:
  "passes (timer_fixture 0) TimerTest_getTimeoutWhenAlreadyLateReturnsZero_Test"
  by (simp add: TimerTest_getTimeoutWhenAlreadyLateReturnsZero_Test_def timer_run)

lemma TimerTest_scheduleAndExecute_passes:
  "passes (timer_fixture 0) (TimerTest_scheduleAndExecute_Test e)"
  by (simp add: TimerTest_scheduleAndExecute_Test_def timer_run)

lemma TimerTest_cancelClearsCallback_passes:
  "passes (timer_fixture 0) TimerTest_cancelClearsCallback_Test"
  by (simp add: TimerTest_cancelClearsCallback_Test_def timer_run)

lemma TimerTest_executionClearsCallback_passes:
  "passes (timer_fixture 0) (TimerTest_executionClearsCallback_Test e)"
  by (simp add: TimerTest_executionClearsCallback_Test_def timer_run)

lemma TimerTest_executionClearsCallbackEvenIfExecuteThrows_passes:
  "passes (timer_fixture 0) (TimerTest_executionClearsCallbackEvenIfExecuteThrows_Test e)"
  by (simp add: TimerTest_executionClearsCallbackEvenIfExecuteThrows_Test_def timer_run)

lemma TimerTest_executionCanScheduleTheTimerAgain_passes:
  "passes (timer_fixture 0) (TimerTest_executionCanScheduleTheTimerAgain_Test e)"
  by (simp add: TimerTest_executionCanScheduleTheTimerAgain_Test_def timer_run)

section \<open>Callbacks\<close>

text \<open>The fixture of \<open>CallbackQueueTest\<close> and its callbacks. \<open>add\<close> calls the wake-up, \<open>execute\<close> the callbacks;
  its fuel of 10 is more than the tests add.\<close>

datatype queue_cb = AppendStr string | AddAppend string | CbF | CbThrow

record queue_test =
  cbq :: "queue_cb callback_queue"
  str :: string
  wakeUpCounter :: nat

definition queue_fixture :: queue_test where
  "queue_fixture = \<lparr>cbq = cbq_empty, str = [], wakeUpCounter = 0\<rparr>"

definition cbq_add_test :: "queue_cb option \<Rightarrow> (queue_test, unit) prog" where
  "cbq_add_test cb = bnd (zoom cbq (\<lambda>q s. s\<lparr>cbq := q\<rparr>) (cbq_add cb))
     (\<lambda>wakes. if wakes then modify_st (wakeUpCounter_update Suc) else ret ())"

definition call_queue_cb :: "exn \<Rightarrow> queue_cb \<Rightarrow> (queue_test, unit) prog" where
  "call_queue_cb e cb = (case cb of AppendStr t \<Rightarrow> modify_st (str_update (\<lambda>s. s @ t))
     | AddAppend t \<Rightarrow> cbq_add_test (Some (AppendStr t)) | CbF \<Rightarrow> ret () | CbThrow \<Rightarrow> throw e)"

definition cbq_execute_test :: "exn \<Rightarrow> (queue_test, bool) prog" where
  "cbq_execute_test e = cbq_execute 10 cbq (\<lambda>q s. s\<lparr>cbq := q\<rparr>) (call_queue_cb e)"

definition expect_cb_str :: "string \<Rightarrow> (queue_test, unit) prog" where
  "expect_cb_str t = expect (\<lambda>s. str s = t)"

definition run_queue :: "exn \<Rightarrow> (queue_test, unit) prog" where
  "run_queue e = bnd (cbq_execute_test e) (\<lambda>_. ret ())"

definition CallbackQueueTest_addedCallbacksAreExecutedInOrder_Test :: "exn \<Rightarrow> (queue_test, unit) prog" where
  "CallbackQueueTest_addedCallbacksAreExecutedInOrder_Test e = steps
     [cbq_add_test (Some (AppendStr ''1'')), cbq_add_test (Some (AppendStr ''2'')), run_queue e, expect_cb_str ''12'']"

definition CallbackQueueTest_callbackCanAddNewCallbacksWhichAreAlsoExecuted_Test :: "exn \<Rightarrow> (queue_test, unit) prog" where
  "CallbackQueueTest_callbackCanAddNewCallbacksWhichAreAlsoExecuted_Test e = steps
     [cbq_add_test (Some (AddAppend ''yes'')), run_queue e, expect_cb_str ''yes'']"

definition CallbackQueueTest_exceptionStopsExecutionAndNextExecuteCanContinueNormally_Test :: "exn \<Rightarrow> (queue_test, unit) prog" where
  "CallbackQueueTest_exceptionStopsExecutionAndNextExecuteCanContinueNormally_Test e = steps
     [cbq_add_test (Some (AppendStr ''1'')), cbq_add_test (Some CbThrow), cbq_add_test (Some (AppendStr ''2'')),
      EXPECT_THROW e (run_queue e), expect_cb_str ''1'', run_queue e, expect_cb_str ''12'']"

definition CallbackQueueTest_wakeUpIsCalledWhenFirstCallbackIsAdded_Test :: "(queue_test, unit) prog" where
  "CallbackQueueTest_wakeUpIsCalledWhenFirstCallbackIsAdded_Test = steps
     [zoom cbq (\<lambda>q s. s\<lparr>cbq := q\<rparr>) (cbq_setWakeUp True),
      cbq_add_test (Some CbF), expect (\<lambda>s. wakeUpCounter s = 1),
      cbq_add_test (Some CbF), expect (\<lambda>s. wakeUpCounter s = 1)]"

definition CallbackQueueTest_addingNullCallbackThrows_Test :: "(queue_test, unit) prog" where
  "CallbackQueueTest_addingNullCallbackThrows_Test = EXPECT_THROW NullCallback (cbq_add_test None)"

definition CallbackQueueTest_executeEmptyQueueReturnsFalse_Test :: "exn \<Rightarrow> (queue_test, unit) prog" where
  "CallbackQueueTest_executeEmptyQueueReturnsFalse_Test e = EXPECT_RESULT (cbq_execute_test e) (\<lambda>r. \<not> r)"

definition CallbackQueueTest_executeNonEmptyQueueReturnsTrue_Test :: "exn \<Rightarrow> (queue_test, unit) prog" where
  "CallbackQueueTest_executeNonEmptyQueueReturnsTrue_Test e = steps
     [cbq_add_test (Some CbF), EXPECT_RESULT (cbq_execute_test e) (\<lambda>r. r)]"

text \<open>The fixture of \<open>WeakCallbackTest\<close>: the counter, the living callees (the fixture's is 0) and the
  queue two of the tests declare. The callback is \<open>doit\<close>.\<close>

record weak_test =
  weak_counter :: nat
  lives :: "nat set"
  weak_queue :: "unit weak_callback callback_queue"

definition weak_fixture :: weak_test where
  "weak_fixture = \<lparr>weak_counter = 0, lives = {0}, weak_queue = cbq_empty\<rparr>"

definition doit :: "unit \<Rightarrow> (weak_test, unit) prog" where
  "doit _ = modify_st (weak_counter_update Suc)"

definition call_weak :: "unit weak_callback \<Rightarrow> (weak_test, unit) prog" where
  "call_weak = weak_execute lives doit"

definition callee_reset :: "(weak_test, unit) prog" where
  "callee_reset = modify_st (lives_update (\<lambda>l. l - {0}))"

definition EXPECT_DONE :: "(weak_test, unit) prog" where
  "EXPECT_DONE = expect (\<lambda>s. weak_counter s = 1)"

definition EXPECT_NOT_DONE :: "(weak_test, unit) prog" where
  "EXPECT_NOT_DONE = expect (\<lambda>s. weak_counter s = 0)"

definition weak_add :: "unit weak_callback \<Rightarrow> (weak_test, unit) prog" where
  "weak_add w = bnd (zoom weak_queue (\<lambda>q s. s\<lparr>weak_queue := q\<rparr>) (cbq_add (Some w))) (\<lambda>_. ret ())"

definition weak_run :: "(weak_test, unit) prog" where
  "weak_run = bnd (cbq_execute 10 weak_queue (\<lambda>q s. s\<lparr>weak_queue := q\<rparr>) call_weak) (\<lambda>_. ret ())"

definition WeakCallbackTest_callbackCanBeGivenInConstructorAndCalled_Test :: "(weak_test, unit) prog" where
  "WeakCallbackTest_callbackCanBeGivenInConstructorAndCalled_Test = (let wcb = WeakCallback (Some 0) () in
     steps [call_weak wcb, EXPECT_DONE])"

definition WeakCallbackTest_callbackDoesNothingIfCalleeIsDestroyed_Test :: "(weak_test, unit) prog" where
  "WeakCallbackTest_callbackDoesNothingIfCalleeIsDestroyed_Test = (let wcb = WeakCallback (Some 0) () in
     steps [callee_reset, call_weak wcb, EXPECT_NOT_DONE])"

definition WeakCallbackTest_waekCallbackIsCompatibleWithCallbackQueue_Test :: "(weak_test, unit) prog" where
  "WeakCallbackTest_waekCallbackIsCompatibleWithCallbackQueue_Test = (let wcb = WeakCallback (Some 0) () in
     steps [weak_add wcb, weak_run, EXPECT_DONE])"

definition WeakCallbackTest_waekCallbackIsCompatibleWithCallbackQueueAlsoWhenCalleeIsDestroyed_Test :: "(weak_test, unit) prog" where
  "WeakCallbackTest_waekCallbackIsCompatibleWithCallbackQueueAlsoWhenCalleeIsDestroyed_Test =
     steps [weak_add (WeakCallback (Some 0) ()), callee_reset, weak_run, EXPECT_NOT_DONE]"

subsection \<open>They pass\<close>

lemmas queue_run = passes_def queue_fixture_def cbq_empty_def seq_run bnd_run zoom_run expect_run EXPECT_THROW_run EXPECT_RESULT_def
  modify_st_def ret_def throw_def cbq_add_test_def cbq_add_def cbq_pop_def cbq_setWakeUp_def cbq_execute_test_def call_queue_cb_def
  expect_cb_str_def run_queue_def weak_fixture_def doit_def call_weak_def weak_execute_def wl_expired_def when_run callee_reset_def
  EXPECT_DONE_def EXPECT_NOT_DONE_def weak_add_def weak_run_def numeral_eq_Suc

lemma CallbackQueueTest_addedCallbacksAreExecutedInOrder_passes:
  "passes queue_fixture (CallbackQueueTest_addedCallbacksAreExecutedInOrder_Test e)"
  by (simp add: CallbackQueueTest_addedCallbacksAreExecutedInOrder_Test_def queue_run)

lemma CallbackQueueTest_callbackCanAddNewCallbacksWhichAreAlsoExecuted_passes:
  "passes queue_fixture (CallbackQueueTest_callbackCanAddNewCallbacksWhichAreAlsoExecuted_Test e)"
  by (simp add: CallbackQueueTest_callbackCanAddNewCallbacksWhichAreAlsoExecuted_Test_def queue_run)

lemma CallbackQueueTest_exceptionStopsExecutionAndNextExecuteCanContinueNormally_passes:
  "passes queue_fixture (CallbackQueueTest_exceptionStopsExecutionAndNextExecuteCanContinueNormally_Test e)"
  by (simp add: CallbackQueueTest_exceptionStopsExecutionAndNextExecuteCanContinueNormally_Test_def queue_run)

lemma CallbackQueueTest_wakeUpIsCalledWhenFirstCallbackIsAdded_passes:
  "passes queue_fixture CallbackQueueTest_wakeUpIsCalledWhenFirstCallbackIsAdded_Test"
  by (simp add: CallbackQueueTest_wakeUpIsCalledWhenFirstCallbackIsAdded_Test_def queue_run)

lemma CallbackQueueTest_addingNullCallbackThrows_passes:
  "passes queue_fixture CallbackQueueTest_addingNullCallbackThrows_Test"
  by (simp add: CallbackQueueTest_addingNullCallbackThrows_Test_def queue_run)

lemma CallbackQueueTest_executeEmptyQueueReturnsFalse_passes:
  "passes queue_fixture (CallbackQueueTest_executeEmptyQueueReturnsFalse_Test e)"
  by (simp add: CallbackQueueTest_executeEmptyQueueReturnsFalse_Test_def queue_run)

lemma CallbackQueueTest_executeNonEmptyQueueReturnsTrue_passes:
  "passes queue_fixture (CallbackQueueTest_executeNonEmptyQueueReturnsTrue_Test e)"
  by (simp add: CallbackQueueTest_executeNonEmptyQueueReturnsTrue_Test_def queue_run)

lemma WeakCallbackTest_callbackCanBeGivenInConstructorAndCalled_passes:
  "passes weak_fixture WeakCallbackTest_callbackCanBeGivenInConstructorAndCalled_Test"
  by (simp add: WeakCallbackTest_callbackCanBeGivenInConstructorAndCalled_Test_def queue_run)

lemma WeakCallbackTest_callbackDoesNothingIfCalleeIsDestroyed_passes:
  "passes weak_fixture WeakCallbackTest_callbackDoesNothingIfCalleeIsDestroyed_Test"
  by (simp add: WeakCallbackTest_callbackDoesNothingIfCalleeIsDestroyed_Test_def queue_run)

lemma WeakCallbackTest_waekCallbackIsCompatibleWithCallbackQueue_passes:
  "passes weak_fixture WeakCallbackTest_waekCallbackIsCompatibleWithCallbackQueue_Test"
  by (simp add: WeakCallbackTest_waekCallbackIsCompatibleWithCallbackQueue_Test_def queue_run)

lemma WeakCallbackTest_waekCallbackIsCompatibleWithCallbackQueueAlsoWhenCalleeIsDestroyed_passes:
  "passes weak_fixture WeakCallbackTest_waekCallbackIsCompatibleWithCallbackQueueAlsoWhenCalleeIsDestroyed_Test"
  by (simp add: WeakCallbackTest_waekCallbackIsCompatibleWithCallbackQueueAlsoWhenCalleeIsDestroyed_Test_def queue_run)

section \<open>Descriptors\<close>

text \<open>\<open>FDMonitor\<close> is a part of the state of the runner; the tests use only that part.\<close>

definition has_fd :: "rawfd \<Rightarrow> (('l, 'w) monitored, unit) prog" where
  "has_fd fd = expect (monitor_has fd)"

definition has_not_fd :: "rawfd \<Rightarrow> (('l, 'w) monitored, unit) prog" where
  "has_not_fd fd = expect (\<lambda>s. \<not> monitor_has fd s)"

definition FDMonitorTest_addedFDsAreMonitoredWhenMonitoringHasBeenStarted_Test :: "(('l, 'w) monitored, unit) prog" where
  "FDMonitorTest_addedFDsAreMonitoredWhenMonitoringHasBeenStarted_Test =
     steps [modify_st startMonitoring, has_not_fd 123, modify_st (monitor_add 123), has_fd 123]"

definition FDMonitorTest_addedFDsAreNotMonitoredIfMonitoringHasNotBeenStarted_Test :: "(('l, 'w) monitored, unit) prog" where
  "FDMonitorTest_addedFDsAreNotMonitoredIfMonitoringHasNotBeenStarted_Test =
     steps [modify_st (monitor_add 123), has_not_fd 123]"

definition FDMonitorTest_addedFDsAreClearedWhenMonitoringIsStopped_Test :: "(('l, 'w) monitored, unit) prog" where
  "FDMonitorTest_addedFDsAreClearedWhenMonitoringIsStopped_Test =
     steps [modify_st startMonitoring, modify_st (monitor_add 123), modify_st stopMonitoring, has_not_fd 123]"

definition FDMonitorTest_addedFDsAreNotMonitoredIfMonitoringHasNotBeenStopped_Test :: "(('l, 'w) monitored, unit) prog" where
  "FDMonitorTest_addedFDsAreNotMonitoredIfMonitoringHasNotBeenStopped_Test =
     steps [modify_st startMonitoring, modify_st stopMonitoring, modify_st (monitor_add 123), has_not_fd 123]"

definition FDMonitorTest_guard_Test :: "(('l, 'w) monitored, unit) prog" where
  "FDMonitorTest_guard_Test = steps
     [monitor_guard (steps [modify_st (monitor_add 123), has_fd 123]),
      has_not_fd 123]"

text \<open>A monitor as its constructor leaves it.\<close>

definition new_monitor :: "('l, 'w) monitored \<Rightarrow> bool" where
  "new_monitor s \<longleftrightarrow> \<not> monitoring s \<and> deletedFds s = {}"

text \<open>\<open>FDListenerMapTest\<close>: the map, and the data of the callback that stores its arguments. Listeners are
  numbers.\<close>

record flm_test = "nat fdl_map" +
  cbd :: "(nat \<times> rawfd \<times> event_mask) option"

definition flm_fixture :: flm_test where
  "flm_fixture = \<lparr>listeners = Map.empty, cbd = None\<rparr>"

definition dummyCallback :: "nat \<Rightarrow> rawfd \<Rightarrow> event_mask \<Rightarrow> (flm_test, unit) prog" where
  "dummyCallback fl fd events = ret ()"

definition throwCallback :: "exn \<Rightarrow> nat \<Rightarrow> rawfd \<Rightarrow> event_mask \<Rightarrow> (flm_test, unit) prog" where
  "throwCallback e fl fd events = throw e"

definition setDataCallback :: "nat \<Rightarrow> rawfd \<Rightarrow> event_mask \<Rightarrow> (flm_test, unit) prog" where
  "setDataCallback fl fd events = modify_st (cbd_update (\<lambda>_. Some (fl, fd, events)))"

definition expect_entry :: "rawfd \<Rightarrow> nat \<Rightarrow> event_mask \<Rightarrow> (flm_test, unit) prog" where
  "expect_entry fd fl events = seq (EXPECT_RESULT (flm_get fd) (\<lambda>l. l = fl)) (EXPECT_RESULT (flm_getEvents fd) (\<lambda>e. e = events))"

definition IN_OUT :: event_mask where
  "IN_OUT = or EVENT_IN EVENT_OUT"

definition FDListenerMap_addAndGet_Test :: "(flm_test, unit) prog" where
  "FDListenerMap_addAndGet_Test = steps
     [flm_add setDataCallback 7 1 IN_OUT,
      expect_entry 1 7 IN_OUT,
      expect (\<lambda>s. cbd s = Some (7, 1, IN_OUT))]"

definition FDListenerMap_doubleAddThrows_Test :: "(flm_test, unit) prog" where
  "FDListenerMap_doubleAddThrows_Test = steps
     [flm_add dummyCallback 7 1 0,
      EXPECT_THROW (FDAlreadyAdded 1) (flm_add dummyCallback 8 1 0)]"

definition FDListenerMap_delExisting_Test :: "(flm_test, unit) prog" where
  "FDListenerMap_delExisting_Test = steps
     [flm_add dummyCallback 7 1 IN_OUT,
      flm_del setDataCallback 1,
      EXPECT_THROW (NonExistingFDListener 1) (flm_get 1),
      expect (\<lambda>s. cbd s = Some (7, 1, IN_OUT))]"

definition FDListenerMap_delNonExistingThrows_Test :: "(flm_test, unit) prog" where
  "FDListenerMap_delNonExistingThrows_Test = EXPECT_THROW (NonExistingFDListener 1) (flm_del dummyCallback 1)"

definition FDListenerMap_modifyExisting_Test :: "(flm_test, unit) prog" where
  "FDListenerMap_modifyExisting_Test = steps
     [flm_add dummyCallback 7 1 0,
      flm_modify setDataCallback 1 EVENT_IN,
      expect_entry 1 7 EVENT_IN,
      expect (\<lambda>s. cbd s = Some (7, 1, EVENT_IN))]"

definition FDListenerMap_modifyExistingWithSameEventsDoesntCallCallback_Test :: "exn \<Rightarrow> (flm_test, unit) prog" where
  "FDListenerMap_modifyExistingWithSameEventsDoesntCallCallback_Test e = steps
     [flm_add dummyCallback 7 1 EVENT_IN,
      flm_modify (throwCallback e) 1 EVENT_IN,
      expect_entry 1 7 EVENT_IN]"

definition FDListenerMap_modifyNonExistingThrows_Test :: "(flm_test, unit) prog" where
  "FDListenerMap_modifyNonExistingThrows_Test = EXPECT_THROW (NonExistingFDListener 1) (flm_modify dummyCallback 1 0)"

definition FDListenerMap_getNonExistingThrows_Test :: "(flm_test, unit) prog" where
  "FDListenerMap_getNonExistingThrows_Test = steps
     [EXPECT_THROW (NonExistingFDListener 1) (flm_get 1),
      EXPECT_THROW (NonExistingFDListener 1) (flm_getEvents 1)]"

subsection \<open>They pass\<close>

lemmas fd_run = passes_def seq_run bnd_run expect_run EXPECT_THROW_run EXPECT_RESULT_def modify_st_def ret_def throw_def
  has_fd_def has_not_fd_def startMonitoring_def stopMonitoring_def monitor_add_def monitor_has_def monitor_guard_def new_monitor_def
  scope_exit_def flm_fixture_def dummyCallback_def throwCallback_def setDataCallback_def expect_entry_def flm_add_def flm_modify_def
  flm_get_def flm_getEvents_def flm_del_def flm_find_def EVENT_IN_def EVENT_OUT_def

lemma FDMonitorTest_addedFDsAreMonitoredWhenMonitoringHasBeenStarted_passes:
  "new_monitor s \<Longrightarrow> passes s FDMonitorTest_addedFDsAreMonitoredWhenMonitoringHasBeenStarted_Test"
  by (simp add: FDMonitorTest_addedFDsAreMonitoredWhenMonitoringHasBeenStarted_Test_def fd_run)

lemma FDMonitorTest_addedFDsAreNotMonitoredIfMonitoringHasNotBeenStarted_passes:
  "new_monitor s \<Longrightarrow> passes s FDMonitorTest_addedFDsAreNotMonitoredIfMonitoringHasNotBeenStarted_Test"
  by (simp add: FDMonitorTest_addedFDsAreNotMonitoredIfMonitoringHasNotBeenStarted_Test_def fd_run)

lemma FDMonitorTest_addedFDsAreClearedWhenMonitoringIsStopped_passes:
  "new_monitor s \<Longrightarrow> passes s FDMonitorTest_addedFDsAreClearedWhenMonitoringIsStopped_Test"
  by (simp add: FDMonitorTest_addedFDsAreClearedWhenMonitoringIsStopped_Test_def fd_run)

lemma FDMonitorTest_addedFDsAreNotMonitoredIfMonitoringHasNotBeenStopped_passes:
  "new_monitor s \<Longrightarrow> passes s FDMonitorTest_addedFDsAreNotMonitoredIfMonitoringHasNotBeenStopped_Test"
  by (simp add: FDMonitorTest_addedFDsAreNotMonitoredIfMonitoringHasNotBeenStopped_Test_def fd_run)

lemma FDMonitorTest_guard_passes:
  "new_monitor s \<Longrightarrow> passes s FDMonitorTest_guard_Test"
  by (simp add: FDMonitorTest_guard_Test_def fd_run)

lemma FDListenerMap_addAndGet_passes:
  "passes flm_fixture FDListenerMap_addAndGet_Test"
  by (simp add: FDListenerMap_addAndGet_Test_def fd_run)

lemma FDListenerMap_doubleAddThrows_passes:
  "passes flm_fixture FDListenerMap_doubleAddThrows_Test"
  by (simp add: FDListenerMap_doubleAddThrows_Test_def fd_run)

lemma FDListenerMap_delExisting_passes:
  "passes flm_fixture FDListenerMap_delExisting_Test"
  by (simp add: FDListenerMap_delExisting_Test_def fd_run)

lemma FDListenerMap_delNonExistingThrows_passes:
  "passes flm_fixture FDListenerMap_delNonExistingThrows_Test"
  by (simp add: FDListenerMap_delNonExistingThrows_Test_def fd_run)

lemma FDListenerMap_modifyExisting_passes:
  "passes flm_fixture FDListenerMap_modifyExisting_Test"
  by (simp add: FDListenerMap_modifyExisting_Test_def fd_run)

lemma FDListenerMap_modifyExistingWithSameEventsDoesntCallCallback_passes:
  "passes flm_fixture (FDListenerMap_modifyExistingWithSameEventsDoesntCallCallback_Test e)"
  by (simp add: FDListenerMap_modifyExistingWithSameEventsDoesntCallCallback_Test_def fd_run)

lemma FDListenerMap_modifyNonExistingThrows_passes:
  "passes flm_fixture FDListenerMap_modifyNonExistingThrows_Test"
  by (simp add: FDListenerMap_modifyNonExistingThrows_Test_def fd_run)

lemma FDListenerMap_getNonExistingThrows_passes:
  "passes flm_fixture FDListenerMap_getNonExistingThrows_Test"
  by (simp add: FDListenerMap_getNonExistingThrows_Test_def fd_run)

section \<open>Signal sets\<close>

definition SIGHUP :: nat where "SIGHUP = 1"
definition SIGINT :: nat where "SIGINT = 2"
definition SIGABRT :: nat where "SIGABRT = 6"
definition SIGUSR1 :: nat where "SIGUSR1 = 10"
definition SIGUSR2 :: nat where "SIGUSR2 = 12"
definition SIGTERM :: nat where "SIGTERM = 15"
definition SIGXCPU :: nat where "SIGXCPU = 24"
definition SIGXFSZ :: nat where "SIGXFSZ = 25"
definition SIGPWR :: nat where "SIGPWR = 30"
definition SIGSYS :: nat where "SIGSYS = 31"
definition SIGUNUSED :: nat where "SIGUNUSED = 31"

text \<open>A test on the set its constructor from a list makes.\<close>

definition set_of :: "nat list \<Rightarrow> (sigset \<Rightarrow> bool) \<Rightarrow> bool" where
  "set_of is p \<longleftrightarrow> (case sset_of_list is {} of (Ok _, s) \<Rightarrow> p s | _ \<Rightarrow> False)"

definition SignalSet_defaultConstructor_Test :: bool where
  "SignalSet_defaultConstructor_Test \<longleftrightarrow> list_all (\<lambda>i. \<not> isSet {} i) [1..<MAX_SIGNAL + 1] \<and> sset_empty {}"

definition SignalSet_signalConstructor_Test :: bool where
  "SignalSet_signalConstructor_Test \<longleftrightarrow> set_of [SIGHUP] (\<lambda>s. isSet s SIGHUP \<and> \<not> sset_empty s)"

definition SignalSet_signalListConstructor_Test :: bool where
  "SignalSet_signalListConstructor_Test \<longleftrightarrow> set_of [SIGHUP, SIGTERM] (\<lambda>s. isSet s SIGHUP \<and> isSet s SIGTERM \<and> \<not> isSet s SIGINT)"

definition SignalSet_set_Test :: "(sigset, unit) prog" where
  "SignalSet_set_Test = steps [sset_set SIGINT, expect (\<lambda>s. isSet s SIGINT)]"

definition SignalSet_unset_Test :: "(sigset, unit) prog" where
  "SignalSet_unset_Test = steps [sset_set SIGINT, sset_unset SIGINT, expect (\<lambda>s. \<not> isSet s SIGINT)]"

definition SignalSet_maxSignal_Test :: bool where
  "SignalSet_maxSignal_Test \<longleftrightarrow> 0 < MAX_SIGNAL
     \<and> SIGUNUSED \<le> MAX_SIGNAL
     \<and> SIGSYS \<le> MAX_SIGNAL
     \<and> SIGUSR1 \<le> MAX_SIGNAL
     \<and> SIGUSR2 \<le> MAX_SIGNAL
     \<and> SIGXCPU \<le> MAX_SIGNAL
     \<and> SIGXFSZ \<le> MAX_SIGNAL
     \<and> SIGPWR \<le> MAX_SIGNAL"

definition SignalSet_validSignalToString_Test :: bool where
  "SignalSet_validSignalToString_Test \<longleftrightarrow> signalToString SIGHUP = ''SIGHUP''
     \<and> signalToString SIGABRT = ''SIGABRT''
     \<and> signalToString 100 = ''unknown-signal''"

definition SignalSet_outputEmptySet_Test :: bool where
  "SignalSet_outputEmptySet_Test \<longleftrightarrow> sset_print {} = []"

definition SignalSet_outputFilledSet_Test :: "(sigset, unit) prog" where
  "SignalSet_outputFilledSet_Test = steps [sset_set SIGHUP, sset_set SIGABRT, expect (\<lambda>s. sset_print s = ''SIGHUP,SIGABRT'')]"

definition SignalSet_behavesLikeStandardContainer_Test :: "(sigset, unit) prog" where
  "SignalSet_behavesLikeStandardContainer_Test = steps
     [expect sset_empty,
      sset_set SIGTERM,
      sset_set SIGINT,
      expect (\<lambda>s. sset_size s = 2),
      expect (\<lambda>s. distinct (sset_signals s) \<and> set (sset_signals s) = {SIGTERM, SIGINT})]"

definition SignalSet_iteratorHandlesMinAndMaxSignalsCorrectly_Test :: bool where
  "SignalSet_iteratorHandlesMinAndMaxSignalsCorrectly_Test \<longleftrightarrow>
     set_of [1, MAX_SIGNAL] (\<lambda>s. sset_signals s = [1, MAX_SIGNAL])"

definition SignalSet_equalOperator_Test :: bool where
  "SignalSet_equalOperator_Test \<longleftrightarrow> set_of [SIGHUP, SIGTERM] (\<lambda>s. set_of [SIGHUP, SIGTERM] (\<lambda>t. sset_eq s t))
     \<and> set_of [SIGHUP, SIGTERM] (\<lambda>s. set_of [SIGHUP, SIGINT] (\<lambda>t. \<not> sset_eq s t))"

section \<open>Control messages\<close>

text \<open>An \<open>int\<close> is four bytes. \<open>data()\<close> of a message without a buffer is a null pointer.\<close>

definition int_bytes :: "nat \<Rightarrow> byte list" where
  "int_bytes n = le_bytes 4 n"

definition append_int :: "32 word \<Rightarrow> 32 word \<Rightarrow> nat \<Rightarrow> control_message \<Rightarrow> control_message" where
  "append_int level type n = cm_append level type (int_bytes n)"

definition is_message :: "control_message \<Rightarrow> cm_iter \<Rightarrow> 32 word \<Rightarrow> 32 word \<Rightarrow> nat \<Rightarrow> bool" where
  "is_message cm i level type n \<longleftrightarrow> (case dereference cm i of
       Ok off \<Rightarrow> cmsg_level cm off = level \<and> cmsg_type cm off = type \<and> cm_getData cm 4 off = Ok (int_bytes n)
     | _ \<Rightarrow> False)"

definition ControlMessage_defaultConstructorCreatesEmptyContainer_Test :: bool where
  "ControlMessage_defaultConstructorCreatesEmptyContainer_Test \<longleftrightarrow>
     cm_used cm_empty = 0 \<and> cm_is_empty cm_empty \<and> cm_buffer cm_empty = []"

definition ControlMessage_appendIncreasesSize_Test :: bool where
  "ControlMessage_appendIncreasesSize_Test \<longleftrightarrow>
    (let cm1 = cm_append 1 2 [3] cm_empty; cm2 = cm_append 5 6 (4 # replicate 8 0) cm1 in
       cm_used cm1 = CMSG_SPACE 1
     \<and> cm_buffer cm1 \<noteq> []
     \<and> cm_used cm2 = CMSG_SPACE 1 + CMSG_SPACE 9)"

definition ControlMessage_mutableIterator_Test :: bool where
  "ControlMessage_mutableIterator_Test \<longleftrightarrow>
    (let cm = append_int 4 5 6 (append_int 1 2 3 cm_empty); i = cm_begin cm; i1 = increment cm i; i2 = increment cm i1 in
       \<not> iter_equal (cm_end cm) i
     \<and> is_message cm i 1 2 3
     \<and> \<not> iter_equal (cm_end cm) i1
     \<and> is_message cm i1 4 5 6
     \<and> iter_equal (cm_end cm) i2)"

definition ControlMessage_constIterator_Test :: bool where
  "ControlMessage_constIterator_Test \<longleftrightarrow>
    (let cm = append_int 4 5 6 (append_int 1 2 3 cm_empty); i = cm_begin cm; i1 = increment cm i; i2 = increment cm i1 in
       \<not> iter_equal (cm_end cm) i
     \<and> is_message cm i 1 2 3
     \<and> \<not> iter_equal (cm_end cm) i1
     \<and> is_message cm i1 4 5 6
     \<and> iter_equal (cm_end cm) i2)"

definition ControlMessage_constIteratorFromMutableControlMessage_Test :: bool where
  "ControlMessage_constIteratorFromMutableControlMessage_Test \<longleftrightarrow> cm_iterate 1 cm_empty (cm_begin cm_empty) = Ok []"

definition ControlMessage_constructorTakingDataAndSizeMakesCopyOfTheGivenData_Test :: bool where
  "ControlMessage_constructorTakingDataAndSizeMakesCopyOfTheGivenData_Test \<longleftrightarrow>
    (let msg = cmsg_header (CMSG_LEN 4) 1 1 @ int_bytes 123; cm = cm_copy msg in
       cm_used cm = CMSG_LEN 4
     \<and> take (cm_used cm) (cm_buffer cm) = msg)"

definition ControlMessage_dataGivenWithAppendCreatesSimilarMessageThanDataGivenInConstructor_Test :: bool where
  "ControlMessage_dataGivenWithAppendCreatesSimilarMessageThanDataGivenInConstructor_Test \<longleftrightarrow>
    (let other = append_int 1 2 3 cm_empty; cm = cm_of_value 1 2 (int_bytes 3) in
       cm_used other = cm_used cm
     \<and> take (cm_used cm) (cm_buffer cm) = take (cm_used cm) (cm_buffer other))"

definition ControlMessage_capacityAndMarkUsed_Test :: "(control_message, unit) prog" where
  "ControlMessage_capacityAndMarkUsed_Test =
    (let orig = append_int 1 2 3 cm_empty; n = cm_used orig in steps
      [modify_st (reserve (n + 100)),
       expect (\<lambda>cm. n + 100 \<le> capacity cm),
       modify_st (\<lambda>cm. cm\<lparr>cm_buffer := overwrite 0 (take n (cm_buffer orig)) (cm_buffer cm)\<rparr>),
       markUsed n,
       expect (\<lambda>cm. cm_used cm = n),
       expect (\<lambda>cm. take n (cm_buffer cm) = take n (cm_buffer orig))])"

definition ControlMessage_markingTooMuchUsedThrows_Test :: "(control_message, unit) prog" where
  "ControlMessage_markingTooMuchUsedThrows_Test = EXPECT_THROW ControlMessageOverflow (markUsed 1)"

definition ControlMessage_getDataThrowsIfTheGivenCMSGIsTooSmallForContainingTheGivenType_Test :: bool where
  "ControlMessage_getDataThrowsIfTheGivenCMSGIsTooSmallForContainingTheGivenType_Test \<longleftrightarrow>
     cm_getData (cm_copy (replicate HDR 0)) 4 0 = Throw TruncatedCMSG"

definition ControlMessage_iteratorDereferenceThrowsIfTheSizeCantHoldTheCmsg_Test :: bool where
  "ControlMessage_iteratorDereferenceThrowsIfTheSizeCantHoldTheCmsg_Test \<longleftrightarrow>
    (let orig = append_int 1 2 3 cm_empty in
       (let cm = cm_copy (take 1 (cm_buffer orig)) in dereference cm (cm_begin cm) = Throw BadCMSG)
     \<and> (let cm = cm_copy (take (cm_used orig) (cm_buffer orig)) in
          dereference cm (cm_begin cm) = Ok 0
        \<and> (let cm' = cm\<lparr>cm_buffer := overwrite 0 (le_bytes 8 (HDR - 1)) (cm_buffer cm)\<rparr> in
             dereference cm' (cm_begin cm') = Throw BadCMSG))
     \<and> (let cm = cm_copy (take HDR (cm_buffer orig)) in dereference cm (cm_begin cm) = Throw BadCMSG))"

subsection \<open>They pass\<close>

lemma signals_31: "[Suc 0..<32] = [1, 2, 3, 4, 5, 6, 7, 8, 9, 10, 11, 12, 13, 14, 15, 16, 17, 18, 19, 20, 21, 22, 23, 24, 25, 26, 27,
    28, 29, 30, 31]" "[0..<32] = 0 # [Suc 0..<32]"
  by (simp_all add: upt_rec)

lemmas sig_run = passes_def SIGHUP_def SIGINT_def SIGABRT_def SIGUSR1_def SIGUSR2_def SIGTERM_def SIGXCPU_def SIGXFSZ_def SIGPWR_def
  SIGSYS_def SIGUNUSED_def set_of_def seq_run expect_run ret_def sset_set_def sset_unset_def isSet_def valid_signal_def
  sset_empty_def MAX_SIGNAL_31 sset_signals_filter sset_size_def sset_size_count sset_print_def sset_eq_def signalToString_def signalNameMap_def signals_31

lemma zero_header: "le_nat (replicate n 0) = 0"
  by (induction n) simp_all

lemmas cm_run = passes_def cm_empty_def cm_is_empty_def cm_append_def append_int_def int_bytes_def cm_of_value_def cm_copy_def
  cmsg_header_def CMSG_LEN_def CMSG_SPACE_def cmsg_align_def HDR_def plus64_def minus64_def size_t_max_def resize_list_def
  overwrite_def le_bytes_numeral Let_def cm_begin_def cm_end_def iter_equal_def dereference_def increment_def is_message_def
  cmsg_len_def cmsg_level_def cmsg_type_def cm_getData_def seq_run expect_run EXPECT_THROW_run modify_st_def ret_def markUsed_def
  reserve_def capacity_def zero_header

lemma SignalSet_defaultConstructor_passes:
  "SignalSet_defaultConstructor_Test"
  by (simp add: SignalSet_defaultConstructor_Test_def sig_run)

lemma SignalSet_signalConstructor_passes:
  "SignalSet_signalConstructor_Test"
  by (simp add: SignalSet_signalConstructor_Test_def sig_run)

lemma SignalSet_signalListConstructor_passes:
  "SignalSet_signalListConstructor_Test"
  by (simp add: SignalSet_signalListConstructor_Test_def sig_run)

lemma SignalSet_set_passes:
  "passes {} SignalSet_set_Test"
  by (simp add: SignalSet_set_Test_def sig_run)

lemma SignalSet_unset_passes:
  "passes {} SignalSet_unset_Test"
  by (simp add: SignalSet_unset_Test_def sig_run)

lemma SignalSet_maxSignal_passes:
  "SignalSet_maxSignal_Test"
  by (simp add: SignalSet_maxSignal_Test_def sig_run)

lemma SignalSet_validSignalToString_passes:
  "SignalSet_validSignalToString_Test"
  by (simp add: SignalSet_validSignalToString_Test_def sig_run)

lemma SignalSet_outputEmptySet_passes:
  "SignalSet_outputEmptySet_Test"
  by (simp add: SignalSet_outputEmptySet_Test_def sig_run)

lemma SignalSet_outputFilledSet_passes:
  "passes {} SignalSet_outputFilledSet_Test"
  by (simp add: SignalSet_outputFilledSet_Test_def sig_run)

lemma SignalSet_behavesLikeStandardContainer_passes:
  "passes {} SignalSet_behavesLikeStandardContainer_Test"
  by (simp add: SignalSet_behavesLikeStandardContainer_Test_def sig_run insert_commute)

lemma SignalSet_iteratorHandlesMinAndMaxSignalsCorrectly_passes:
  "SignalSet_iteratorHandlesMinAndMaxSignalsCorrectly_Test"
  by (simp add: SignalSet_iteratorHandlesMinAndMaxSignalsCorrectly_Test_def sig_run)

lemma SignalSet_equalOperator_passes:
  "SignalSet_equalOperator_Test"
  by (simp add: SignalSet_equalOperator_Test_def sig_run)

lemma ControlMessage_defaultConstructorCreatesEmptyContainer_passes:
  "ControlMessage_defaultConstructorCreatesEmptyContainer_Test"
  by (simp add: ControlMessage_defaultConstructorCreatesEmptyContainer_Test_def cm_run)

lemma ControlMessage_appendIncreasesSize_passes:
  "ControlMessage_appendIncreasesSize_Test"
  by (simp add: ControlMessage_appendIncreasesSize_Test_def cm_run)

lemma ControlMessage_mutableIterator_passes:
  "ControlMessage_mutableIterator_Test"
  by (simp add: ControlMessage_mutableIterator_Test_def cm_run)

lemma ControlMessage_constIterator_passes:
  "ControlMessage_constIterator_Test"
  by (simp add: ControlMessage_constIterator_Test_def cm_run)

lemma ControlMessage_constIteratorFromMutableControlMessage_passes:
  "ControlMessage_constIteratorFromMutableControlMessage_Test"
  by (simp add: ControlMessage_constIteratorFromMutableControlMessage_Test_def cm_run)

lemma ControlMessage_constructorTakingDataAndSizeMakesCopyOfTheGivenData_passes:
  "ControlMessage_constructorTakingDataAndSizeMakesCopyOfTheGivenData_Test"
  by (simp add: ControlMessage_constructorTakingDataAndSizeMakesCopyOfTheGivenData_Test_def cm_run)

lemma ControlMessage_dataGivenWithAppendCreatesSimilarMessageThanDataGivenInConstructor_passes:
  "ControlMessage_dataGivenWithAppendCreatesSimilarMessageThanDataGivenInConstructor_Test"
  by (simp add: ControlMessage_dataGivenWithAppendCreatesSimilarMessageThanDataGivenInConstructor_Test_def cm_run)

lemma ControlMessage_capacityAndMarkUsed_passes:
  "passes cm_empty ControlMessage_capacityAndMarkUsed_Test"
  by (simp add: ControlMessage_capacityAndMarkUsed_Test_def cm_run)

lemma ControlMessage_markingTooMuchUsedThrows_passes:
  "passes cm_empty ControlMessage_markingTooMuchUsedThrows_Test"
  by (simp add: ControlMessage_markingTooMuchUsedThrows_Test_def cm_run)

lemma ControlMessage_getDataThrowsIfTheGivenCMSGIsTooSmallForContainingTheGivenType_passes:
  "ControlMessage_getDataThrowsIfTheGivenCMSGIsTooSmallForContainingTheGivenType_Test"
  by (simp add: ControlMessage_getDataThrowsIfTheGivenCMSGIsTooSmallForContainingTheGivenType_Test_def cm_run)

lemma ControlMessage_iteratorDereferenceThrowsIfTheSizeCantHoldTheCmsg_passes:
  "ControlMessage_iteratorDereferenceThrowsIfTheSizeCantHoldTheCmsg_Test"
  by (simp add: ControlMessage_iteratorDereferenceThrowsIfTheSizeCantHoldTheCmsg_Test_def cm_run)

end
