(* ===== verification/Spec2Isabelle.thy ===== *)
theory Spec2Isabelle
  imports StreamBufferThms TimerQueue System FileDescriptor CallbackQueue FDRegistry Signals Runners
    RunnerProps WakeUp StreamSocket StreamSocketProps ControlMessage SeqPacketSocket SeqPacketProps
    ListeningSocket SocketAddress SocketAddressProps ChildProcess ChildProcessProps Dump DumpProps
    UncaughtExceptions EchoServer EchoServerProps StreamBufferTest ClassDumpsProps SeqPacketEchoProps EchoClientProps DumpTests SocketAddressTest LoopTests
begin

text \<open>
  A model of the C++ library EventLoop and the theorems that make it correct. The library runs
  callbacks, timers, signals and file descriptors in an event loop around \<open>epoll\<close>, and builds sockets and
  child processes on it. Source files are named relative to \<open>src/\<close> of the repository.

  \<^bold>\<open>The parts and how they interact.\<close> A runner (\<open>EpollRunner\<close>, \<open>AsyncRunner\<close>, \<open>MockableRunner\<close>, over
  \<open>BaseEpollRunner\<close>) owns a \<open>TimerQueue\<close>, a \<open>CallbackQueue\<close> and an \<open>FDListenerMap\<close> with its \<open>Epoll\<close>
  instance. Its loop runs the queued callbacks, waits in \<open>epoll_wait\<close> until the earliest timer,
  dispatches the events of the batch to the listeners, with an \<open>FDMonitor\<close> that drops the events of
  descriptors deleted meanwhile, and runs the timers that are due. Sockets, \<open>ChildProcess\<close> and the
  wake-up and signal descriptors of the runner are listeners. Everything reaches the operating system
  through the virtual functions of the class \<open>System\<close>. \<open>StreamSocket\<close> keeps its input and output in
  \<open>StreamBuffer\<close>s, \<open>SeqPacketSocket\<close> sends a \<open>ControlMessage\<close> with each packet, \<open>ListeningSocket\<close> hands
  on accepted descriptors, and all of them name addresses by \<open>SocketAddress\<close>.

  \<^bold>\<open>How the code is modelled.\<close> \<open>Prelude\<close> has the vocabulary: a call of a member function is a \<open>prog\<close>, a
  function from the state to an outcome and a new state; the outcomes are a result, a C++ exception,
  the end of the process by \<open>EVENTLOOP_ABORT\<close> or a failed \<open>assert\<close>, and what the standard leaves
  undefined. A throw keeps the state reached so far; destructors that run while it unwinds are written
  out. Objects are records, \<open>size_t\<close> arithmetic is modulo \<open>2 ^ 64\<close> where the operands can be large, words
  keep their width. \<open>System\<close> is a record of programs over an arbitrary world, so every component
  takes any implementation of it, as its constructors do; \<open>the_system\<close> is the class itself, each
  function written over a record of system calls with arbitrary results. The runner is a record of
  programs for the sockets (\<open>runner_iface\<close>). Callbacks are programs over the whole state of the
  object, so they may use it.

  \<^bold>\<open>The theories.\<close>
  \<^item> \<open>Prelude\<close>, \<open>Text\<close>: outcomes, program combinators, little-endian numbers; characters as bytes,
    decimal numbers, input streams and prefixes.
  \<^item> \<open>StreamBuffer\<close> (\<open>src/lib/StreamBuffer.cpp\<close>, \<open>include/EventLoop/StreamBuffer.hpp\<close>): a heap of arrays, the
    list of buffers with their used and total sizes, every operation. \<open>StreamBufferSpec\<close> has one
    case rule per operation (what it does to the addresses it owns), \<open>StreamBufferProps\<close> the invariant
    along operation sequences and the IO vectors, with the locale \<open>byte_stream\<close> as the interface the
    sockets use, and \<open>StreamBufferThms\<close> the properties.
  \<^item> \<open>TimerQueue\<close> (\<open>src/lib/TimerQueue.cpp\<close>, \<open>src/lib/Timer.cpp\<close>): the multimap as a list sorted by time,
    the timers that point into it, and the refinement of a stable sort.
  \<^item> \<open>System\<close> (\<open>src/lib/System.cpp\<close>, \<open>src/lib/SystemException.cpp\<close>): the retry of interrupted calls and which
    errors each function reports.
  \<^item> \<open>FileDescriptor\<close>: ownership of raw descriptors; each is closed or released once.
  \<^item> \<open>CallbackQueue\<close> (with \<open>WeakCallback\<close>, \<open>Callee\<close>, \<open>postponeDeletion\<close>): order of callbacks (locale
    \<open>fifo_queue\<close>), their execution, and weak callbacks.
  \<^item> \<open>FDRegistry\<close> (\<open>FDListenerMap.cpp\<close>, \<open>Epoll.cpp\<close>, \<open>FDMonitor.cpp\<close>): the map, the kernel's interest list and
    the monitor; locale \<open>fd_registry\<close>.
  \<^item> \<open>Signals\<close> (\<open>SignalSet.cpp\<close>, \<open>SigPipeSuppressor.cpp\<close>).
  \<^item> \<open>Runners\<close> (\<open>BaseEpollRunner.cpp\<close>, \<open>EpollRunner.cpp\<close>, \<open>AsyncRunner.cpp\<close>, \<open>MockableRunner.cpp\<close>) and
    \<open>RunnerProps\<close>: batches of events, timers, the signal mask, \<open>AsyncRunner::step\<close>. \<open>WakeUp\<close>: the runner's
    thread and others that add callbacks, as an inductive step relation.
  \<^item> \<open>StreamSocket\<close>, \<open>StreamSocketProps\<close>; \<open>SeqPacketSocket\<close>, \<open>SeqPacketProps\<close>; \<open>ControlMessage\<close>;
    \<open>ListeningSocket\<close>: the files of these names, every function of the class.
  \<^item> \<open>SocketAddress\<close>, \<open>SocketAddressProps\<close> (\<open>src/lib/SocketAddress.cpp\<close>): the union as its bytes,
    constructors and factories, comparison, printing and reading; locale \<open>word_form\<close> for the two kinds
    of addresses that are read back.
  \<^item> \<open>ChildProcess\<close>, \<open>ChildProcessProps\<close> (\<open>src/lib/ChildProcess.cpp\<close>): the three pipes, construction with its
    unwinding, the child up to \<open>execvp\<close>, the events and the end of the child.
  \<^item> \<open>Dump\<close>, \<open>DumpProps\<close> (\<open>DumpFormatter.cpp\<close>, \<open>DumpUtils.cpp\<close>, \<open>DumpUtils.hpp\<close>, \<open>DumpCreator.cpp\<close>): the
    indenting stream and the functions behind the \<open>DUMP_\<close> macros.
  \<^item> \<open>ClassDumps\<close>, \<open>ClassDumpsProps\<close>: the \<open>DUMP_\<close> macros and the \<open>dump\<close> function of every class of the
    library; each keeps the indentation and passes the check of the unit tests.
  \<^item> \<open>UncaughtExceptions\<close> (\<open>src/lib/UncaughtExceptionHandler.cpp\<close>).
  \<^item> \<open>EchoServer\<close>, \<open>EchoServerProps\<close> (\<open>src/examples/EchoServer1\<close>); \<open>SeqPacketEchoServer\<close>,
    \<open>SeqPacketEchoProps\<close> (\<open>src/examples/SeqPacketEchoServer\<close>); \<open>EchoClient\<close>, \<open>EchoClientProps\<close> (the two clients and
    \<open>src/examples/EchoServer2\<close>): the example programs as compositions of the library, their callbacks as
    programs over the state of the whole program.
  \<^item> \<open>UnitTest\<close> (the \<open>EXPECT\<close> macros), \<open>StreamBufferTest\<close>, \<open>DumpTests\<close>, \<open>SocketAddressTest\<close>, \<open>LoopTests\<close>: unit
    tests of \<open>src/tst\<close>, one definition per \<open>TEST\<close>, and the theorem that it passes on the model.

  \<^bold>\<open>What is proved.\<close> No byte is lost, repeated or reordered: in a \<open>StreamBuffer\<close> under every operation
  whose conditions hold, between the application and the wire of a \<open>StreamSocket\<close>, of a \<open>SeqPacketSocket\<close>
  packet by packet as long as no packet is empty, through the ancillary data of a \<open>ControlMessage\<close>, both
  ways between a parent and its child, and end to end through the two echo servers. The conditions are
  those under which the code works: a \<open>StreamBuffer\<close> appended or copied shares its arrays with the
  original, so appending needs arrays of its own, and \<open>linearize\<close> needs that no free space was split off. Callbacks, timers and events run in order, none twice, none for a destroyed or deleted
  owner, and a queued callback is noticed before the loop sleeps. Descriptors, listeners, signal masks
  and the kernel's interest list stay consistent on success and on error. Addresses are well formed,
  totally ordered, and read back as printed, a Unix path unless it is empty, starts with \<open>@\<close> or
  has white space or zero bytes. Dumps are indented by lines, and balanced if the texts in them are. The unit
  tests that are modelled pass. Where the code
  does not do what it means to, a theorem shows the run: for example \<open>linearize_loses_data\<close>,
  \<open>wakeup_lost_by_canContinue\<close>, \<open>read_after_close_throws\<close>, \<open>empty_packet_blocks_queue\<close>,
  \<open>kill_then_destroy_aborts\<close> and \<open>enabled_twice_never_ends\<close>.

  \<^bold>\<open>Assumptions.\<close> The kernel appears as contracts, predicates such as \<open>accept_contract\<close>,
  \<open>signal_contract\<close> or \<open>reading_contract\<close> that state the documented behaviour of the calls a
  theorem uses, over functions that read the relevant part of the world; the witnesses instantiate them
  with concrete systems. The address databases, \<open>inet_ntop\<close>, \<open>boost::lexical_cast\<close>, demangled type names, the
  process id and the time are arguments.

  \<^bold>\<open>Fuel.\<close> Loops whose end depends on the environment have fuel, and \<open>NoFuel\<close> is never an outcome of the
  code. Enough is: one more than the interruptions (\<open>tempFailureRetry\<close>), than the connections of the
  backlog (\<open>ls_handleEventsCb\<close>), than the bytes in the pipe (\<open>read_loop\<close>), than the queued packets
  (\<open>sendSlow_loop\<close>, which is given that much by \<open>sendSlow\<close> itself), than the queued callbacks when callbacks
  add none (\<open>cbq_execute\<close>), and 3 for a handler of uncaught exceptions that is enabled once; the theorems
  say so. The event loop itself may run for ever, and its theorems speak of one iteration, batch or step.

  \<^bold>\<open>Not modelled.\<close> Failing memory allocation other than of the arrays of a \<open>StreamBuffer\<close>; a \<open>StreamBuffer\<close>
  appended to itself; the special values of \<open>boost::posix_time\<close>; the destruction of a socket or a child
  process inside its own callback; threads, except in \<open>WakeUp\<close>, where each step under the mutex is
  atomic; times of \<open>2 ^ 63\<close> microseconds and more; the printing of numbers under unusual flags or
  locales in addresses; \<open>Abort.cpp\<close> and \<open>TypeName.cpp\<close>, which only call the C and C++ run-time libraries; the
  abstract bases \<open>Exception\<close> and \<open>Dumpable\<close>; the \<open>dump\<close> functions of the example programs and the
  composition of \<open>EchoServer2\<close> with its \<open>AsyncRunner\<close>; the mock objects and the other unit tests (those of
  sockets, child processes, descriptors, \<open>Epoll\<close>, \<open>System\<close> and the runners, of \<open>dump\<close>, and those that use \<open>-1\<close> as
  a signal); the vendored gmock and the installed copies under
  \<open>build/\<close>. Queued control messages are held by value, as if the caller kept them alive.
\<close>

end
